(* ===== verification/Velo_Prelude.thy ===== *)
theory Velo_Prelude
  imports Main "HOL-Library.Word" "HOL-Library.AList" "HOL-Library.Multiset"
begin

text \<open>
  Shared vocabulary of the development: the machine integers of the Rust sources, the
  standard-library containers they use, and the locale through which every stateful
  component lifts a one-step fact to all of its runs.

  \<^item> \<open>u8\<close> .. \<open>u128\<close> are words of their width, so \<open>+\<close> wraps as it does in the
    release profile of the workspace (which does not turn overflow checks on). Lengths and
    limits of type \<open>usize\<close> are \<open>nat\<close>.
  \<^item> \<open>HashMap\<close> is an association list with distinct keys, updated by
    \<open>AList.update\<close> and \<open>AList.delete\<close>. Its iteration order is unspecified in
    Rust: an operation whose result depends on it takes the order as a parameter
    \<open>ord\<close>, constrained by \<open>iter_order\<close> only.
  \<^item> \<open>BTreeMap\<close> is an association list sorted by key (\<open>bt_insert\<close>).
  \<^item> A panic (the release profile aborts on it) is \<open>None\<close>.
\<close>

section \<open>Machine integers and identifiers\<close>

type_synonym u8 = "8 word"
type_synonym u16 = "16 word"
type_synonym u32 = "32 word"
type_synonym u64 = "64 word"
type_synonym u128 = "128 word"
type_synonym u256 = "256 word"
type_synonym b256 = "256 word"
type_synonym b64 = "64 word"
type_synonym address = "160 word"
type_synonym bytes = "8 word list"

named_theorems velo_wf \<open>introduction rules for the well-formedness invariants\<close>
named_theorems velo_map \<open>lookup and key facts of the container operations\<close>

definition div_ceil :: "u64 \<Rightarrow> u64 \<Rightarrow> u64 option" where
  "div_ceil a b =
     (if b = 0 then None
      else Some (if 0 < a mod b then a div b + 1 else a div b))"

definition saturating_sub :: "'a::len word \<Rightarrow> 'a word \<Rightarrow> 'a word" where
  "saturating_sub a b = (if a < b then 0 else a - b)"

definition checked_add :: "'a::len word \<Rightarrow> 'a word \<Rightarrow> 'a word option" where
  "checked_add a b = (if a \<le> a + b then Some (a + b) else None)"

lemma unat_saturating_sub: "unat (saturating_sub a b) = unat a - unat b"
  by (auto simp: saturating_sub_def unat_sub word_less_nat_alt word_le_nat_alt)

lemma checked_add_Some_unat:
  "checked_add a b = Some c \<Longrightarrow> unat c = unat a + unat b"
  by (auto simp: checked_add_def no_olen_add_nat unat_word_ariths split: if_splits)

lemma checked_add_None_unat:
  fixes a b :: "'a::len word"
  shows "checked_add a b = None \<Longrightarrow> 2 ^ LENGTH('a) \<le> unat a + unat b"
  by (auto simp: checked_add_def no_olen_add_nat split: if_splits)

lemma unat_Suc_word:
  fixes x y :: "'a::len word"
  assumes "x < y"
  shows "unat (x + 1) = Suc (unat x)"
proof -
  have "Suc (unat x) \<le> unat y" using assms by (simp add: word_less_nat_alt)
  also have "unat y < 2 ^ LENGTH('a)" by simp
  finally have "Suc (unat x) mod 2 ^ LENGTH('a) = Suc (unat x)" by simp
  then show ?thesis by (simp add: unat_word_ariths)
qed

lemma div_ceil_bound:
  assumes "div_ceil a b = Some c"
  shows "unat a \<le> unat c * unat b" and "c \<noteq> 0 \<Longrightarrow> (unat c - 1) * unat b < unat a"
proof -
  have b: "b \<noteq> 0" and c: "c = (if 0 < a mod b then a div b + 1 else a div b)"
    using assms by (auto simp: div_ceil_def split: if_splits)
  have b0: "0 < unat b" using b by (simp add: unat_gt_0)
  have dm: "unat a = unat b * (unat a div unat b) + unat a mod unat b" by simp
  have lt: "unat a mod unat b < unat b" using b0 by simp
  have *: "unat c = (if unat a mod unat b = 0 then unat a div unat b else Suc (unat a div unat b))"
  proof (cases "0 < a mod b")
    case True
    then have m: "unat a mod unat b \<noteq> 0"
      by (simp add: word_less_nat_alt unat_mod)
    have "Suc (unat a div unat b) \<le> unat a"
    proof -
      have "1 < unat b" using m lt by linarith
      then show ?thesis by (metis Suc_leI div_less_dividend gr0I m mod_0)
    qed
    also have "unat a < 2 ^ 64" using unsigned_less[of a] by simp
    finally have "unat (a div b + 1) = Suc (unat a div unat b)"
      by (simp add: unat_word_ariths unat_div)
    then show ?thesis using c True m by simp
  next
    case False
    then have "unat a mod unat b = 0"
      by (simp add: word_less_nat_alt unat_mod)
    then show ?thesis using c False by (simp add: unat_div)
  qed
  show "unat a \<le> unat c * unat b"
  proof (cases "unat a mod unat b = 0")
    case True
    then show ?thesis using * dm by (simp add: mult.commute)
  next
    case False
    then have "unat c * unat b = unat b + unat b * (unat a div unat b)"
      using * by (simp add: algebra_simps)
    then show ?thesis using dm lt by linarith
  qed
  show "(unat c - 1) * unat b < unat a" if "c \<noteq> 0"
  proof (cases "unat a mod unat b = 0")
    case True
    then have "unat c * unat b = unat a" using * dm by (simp add: mult.commute)
    moreover have c0: "0 < unat c" using that by (simp add: unat_gt_0)
    ultimately have "0 < unat a" using b0 by (metis nat_0_less_mult_iff)
    with \<open>unat c * unat b = unat a\<close> show ?thesis using b0 by (simp add: diff_mult_distrib)
  next
    case False
    then have "(unat c - 1) * unat b = unat b * (unat a div unat b)"
      using * by (simp add: mult.commute)
    then show ?thesis using False dm by linarith
  qed
qed

section \<open>HashMap\<close>

definition iter_order :: "('a list \<Rightarrow> 'a list) \<Rightarrow> bool" where
  "iter_order ord \<longleftrightarrow> (\<forall>xs. mset (ord xs) = mset xs)"

definition hm_modify :: "'k \<Rightarrow> ('v \<Rightarrow> 'v) \<Rightarrow> ('k \<times> 'v) list \<Rightarrow> ('k \<times> 'v) list" where
  "hm_modify k f m = map (\<lambda>(k', v). (k', if k' = k then f v else v)) m"

abbreviation hm_keys :: "('k \<times> 'v) list \<Rightarrow> 'k list" where
  "hm_keys m \<equiv> map fst m"

abbreviation hm_vals :: "('k \<times> 'v) list \<Rightarrow> 'v list" where
  "hm_vals m \<equiv> map snd m"

abbreviation hm_wf :: "('k \<times> 'v) list \<Rightarrow> bool" where
  "hm_wf m \<equiv> distinct (hm_keys m)"

lemma iter_order_set [simp]: "iter_order ord \<Longrightarrow> set (ord xs) = set xs"
  by (metis iter_order_def set_mset_mset)

lemma iter_order_length [simp]: "iter_order ord \<Longrightarrow> length (ord xs) = length xs"
  by (metis iter_order_def size_mset)

lemma iter_order_distinct [simp]:
  "iter_order ord \<Longrightarrow> distinct (map f (ord xs)) = distinct (map f xs)"
  unfolding iter_order_def by (metis mset_eq_imp_distinct_iff mset_map)

lemma iter_order_id [simp]: "iter_order (\<lambda>xs. xs)"
  by (simp add: iter_order_def)

lemma iter_order_rev [simp]: "iter_order rev"
  by (simp add: iter_order_def)

lemma hm_modify_keys [simp, velo_map]: "hm_keys (hm_modify k f m) = hm_keys m"
  by (induction m) (auto simp: hm_modify_def)

lemma hm_modify_length [simp]: "length (hm_modify k f m) = length m"
  by (simp add: hm_modify_def)

lemma hm_modify_get [velo_map]:
  "map_of (hm_modify k f m) j = (if j = k then map_option f (map_of m k) else map_of m j)"
  by (induction m) (auto simp: hm_modify_def split: if_splits)

lemma hm_modify_set:
  "(j, v) \<in> set (hm_modify k f m) \<longleftrightarrow>
     (\<exists>w. (j, w) \<in> set m \<and> v = (if j = k then f w else w))"
  by (induction m) (auto simp: hm_modify_def)

lemma hm_get_in: "hm_wf m \<Longrightarrow> map_of m k = Some v \<longleftrightarrow> (k, v) \<in> set m"
  by (simp add: map_of_eq_Some_iff)

lemma hm_update_wf [velo_wf]: "hm_wf m \<Longrightarrow> hm_wf (AList.update k v m)"
  by (rule distinct_update)

lemma hm_delete_wf [velo_wf]: "hm_wf m \<Longrightarrow> hm_wf (AList.delete k m)"
  by (rule distinct_delete)

lemma hm_filter_wf [velo_wf]: "hm_wf m \<Longrightarrow> hm_wf (filter P m)"
  by (rule distinct_map_filter)

lemma hm_update_get [velo_map]:
  "map_of (AList.update k v m) j = (if j = k then Some v else map_of m j)"
  by (simp add: update_conv)

lemma hm_delete_get [velo_map]:
  "map_of (AList.delete k m) j = (if j = k then None else map_of m j)"
  by (auto simp: delete_conv)

lemma hm_delete_set: "set (AList.delete k m) = {kv \<in> set m. fst kv \<noteq> k}"
  by (auto simp: AList.delete_eq)

lemma hm_update_set:
  "hm_wf m \<Longrightarrow> set (AList.update k v m) = insert (k, v) {kv \<in> set m. fst kv \<noteq> k}"
proof (induction m)
  case (Cons kv m)
  then show ?case by (cases kv) (auto simp: image_iff)
qed simp

lemma hm_update_length:
  "length (AList.update k v m) = (if k \<in> set (hm_keys m) then length m else Suc (length m))"
  by (induction m) auto

lemma hm_delete_length:
  "hm_wf m \<Longrightarrow>
   length (AList.delete k m) = (if k \<in> set (hm_keys m) then length m - 1 else length m)"
proof (induction m)
  case (Cons kv m)
  have "k \<in> set (hm_keys m) \<Longrightarrow> length m \<noteq> 0"
    by auto
  with Cons show ?case
    by (cases kv) (auto simp: Suc_diff_1)
qed simp

lemma hm_delete_length_le: "length (AList.delete k m) \<le> length m"
  by (simp add: AList.delete_eq)

section \<open>BTreeMap\<close>

fun bt_insert :: "'k::linorder \<Rightarrow> 'v \<Rightarrow> ('k \<times> 'v) list \<Rightarrow> ('k \<times> 'v) list" where
  "bt_insert k v [] = [(k, v)]"
| "bt_insert k v ((k', v') # m) =
     (if k < k' then (k, v) # (k', v') # m
      else if k = k' then (k, v) # m
      else (k', v') # bt_insert k v m)"

abbreviation bt_wf :: "('k::linorder \<times> 'v) list \<Rightarrow> bool" where
  "bt_wf m \<equiv> sorted_wrt (<) (hm_keys m)"

definition bt_last_key :: "('k::linorder \<times> 'v) list \<Rightarrow> 'k option" where
  "bt_last_key m = (if m = [] then None else Some (fst (last m)))"

lemma bt_insert_get [velo_map]:
  "map_of (bt_insert k v m) j = (if j = k then Some v else map_of m j)"
  by (induction k v m rule: bt_insert.induct) auto

lemma bt_insert_keys [velo_map]:
  "set (hm_keys (bt_insert k v m)) = insert k (set (hm_keys m))"
  by (induction k v m rule: bt_insert.induct) auto

lemma bt_insert_wf [velo_wf]: "bt_wf m \<Longrightarrow> bt_wf (bt_insert k v m)"
proof (induction k v m rule: bt_insert.induct)
  case (2 k v k' v' m)
  then show ?case
    using bt_insert_keys[of k v m] by (auto simp del: set_map)
qed simp

lemma bt_wf_distinct: "bt_wf m \<Longrightarrow> hm_wf m"
  by (simp add: strict_sorted_iff)

lemma bt_filter_wf [velo_wf]: "bt_wf m \<Longrightarrow> bt_wf (filter P m)"
  by (induction m) auto

lemma bt_delete_wf [velo_wf]: "bt_wf m \<Longrightarrow> bt_wf (AList.delete k m)"
  by (simp add: AList.delete_eq bt_filter_wf)

lemma bt_insert_set:
  "bt_wf m \<Longrightarrow> set (bt_insert k v m) = insert (k, v) {kv \<in> set m. fst kv \<noteq> k}"
proof (induction k v m rule: bt_insert.induct)
  case (2 k v k' v' m)
  then show ?case by (auto simp: image_iff)
qed simp

section \<open>Words as bytes\<close>

fun le_digits :: "nat \<Rightarrow> nat \<Rightarrow> nat list" where
  "le_digits 0 x = []"
| "le_digits (Suc n) x = x mod 256 # le_digits n (x div 256)"

fun le_number :: "nat list \<Rightarrow> nat" where
  "le_number [] = 0"
| "le_number (b # bs) = b + 256 * le_number bs"

lemma le_number_digits: "le_number (le_digits n x) = x mod 256 ^ n"
  by (induction n x rule: le_digits.induct) (simp_all add: mod_mult2_eq)

lemma le_digits_length [simp]: "length (le_digits n x) = n"
  by (induction n x rule: le_digits.induct) simp_all

lemma le_digits_byte: "d \<in> set (le_digits n x) \<Longrightarrow> d < 256"
  by (induction n x rule: le_digits.induct) auto

definition to_be_bytes :: "nat \<Rightarrow> 'a::len word \<Rightarrow> bytes" where
  "to_be_bytes n w = rev (map of_nat (le_digits n (unat w)))"

definition from_be_bytes :: "bytes \<Rightarrow> 'a::len word" where
  "from_be_bytes bs = of_nat (le_number (map unat (rev bs)))"

definition to_le_bytes :: "nat \<Rightarrow> 'a::len word \<Rightarrow> bytes" where
  "to_le_bytes n w = rev (to_be_bytes n w)"

definition from_le_bytes :: "bytes \<Rightarrow> 'a::len word" where
  "from_le_bytes bs = from_be_bytes (rev bs)"

lemma to_be_bytes_length [simp]: "length (to_be_bytes n w) = n"
  by (simp add: to_be_bytes_def)

lemma from_to_be_bytes_wide:
  fixes w :: "'a::len word"
  assumes "LENGTH('a) \<le> 8 * n"
  shows "(from_be_bytes (to_be_bytes n w) :: 'b::len word) = of_nat (unat w)"
proof -
  have "map (unat \<circ> (of_nat :: nat \<Rightarrow> 8 word)) (le_digits n (unat w)) = le_digits n (unat w)"
    by (rule map_idI) (auto simp: unat_of_nat dest!: le_digits_byte)
  moreover have "unat w < 256 ^ n"
  proof -
    have "unat w < 2 ^ LENGTH('a)" by simp
    also have "\<dots> \<le> 2 ^ (8 * n)" using assms by (rule power_increasing) simp
    also have "\<dots> = 256 ^ n" by (simp add: power_mult)
    finally show ?thesis .
  qed
  ultimately show ?thesis
    by (simp add: from_be_bytes_def to_be_bytes_def le_number_digits del: of_nat_unat)
qed

lemma from_to_be_bytes:
  fixes w :: "'a::len word"
  shows "LENGTH('a) \<le> 8 * n \<Longrightarrow> from_be_bytes (to_be_bytes n w) = w"
  by (simp add: from_to_be_bytes_wide)

lemma le_digits_number: "\<forall>d \<in> set ds. d < 256 \<Longrightarrow> le_digits (length ds) (le_number ds) = ds"
  by (induction ds) simp_all

lemma le_number_bound: "\<forall>d \<in> set ds. d < 256 \<Longrightarrow> le_number ds < 256 ^ length ds"
proof (induction ds)
  case (Cons d ds)
  then have "d < 256" and "le_number ds + 1 \<le> 256 ^ length ds" by simp_all
  then have "d + 256 * le_number ds < 256 * (le_number ds + 1)" by simp
  also have "\<dots> \<le> 256 * 256 ^ length ds"
    using \<open>le_number ds + 1 \<le> 256 ^ length ds\<close> by (rule mult_le_mono2)
  finally show ?case by simp
qed simp

lemma to_from_be_bytes:
  fixes bs :: bytes
  assumes "length bs = n" and "LENGTH('a::len) = 8 * n"
  shows "to_be_bytes n (from_be_bytes bs :: 'a word) = bs"
proof -
  let ?ds = "map unat (rev bs)"
  have byte: "\<forall>d \<in> set ?ds. d < 256"
  proof
    fix d assume "d \<in> set ?ds"
    then obtain b :: u8 where "d = unat b" by auto
    then show "d < 256" using unsigned_less[of b] by simp
  qed
  have "le_number ?ds < 2 ^ LENGTH('a)"
    using le_number_bound[OF byte] assms by (simp add: power_mult)
  then have "unat (from_be_bytes bs :: 'a word) = le_number ?ds"
    by (simp add: from_be_bytes_def unat_of_nat)
  then have "to_be_bytes n (from_be_bytes bs :: 'a word) = rev (map of_nat ?ds)"
    using le_digits_number[OF byte] assms by (simp add: to_be_bytes_def del: map_map)
  also have "\<dots> = bs" by (simp add: rev_map[symmetric] comp_def)
  finally show ?thesis .
qed

lemma to_le_bytes_length [simp]: "length (to_le_bytes n w) = n"
  by (simp add: to_le_bytes_def)

lemma from_to_le_bytes:
  fixes w :: "'a::len word"
  shows "LENGTH('a) \<le> 8 * n \<Longrightarrow> from_le_bytes (to_le_bytes n w) = w"
  by (simp add: from_le_bytes_def to_le_bytes_def from_to_be_bytes)

section \<open>Machines: one-step facts lifted to runs\<close>

text \<open>The results of a sequence of operations and the state after it.\<close>

fun run_results :: "('op \<Rightarrow> 's \<Rightarrow> 'r \<times> 's) \<Rightarrow> 'op list \<Rightarrow> 's \<Rightarrow> 'r list \<times> 's" where
  "run_results f [] s = ([], s)"
| "run_results f (x # xs) s =
     (let (r, s1) = f x s; (rs, s2) = run_results f xs s1 in (r # rs, s2))"

locale op_machine =
  fixes step :: "'op \<Rightarrow> 's \<Rightarrow> 's" and inv :: "'s \<Rightarrow> bool"
  assumes step_inv: "inv s \<Longrightarrow> inv (step x s)"
begin

lemma run_inv: "inv s \<Longrightarrow> inv (fold step xs s)"
  by (induction xs arbitrary: s) (auto intro: step_inv)

end

locale mono_machine = op_machine step inv
  for step :: "'op \<Rightarrow> 's \<Rightarrow> 's" and inv :: "'s \<Rightarrow> bool" +
  fixes rank :: "'s \<Rightarrow> 'r::preorder"
  assumes step_mono: "inv s \<Longrightarrow> rank s \<le> rank (step x s)"
begin

lemma run_mono: "inv s \<Longrightarrow> rank s \<le> rank (fold step xs s)"
proof (induction xs arbitrary: s)
  case (Cons x xs)
  have "rank s \<le> rank (step x s)" using Cons.prems by (rule step_mono)
  also have "\<dots> \<le> rank (fold step xs (step x s))"
    using Cons.IH step_inv Cons.prems by blast
  finally show ?case by simp
qed simp

end

end
