(* ===== verification/Proposer_Schedule.thy ===== *)
theory Proposer_Schedule
  imports Velo_Prelude
begin

text \<open>
  The contract of \<open>proposer_for_height\<close>, which the consensus engine and the validator
  manager both offer: the validators take turns in the order of the list. The fairness
  facts are proved once here, from that law alone.
\<close>

lemma mod_window_le:
  fixes a n i j :: nat
  assumes "i \<le> j" "j < n" "(a + i) mod n = (a + j) mod n"
  shows "i = j"
proof -
  have "n dvd (a + j) - (a + i)"
    using assms(1,3) by (intro iffD1[OF mod_eq_dvd_iff_nat]) auto
  then have "n dvd j - i" by simp
  moreover have "j - i < n" using assms(2) by simp
  ultimately have "j - i = 0" using dvd_imp_le not_le by blast
  then show ?thesis using assms(1) by simp
qed

lemma mod_window_inj:
  fixes a n i j :: nat
  assumes "i < n" "j < n" "(a + i) mod n = (a + j) mod n"
  shows "i = j"
  using assms mod_window_le[of i j n a] mod_window_le[of j i n a] by (metis nat_le_linear)

lemma mod_window_surj:
  fixes a n k :: nat
  assumes "k < n"
  shows "\<exists>i<n. (a + i) mod n = k"
proof -
  let ?i = "(k + (n - a mod n)) mod n"
  have "(a + ?i) mod n = (a mod n + (k + (n - a mod n))) mod n"
    by (simp add: mod_simps)
  also have "a mod n + (k + (n - a mod n)) = k + n"
    using mod_less_divisor[of n a] assms by linarith
  finally have "(a + ?i) mod n = k" using assms by simp
  moreover have "?i < n" using assms by simp
  ultimately show ?thesis by blast
qed

locale proposer_schedule =
  fixes vals :: "'st \<Rightarrow> address list"
    and proposer :: "'st \<Rightarrow> u64 \<Rightarrow> address option"
  assumes proposer_law:
    "proposer st h =
       (if vals st = [] then None else Some (vals st ! (unat h mod length (vals st))))"
begin

lemma proposer_member: "proposer st h = Some a \<Longrightarrow> a \<in> set (vals st)"
  by (auto simp: proposer_law split: if_splits)

lemma proposer_None: "proposer st h = None \<longleftrightarrow> vals st = []"
  by (simp add: proposer_law)

lemma proposer_at:
  assumes "vals st \<noteq> []" and "unat h + k < 2 ^ 64"
  shows "proposer st (h + of_nat k) =
           Some (vals st ! ((unat h + k) mod length (vals st)))"
proof -
  have "unat (h + of_nat k) = unat h + k"
    using assms(2) by (simp add: unat_word_ariths unat_of_nat take_bit_nat_def)
  then show ?thesis using assms(1) by (simp add: proposer_law)
qed

lemma proposer_fair:
  assumes d: "distinct (vals st)" and v: "v \<in> set (vals st)"
    and fit: "unat h + length (vals st) \<le> 2 ^ 64"
  shows "\<exists>!k. k < length (vals st) \<and> proposer st (h + of_nat k) = Some v"
proof -
  let ?vs = "vals st" and ?n = "length (vals st)"
  have ne: "?vs \<noteq> []" using v by auto
  obtain j where j: "j < ?n" "?vs ! j = v" using v by (auto simp: in_set_conv_nth)
  obtain k where k: "k < ?n" "(unat h + k) mod ?n = j" using mod_window_surj[OF j(1)] by blast
  show ?thesis
  proof (rule ex1I[of _ k])
    show "k < ?n \<and> proposer st (h + of_nat k) = Some v"
      using k j fit ne by (simp add: proposer_at)
  next
    fix i assume i: "i < ?n \<and> proposer st (h + of_nat i) = Some v"
    then have "proposer st (h + of_nat i) = Some (?vs ! ((unat h + i) mod ?n))"
      using fit ne by (intro proposer_at) linarith+
    then have "?vs ! ((unat h + i) mod ?n) = ?vs ! ((unat h + k) mod ?n)"
      using i k j by simp
    then have "(unat h + i) mod ?n = (unat h + k) mod ?n"
      using d i ne by (subst (asm) nth_eq_iff_index_eq) (auto intro!: mod_less_divisor)
    then show "i = k" using i k(1) mod_window_inj[of i ?n k "unat h"] by blast
  qed
qed

end

end
