(* ===== verification/Validator_Manager.thy ===== *)
theory Validator_Manager
  imports Proposer_Schedule
begin

text \<open>
  The governance of the validator set, \<open>crates/consensus/src/validator_manager.rs\<close>:
  proposals to add or remove a validator, votes, execution at quorum, expiry and the
  round-robin proposer. The first part models every operation, the second proves the
  invariant that all of them keep and what it gives: an audit trail, the quorum rule,
  the intersection of quorums.
\<close>

section \<open>Data\<close>

type_synonym proposal_id = u64

datatype proposal_type = PT_Add | PT_Remove

datatype proposal_state = PS_Pending | PS_Approved | PS_Rejected | PS_Executed | PS_Expired

record validator_proposal =
  pr_id :: proposal_id
  pr_type :: proposal_type
  pr_target :: address
  pr_proposer :: address
  pr_votes_for :: "address list"
  pr_votes_against :: "address list"
  pr_proposed_at :: u64
  pr_expires_at :: u64
  pr_state :: proposal_state

datatype validator_error =
    VE_NotValidator
  | VE_AlreadyValidator
  | VE_NotInSet
  | VE_CannotRemoveLast
  | VE_AlreadyVoted
  | VE_ProposalNotFound
  | VE_ProposalNotPending
  | VE_VoterNotValidator

datatype validator_result =
    VR_ProposalCreated proposal_id
  | VR_VoteRecorded proposal_id nat nat
  | VR_Approved proposal_id
  | VR_Rejected proposal_id
  | VR_ValidatorAdded address
  | VR_ValidatorRemoved address
  | VR_Expired proposal_id
  | VR_Error validator_error

record validator_manager_config =
  vmc_proposal_ttl_blocks :: u64
  vmc_quorum_numerator :: u64
  vmc_quorum_denominator :: u64
  vmc_min_validators :: nat
  vmc_max_validators :: nat

definition vmc_default :: validator_manager_config where
  "vmc_default = \<lparr> vmc_proposal_ttl_blocks = 1000, vmc_quorum_numerator = 2,
     vmc_quorum_denominator = 3, vmc_min_validators = 1, vmc_max_validators = 21 \<rparr>"

record validator_manager =
  vm_validators :: "address list"
  vm_proposals :: "(proposal_id \<times> validator_proposal) list"
  vm_next_proposal_id :: proposal_id
  vm_config :: validator_manager_config
  vm_history :: "(u64 \<times> proposal_type \<times> address) list"

section \<open>Operations\<close>

definition vm_new :: "address list \<Rightarrow> validator_manager_config \<Rightarrow> validator_manager" where
  "vm_new vs cfg = \<lparr> vm_validators = vs, vm_proposals = [], vm_next_proposal_id = 1,
     vm_config = cfg, vm_history = [] \<rparr>"

definition vm_is_validator :: "validator_manager \<Rightarrow> address \<Rightarrow> bool" where
  "vm_is_validator vm a \<longleftrightarrow> a \<in> set (vm_validators vm)"

definition get_proposal :: "validator_manager \<Rightarrow> proposal_id \<Rightarrow> validator_proposal option" where
  "get_proposal vm i = map_of (vm_proposals vm) i"

definition pending_proposals :: "validator_manager \<Rightarrow> validator_proposal list" where
  "pending_proposals vm = filter (\<lambda>p. pr_state p = PS_Pending) (hm_vals (vm_proposals vm))"

text \<open>The product is a \<open>u64\<close> product; \<open>div_ceil\<close> panics on a zero denominator.\<close>

definition quorum_threshold :: "validator_manager \<Rightarrow> nat option" where
  "quorum_threshold vm =
     (let total = (of_nat (length (vm_validators vm)) :: u64)
      in map_option unat
           (div_ceil (total * vmc_quorum_numerator (vm_config vm))
                     (vmc_quorum_denominator (vm_config vm))))"

definition set_state :: "proposal_state \<Rightarrow> validator_proposal \<Rightarrow> validator_proposal" where
  "set_state st p = p\<lparr>pr_state := st\<rparr>"

definition check_and_execute ::
  "proposal_id \<Rightarrow> u64 \<Rightarrow> validator_manager \<Rightarrow> (validator_result \<times> validator_manager) option" where
  "check_and_execute i blk vm =
     (case quorum_threshold vm of
        None \<Rightarrow> None
      | Some quorum \<Rightarrow>
     (case map_of (vm_proposals vm) i of
        None \<Rightarrow> None
      | Some p \<Rightarrow>
          let votes_for = length (pr_votes_for p);
              votes_against = length (pr_votes_against p)
          in if quorum \<le> votes_for then
               (let target = pr_target p;
                    vm1 = vm\<lparr>vm_proposals := hm_modify i (set_state PS_Approved) (vm_proposals vm)\<rparr>
                in case pr_type p of
                     PT_Add \<Rightarrow>
                       Some (VR_ValidatorAdded target,
                         vm1\<lparr>vm_validators := vm_validators vm1 @ [target],
                             vm_history := vm_history vm1 @ [(blk, PT_Add, target)],
                             vm_proposals := hm_modify i (set_state PS_Executed) (vm_proposals vm1)\<rparr>)
                   | PT_Remove \<Rightarrow>
                       Some (VR_ValidatorRemoved target,
                         vm1\<lparr>vm_validators := filter (\<lambda>v. v \<noteq> target) (vm_validators vm1),
                             vm_history := vm_history vm1 @ [(blk, PT_Remove, target)],
                             vm_proposals := hm_modify i (set_state PS_Executed) (vm_proposals vm1)\<rparr>))
             else if quorum \<le> votes_against then
               Some (VR_Rejected i,
                 vm\<lparr>vm_proposals := hm_modify i (set_state PS_Rejected) (vm_proposals vm)\<rparr>)
             else Some (VR_VoteRecorded i votes_for votes_against, vm)))"

text \<open>The guards of \<open>propose\<close>: the error it returns before it changes anything.\<close>

definition propose_guard ::
  "address \<Rightarrow> proposal_type \<Rightarrow> address \<Rightarrow> validator_manager \<Rightarrow> validator_error option" where
  "propose_guard proposer pt target vm =
     (if \<not> vm_is_validator vm proposer then Some VE_NotValidator
      else case pt of
        PT_Add \<Rightarrow>
          if vm_is_validator vm target then Some VE_AlreadyValidator
          else if vmc_max_validators (vm_config vm) \<le> length (vm_validators vm)
               then Some VE_CannotRemoveLast
          else None
      | PT_Remove \<Rightarrow>
          if \<not> vm_is_validator vm target then Some VE_NotInSet
          else if length (vm_validators vm) \<le> vmc_min_validators (vm_config vm)
               then Some VE_CannotRemoveLast
          else None)"

definition propose ::
  "address \<Rightarrow> proposal_type \<Rightarrow> address \<Rightarrow> u64 \<Rightarrow> validator_manager
     \<Rightarrow> (validator_result \<times> validator_manager) option" where
  "propose proposer pt target blk vm =
     (case propose_guard proposer pt target vm of
        Some e \<Rightarrow> Some (VR_Error e, vm)
      | None \<Rightarrow>
          let i = vm_next_proposal_id vm;
              p = \<lparr> pr_id = i, pr_type = pt, pr_target = target, pr_proposer = proposer,
                    pr_votes_for = [proposer], pr_votes_against = [], pr_proposed_at = blk,
                    pr_expires_at = blk + vmc_proposal_ttl_blocks (vm_config vm),
                    pr_state = PS_Pending \<rparr>;
              vm' = vm\<lparr>vm_next_proposal_id := i + 1,
                       vm_proposals := AList.update i p (vm_proposals vm)\<rparr>
          in case quorum_threshold vm' of
               None \<Rightarrow> None
             | Some q \<Rightarrow>
                 if q \<le> 1 then check_and_execute i blk vm'
                 else Some (VR_ProposalCreated i, vm'))"

definition add_vote :: "address \<Rightarrow> bool \<Rightarrow> validator_proposal \<Rightarrow> validator_proposal" where
  "add_vote voter approve p =
     (if approve then p\<lparr>pr_votes_for := pr_votes_for p @ [voter]\<rparr>
      else p\<lparr>pr_votes_against := pr_votes_against p @ [voter]\<rparr>)"

definition vote ::
  "proposal_id \<Rightarrow> address \<Rightarrow> bool \<Rightarrow> u64 \<Rightarrow> validator_manager
     \<Rightarrow> (validator_result \<times> validator_manager) option" where
  "vote i voter approve blk vm =
     (if \<not> vm_is_validator vm voter then Some (VR_Error VE_VoterNotValidator, vm)
      else case map_of (vm_proposals vm) i of
        None \<Rightarrow> Some (VR_Error VE_ProposalNotFound, vm)
      | Some p \<Rightarrow>
          if pr_state p \<noteq> PS_Pending then Some (VR_Error VE_ProposalNotPending, vm)
          else if voter \<in> set (pr_votes_for p) \<or> voter \<in> set (pr_votes_against p)
               then Some (VR_Error VE_AlreadyVoted, vm)
          else check_and_execute i blk
                 (vm\<lparr>vm_proposals := hm_modify i (add_vote voter approve) (vm_proposals vm)\<rparr>))"

definition expired_ids ::
  "((proposal_id \<times> validator_proposal) list \<Rightarrow> (proposal_id \<times> validator_proposal) list)
     \<Rightarrow> u64 \<Rightarrow> validator_manager \<Rightarrow> proposal_id list" where
  "expired_ids ord blk vm =
     map pr_id (filter (\<lambda>p. pr_state p = PS_Pending \<and> pr_expires_at p \<le> blk)
                  (hm_vals (ord (vm_proposals vm))))"

fun expire_each ::
  "proposal_id list \<Rightarrow> validator_manager \<Rightarrow> validator_result list \<times> validator_manager" where
  "expire_each [] vm = ([], vm)"
| "expire_each (i # is) vm =
     (case map_of (vm_proposals vm) i of
        None \<Rightarrow> expire_each is vm
      | Some p \<Rightarrow>
          (let (rs, vm') = expire_each is
             (vm\<lparr>vm_proposals := hm_modify i (set_state PS_Expired) (vm_proposals vm)\<rparr>)
           in (VR_Expired i # rs, vm')))"

definition expire_proposals ::
  "((proposal_id \<times> validator_proposal) list \<Rightarrow> (proposal_id \<times> validator_proposal) list)
     \<Rightarrow> u64 \<Rightarrow> validator_manager \<Rightarrow> validator_result list \<times> validator_manager" where
  "expire_proposals ord blk vm = expire_each (expired_ids ord blk vm) vm"

definition vm_proposer_for_height :: "validator_manager \<Rightarrow> u64 \<Rightarrow> address option" where
  "vm_proposer_for_height vm h =
     (if vm_validators vm = [] then None
      else Some (vm_validators vm ! (unat h mod length (vm_validators vm))))"

interpretation vm_schedule: proposer_schedule vm_validators vm_proposer_for_height
  by unfold_locales (simp add: vm_proposer_for_height_def)

section \<open>The machine of all operations\<close>

datatype vm_op =
    VMPropose address proposal_type address u64
  | VMVote proposal_id address bool u64
  | VMExpire u64

fun vm_exec ::
  "((proposal_id \<times> validator_proposal) list \<Rightarrow> (proposal_id \<times> validator_proposal) list)
     \<Rightarrow> vm_op \<Rightarrow> validator_manager \<Rightarrow> (validator_result list \<times> validator_manager) option" where
  "vm_exec ord (VMPropose a pt t blk) vm = map_option (\<lambda>(r, vm'). ([r], vm')) (propose a pt t blk vm)"
| "vm_exec ord (VMVote i a ok blk) vm = map_option (\<lambda>(r, vm'). ([r], vm')) (vote i a ok blk vm)"
| "vm_exec ord (VMExpire blk) vm = Some (expire_proposals ord blk vm)"

definition vm_step ::
  "((proposal_id \<times> validator_proposal) list \<Rightarrow> (proposal_id \<times> validator_proposal) list)
     \<Rightarrow> vm_op \<Rightarrow> validator_manager \<Rightarrow> validator_manager" where
  "vm_step ord x vm = (case vm_exec ord x vm of None \<Rightarrow> vm | Some (_, vm') \<Rightarrow> vm')"

text \<open>What every operation keeps of a proposal, and of the whole manager.\<close>

definition proposal_wf :: "validator_proposal \<Rightarrow> bool" where
  "proposal_wf p \<longleftrightarrow>
     distinct (pr_votes_for p) \<and> distinct (pr_votes_against p) \<and>
     set (pr_votes_for p) \<inter> set (pr_votes_against p) = {} \<and>
     pr_proposer p \<in> set (pr_votes_for p) \<and> pr_state p \<noteq> PS_Approved"

fun replay :: "(u64 \<times> proposal_type \<times> address) list \<Rightarrow> address list \<Rightarrow> address list" where
  "replay [] vs = vs"
| "replay ((_, PT_Add, a) # hs) vs = replay hs (vs @ [a])"
| "replay ((_, PT_Remove, a) # hs) vs = replay hs (filter (\<lambda>v. v \<noteq> a) vs)"

definition proposals_wf :: "(proposal_id \<times> validator_proposal) list \<Rightarrow> bool" where
  "proposals_wf m \<longleftrightarrow> hm_wf m \<and> (\<forall>(i, p) \<in> set m. pr_id p = i \<and> proposal_wf p)"

definition vm_inv :: "validator_manager \<Rightarrow> bool" where
  "vm_inv vm \<longleftrightarrow> proposals_wf (vm_proposals vm)"

definition vm_audited :: "address list \<Rightarrow> validator_manager \<Rightarrow> bool" where
  "vm_audited vs0 vm \<longleftrightarrow> vm_validators vm = replay (vm_history vm) vs0"

lemma replay_append: "replay (hs @ ks) vs = replay ks (replay hs vs)"
  by (induction hs vs rule: replay.induct) auto

text \<open>Everything \<open>check_and_execute\<close> can do, in one elimination rule.\<close>

lemma hm_modify_twice [simp]:
  "hm_modify i (set_state s) (hm_modify i (set_state t) m) = hm_modify i (set_state s) m"
  by (simp add: hm_modify_def set_state_def comp_def case_prod_beta cong: if_cong)

lemma check_and_execute_cases [consumes 1, case_names added removed rejected counted]:
  assumes "check_and_execute i blk vm = Some (r, vm')"
  obtains
    q p where "quorum_threshold vm = Some q" "map_of (vm_proposals vm) i = Some p"
      "q \<le> length (pr_votes_for p)" "pr_type p = PT_Add" "r = VR_ValidatorAdded (pr_target p)"
      "vm' = vm\<lparr>vm_validators := vm_validators vm @ [pr_target p],
                vm_history := vm_history vm @ [(blk, PT_Add, pr_target p)],
                vm_proposals := hm_modify i (set_state PS_Executed) (vm_proposals vm)\<rparr>"
  | q p where "quorum_threshold vm = Some q" "map_of (vm_proposals vm) i = Some p"
      "q \<le> length (pr_votes_for p)" "pr_type p = PT_Remove"
      "r = VR_ValidatorRemoved (pr_target p)"
      "vm' = vm\<lparr>vm_validators := filter (\<lambda>v. v \<noteq> pr_target p) (vm_validators vm),
                vm_history := vm_history vm @ [(blk, PT_Remove, pr_target p)],
                vm_proposals := hm_modify i (set_state PS_Executed) (vm_proposals vm)\<rparr>"
  | q p where "quorum_threshold vm = Some q" "map_of (vm_proposals vm) i = Some p"
      "length (pr_votes_for p) < q" "q \<le> length (pr_votes_against p)" "r = VR_Rejected i"
      "vm' = vm\<lparr>vm_proposals := hm_modify i (set_state PS_Rejected) (vm_proposals vm)\<rparr>"
  | q p where "quorum_threshold vm = Some q" "map_of (vm_proposals vm) i = Some p"
      "length (pr_votes_for p) < q" "length (pr_votes_against p) < q"
      "r = VR_VoteRecorded i (length (pr_votes_for p)) (length (pr_votes_against p))"
      "vm' = vm"
  using assms
  by (auto simp: check_and_execute_def Let_def
      split: option.splits if_splits proposal_type.splits)

section \<open>The invariant\<close>

lemma proposal_wf_state: "proposal_wf p \<Longrightarrow> st \<noteq> PS_Approved \<Longrightarrow> proposal_wf (set_state st p)"
  by (simp add: proposal_wf_def set_state_def)

lemma proposal_wf_vote:
  "proposal_wf p \<Longrightarrow> a \<notin> set (pr_votes_for p) \<Longrightarrow> a \<notin> set (pr_votes_against p) \<Longrightarrow>
   proposal_wf (add_vote a ok p)"
  by (auto simp: proposal_wf_def add_vote_def)

lemma set_state_id [simp]: "pr_id (set_state st p) = pr_id p"
  by (simp add: set_state_def)

lemma add_vote_id [simp]: "pr_id (add_vote a ok p) = pr_id p"
  by (simp add: add_vote_def)

lemma proposals_wf_get:
  "proposals_wf m \<Longrightarrow> map_of m i = Some p \<Longrightarrow> pr_id p = i \<and> proposal_wf p"
  by (auto simp: proposals_wf_def dest!: map_of_SomeD)

lemma proposals_wf_modify [velo_wf]:
  assumes m: "proposals_wf m" and p: "map_of m i = Some p"
    and f: "pr_id (f p) = pr_id p" "proposal_wf (f p)"
  shows "proposals_wf (hm_modify i f m)"
proof -
  have wf: "hm_wf m" using m by (simp add: proposals_wf_def)
  have "pr_id v = j \<and> proposal_wf v" if x: "(j, v) \<in> set (hm_modify i f m)" for j v
  proof -
    obtain w where w: "(j, w) \<in> set m" "v = (if j = i then f w else w)"
      using x by (auto simp: hm_modify_set)
    have jw: "pr_id w = j \<and> proposal_wf w" using m w(1) by (auto simp: proposals_wf_def)
    have "j = i \<Longrightarrow> w = p" using w(1) p hm_get_in[OF wf, of j w] by auto
    then show ?thesis using w(2) jw f by auto
  qed
  then show ?thesis using wf by (auto simp: proposals_wf_def)
qed

lemma proposals_wf_state [velo_wf]:
  assumes "proposals_wf m" "map_of m i = Some p" "st \<noteq> PS_Approved"
  shows "proposals_wf (hm_modify i (set_state st) m)"
  using assms proposals_wf_get[OF assms(1,2)]
  by (auto intro!: proposals_wf_modify proposal_wf_state)

lemma check_and_execute_inv:
  "check_and_execute i blk vm = Some (r, vm') \<Longrightarrow> vm_inv vm \<Longrightarrow> vm_inv vm'"
  by (erule check_and_execute_cases) (simp_all add: vm_inv_def proposals_wf_state)

lemma propose_inv:
  assumes "propose a pt t blk vm = Some (r, vm')" and inv: "vm_inv vm"
  shows "vm_inv vm'"
proof (cases "propose_guard a pt t vm")
  case (Some e)
  then show ?thesis using assms by (simp add: propose_def)
next
  case None
  define i where "i = vm_next_proposal_id vm"
  define p where "p = \<lparr> pr_id = i, pr_type = pt, pr_target = t, pr_proposer = a,
      pr_votes_for = [a], pr_votes_against = [], pr_proposed_at = blk,
      pr_expires_at = blk + vmc_proposal_ttl_blocks (vm_config vm), pr_state = PS_Pending \<rparr>"
  define vm1 where "vm1 = vm\<lparr>vm_next_proposal_id := i + 1,
      vm_proposals := AList.update i p (vm_proposals vm)\<rparr>"
  have "proposal_wf p" "pr_id p = i" by (auto simp: p_def proposal_wf_def)
  then have inv1: "vm_inv vm1"
    using inv by (auto simp: vm1_def vm_inv_def proposals_wf_def hm_update_wf hm_update_set)
  have "vm' = vm1 \<or> check_and_execute i blk vm1 = Some (r, vm')"
    using assms(1) None
    by (auto simp: propose_def Let_def i_def p_def vm1_def split: option.splits if_splits)
  then show ?thesis using inv1 check_and_execute_inv by blast
qed

lemma vote_inv:
  assumes vote: "vote i a ok blk vm = Some (r, vm')" and inv: "vm_inv vm"
  shows "vm_inv vm'"
proof (cases "vm' = vm")
  case False
  then obtain p where p: "map_of (vm_proposals vm) i = Some p"
      "a \<notin> set (pr_votes_for p)" "a \<notin> set (pr_votes_against p)"
    and exec: "check_and_execute i blk
      (vm\<lparr>vm_proposals := hm_modify i (add_vote a ok) (vm_proposals vm)\<rparr>) = Some (r, vm')"
    using vote by (auto simp: vote_def split: if_splits option.splits)
  have "proposals_wf (hm_modify i (add_vote a ok) (vm_proposals vm))"
    using inv p proposals_wf_get[of "vm_proposals vm" i p]
    by (auto simp: vm_inv_def intro!: proposals_wf_modify proposal_wf_vote)
  then show ?thesis by (intro check_and_execute_inv[OF exec]) (simp add: vm_inv_def)
qed (use inv in simp)

lemma expire_each_inv: "vm_inv vm \<Longrightarrow> vm_inv (snd (expire_each is vm))"
  by (induction "is" vm rule: expire_each.induct)
    (auto simp: vm_inv_def proposals_wf_state split: option.splits prod.splits)

lemma vm_step_inv: "vm_inv vm \<Longrightarrow> vm_inv (vm_step ord x vm)"
proof (cases x)
  case (VMExpire blk)
  then show "vm_inv vm \<Longrightarrow> ?thesis"
    using expire_each_inv[of vm "expired_ids ord blk vm"]
    by (simp add: vm_step_def expire_proposals_def case_prod_beta)
qed (auto simp: vm_step_def split: option.splits intro: propose_inv vote_inv)

interpretation vm_machine: op_machine "vm_step ord" vm_inv for ord
  by unfold_locales (rule vm_step_inv)

lemma vm_new_inv: "vm_inv (vm_new vs cfg)"
  by (simp add: vm_inv_def proposals_wf_def vm_new_def)

section \<open>The audit trail\<close>

lemma check_and_execute_audited:
  "check_and_execute i blk vm = Some (r, vm') \<Longrightarrow> vm_audited vs vm \<Longrightarrow> vm_audited vs vm'"
  by (erule check_and_execute_cases) (auto simp: vm_audited_def replay_append)

lemma expire_each_frame:
  "vm_validators (snd (expire_each is vm)) = vm_validators vm \<and>
   vm_history (snd (expire_each is vm)) = vm_history vm \<and>
   vm_config (snd (expire_each is vm)) = vm_config vm"
  by (induction "is" vm rule: expire_each.induct) (auto split: option.splits prod.splits)

lemma vm_step_audited:
  assumes a: "vm_audited vs vm"
  shows "vm_audited vs (vm_step ord x vm)"
proof (cases x)
  case (VMExpire blk)
  then show ?thesis
    using a expire_each_frame[of "expired_ids ord blk vm" vm]
    by (simp add: vm_audited_def vm_step_def expire_proposals_def case_prod_beta)
next
  case (VMPropose a pt t blk)
  then show ?thesis
    using assms check_and_execute_audited[of "vm_next_proposal_id vm" blk _ _ _ vs]
    by (force simp: vm_step_def propose_def Let_def vm_audited_def split: option.splits if_splits)
next
  case (VMVote i a ok blk)
  then show ?thesis
    using assms check_and_execute_audited[of i blk _ _ _ vs]
    by (force simp: vm_step_def vote_def vm_audited_def split: option.splits if_splits)
qed

interpretation vm_audit: op_machine "vm_step ord" "vm_audited vs" for ord vs
  by unfold_locales (rule vm_step_audited)

section \<open>Quorums\<close>

lemma quorum_threshold_unat:
  assumes "quorum_threshold vm = Some q"
    and "length (vm_validators vm) * unat (vmc_quorum_numerator (vm_config vm)) < 2 ^ 64"
  shows "length (vm_validators vm) * unat (vmc_quorum_numerator (vm_config vm))
           \<le> q * unat (vmc_quorum_denominator (vm_config vm))"
proof -
  let ?n = "length (vm_validators vm)" and ?num = "vmc_quorum_numerator (vm_config vm)"
  obtain c where c: "div_ceil (of_nat ?n * ?num) (vmc_quorum_denominator (vm_config vm)) = Some c"
      "q = unat c"
    using assms(1) by (auto simp: quorum_threshold_def Let_def)
  have "unat (of_nat ?n * ?num :: u64) = ?n * unat ?num"
  proof -
    have "unat (of_nat ?n * ?num :: u64) = (?n mod 2 ^ 64 * unat ?num) mod 2 ^ 64"
      by (simp add: unat_word_ariths unat_of_nat take_bit_nat_def)
    also have "\<dots> = (?n * unat ?num) mod 2 ^ 64" by (rule mod_mult_left_eq)
    finally show ?thesis using assms(2) by simp
  qed
  then show ?thesis using div_ceil_bound(1)[OF c(1)] c(2) by simp
qed

text \<open>Two sets of voters that each reach the quorum share a voter.\<close>

lemma quorums_meet:
  assumes A: "A \<subseteq> set vs" "q \<le> card A" and B: "B \<subseteq> set vs" "q \<le> card B"
    and q: "length vs * num \<le> q * den" "den < 2 * num" and ne: "vs \<noteq> []"
  shows "A \<inter> B \<noteq> {}"
proof
  assume "A \<inter> B = {}"
  moreover have fin: "finite A" "finite B" using A B finite_subset by blast+
  ultimately have "card A + card B = card (A \<union> B)" by (simp add: card_Un_disjoint)
  also have "\<dots> \<le> card (set vs)" using A B by (intro card_mono) auto
  also have "\<dots> \<le> length vs" by (rule card_length)
  finally have le: "2 * q \<le> length vs" using A B by linarith
  have "length vs * den < length vs * (2 * num)" using q(2) ne by simp
  also have "\<dots> \<le> 2 * q * den" using q(1) by (simp add: algebra_simps)
  also have "\<dots> \<le> length vs * den" using le by (rule mult_le_mono1)
  finally show False by simp
qed

text \<open>A change of the validator set goes through \<open>check_and_execute\<close>.\<close>

lemma vm_exec_change:
  assumes "vm_exec ord x vm = Some (rs, vm')" and "vm_validators vm' \<noteq> vm_validators vm"
  shows "\<exists>i blk vm1 r. check_and_execute i blk vm1 = Some (r, vm') \<and>
           vm_validators vm1 = vm_validators vm \<and> vm_history vm1 = vm_history vm \<and>
           vm_config vm1 = vm_config vm"
proof (cases x)
  case (VMPropose a pt t blk)
  then show ?thesis
    using assms
    by (auto simp: propose_def Let_def split: option.splits if_splits)
      (intro exI conjI, assumption, simp_all)
next
  case (VMVote i a ok blk)
  then show ?thesis
    using assms
    by (auto simp: vote_def split: option.splits if_splits)
      (intro exI conjI, assumption, simp_all)
next
  case (VMExpire blk)
  then show ?thesis
    using assms expire_each_frame[of "expired_ids ord blk vm" vm]
    by (auto simp: expire_proposals_def)
qed

section \<open>Properties\<close>

text \<open>In every state the validator manager can reach, whatever the sequence of
  proposals, votes and expiries, each stored proposal sits under its own id, its votes for
  and against hold every voter at most once and no voter twice, its proposer has voted for
  it, and no proposal is left in the intermediate state Approved.\<close>

theorem vm_reachable_wf:
  "list_all (\<lambda>(i, p). pr_id p = i \<and> distinct (pr_votes_for p @ pr_votes_against p) \<and>
       pr_proposer p \<in> set (pr_votes_for p) \<and> pr_state p \<noteq> PS_Approved)
     (vm_proposals (fold (vm_step ord) ops (vm_new vs cfg)))"
  using vm_machine.run_inv[OF vm_new_inv, of ord ops vs cfg]
  by (auto simp: vm_inv_def proposals_wf_def proposal_wf_def list_all_iff)

text \<open>C24. The history is a complete audit trail: replaying it over the initial validators
  gives the current validator set, after any sequence of operations.\<close>

theorem vm_history_replays:
  "vm_validators (fold (vm_step ord) ops (vm_new vs cfg)) =
     replay (vm_history (fold (vm_step ord) ops (vm_new vs cfg))) vs"
  using vm_audit.run_inv[of vs "vm_new vs cfg" ord ops]
  by (simp add: vm_audited_def vm_new_def)

text \<open>C7. The validator set changes only by the execution of one proposal that holds at
  least a quorum of distinct votes in favour, the quorum being that of the set before the
  change; the change is exactly the proposal's, and it is appended to the history.\<close>

theorem vm_change_needs_quorum:
  assumes "vm_inv vm" and "vm_exec ord x vm = Some (rs, vm')"
    and "vm_validators vm' \<noteq> vm_validators vm"
  shows "\<exists>i p q blk. map_of (vm_proposals vm') i = Some p \<and> pr_state p = PS_Executed \<and>
           quorum_threshold vm = Some q \<and> q \<le> length (pr_votes_for p) \<and>
           distinct (pr_votes_for p) \<and>
           vm_history vm' = vm_history vm @ [(blk, pr_type p, pr_target p)] \<and>
           vm_validators vm' = replay [(blk, pr_type p, pr_target p)] (vm_validators vm)"
proof -
  have core: ?thesis
    if exec: "check_and_execute i blk vm1 = Some (r, vm')"
      and same: "vm_validators vm1 = vm_validators vm" "vm_history vm1 = vm_history vm"
        "vm_config vm1 = vm_config vm" and inv': "vm_inv vm'"
    for i blk vm1 r
  proof -
    have q: "quorum_threshold vm = quorum_threshold vm1"
      by (simp add: quorum_threshold_def same)
    have "\<exists>p. map_of (vm_proposals vm') i = Some p \<and> pr_state p = PS_Executed \<and>
        (\<exists>q. quorum_threshold vm = Some q \<and> q \<le> length (pr_votes_for p)) \<and>
        vm_history vm' = vm_history vm @ [(blk, pr_type p, pr_target p)] \<and>
        vm_validators vm' = replay [(blk, pr_type p, pr_target p)] (vm_validators vm)"
      using exec assms(3) same q
      by (cases rule: check_and_execute_cases) (auto simp: hm_modify_get set_state_def)
    moreover have "map_of (vm_proposals vm') i = Some p \<Longrightarrow> distinct (pr_votes_for p)" for p
      using inv' by (auto simp: vm_inv_def proposal_wf_def dest: proposals_wf_get)
    ultimately show ?thesis by blast
  qed
  have inv': "vm_inv vm'"
    using vm_step_inv[OF assms(1), of ord x] assms(2) by (simp add: vm_step_def)
  show ?thesis
    using vm_exec_change[OF assms(2,3)] core inv' by blast
qed

theorem vm_change_needs_quorum_witness:
  "\<exists>vm'. vm_exec id (VMVote 1 2 True 5)
       (fold (vm_step id) [VMPropose 1 PT_Add 10 0] (vm_new [1, 2] vmc_default))
         = Some ([VR_ValidatorAdded 10], vm') \<and>
     (\<exists>i p q blk. map_of (vm_proposals vm') i = Some p \<and> q \<le> length (pr_votes_for p) \<and>
        vm_history vm' = [(blk, pr_type p, pr_target p)])"
proof -
  let ?vm = "fold (vm_step id) [VMPropose 1 PT_Add 10 0] (vm_new [1, 2] vmc_default)"
  have inv: "vm_inv ?vm" by (rule vm_machine.run_inv[OF vm_new_inv])
  obtain vm' where vm': "vm_exec id (VMVote 1 2 True 5) ?vm = Some ([VR_ValidatorAdded 10], vm')"
    and change: "vm_validators vm' \<noteq> vm_validators ?vm" and hist: "vm_history ?vm = []"
    by (simp add: vm_step_def propose_def propose_guard_def vote_def check_and_execute_def
        vm_is_validator_def Let_def vm_new_def quorum_threshold_def vmc_default_def
        div_ceil_def hm_modify_def set_state_def add_vote_def)
  show ?thesis
    using vm_change_needs_quorum[OF inv vm' change] vm' hist by auto
qed

text \<open>With a quorum fraction above one half (the default is two thirds), two groups of
  current validators that each reach the quorum have a member in common, so a proposal is
  never approved by one group and rejected by a disjoint one.\<close>

theorem vm_quorums_intersect:
  assumes "quorum_threshold vm = Some q"
    and "length (vm_validators vm) * unat (vmc_quorum_numerator (vm_config vm)) < 2 ^ 64"
    and "unat (vmc_quorum_denominator (vm_config vm))
           < 2 * unat (vmc_quorum_numerator (vm_config vm))"
    and "vm_validators vm \<noteq> []"
    and "A \<subseteq> set (vm_validators vm)" "q \<le> card A"
    and "B \<subseteq> set (vm_validators vm)" "q \<le> card B"
  shows "A \<inter> B \<noteq> {}"
  using quorums_meet[OF assms(5-8) quorum_threshold_unat[OF assms(1,2)] assms(3,4)] .

theorem vm_quorums_intersect_witness:
  "{1, 2} \<inter> {2, 3 :: address} \<noteq> {}"
  by (rule vm_quorums_intersect[of "vm_new [1, 2, 3] vmc_default" 2])
    (simp_all add: quorum_threshold_def vm_new_def vmc_default_def div_ceil_def)

text \<open>Round-robin fairness: with distinct validators, among any run of as many
  consecutive heights as there are validators, each validator is the proposer of exactly
  one height.\<close>

theorem vm_round_robin_fair:
  assumes "distinct (vm_validators vm)" and "v \<in> set (vm_validators vm)"
    and "unat h + length (vm_validators vm) \<le> 2 ^ 64"
  shows "\<exists>!k. k < length (vm_validators vm) \<and>
           vm_proposer_for_height vm (h + of_nat k) = Some v"
  using assms by (rule vm_schedule.proposer_fair)

theorem vm_round_robin_fair_witness:
  "\<exists>!k. k < length (vm_validators (vm_new [7, 8, 9] vmc_default)) \<and>
     vm_proposer_for_height (vm_new [7, 8, 9] vmc_default) (100 + of_nat k) = Some 8"
  by (rule vm_round_robin_fair) (simp_all add: vm_new_def)

text \<open>A vote is counted, and a proposal executed, at any block number: the expiry block
  of the proposal is not consulted by \<open>vote\<close>, so an Add proposal that is past its expiry
  but has not been swept by \<open>expire_proposals\<close> still changes the validator set.\<close>

theorem vm_vote_ignores_expiry:
  assumes "map_of (vm_proposals vm) i = Some p" and "pr_state p = PS_Pending"
    and "pr_type p = PT_Add" and "pr_expires_at p \<le> blk"
    and "vm_is_validator vm a" and "a \<notin> set (pr_votes_for p) \<union> set (pr_votes_against p)"
    and "quorum_threshold vm = Some q" and "q \<le> Suc (length (pr_votes_for p))"
  shows "\<exists>vm'. vote i a True blk vm = Some (VR_ValidatorAdded (pr_target p), vm') \<and>
           vm_validators vm' = vm_validators vm @ [pr_target p]"
proof -
  let ?vm1 = "vm\<lparr>vm_proposals := hm_modify i (add_vote a True) (vm_proposals vm)\<rparr>"
  have "quorum_threshold ?vm1 = Some q"
    using assms(7) by (simp add: quorum_threshold_def)
  then show ?thesis
    using assms by (simp add: vote_def check_and_execute_def Let_def hm_modify_get add_vote_def)
qed

definition vm_example_ops :: "vm_op list" where
  "vm_example_ops =
     [VMPropose 1 PT_Add 10 0, VMPropose 1 PT_Add 10 0, VMVote 1 2 True 0, VMVote 2 2 True 0]"

theorem vm_vote_ignores_expiry_witness:
  "\<exists>vm'. vote 1 2 True 5000 (vm_step id (VMPropose 1 PT_Add 10 0) (vm_new [1, 2] vmc_default))
           = Some (VR_ValidatorAdded 10, vm') \<and> vm_validators vm' = [1, 2, 10]"
proof -
  let ?vm = "vm_step id (VMPropose 1 PT_Add 10 0) (vm_new [1, 2] vmc_default)"
  let ?p = "\<lparr> pr_id = 1, pr_type = PT_Add, pr_target = 10, pr_proposer = 1,
      pr_votes_for = [1], pr_votes_against = [], pr_proposed_at = 0,
      pr_expires_at = 1000, pr_state = PS_Pending \<rparr> :: validator_proposal"
  have vm: "?vm = \<lparr> vm_validators = [1, 2], vm_proposals = [(1, ?p)], vm_next_proposal_id = 2,
      vm_config = vmc_default, vm_history = [] \<rparr>"
    by (simp add: vm_step_def propose_def propose_guard_def vm_is_validator_def Let_def
        vm_new_def quorum_threshold_def vmc_default_def div_ceil_def)
  show ?thesis
    using vm_vote_ignores_expiry[of ?vm 1 ?p 5000 2 2] unfolding vm
    by (simp add: vm_is_validator_def quorum_threshold_def vmc_default_def div_ceil_def)
qed

text \<open>The limits of the configuration guard the creation of proposals, not their
  execution. Two concurrent Add proposals for one address, both approved, put that address
  into the set twice; with a maximum of two validators they also exceed the maximum; and two
  concurrent Remove proposals take the set below the minimum.\<close>

theorem vm_limits_not_enforced_at_execution:
  "vm_validators (fold (vm_step id) vm_example_ops (vm_new [1, 2] vmc_default)) = [1, 2, 10, 10] \<and>
   length (vm_validators (fold (vm_step id) vm_example_ops
     (vm_new [1, 2] (vmc_default\<lparr>vmc_max_validators := 3\<rparr>)))) = 4 \<and>
   vm_validators (fold (vm_step id)
     [VMPropose 1 PT_Remove 2 0, VMPropose 1 PT_Remove 3 0, VMVote 1 3 True 0, VMVote 2 3 True 0]
     (vm_new [1, 2, 3] (vmc_default\<lparr>vmc_min_validators := 2\<rparr>))) = [1]"
  by (simp_all add: vm_example_ops_def vm_step_def propose_def propose_guard_def vote_def
      check_and_execute_def vm_is_validator_def Let_def vm_new_def quorum_threshold_def
      vmc_default_def div_ceil_def hm_modify_def set_state_def add_vote_def)

end
