(* ===== verification/Primitives.thy ===== *)
theory Primitives
  imports Velo_Prelude
begin

text \<open>
  The chain's data: accounts, transactions, block headers and blocks
  (\<open>crates/primitives/src/account.rs\<close>, \<open>block.rs\<close>, \<open>transaction.rs\<close>,
  \<open>crypto.rs\<close>). Keccak, the secp256k1 operations of \<open>k256\<close>, \<open>serde_json\<close>,
  \<open>hex\<close> and the field encoders of \<open>alloy_rlp\<close> are third-party code: they are the
  fields of the record \<open>externs\<close>, which every definition that calls them takes as an
  argument. \<open>crypto_ok\<close>, \<open>hex_ok\<close> and \<open>rlp_ok\<close> state what their
  documentation promises; \<open>demo_externs\<close> shows that it can be had.
  Error messages keep their fixed part only.
\<close>

section \<open>Data\<close>

record account =
  ac_nonce :: u64
  ac_balance :: u256
  ac_code_hash :: b256
  ac_storage_root :: b256

definition account_default :: account where
  "account_default = \<lparr> ac_nonce = 0, ac_balance = 0, ac_code_hash = 0, ac_storage_root = 0 \<rparr>"

definition with_balance :: "u256 \<Rightarrow> account" where
  "with_balance b = account_default\<lparr>ac_balance := b\<rparr>"

definition account_is_empty :: "account \<Rightarrow> bool" where
  "account_is_empty a \<longleftrightarrow> ac_nonce a = 0 \<and> ac_balance a = 0 \<and> ac_code_hash a = 0"

datatype tx_type = TX_Legacy | TX_AccessList | TX_DynamicFee | TX_GameAction

text \<open>The signed coordinates are kept as words of their width.\<close>

datatype game_action =
    GA_Move "64 word" "64 word" "64 word"
  | GA_Attack u64
  | GA_Interact u64
  | GA_PlaceBlock "32 word" "32 word" "32 word" u16
  | GA_BreakBlock "32 word" "32 word" "32 word"
  | GA_Craft u32
  | GA_Chat string
  | GA_Respawn

record transaction =
  tx_type :: tx_type
  tx_chain_id :: u64
  tx_nonce :: u64
  tx_gas_price :: "u128 option"
  tx_max_fee_per_gas :: "u128 option"
  tx_max_priority_fee_per_gas :: "u128 option"
  tx_gas_limit :: u64
  tx_to :: "address option"
  tx_amount :: u256
  tx_input :: bytes
  tx_game_action :: "game_action option"

record signature =
  sg_v :: u64
  sg_r :: u256
  sg_s :: u256

record signed_transaction =
  st_transaction :: transaction
  st_signature :: signature
  st_hash :: b256

record block_header =
  bh_parent_hash :: b256
  bh_ommers_hash :: b256
  bh_beneficiary :: address
  bh_state_root :: b256
  bh_transactions_root :: b256
  bh_receipts_root :: b256
  bh_game_state_root :: b256
  bh_logs_bloom :: "2048 word"
  bh_difficulty :: u256
  bh_number :: u64
  bh_gas_limit :: u64
  bh_gas_used :: u64
  bh_timestamp :: u64
  bh_game_tick :: u64
  bh_extra_data :: bytes
  bh_mix_hash :: b256
  bh_nonce :: b64
  bh_base_fee_per_gas :: "u64 option"

record block =
  bl_header :: block_header
  bl_transactions :: "signed_transaction list"

datatype primitives_error =
    PE_RlpError string
  | PE_SignatureError string
  | PE_HashMismatch string string
  | PE_InvalidBlock string
  | PE_InvalidTransaction string
  | PE_SerializationError string

record keypair =
  kp_secret :: bytes
  kp_address :: address

section \<open>Third-party code\<close>

record externs =
  x_keccak :: "bytes \<Rightarrow> b256"
  x_key_valid :: "bytes \<Rightarrow> bool"
  x_public_key :: "bytes \<Rightarrow> bytes"
  x_sign_prehash :: "bytes \<Rightarrow> b256 \<Rightarrow> (bytes \<times> u8) option"
  x_sig_valid :: "bytes \<Rightarrow> bool"
  x_recid_valid :: "u8 \<Rightarrow> bool"
  x_recover :: "b256 \<Rightarrow> bytes \<Rightarrow> u8 \<Rightarrow> bytes option"
  x_json_tx :: "transaction \<Rightarrow> bytes"
  x_json_sig :: "signature \<Rightarrow> bytes"
  x_hex_encode :: "bytes \<Rightarrow> string"
  x_hex_decode :: "string \<Rightarrow> bytes option"
  x_rlp_header :: "nat \<Rightarrow> bytes"
  x_rlp_length_of_length :: "nat \<Rightarrow> nat"
  x_rlp_b256 :: "b256 \<Rightarrow> bytes"
  x_rlp_address :: "address \<Rightarrow> bytes"
  x_rlp_bloom :: "2048 word \<Rightarrow> bytes"
  x_rlp_u256 :: "u256 \<Rightarrow> bytes"
  x_rlp_u64 :: "u64 \<Rightarrow> bytes"
  x_rlp_vec_u8 :: "bytes \<Rightarrow> bytes"
  x_rlp_b64 :: "b64 \<Rightarrow> bytes"
  x_len_b256 :: "b256 \<Rightarrow> nat"
  x_len_address :: "address \<Rightarrow> nat"
  x_len_bloom :: "2048 word \<Rightarrow> nat"
  x_len_u256 :: "u256 \<Rightarrow> nat"
  x_len_u64 :: "u64 \<Rightarrow> nat"
  x_len_vec_u8 :: "bytes \<Rightarrow> nat"
  x_len_b64 :: "b64 \<Rightarrow> nat"

text \<open>
  \<open>k256\<close>: a signature made with a key is 64 bytes that parse, its recovery id is valid
  and below 27, and recovery returns the public key of the signer; hashes are 32 bytes.
\<close>

definition crypto_ok :: "externs \<Rightarrow> bool" where
  "crypto_ok X \<longleftrightarrow>
     (\<forall>k h sig v. x_key_valid X k \<longrightarrow> x_sign_prehash X k h = Some (sig, v) \<longrightarrow>
        length sig = 64 \<and> x_sig_valid X sig \<and> v < 27 \<and> x_recid_valid X v \<and>
        x_recover X h sig v = Some (x_public_key X k))"

definition hex_ok :: "externs \<Rightarrow> bool" where
  "hex_ok X \<longleftrightarrow> (\<forall>bs. x_hex_decode X (x_hex_encode X bs) = Some bs)"

text \<open>\<open>alloy_rlp\<close>: every encoding is self-delimiting, and \<open>length()\<close> is its length.\<close>

definition self_delimiting :: "('a \<Rightarrow> bytes) \<Rightarrow> bool" where
  "self_delimiting enc \<longleftrightarrow> (\<forall>x y a b. enc x @ a = enc y @ b \<longrightarrow> x = y \<and> a = b)"

definition rlp_ok :: "externs \<Rightarrow> bool" where
  "rlp_ok X \<longleftrightarrow>
     self_delimiting (x_rlp_header X) \<and> self_delimiting (x_rlp_b256 X) \<and>
     self_delimiting (x_rlp_address X) \<and> self_delimiting (x_rlp_bloom X) \<and>
     self_delimiting (x_rlp_u256 X) \<and> self_delimiting (x_rlp_u64 X) \<and>
     self_delimiting (x_rlp_vec_u8 X) \<and> self_delimiting (x_rlp_b64 X) \<and>
     (\<forall>n. length (x_rlp_header X n) = x_rlp_length_of_length X n) \<and>
     (\<forall>w. length (x_rlp_b256 X w) = x_len_b256 X w) \<and>
     (\<forall>w. length (x_rlp_address X w) = x_len_address X w) \<and>
     (\<forall>w. length (x_rlp_bloom X w) = x_len_bloom X w) \<and>
     (\<forall>w. length (x_rlp_u256 X w) = x_len_u256 X w) \<and>
     (\<forall>w. length (x_rlp_u64 X w) = x_len_u64 X w) \<and>
     (\<forall>w. length (x_rlp_vec_u8 X w) = x_len_vec_u8 X w) \<and>
     (\<forall>w. length (x_rlp_b64 X w) = x_len_b64 X w)"

section \<open>Keys and signatures (\<open>crypto.rs\<close>)\<close>

definition public_key_to_address :: "externs \<Rightarrow> bytes \<Rightarrow> address" where
  "public_key_to_address X key = ucast (x_keccak X (drop 1 key))"

definition from_secret_key :: "externs \<Rightarrow> bytes \<Rightarrow> primitives_error + keypair" where
  "from_secret_key X secret =
     (if x_key_valid X secret
      then Inr \<lparr> kp_secret = secret, kp_address = public_key_to_address X (x_public_key X secret) \<rparr>
      else Inl (PE_SignatureError ''Invalid secret key''))"

definition strip_0x :: "string \<Rightarrow> string" where
  "strip_0x s = (if take 2 s = ''0x'' then drop 2 s else s)"

definition from_hex :: "externs \<Rightarrow> string \<Rightarrow> primitives_error + keypair" where
  "from_hex X s =
     (case x_hex_decode X (strip_0x s) of
        None \<Rightarrow> Inl (PE_SignatureError ''Invalid hex'')
      | Some bs \<Rightarrow>
          if length bs \<noteq> 32 then Inl (PE_SignatureError ''Secret key must be 32 bytes'')
          else from_secret_key X bs)"

definition sign_hash :: "externs \<Rightarrow> keypair \<Rightarrow> b256 \<Rightarrow> primitives_error + (bytes \<times> u8)" where
  "sign_hash X kp h =
     (case x_sign_prehash X (kp_secret kp) h of
        None \<Rightarrow> Inl (PE_SignatureError ''Signing failed'')
      | Some sv \<Rightarrow> Inr sv)"

text \<open>The recovery id is the low byte of \<open>v\<close> or of \<open>v - 27\<close> (\<open>as u8\<close>).\<close>

definition recover_signer :: "externs \<Rightarrow> b256 \<Rightarrow> u64 \<Rightarrow> bytes \<Rightarrow> bytes \<Rightarrow> primitives_error + address" where
  "recover_signer X h v r s =
     (let sig = r @ s in
      if \<not> x_sig_valid X sig then Inl (PE_SignatureError ''Invalid signature bytes'')
      else let recid = (ucast (if 27 \<le> v then v - 27 else v) :: u8) in
      if \<not> x_recid_valid X recid then Inl (PE_SignatureError ''Invalid recovery id'')
      else case x_recover X h sig recid of
             None \<Rightarrow> Inl (PE_SignatureError ''Recovery failed'')
           | Some key \<Rightarrow> Inr (public_key_to_address X key))"

text \<open>The keystore file: the JSON document \<open>save_keystore\<close> writes, as its fields.\<close>

record keystore =
  ks_address :: address
  ks_cipher :: string
  ks_ciphertext :: "string option"
  ks_version :: nat

definition xor_bytes :: "bytes \<Rightarrow> bytes \<Rightarrow> bytes" where
  "xor_bytes a b = map (\<lambda>(x, y). xor x y) (zip a b)"

definition save_keystore :: "externs \<Rightarrow> keypair \<Rightarrow> bytes \<Rightarrow> keystore" where
  "save_keystore X kp password =
     (let pw_hash = to_be_bytes 32 (x_keccak X password);
          encrypted = xor_bytes (kp_secret kp) pw_hash
      in \<lparr> ks_address = kp_address kp, ks_cipher = ''xor-keccak256'',
           ks_ciphertext = Some (x_hex_encode X encrypted), ks_version = 1 \<rparr>)"

definition load_keystore :: "externs \<Rightarrow> keystore \<Rightarrow> bytes \<Rightarrow> primitives_error + keypair" where
  "load_keystore X ks password =
     (case ks_ciphertext ks of
        None \<Rightarrow> Inl (PE_SignatureError ''Missing ciphertext'')
      | Some c \<Rightarrow>
     (case x_hex_decode X c of
        None \<Rightarrow> Inl (PE_SignatureError ''Decode ciphertext'')
      | Some encrypted \<Rightarrow>
          if length encrypted \<noteq> 32 then Inl (PE_SignatureError ''Invalid ciphertext length'')
          else let pw_hash = to_be_bytes 32 (x_keccak X password)
               in from_secret_key X (xor_bytes encrypted pw_hash)))"

section \<open>Transactions (\<open>transaction.rs\<close>)\<close>

definition signing_hash :: "externs \<Rightarrow> transaction \<Rightarrow> b256" where
  "signing_hash X tx = x_keccak X (x_json_tx X tx)"

definition tx_compute_hash :: "externs \<Rightarrow> transaction \<Rightarrow> signature \<Rightarrow> b256" where
  "tx_compute_hash X tx sg = x_keccak X (x_json_tx X tx @ x_json_sig X sg)"

definition signed_new :: "externs \<Rightarrow> transaction \<Rightarrow> signature \<Rightarrow> signed_transaction" where
  "signed_new X tx sg =
     \<lparr> st_transaction = tx, st_signature = sg, st_hash = tx_compute_hash X tx sg \<rparr>"

definition tx_sign :: "externs \<Rightarrow> keypair \<Rightarrow> transaction \<Rightarrow> primitives_error + signed_transaction" where
  "tx_sign X kp tx =
     (case sign_hash X kp (signing_hash X tx) of
        Inl e \<Rightarrow> Inl e
      | Inr (sig, recid) \<Rightarrow>
          let sg = \<lparr> sg_v = ucast recid, sg_r = from_be_bytes (take 32 sig),
                     sg_s = from_be_bytes (drop 32 sig) \<rparr>
          in Inr \<lparr> st_transaction = tx, st_signature = sg, st_hash = tx_compute_hash X tx sg \<rparr>)"

definition new_game_action :: "u64 \<Rightarrow> u64 \<Rightarrow> game_action \<Rightarrow> transaction" where
  "new_game_action chain_id nonce action =
     \<lparr> tx_type = TX_GameAction, tx_chain_id = chain_id, tx_nonce = nonce,
       tx_gas_price = Some 1000000000, tx_max_fee_per_gas = None,
       tx_max_priority_fee_per_gas = None, tx_gas_limit = 100000, tx_to = None,
       tx_amount = 0, tx_input = [], tx_game_action = Some action \<rparr>"

definition tx_sender :: "externs \<Rightarrow> signed_transaction \<Rightarrow> primitives_error + address" where
  "tx_sender X st =
     recover_signer X (signing_hash X (st_transaction st)) (sg_v (st_signature st))
       (to_be_bytes 32 (sg_r (st_signature st))) (to_be_bytes 32 (sg_s (st_signature st)))"

definition is_game_action :: "signed_transaction \<Rightarrow> bool" where
  "is_game_action st \<longleftrightarrow> tx_type (st_transaction st) = TX_GameAction"

definition st_game_action :: "signed_transaction \<Rightarrow> game_action option" where
  "st_game_action st = tx_game_action (st_transaction st)"

section \<open>Headers and blocks (\<open>block.rs\<close>)\<close>

definition rlp_payload_length :: "externs \<Rightarrow> block_header \<Rightarrow> nat" where
  "rlp_payload_length X h =
     x_len_b256 X (bh_parent_hash h) + x_len_b256 X (bh_ommers_hash h) +
     x_len_address X (bh_beneficiary h) + x_len_b256 X (bh_state_root h) +
     x_len_b256 X (bh_transactions_root h) + x_len_b256 X (bh_receipts_root h) +
     x_len_b256 X (bh_game_state_root h) + x_len_bloom X (bh_logs_bloom h) +
     x_len_u256 X (bh_difficulty h) + x_len_u64 X (bh_number h) +
     x_len_u64 X (bh_gas_limit h) + x_len_u64 X (bh_gas_used h) +
     x_len_u64 X (bh_timestamp h) + x_len_u64 X (bh_game_tick h) +
     x_len_vec_u8 X (bh_extra_data h) + x_len_b256 X (bh_mix_hash h) +
     x_len_b64 X (bh_nonce h) +
     (case bh_base_fee_per_gas h of None \<Rightarrow> 0 | Some v \<Rightarrow> x_len_u64 X v)"

definition header_payload :: "externs \<Rightarrow> block_header \<Rightarrow> bytes" where
  "header_payload X h =
     x_rlp_b256 X (bh_parent_hash h) @ x_rlp_b256 X (bh_ommers_hash h) @
     x_rlp_address X (bh_beneficiary h) @ x_rlp_b256 X (bh_state_root h) @
     x_rlp_b256 X (bh_transactions_root h) @ x_rlp_b256 X (bh_receipts_root h) @
     x_rlp_b256 X (bh_game_state_root h) @ x_rlp_bloom X (bh_logs_bloom h) @
     x_rlp_u256 X (bh_difficulty h) @ x_rlp_u64 X (bh_number h) @
     x_rlp_u64 X (bh_gas_limit h) @ x_rlp_u64 X (bh_gas_used h) @
     x_rlp_u64 X (bh_timestamp h) @ x_rlp_u64 X (bh_game_tick h) @
     x_rlp_vec_u8 X (bh_extra_data h) @ x_rlp_b256 X (bh_mix_hash h) @
     x_rlp_b64 X (bh_nonce h) @
     (case bh_base_fee_per_gas h of None \<Rightarrow> [] | Some v \<Rightarrow> x_rlp_u64 X v)"

definition header_encode :: "externs \<Rightarrow> block_header \<Rightarrow> bytes" where
  "header_encode X h = x_rlp_header X (rlp_payload_length X h) @ header_payload X h"

definition header_length :: "externs \<Rightarrow> block_header \<Rightarrow> nat" where
  "header_length X h =
     (let payload = rlp_payload_length X h in payload + x_rlp_length_of_length X payload)"

definition header_hash :: "externs \<Rightarrow> block_header \<Rightarrow> b256" where
  "header_hash X h = x_keccak X (header_encode X h)"

text \<open>\<open>DEFAULT_BLOCK_GAS_LIMIT\<close> is 30,000,000 (\<open>lib.rs\<close>).\<close>

definition DEFAULT_BLOCK_GAS_LIMIT :: u64 where
  "DEFAULT_BLOCK_GAS_LIMIT = 30000000"

definition header_genesis :: "b256 \<Rightarrow> block_header" where
  "header_genesis root =
     \<lparr> bh_parent_hash = 0, bh_ommers_hash = 0, bh_beneficiary = 0, bh_state_root = 0,
       bh_transactions_root = 0, bh_receipts_root = 0, bh_game_state_root = root,
       bh_logs_bloom = 0, bh_difficulty = 1, bh_number = 0,
       bh_gas_limit = DEFAULT_BLOCK_GAS_LIMIT, bh_gas_used = 0, bh_timestamp = 0,
       bh_game_tick = 0, bh_extra_data = [], bh_mix_hash = 0, bh_nonce = 0,
       bh_base_fee_per_gas = Some 1000000000 \<rparr>"

definition block_hash :: "externs \<Rightarrow> block \<Rightarrow> b256" where
  "block_hash X b = header_hash X (bl_header b)"

definition block_number :: "block \<Rightarrow> u64" where
  "block_number b = bh_number (bl_header b)"

definition tx_count :: "block \<Rightarrow> nat" where
  "tx_count b = length (bl_transactions b)"

definition block_new :: "block_header \<Rightarrow> signed_transaction list \<Rightarrow> block" where
  "block_new h txs = \<lparr> bl_header = h, bl_transactions = txs \<rparr>"

definition compute_transactions_root :: "externs \<Rightarrow> block \<Rightarrow> b256" where
  "compute_transactions_root X b =
     x_keccak X (concat (map (\<lambda>tx. to_be_bytes 32 (st_hash tx)) (bl_transactions b)))"

section \<open>A concrete instance of the third-party code\<close>

definition unary_bytes :: "bytes \<Rightarrow> bytes" where
  "unary_bytes bs = concat (map (\<lambda>b. [1, b]) bs) @ [0]"

definition demo_externs :: externs where
  "demo_externs = \<lparr>
     x_keccak = (\<lambda>bs. from_be_bytes bs),
     x_key_valid = (\<lambda>k. length k = 32),
     x_public_key = (\<lambda>k. 4 # k),
     x_sign_prehash = (\<lambda>k h. Some (k @ to_be_bytes 32 h, 1)),
     x_sig_valid = (\<lambda>s. length s = 64),
     x_recid_valid = (\<lambda>v. v < 4),
     x_recover = (\<lambda>h s v. if drop 32 s = to_be_bytes 32 h then Some (4 # take 32 s) else None),
     x_json_tx = (\<lambda>tx. to_be_bytes 8 (tx_nonce tx)),
     x_json_sig = (\<lambda>sg. to_be_bytes 8 (sg_v sg)),
     x_hex_encode = map (\<lambda>b. char_of (unat b)),
     x_hex_decode = (\<lambda>s. Some (map (\<lambda>c. of_nat (of_char c)) s)),
     x_rlp_header = (\<lambda>n. unary_bytes (replicate n 0)),
     x_rlp_length_of_length = (\<lambda>n. 2 * n + 1),
     x_rlp_b256 = to_be_bytes 32, x_rlp_address = to_be_bytes 20,
     x_rlp_bloom = to_be_bytes 256, x_rlp_u256 = to_be_bytes 32,
     x_rlp_u64 = to_be_bytes 8, x_rlp_vec_u8 = unary_bytes, x_rlp_b64 = to_be_bytes 8,
     x_len_b256 = (\<lambda>w. 32), x_len_address = (\<lambda>w. 20), x_len_bloom = (\<lambda>w. 256),
     x_len_u256 = (\<lambda>w. 32), x_len_u64 = (\<lambda>w. 8),
     x_len_vec_u8 = (\<lambda>bs. 2 * length bs + 1), x_len_b64 = (\<lambda>w. 8) \<rparr>"

lemma fixed_self_delimiting:
  assumes "LENGTH('a::len) \<le> 8 * n"
  shows "self_delimiting (to_be_bytes n :: 'a word \<Rightarrow> bytes)"
  unfolding self_delimiting_def
  by (metis append_eq_append_conv assms from_to_be_bytes to_be_bytes_length)

lemma unary_self_delimiting: "self_delimiting unary_bytes"
proof -
  have "xs = ys \<and> a = b" if "unary_bytes xs @ a = unary_bytes ys @ b" for xs ys a b
    using that
  proof (induction xs arbitrary: ys)
    case Nil
    then show ?case by (cases ys) (auto simp: unary_bytes_def)
  next
    case (Cons x xs)
    show ?case
    proof (cases ys)
      case Nil
      with Cons.prems show ?thesis by (simp add: unary_bytes_def)
    next
      case (Cons y ys')
      with Cons.prems Cons.IH[of ys'] show ?thesis by (simp add: unary_bytes_def)
    qed
  qed
  then show ?thesis unfolding self_delimiting_def by blast
qed

lemma unary_bytes_length: "length (unary_bytes bs) = 2 * length bs + 1"
  by (induction bs) (simp_all add: unary_bytes_def)

lemma replicate_self_delimiting: "self_delimiting (\<lambda>n. unary_bytes (replicate n 0))"
  using unary_self_delimiting unfolding self_delimiting_def
  by (metis length_replicate)

lemma demo_rlp_ok: "rlp_ok demo_externs"
  by (simp add: rlp_ok_def demo_externs_def fixed_self_delimiting unary_self_delimiting
      replicate_self_delimiting unary_bytes_length)

lemma demo_crypto_ok: "crypto_ok demo_externs"
  by (auto simp: crypto_ok_def demo_externs_def)

lemma demo_hex_ok: "hex_ok demo_externs"
proof -
  have "of_nat (unat b mod 256) = b" for b :: u8
  proof -
    have "unat b < 256" using unsigned_less[of b] by simp
    then show ?thesis by simp
  qed
  then have "map (\<lambda>c. of_nat (of_char c)) (map (\<lambda>b. char_of (unat b)) bs) = bs" for bs :: bytes
    by (induction bs) simp_all
  then show ?thesis by (simp add: hex_ok_def demo_externs_def)
qed

section \<open>Encoding of headers\<close>

lemma self_delimitingD:
  "self_delimiting enc \<Longrightarrow> enc x @ a = enc y @ b \<Longrightarrow> x = y \<and> a = b"
  unfolding self_delimiting_def by blast

lemma self_delimiting_nonempty:
  fixes enc :: "'a::len word \<Rightarrow> bytes" and x y :: "'a word"
  assumes "self_delimiting enc" and "x \<noteq> y"
  shows "enc z \<noteq> []"
proof
  assume z: "enc z = []"
  have w: "w = z" for w
    using self_delimitingD[OF assms(1), of z "enc w" w "[]"] z by simp
  have "x = z" and "y = z" by (rule w)+
  then show False using assms(2) by simp
qed

lemma rlp_ok_header:
  assumes "rlp_ok X"
  shows "self_delimiting (x_rlp_header X)" and "length (x_rlp_header X n) = x_rlp_length_of_length X n"
  using assms by (simp_all add: rlp_ok_def)

lemma header_payload_length:
  "rlp_ok X \<Longrightarrow> length (header_payload X h) = rlp_payload_length X h"
  by (simp add: rlp_ok_def header_payload_def rlp_payload_length_def split: option.split)

lemma base_fee_inj:
  assumes "self_delimiting enc"
    and "(case a of None \<Rightarrow> [] | Some v \<Rightarrow> enc v) = (case b of None \<Rightarrow> [] | Some v \<Rightarrow> enc (v::u64))"
  shows "a = b"
proof (cases a; cases b)
  fix v w assume "a = Some v" "b = Some w"
  then show ?thesis using assms(2) self_delimitingD[OF assms(1), of v "[]" w "[]"] by simp
next
  fix w assume ab: "a = None" "b = Some w"
  then show ?thesis using assms(2) self_delimiting_nonempty[OF assms(1), of 0 1 w] by simp
next
  fix w assume ab: "a = Some w" "b = None"
  then show ?thesis using assms(2) self_delimiting_nonempty[OF assms(1), of 0 1 w] by simp
qed simp

lemma header_payload_inj:
  assumes X: "rlp_ok X" and eq: "header_payload X g = header_payload X h"
  shows "g = h"
proof -
  have peel: "enc x @ p = enc y @ q \<longleftrightarrow> x = y \<and> p = q" if "self_delimiting enc"
    for enc :: "'b \<Rightarrow> bytes" and x y p q
    using self_delimitingD[OF that] by auto
  have p: "self_delimiting (x_rlp_b256 X)" "self_delimiting (x_rlp_address X)"
     "self_delimiting (x_rlp_bloom X)" "self_delimiting (x_rlp_u256 X)"
     "self_delimiting (x_rlp_u64 X)" "self_delimiting (x_rlp_vec_u8 X)"
     "self_delimiting (x_rlp_b64 X)"
    using X by (simp_all add: rlp_ok_def)
  note peels = p[THEN peel]
  show ?thesis
    using eq unfolding header_payload_def peels
    by (elim conjE)
      (rule block_header.equality; (assumption | erule base_fee_inj[OF p(5)] | simp))
qed

text \<open>C35. The RLP encoding of a block header is as long as \<open>length()\<close> announces, its list
  header carries the length of the payload that follows, and two headers with one encoding
  are equal: the hash of a block commits to every field of its header.\<close>

theorem header_encoding_faithful:
  assumes "rlp_ok X"
  shows "length (header_encode X h) = header_length X h
    \<and> header_encode X h = x_rlp_header X (length (header_payload X h)) @ header_payload X h
    \<and> (header_encode X g = header_encode X h \<longrightarrow> g = h)"
proof (intro conjI impI)
  show "length (header_encode X h) = header_length X h"
    using header_payload_length[OF assms, of h] rlp_ok_header(2)[OF assms]
    by (simp add: header_encode_def header_length_def Let_def)
  show "header_encode X h = x_rlp_header X (length (header_payload X h)) @ header_payload X h"
    by (simp add: header_encode_def header_payload_length[OF assms])
  assume "header_encode X g = header_encode X h"
  then have "header_payload X g = header_payload X h"
    using self_delimitingD[OF rlp_ok_header(1)[OF assms]]
    unfolding header_encode_def by blast
  then show "g = h" using header_payload_inj[OF assms] by simp
qed

theorem header_encoding_faithful_witness:
  "header_encode demo_externs (header_genesis 1) \<noteq> header_encode demo_externs (header_genesis 2)"
  using header_encoding_faithful[OF demo_rlp_ok, of "header_genesis 2" "header_genesis 1"]
  by (auto simp: header_genesis_def)

section \<open>Signatures\<close>

lemma from_secret_key_wf:
  "from_secret_key X s = Inr kp \<Longrightarrow>
   kp_secret kp = s \<and> x_key_valid X s \<and> kp_address kp = public_key_to_address X (x_public_key X s)"
  by (auto simp: from_secret_key_def split: if_splits)

lemma unat_ucast_u8: "unat (ucast (b :: u8) :: u64) = unat b"
proof -
  have "unat b < 2 ^ LENGTH(8)" by (rule unsigned_less)
  then have "unat b < 2 ^ 64" by simp
  then show ?thesis by (simp add: unsigned_ucast_eq take_bit_eq_mod)
qed

lemma sign_hash_recovers:
  assumes X: "crypto_ok X" and kp: "from_secret_key X s = Inr kp"
    and sg: "sign_hash X kp h = Inr (sig, recid)"
  shows "length sig = 64"
    and "recover_signer X h (ucast recid) (take 32 sig) (drop 32 sig) = Inr (kp_address kp)"
proof -
  have k: "x_key_valid X (kp_secret kp)" using from_secret_key_wf[OF kp] by simp
  have ok: "length sig = 64 \<and> x_sig_valid X sig \<and> recid < 27 \<and> x_recid_valid X recid
      \<and> x_recover X h sig recid = Some (x_public_key X (kp_secret kp))"
    using X k sg unfolding crypto_ok_def sign_hash_def by (auto split: option.splits)
  then show "length sig = 64" by blast
  have "unat (ucast recid :: u64) = unat recid" by (rule unat_ucast_u8)
  then have "\<not> (27 \<le> (ucast recid :: u64))"
    using ok by (simp add: word_le_nat_alt word_less_nat_alt)
  moreover have "ucast (ucast recid :: u64) = recid"
    by (rule bit_word_eqI) (simp add: bit_simps)
  ultimately show "recover_signer X h (ucast recid) (take 32 sig) (drop 32 sig) = Inr (kp_address kp)"
    using ok from_secret_key_wf[OF kp] by (simp add: recover_signer_def Let_def)
qed

lemma tx_sign_recovers:
  assumes "crypto_ok X" and "from_secret_key X s = Inr kp" and "tx_sign X kp tx = Inr st"
  shows "tx_sender X st = Inr (kp_address kp)
    \<and> st = signed_new X tx (st_signature st) \<and> sg_v (st_signature st) < 27"
proof -
  obtain sig recid where sh: "sign_hash X kp (signing_hash X tx) = Inr (sig, recid)"
    and st: "st = signed_new X tx \<lparr> sg_v = ucast recid, sg_r = from_be_bytes (take 32 sig),
                     sg_s = from_be_bytes (drop 32 sig) \<rparr>"
    using assms(3) by (auto simp: tx_sign_def signed_new_def Let_def split: sum.splits)
  have len: "length sig = 64" using sign_hash_recovers(1)[OF assms(1,2) sh] .
  then have "to_be_bytes 32 (from_be_bytes (take 32 sig) :: u256) = take 32 sig"
    and "to_be_bytes 32 (from_be_bytes (drop 32 sig) :: u256) = drop 32 sig"
    by (simp_all add: to_from_be_bytes)
  then have "tx_sender X st = Inr (kp_address kp)"
    using sign_hash_recovers(2)[OF assms(1,2) sh] st by (simp add: tx_sender_def signed_new_def)
  moreover have "recid < 27"
    using assms(1) from_secret_key_wf[OF assms(2)] sh
    unfolding crypto_ok_def sign_hash_def by (auto split: option.splits)
  then have "(ucast recid :: u64) < 27"
    by (simp add: word_less_nat_alt unat_ucast_u8)
  ultimately show ?thesis using st by (simp add: signed_new_def)
qed

text \<open>Whatever a key pair signs is recovered: the transaction that \<open>sign\<close> returns carries
  the transaction, the hash that \<open>SignedTransaction::new\<close> computes for it, and its sender is
  the address of the key pair.\<close>

theorem tx_sign_sender:
  assumes "crypto_ok X" and "from_secret_key X s = Inr kp" and "tx_sign X kp tx = Inr st"
  shows "tx_sender X st = Inr (kp_address kp)
    \<and> st = signed_new X tx (st_signature st) \<and> sg_v (st_signature st) < 27"
  by (rule tx_sign_recovers[OF assms])

definition demo_secret :: bytes where
  "demo_secret = replicate 31 0 @ [7]"

definition demo_keypair :: keypair where
  "demo_keypair = \<lparr> kp_secret = demo_secret,
     kp_address = public_key_to_address demo_externs (x_public_key demo_externs demo_secret) \<rparr>"

lemma demo_secret_length: "length demo_secret = 32"
  by (simp add: demo_secret_def)

lemma demo_keypair_ok: "from_secret_key demo_externs demo_secret = Inr demo_keypair"
  by (simp add: from_secret_key_def demo_keypair_def demo_secret_def demo_externs_def)

definition demo_signed :: "bytes \<Rightarrow> transaction \<Rightarrow> signed_transaction" where
  "demo_signed secret tx = signed_new demo_externs tx
     \<lparr> sg_v = 1, sg_r = from_be_bytes secret, sg_s = signing_hash demo_externs tx \<rparr>"

lemma demo_tx_sign:
  "length (kp_secret kp) = 32 \<Longrightarrow>
   tx_sign demo_externs kp tx = Inr (demo_signed (kp_secret kp) tx)"
proof -
  assume len: "length (kp_secret kp) = 32"
  have sp: "x_sign_prehash demo_externs k h = Some (k @ to_be_bytes 32 h, 1)" for k h
    by (simp add: demo_externs_def)
  show ?thesis
    using len by (simp add: tx_sign_def sign_hash_def demo_signed_def signed_new_def sp
        from_to_be_bytes Let_def)
qed

lemma demo_sender:
  assumes "length secret = 32"
  shows "tx_sender demo_externs (demo_signed secret tx)
    = Inr (public_key_to_address demo_externs (4 # secret))"
proof -
  have "to_be_bytes 32 (from_be_bytes secret :: u256) = secret"
    using assms by (simp add: to_from_be_bytes)
  moreover have "x_sig_valid demo_externs = (\<lambda>s. length s = 64)"
    and "x_recid_valid demo_externs = (\<lambda>v. v < 4)"
    and "x_recover demo_externs =
      (\<lambda>h s v. if drop 32 s = to_be_bytes 32 h then Some (4 # take 32 s) else None)"
    by (simp_all add: demo_externs_def)
  moreover have "\<not> 27 \<le> (1 :: u64)" by (simp add: word_le_nat_alt)
  ultimately show ?thesis
    using assms by (simp add: tx_sender_def demo_signed_def signed_new_def recover_signer_def Let_def)
qed

lemma demo_hash:
  "st_hash (demo_signed secret tx) = from_be_bytes (to_be_bytes 8 (tx_nonce tx) @ to_be_bytes 8 (1 :: u64))"
  by (simp add: demo_signed_def signed_new_def tx_compute_hash_def demo_externs_def)

theorem tx_sign_sender_witness:
  "tx_sender demo_externs (demo_signed demo_secret (new_game_action 27181 0 GA_Respawn))
     = Inr (kp_address demo_keypair)"
  using tx_sign_sender[OF demo_crypto_ok demo_keypair_ok, of "new_game_action 27181 0 GA_Respawn"]
  by (simp add: demo_tx_sign demo_keypair_def demo_secret_def)

text \<open>\<open>recover_signer\<close> keeps the low byte of the recovery id only, so a signature stays
  valid, for the same sender, when 283 is added to a recovery id below 27: anyone can turn a
  transaction into another one with a different hash.\<close>

theorem recovery_id_truncated:
  assumes "v < 27"
  shows "recover_signer X h (v + 283) r s = recover_signer X h v r s \<and> v + 283 \<noteq> v"
proof -
  have v: "unat v < 27" using assms by (simp add: word_less_nat_alt)
  have "unat (v + 283) = unat v + 283"
    using v by (simp add: unat_word_ariths)
  then have "27 \<le> v + 283" by (simp add: word_le_nat_alt)
  moreover have "\<not> 27 \<le> v" using assms by simp
  moreover have "(ucast (v + 283 - 27) :: u8) = ucast v"
  proof -
    have eq: "v + 283 - 27 = v + 256" by simp
    have "unat (v + 256) = unat v + 256" using v by (simp add: unat_word_ariths)
    then have "unat (ucast (v + 256) :: u8) = unat (ucast v :: u8)"
      by (simp add: unsigned_ucast_eq take_bit_eq_mod)
    then show ?thesis unfolding eq by (simp only: word_unat_eq_iff)
  qed
  ultimately show ?thesis by (simp add: recover_signer_def Let_def)
qed

theorem recovery_id_truncated_witness:
  "recover_signer demo_externs 0 284 demo_secret (replicate 32 0)
     = recover_signer demo_externs 0 1 demo_secret (replicate 32 0)"
  using recovery_id_truncated[of 1 demo_externs 0 demo_secret "replicate 32 0"] by simp

section \<open>Keystores\<close>

lemma xor_bytes_length [simp]: "length (xor_bytes a b) = min (length a) (length b)"
  by (simp add: xor_bytes_def)

lemma xor_bytes_cancel: "length a = length b \<Longrightarrow> xor_bytes (xor_bytes a b) b = a"
  by (induction a b rule: list_induct2) (simp_all add: xor_bytes_def xor.assoc)

text \<open>A key pair saved to a keystore is loaded back with the same password, and the file
  loads with another password as the key XOR both password hashes: nothing in the file tells
  a wrong password, whose result is another key pair whenever those 32 bytes are a key.\<close>

theorem keystore_roundtrip:
  assumes "hex_ok X" and "from_secret_key X s = Inr kp" and "length s = 32"
  shows "load_keystore X (save_keystore X kp pw) pw = Inr kp
    \<and> load_keystore X (save_keystore X kp pw) pw' =
        from_secret_key X (xor_bytes (xor_bytes s (to_be_bytes 32 (x_keccak X pw)))
                                     (to_be_bytes 32 (x_keccak X pw')))"
  using assms from_secret_key_wf[OF assms(2)]
  by (simp add: load_keystore_def save_keystore_def Let_def hex_ok_def xor_bytes_cancel)

theorem keystore_roundtrip_witness:
  "load_keystore demo_externs (save_keystore demo_externs demo_keypair [1]) [1] = Inr demo_keypair"
  using keystore_roundtrip[OF demo_hex_ok demo_keypair_ok, of "[1]" "[1]"]
  by (metis demo_secret_length)

end
