(* ===== verification/F32.thy ===== *)
theory F32
  imports Velo_Prelude
begin

text \<open>
  The \<open>f32\<close> arithmetic the game engine uses, on IEEE 754 bit patterns: addition,
  subtraction, multiplication, division, comparison, conversion of integers and literals, all
  rounded to nearest, ties to even. A NaN result is the canonical quiet NaN. \<open>cos\<close> and
  \<open>sin\<close> have no specified precision in Rust, so they are parameters where they are used.
\<close>

section \<open>Bit patterns and values\<close>

type_synonym f32 = "32 word"

datatype fval = FV_NaN | FV_Inf bool | FV_Fin bool int int

text \<open>\<open>FV_Fin s m e\<close> is \<open>m * 2 ^ e\<close>, negated when \<open>s\<close>.\<close>

definition f32_val :: "f32 \<Rightarrow> fval" where
  "f32_val x =
     (let n = uint x; s = (2 ^ 31 \<le> n); ex = (n div 2 ^ 23) mod 256; fr = n mod 2 ^ 23 in
      if ex = 255 then (if fr = 0 then FV_Inf s else FV_NaN)
      else if ex = 0 then FV_Fin s fr (- 149)
      else FV_Fin s (fr + 2 ^ 23) (ex - 150))"

definition f32_nan :: f32 where
  "f32_nan = 0x7FC00000"

definition sign_bit :: "bool \<Rightarrow> int" where
  "sign_bit s = (if s then 2 ^ 31 else 0)"

definition f32_inf :: "bool \<Rightarrow> f32" where
  "f32_inf s = of_int (sign_bit s + 255 * 2 ^ 23)"

fun bit_length :: "int \<Rightarrow> int" where
  "bit_length n = (if n \<le> 0 then 0 else 1 + bit_length (n div 2))"

declare bit_length.simps [simp del]

definition round_even :: "int \<Rightarrow> nat \<Rightarrow> int" where
  "round_even m sh =
     (let q = m div 2 ^ sh; r = 2 * (m mod 2 ^ sh) in
      if 2 ^ sh < r \<or> (r = 2 ^ sh \<and> odd q) then q + 1 else q)"

text \<open>The pattern nearest to \<open>m * 2 ^ e\<close>: 24 significant bits, exponent at least -149.\<close>

definition f32_round :: "bool \<Rightarrow> int \<Rightarrow> int \<Rightarrow> f32" where
  "f32_round s m e =
     (if m = 0 then of_int (sign_bit s)
      else let sh = max (bit_length m - 24) (- 149 - e);
               m' = (if sh \<le> 0 then m * 2 ^ nat (- sh) else round_even m (nat sh));
               bits = (e + sh + 149) * 2 ^ 23 + m'
           in if 255 * 2 ^ 23 \<le> bits then f32_inf s else of_int (sign_bit s + bits))"

section \<open>Operations\<close>

definition f32_neg :: "f32 \<Rightarrow> f32" where
  "f32_neg x = xor x 0x80000000"

definition signed_mant :: "bool \<Rightarrow> int \<Rightarrow> int \<Rightarrow> int \<Rightarrow> int" where
  "signed_mant s m e e0 = (if s then - 1 else 1) * m * 2 ^ nat (e - e0)"

definition f32_add :: "f32 \<Rightarrow> f32 \<Rightarrow> f32" where
  "f32_add x y =
     (case (f32_val x, f32_val y) of
        (FV_Fin s1 m1 e1, FV_Fin s2 m2 e2) \<Rightarrow>
          let e = min e1 e2; z = signed_mant s1 m1 e1 e + signed_mant s2 m2 e2 e in
          if z = 0 then of_int (sign_bit (s1 \<and> s2)) else f32_round (z < 0) \<bar>z\<bar> e
      | (FV_Inf s1, FV_Inf s2) \<Rightarrow> if s1 = s2 then f32_inf s1 else f32_nan
      | (FV_Inf s, FV_Fin _ _ _) \<Rightarrow> f32_inf s
      | (FV_Fin _ _ _, FV_Inf s) \<Rightarrow> f32_inf s
      | _ \<Rightarrow> f32_nan)"

definition f32_sub :: "f32 \<Rightarrow> f32 \<Rightarrow> f32" where
  "f32_sub x y = f32_add x (f32_neg y)"

definition f32_mul :: "f32 \<Rightarrow> f32 \<Rightarrow> f32" where
  "f32_mul x y =
     (case (f32_val x, f32_val y) of
        (FV_Fin s1 m1 e1, FV_Fin s2 m2 e2) \<Rightarrow> f32_round (s1 \<noteq> s2) (m1 * m2) (e1 + e2)
      | (FV_Inf s1, FV_Inf s2) \<Rightarrow> f32_inf (s1 \<noteq> s2)
      | (FV_Inf s1, FV_Fin s2 m _) \<Rightarrow> if m = 0 then f32_nan else f32_inf (s1 \<noteq> s2)
      | (FV_Fin s1 m _, FV_Inf s2) \<Rightarrow> if m = 0 then f32_nan else f32_inf (s1 \<noteq> s2)
      | _ \<Rightarrow> f32_nan)"

text \<open>Division keeps 64 quotient bits and a sticky bit, more than the rounding looks at.\<close>

definition f32_div :: "f32 \<Rightarrow> f32 \<Rightarrow> f32" where
  "f32_div x y =
     (case (f32_val x, f32_val y) of
        (FV_Fin s1 m1 e1, FV_Fin s2 m2 e2) \<Rightarrow>
          if m2 = 0 then (if m1 = 0 then f32_nan else f32_inf (s1 \<noteq> s2))
          else let n = m1 * 2 ^ 64; q = n div m2; sticky = (if n mod m2 = 0 then 0 else 1)
               in f32_round (s1 \<noteq> s2) (2 * q + sticky) (e1 - e2 - 65)
      | (FV_Inf s1, FV_Fin s2 _ _) \<Rightarrow> f32_inf (s1 \<noteq> s2)
      | (FV_Fin s1 _ _, FV_Inf s2) \<Rightarrow> of_int (sign_bit (s1 \<noteq> s2))
      | _ \<Rightarrow> f32_nan)"

definition f32_less :: "f32 \<Rightarrow> f32 \<Rightarrow> bool" where
  "f32_less x y =
     (case (f32_val x, f32_val y) of
        (FV_Fin s1 m1 e1, FV_Fin s2 m2 e2) \<Rightarrow>
          (let e = min e1 e2 in signed_mant s1 m1 e1 e < signed_mant s2 m2 e2 e)
      | (FV_Inf s1, FV_Inf s2) \<Rightarrow> s1 \<and> \<not> s2
      | (FV_Inf s, FV_Fin _ _ _) \<Rightarrow> s
      | (FV_Fin _ _ _, FV_Inf s) \<Rightarrow> \<not> s
      | _ \<Rightarrow> False)"

definition f32_eq :: "f32 \<Rightarrow> f32 \<Rightarrow> bool" where
  "f32_eq x y \<longleftrightarrow> f32_val x \<noteq> FV_NaN \<and> f32_val y \<noteq> FV_NaN \<and> \<not> f32_less x y \<and> \<not> f32_less y x"

definition f32_le :: "f32 \<Rightarrow> f32 \<Rightarrow> bool" where
  "f32_le x y \<longleftrightarrow> f32_less x y \<or> f32_eq x y"

text \<open>\<open>as f32\<close> of an integer, and a decimal literal \<open>n / 10 ^ k\<close>.\<close>

definition f32_of_int :: "int \<Rightarrow> f32" where
  "f32_of_int z = f32_round (z < 0) \<bar>z\<bar> 0"

definition f32_lit :: "int \<Rightarrow> nat \<Rightarrow> f32" where
  "f32_lit z k =
     (let n = \<bar>z\<bar> * 2 ^ 128; d = 10 ^ k; q = n div d; sticky = (if n mod d = 0 then 0 else 1)
      in f32_round (z < 0) (2 * q + sticky) (- 129))"

text \<open>The square root takes an even exponent and at least 64 significant bits.\<close>

fun isqrt :: "int \<Rightarrow> int" where
  "isqrt n =
     (if n \<le> 0 then 0
      else let r = 2 * isqrt (n div 4) in if (r + 1) * (r + 1) \<le> n then r + 1 else r)"

declare isqrt.simps [simp del]

definition f32_sqrt :: "f32 \<Rightarrow> f32" where
  "f32_sqrt x =
     (case f32_val x of
        FV_Fin s m e \<Rightarrow>
          if m = 0 then x
          else if s then f32_nan
          else let m1 = (if even e then m else 2 * m); e1 = (if even e then e else e - 1);
                   n = m1 * 2 ^ 64; q = isqrt n; sticky = (if q * q = n then 0 else 1)
               in f32_round False (2 * q + sticky) (e1 div 2 - 33)
      | FV_Inf False \<Rightarrow> x
      | _ \<Rightarrow> f32_nan)"

lemma isqrt_floor:
  "0 \<le> n \<Longrightarrow> 0 \<le> isqrt n \<and> isqrt n * isqrt n \<le> n \<and> n < (isqrt n + 1) * (isqrt n + 1)"
proof (induction n rule: isqrt.induct)
  case (1 n)
  show ?case
  proof (cases "n \<le> 0")
    case True
    then have "n = 0" "isqrt n = 0" using "1.prems" isqrt.simps[of n] by simp_all
    then show ?thesis by simp
  next
    case False
    let ?r = "isqrt (n div 4)"
    have ih: "0 \<le> ?r" "?r * ?r \<le> n div 4" "n div 4 < (?r + 1) * (?r + 1)"
      using "1.IH" False by simp_all
    then have "4 * (?r * ?r) \<le> n" "n < 4 * ((?r + 1) * (?r + 1))" by linarith+
    then have "(2 * ?r) * (2 * ?r) \<le> n" "n < (2 * ?r + 2) * (2 * ?r + 2)"
      by (simp_all add: algebra_simps)
    then show ?thesis
      using ih(1) False by (auto simp: isqrt.simps[of n] Let_def algebra_simps)
  qed
qed

text \<open>\<open>floor\<close>, \<open>ceil\<close>, \<open>clamp\<close> and the saturating cast \<open>as u64\<close>. A number with a fraction is
  below $2^{24}$, so its floor and ceiling are exact.\<close>

definition f32_whole :: "bool \<Rightarrow> f32 \<Rightarrow> f32" where
  "f32_whole up x =
     (case f32_val x of
        FV_Fin s m e \<Rightarrow>
          if 0 \<le> e \<or> m = 0 then x
          else let q = m div 2 ^ nat (- e); frac = (m mod 2 ^ nat (- e) \<noteq> 0)
               in f32_round s (if frac \<and> s \<noteq> up then q + 1 else q) 0
      | _ \<Rightarrow> x)"

definition f32_floor :: "f32 \<Rightarrow> f32" where
  "f32_floor = f32_whole False"

definition f32_ceil :: "f32 \<Rightarrow> f32" where
  "f32_ceil = f32_whole True"

definition f32_clamp :: "f32 \<Rightarrow> f32 \<Rightarrow> f32 \<Rightarrow> f32" where
  "f32_clamp x lo hi = (if f32_less x lo then lo else if f32_less hi x then hi else x)"

definition f32_to_u64 :: "f32 \<Rightarrow> u64" where
  "f32_to_u64 x =
     (case f32_val x of
        FV_NaN \<Rightarrow> 0
      | FV_Inf s \<Rightarrow> if s then 0 else - 1
      | FV_Fin s m e \<Rightarrow>
          let z = (if 0 \<le> e then m * 2 ^ nat e else m div 2 ^ nat (- e))
          in if s then 0 else if 2 ^ 64 \<le> z then - 1 else of_int z)"

section \<open>Known patterns\<close>

lemma f32_known:
  "f32_of_int 1 = 0x3F800000" "f32_of_int (- 10) = 0xC1200000" "f32_lit 1 1 = 0x3DCCCCCD"
  "f32_lit 981 2 = 0x411CF5C3" "f32_lit 16 3 = 0x3C83126F" "f32_of_int 16777217 = 0x4B800000"
  "f32_add (f32_lit 1 1) (f32_lit 2 1) = 0x3E99999A"
  "f32_mul (f32_lit 3 1) (f32_lit 3 1) = 0x3DB851EC"
  "f32_div (f32_of_int 1) (f32_of_int 3) = 0x3EAAAAAB"
  "f32_sub (f32_of_int 100) (f32_of_int 10) = f32_of_int 90"
  "f32_sqrt (f32_of_int 2) = 0x3FB504F3" "f32_sqrt (f32_of_int 25) = f32_of_int 5"
  "f32_add 1 1 = 2" "f32_mul 0x7F7FFFFF 0x40000000 = f32_inf False"
  "f32_floor (f32_lit (- 25) 1) = f32_of_int (- 3)" "f32_ceil (f32_lit (- 25) 1) = f32_of_int (- 2)"
  "f32_ceil (f32_lit 25 1) = f32_of_int 3" "f32_floor (f32_lit 25 1) = f32_of_int 2" "f32_ceil (f32_lit (- 3) 1) = 0x80000000"
  "f32_to_u64 (f32_lit 299 2) = 2" "f32_to_u64 (f32_of_int (- 1)) = 0" "f32_to_u64 (f32_inf False) = 0xFFFFFFFFFFFFFFFF"
  by code_simp+

lemma f32_less_irrefl [simp]: "\<not> f32_less x x"
  by (simp add: f32_less_def split: fval.split)

lemma f32_less_asym: "f32_less x y \<Longrightarrow> \<not> f32_less y x"
  by (auto simp: f32_less_def min.commute Let_def split: fval.splits)

lemma f32_le_zero: "f32_le 0 0"
  by code_simp

end
