(* ===== verification/Genesis.thy ===== *)
theory Genesis
  imports Primitives F32
begin

text \<open>
  The genesis configuration, \<open>crates/primitives/src/genesis.rs\<close>: its data, presets, fork schedule
  and validation. \<open>extra_data\<close> and code are bytes; a spawn point is three \<open>f32\<close>.
\<close>

section \<open>Data\<close>

record consensus_config =
  gcc_engine :: string
  gcc_period :: u64
  gcc_epoch :: u64
  gcc_validators :: "address list"

record world_config =
  gwc_seed :: u64
  gwc_size_chunks :: "u32 \<times> u32"
  gwc_max_height :: u32
  gwc_spawn_point :: "f32 \<times> f32 \<times> f32"

record evm_config =
  gec_block_gas_limit :: u64
  gec_min_gas_price :: u64
  gec_max_code_size :: nat
  gec_eip1559 :: bool
  gec_precompile_range :: "u64 \<times> u64"

record fork_config =
  gfc_eip1559_block :: "u64 option"
  gfc_code_size_increase_block :: "u64 option"
  gfc_game_precompiles_block :: "u64 option"

record chain_config =
  gch_chain_id :: u64
  gch_block_time :: u64
  gch_tick_interval_ms :: u64
  gch_consensus :: consensus_config
  gch_world :: world_config
  gch_evm :: evm_config
  gch_forks :: fork_config

record genesis_account =
  gac_balance :: u256
  gac_code :: bytes
  gac_storage :: "(u256 \<times> u256) list"
  gac_nonce :: u64

record genesis =
  gen_config :: chain_config
  gen_alloc :: "(address \<times> genesis_account) list"
  gen_timestamp :: u64
  gen_extra_data :: bytes
  gen_gas_limit :: u64
  gen_difficulty :: u64

section \<open>Defaults and presets\<close>

definition default_precompiles :: "u64 \<times> u64" where
  "default_precompiles = (1, 9)"

definition default_block_gas_limit :: u64 where
  "default_block_gas_limit = DEFAULT_BLOCK_GAS_LIMIT"

definition default_max_code_size :: nat where
  "default_max_code_size = 24576"

definition evm_config_default :: evm_config where
  "evm_config_default =
     \<lparr> gec_block_gas_limit = DEFAULT_BLOCK_GAS_LIMIT, gec_min_gas_price = 0, gec_max_code_size = 24576,
       gec_eip1559 = False, gec_precompile_range = default_precompiles \<rparr>"

definition fork_config_default :: fork_config where
  "fork_config_default =
     \<lparr> gfc_eip1559_block = None, gfc_code_size_increase_block = None, gfc_game_precompiles_block = None \<rparr>"

definition fork_active :: "u64 option \<Rightarrow> u64 \<Rightarrow> bool" where
  "fork_active at n = (case at of None \<Rightarrow> False | Some b \<Rightarrow> b \<le> n)"

definition is_eip1559_active :: "fork_config \<Rightarrow> u64 \<Rightarrow> bool" where
  "is_eip1559_active f n = fork_active (gfc_eip1559_block f) n"

definition is_code_size_increase_active :: "fork_config \<Rightarrow> u64 \<Rightarrow> bool" where
  "is_code_size_increase_active f n = fork_active (gfc_code_size_increase_block f) n"

definition is_game_precompiles_active :: "fork_config \<Rightarrow> u64 \<Rightarrow> bool" where
  "is_game_precompiles_active f n = fork_active (gfc_game_precompiles_block f) n"

definition allocation :: "u256 \<Rightarrow> genesis_account" where
  "allocation b = \<lparr> gac_balance = b, gac_code = [], gac_storage = [], gac_nonce = 0 \<rparr>"

definition genesis_devnet :: "address \<Rightarrow> genesis" where
  "genesis_devnet v =
     \<lparr> gen_config = \<lparr> gch_chain_id = 27181, gch_block_time = 1, gch_tick_interval_ms = 200,
         gch_consensus = \<lparr> gcc_engine = ''poa'', gcc_period = 1, gcc_epoch = 30000, gcc_validators = [v] \<rparr>,
         gch_world = \<lparr> gwc_seed = 42, gwc_size_chunks = (64, 64), gwc_max_height = 256,
                       gwc_spawn_point = (0, 0, f32_of_int 64) \<rparr>,
         gch_evm = evm_config_default, gch_forks = fork_config_default \<rparr>,
       gen_alloc = AList.update v (allocation 1000000000000000000000000) [],
       gen_timestamp = 0, gen_extra_data = [], gen_gas_limit = DEFAULT_BLOCK_GAS_LIMIT, gen_difficulty = 1 \<rparr>"

definition genesis_testnet :: "address list \<Rightarrow> genesis" where
  "genesis_testnet vs =
     \<lparr> gen_config = \<lparr> gch_chain_id = 27182, gch_block_time = 2, gch_tick_interval_ms = 200,
         gch_consensus = \<lparr> gcc_engine = ''poa'', gcc_period = 2, gcc_epoch = 30000, gcc_validators = vs \<rparr>,
         gch_world = \<lparr> gwc_seed = 12345, gwc_size_chunks = (256, 256), gwc_max_height = 512,
                       gwc_spawn_point = (f32_of_int 128, f32_of_int 128, f32_of_int 64) \<rparr>,
         gch_evm = evm_config_default\<lparr>gec_eip1559 := True\<rparr>,
         gch_forks = fork_config_default\<lparr>gfc_eip1559_block := Some 0\<rparr> \<rparr>,
       gen_alloc = fold (\<lambda>v. AList.update v (allocation 100000000000000000000000)) vs [],
       gen_timestamp = 0, gen_extra_data = [], gen_gas_limit = DEFAULT_BLOCK_GAS_LIMIT, gen_difficulty = 1 \<rparr>"

definition genesis_default :: genesis where
  "genesis_default =
     \<lparr> gen_config = \<lparr> gch_chain_id = 27181, gch_block_time = 1, gch_tick_interval_ms = 200,
         gch_consensus = \<lparr> gcc_engine = ''poa'', gcc_period = 1, gcc_epoch = 30000, gcc_validators = [] \<rparr>,
         gch_world = \<lparr> gwc_seed = 42, gwc_size_chunks = (256, 256), gwc_max_height = 256,
                       gwc_spawn_point = (0, 0, f32_of_int 64) \<rparr>,
         gch_evm = evm_config_default, gch_forks = fork_config_default \<rparr>,
       gen_alloc = AList.update 0 (allocation 1000000000000000000000000) [],
       gen_timestamp = 0, gen_extra_data = [], gen_gas_limit = DEFAULT_BLOCK_GAS_LIMIT, gen_difficulty = 1 \<rparr>"

section \<open>Validation\<close>

datatype genesis_validation_error = GenesisValidationError string

definition genesis_validate :: "genesis \<Rightarrow> genesis_validation_error + unit" where
  "genesis_validate g =
     (let c = gen_config g in
      if gch_chain_id c = 0 then Inl (GenesisValidationError ''chain_id must be non-zero'')
      else if gch_block_time c = 0 then Inl (GenesisValidationError ''block_time must be non-zero'')
      else if gch_tick_interval_ms c = 0 then Inl (GenesisValidationError ''tick_interval_ms must be non-zero'')
      else if gcc_engine (gch_consensus c) \<noteq> ''poa''
      then Inl (GenesisValidationError (''unsupported consensus engine: '' @ gcc_engine (gch_consensus c)))
      else if gcc_period (gch_consensus c) = 0 then Inl (GenesisValidationError ''consensus period must be non-zero'')
      else if gen_gas_limit g = 0 then Inl (GenesisValidationError ''gas_limit must be non-zero'')
      else if fst (gwc_size_chunks (gch_world c)) = 0 \<or> snd (gwc_size_chunks (gch_world c)) = 0
      then Inl (GenesisValidationError ''world size_chunks must be non-zero'')
      else if gwc_max_height (gch_world c) = 0 then Inl (GenesisValidationError ''world max_height must be non-zero'')
      else if gec_block_gas_limit (gch_evm c) = 0 then Inl (GenesisValidationError ''evm block_gas_limit must be non-zero'')
      else if snd (gec_precompile_range (gch_evm c)) < fst (gec_precompile_range (gch_evm c))
      then Inl (GenesisValidationError ''evm precompile_range start must be <= end'')
      else Inr ())"

text \<open>Every preset validates, the testnet for any list of validators; its allocations are theirs.\<close>

lemma presets_validate:
  "genesis_validate genesis_default = Inr ()" "genesis_validate (genesis_devnet v) = Inr ()"
  "genesis_validate (genesis_testnet vs) = Inr ()"
  by (simp_all add: genesis_validate_def genesis_default_def genesis_devnet_def genesis_testnet_def
      evm_config_default_def default_precompiles_def DEFAULT_BLOCK_GAS_LIMIT_def)

lemma testnet_alloc:
  "map_of (gen_alloc (genesis_testnet vs)) a
     = (if a \<in> set vs then Some (allocation 100000000000000000000000) else None)"
proof -
  have "map_of (fold (\<lambda>v. AList.update v x) vs m) a = (if a \<in> set vs then Some x else map_of m a)"
    for x :: genesis_account and m
    by (induction vs arbitrary: m) (auto simp: hm_update_get)
  then show ?thesis by (simp add: genesis_testnet_def)
qed

lemma fork_active_mono: "fork_active at n \<Longrightarrow> n \<le> m \<Longrightarrow> fork_active at m"
  by (cases at) (auto simp: fork_active_def)

end
