(* ===== verification/Sync_Engine.thy ===== *)
theory Sync_Engine
  imports Velo_Prelude
begin

text \<open>
  The header-first block synchronisation engine, \<open>crates/network/src/sync.rs\<close>: targets,
  header and body requests, what is done with the answers, verification of the downloaded
  chain, time-outs. Block numbers, ticks and request ids are \<open>u64\<close> and wrap.
\<close>

section \<open>Data\<close>

type_synonym request_id = u64
type_synonym peer_id = string

datatype sync_state = SS_Synced | SS_DownloadingHeaders | SS_DownloadingBodies | SS_Verifying | SS_Stalled

record sync_target =
  stg_best_block :: u64
  stg_best_hash :: b256
  stg_peer_id :: peer_id

record header_request =
  hr_start :: u64
  hr_count :: u64
  hr_peer_id :: peer_id
  hr_created_tick :: u64
  hr_retries :: u32

record body_request =
  br_hashes :: "b256 list"
  br_peer_id :: peer_id
  br_created_tick :: u64
  br_retries :: u32

record synced_header =
  sh_number :: u64
  sh_hash :: b256
  sh_parent_hash :: b256
  sh_body_downloaded :: bool
  sh_verified :: bool

datatype sync_error =
    SE_NoPeers
  | SE_BrokenChain u64
  | SE_Timeout request_id
  | SE_DuplicateBlock u64
  | SE_InvalidHeader string
  | SE_MaxRetries request_id

datatype sync_result =
    SR_HeadersQueued u64
  | SR_BodiesMatched nat
  | SR_RangeVerified u64 u64
  | SR_Completed
  | SR_Error sync_error

record sync_config =
  sc_headers_per_request :: u64
  sc_bodies_per_request :: nat
  sc_request_timeout_ticks :: u64
  sc_max_retries :: u32
  sc_max_header_requests :: nat
  sc_max_body_requests :: nat

definition sc_default :: sync_config where
  "sc_default = \<lparr> sc_headers_per_request = 256, sc_bodies_per_request = 64,
     sc_request_timeout_ticks = 30, sc_max_retries = 3, sc_max_header_requests = 4,
     sc_max_body_requests = 8 \<rparr>"

record sync_engine =
  sy_state :: sync_state
  sy_local_head :: u64
  sy_target :: "sync_target option"
  sy_headers :: "(u64 \<times> synced_header) list"
  sy_header_requests :: "(request_id \<times> header_request) list"
  sy_body_requests :: "(request_id \<times> body_request) list"
  sy_next_request_id :: request_id
  sy_current_tick :: u64
  sy_config :: sync_config
  sy_import_ready :: "u64 list"
  sy_banned_peers :: "peer_id list"

section \<open>Operations\<close>

definition sy_new :: "u64 \<Rightarrow> sync_config \<Rightarrow> sync_engine" where
  "sy_new head cfg =
     \<lparr> sy_state = SS_Synced, sy_local_head = head, sy_target = None, sy_headers = [],
       sy_header_requests = [], sy_body_requests = [], sy_next_request_id = 1,
       sy_current_tick = 0, sy_config = cfg, sy_import_ready = [], sy_banned_peers = [] \<rparr>"

definition drain_import_ready :: "sync_engine \<Rightarrow> u64 list \<times> sync_engine" where
  "drain_import_ready s = (sy_import_ready s, s\<lparr>sy_import_ready := []\<rparr>)"

definition is_peer_banned :: "sync_engine \<Rightarrow> peer_id \<Rightarrow> bool" where
  "is_peer_banned s p \<longleftrightarrow> p \<in> set (sy_banned_peers s)"

definition ban_peer :: "peer_id \<Rightarrow> sync_engine \<Rightarrow> sync_engine" where
  "ban_peer p s = s\<lparr>sy_banned_peers := List.insert p (sy_banned_peers s)\<rparr>"

definition on_peer_status :: "peer_id \<Rightarrow> u64 \<Rightarrow> b256 \<Rightarrow> sync_engine \<Rightarrow> sync_engine" where
  "on_peer_status p best_block best_hash s =
     (if best_block \<le> sy_local_head s then s
      else if (case sy_target s of Some t \<Rightarrow> stg_best_block t < best_block | None \<Rightarrow> True)
      then s\<lparr>sy_target := Some \<lparr> stg_best_block = best_block, stg_best_hash = best_hash, stg_peer_id = p \<rparr>,
             sy_state := (if sy_state s = SS_Synced then SS_DownloadingHeaders else sy_state s)\<rparr>
      else s)"

definition update_local_head :: "u64 \<Rightarrow> sync_engine \<Rightarrow> sync_engine" where
  "update_local_head new_head s =
     (let s1 = s\<lparr>sy_local_head := new_head,
                 sy_headers := filter (\<lambda>(k, v). \<not> k \<le> new_head) (sy_headers s)\<rparr>
      in case sy_target s1 of
           Some t \<Rightarrow> if stg_best_block t \<le> new_head
                     then s1\<lparr>sy_state := SS_Synced, sy_target := None\<rparr> else s1
         | None \<Rightarrow> s1)"

definition key_or_zero :: "u64 option \<Rightarrow> u64" where
  "key_or_zero o1 = (case o1 of None \<Rightarrow> 0 | Some k \<Rightarrow> k)"

definition highest_requested :: "sync_engine \<Rightarrow> u64" where
  "highest_requested s =
     fold max (map (\<lambda>r. hr_start r + hr_count r) (hm_vals (sy_header_requests s))) 0"

definition next_start :: "sync_engine \<Rightarrow> u64" where
  "next_start s =
     max (max (highest_requested s) (key_or_zero (bt_last_key (sy_headers s)))) (sy_local_head s + 1)"

text \<open>The loop of \<open>poll_header_requests\<close>, \<open>max_new\<close> rounds at most.\<close>

fun issue_headers ::
  "nat \<Rightarrow> sync_target \<Rightarrow> u64 \<Rightarrow> sync_engine
     \<Rightarrow> (request_id \<times> u64 \<times> u64 \<times> peer_id option) list \<times> sync_engine" where
  "issue_headers 0 t start s = ([], s)"
| "issue_headers (Suc n) t start s =
     (if stg_best_block t < start then ([], s)
      else let count = min (sc_headers_per_request (sy_config s)) (stg_best_block t - start + 1);
               i = sy_next_request_id s;
               s1 = s\<lparr>sy_next_request_id := i + 1,
                      sy_header_requests := AList.update i
                        \<lparr> hr_start = start, hr_count = count, hr_peer_id = stg_peer_id t,
                          hr_created_tick = sy_current_tick s, hr_retries = 0 \<rparr>
                        (sy_header_requests s)\<rparr>;
               (rs, s2) = issue_headers n t (start + count) s1
           in ((i, start, count, Some (stg_peer_id t)) # rs, s2))"

definition poll_header_requests ::
  "sync_engine \<Rightarrow> (request_id \<times> u64 \<times> u64 \<times> peer_id option) list \<times> sync_engine" where
  "poll_header_requests s =
     (if sy_state s \<noteq> SS_DownloadingHeaders then ([], s)
      else case sy_target s of
             None \<Rightarrow> ([], s)
           | Some t \<Rightarrow>
               issue_headers (sc_max_header_requests (sy_config s) - length (sy_header_requests s))
                 t (next_start s) s)"

definition store_header ::
  "u64 \<times> b256 \<times> b256 \<Rightarrow> (u64 \<times> synced_header) list \<Rightarrow> (u64 \<times> synced_header) list" where
  "store_header h m =
     (case h of (number, hash, parent) \<Rightarrow>
        if map_of m number \<noteq> None then m
        else bt_insert number \<lparr> sh_number = number, sh_hash = hash, sh_parent_hash = parent,
               sh_body_downloaded = False, sh_verified = False \<rparr> m)"

definition on_headers_received ::
  "(u64 \<times> b256 \<times> b256) list \<Rightarrow> sync_engine \<Rightarrow> sync_result \<times> sync_engine" where
  "on_headers_received hs s =
     (case hs of
        [] \<Rightarrow> (SR_HeadersQueued 0, s)
      | (first_num, _) # _ \<Rightarrow>
          let s1 = s\<lparr>sy_header_requests :=
                       filter (\<lambda>(i, r). hr_start r \<noteq> first_num) (sy_header_requests s),
                     sy_headers := fold store_header hs (sy_headers s)\<rparr>;
              s2 = (case sy_target s1 of
                      None \<Rightarrow> s1
                    | Some t \<Rightarrow>
                        if stg_best_block t \<le> key_or_zero (bt_last_key (sy_headers s1))
                           \<and> sy_header_requests s1 = []
                        then s1\<lparr>sy_state := SS_DownloadingBodies\<rparr> else s1)
          in (SR_HeadersQueued (of_nat (length hs)), s2))"

text \<open>\<open>slice::chunks\<close>; the caller has excluded a chunk size of zero, on which it panics.\<close>

function chunks :: "nat \<Rightarrow> 'a list \<Rightarrow> 'a list list" where
  "chunks n xs = (if xs = [] \<or> n = 0 then [] else take n xs # chunks n (drop n xs))"
  by auto
termination by (relation "measure (\<lambda>(n, xs). length xs)") (auto simp: not_le)

declare chunks.simps [simp del]

fun issue_bodies ::
  "b256 list list \<Rightarrow> sync_engine
     \<Rightarrow> (request_id \<times> b256 list \<times> peer_id option) list \<times> sync_engine" where
  "issue_bodies [] s = ([], s)"
| "issue_bodies (c # cs) s =
     (let i = sy_next_request_id s;
          peer = map_option stg_peer_id (sy_target s);
          s1 = s\<lparr>sy_next_request_id := i + 1,
                 sy_body_requests := AList.update i
                   \<lparr> br_hashes = c, br_peer_id = (case peer of None \<Rightarrow> [] | Some p \<Rightarrow> p),
                     br_created_tick = sy_current_tick s, br_retries = 0 \<rparr> (sy_body_requests s)\<rparr>;
          (rs, s2) = issue_bodies cs s1
      in ((i, c, peer) # rs, s2))"

definition pending_bodies :: "sync_engine \<Rightarrow> b256 list" where
  "pending_bodies s =
     map sh_hash (take ((sc_max_body_requests (sy_config s) - length (sy_body_requests s))
                          * sc_bodies_per_request (sy_config s))
       (filter (\<lambda>h. \<not> sh_body_downloaded h) (hm_vals (sy_headers s))))"

definition poll_body_requests ::
  "sync_engine \<Rightarrow> ((request_id \<times> b256 list \<times> peer_id option) list \<times> sync_engine) option" where
  "poll_body_requests s =
     (if sy_state s \<noteq> SS_DownloadingBodies then Some ([], s)
      else if sc_bodies_per_request (sy_config s) = 0 then None
      else Some (issue_bodies (chunks (sc_bodies_per_request (sy_config s)) (pending_bodies s)) s))"

text \<open>The first header with the hash and no body yet gets its body.\<close>

fun mark_body :: "b256 \<Rightarrow> (u64 \<times> synced_header) list \<Rightarrow> nat \<times> (u64 \<times> synced_header) list" where
  "mark_body hash [] = (0, [])"
| "mark_body hash ((k, h) # m) =
     (if sh_hash h = hash \<and> \<not> sh_body_downloaded h
      then (1, (k, h\<lparr>sh_body_downloaded := True\<rparr>) # m)
      else (let (n, m') = mark_body hash m in (n, (k, h) # m')))"

fun mark_bodies :: "b256 list \<Rightarrow> (u64 \<times> synced_header) list \<Rightarrow> nat \<times> (u64 \<times> synced_header) list" where
  "mark_bodies [] m = (0, m)"
| "mark_bodies (h # hs) m =
     (let (n, m1) = mark_body h m; (k, m2) = mark_bodies hs m1 in (n + k, m2))"

definition on_bodies_received :: "b256 list \<Rightarrow> sync_engine \<Rightarrow> sync_result \<times> sync_engine" where
  "on_bodies_received hashes s =
     (let (matched, hdrs) = mark_bodies hashes (sy_headers s);
          s1 = s\<lparr>sy_headers := hdrs,
                 sy_body_requests := filter (\<lambda>(i, r). \<not> list_all (\<lambda>h. h \<in> set hashes) (br_hashes r))
                                        (sy_body_requests s)\<rparr>;
          all_downloaded = list_all sh_body_downloaded (hm_vals (sy_headers s1));
          s2 = (if all_downloaded \<and> sy_body_requests s1 = [] \<and> sy_headers s1 \<noteq> []
                then s1\<lparr>sy_state := SS_Verifying\<rparr> else s1)
      in (SR_BodiesMatched matched, s2))"

text \<open>The loop over windows of two: the block at which the chain breaks.\<close>

fun broken_at :: "(u64 \<times> synced_header) list \<Rightarrow> u64 option" where
  "broken_at ((a, ha) # (b, hb) # m) =
     (if b \<noteq> a + 1 then Some b
      else if sh_parent_hash hb \<noteq> sh_hash ha then Some b
      else broken_at ((b, hb) # m))"
| "broken_at m = None"

definition verify_chain :: "sync_engine \<Rightarrow> sync_result \<times> sync_engine" where
  "verify_chain s =
     (if sy_headers s = [] then (SR_Error SE_NoPeers, s)
      else let numbers = hm_keys (sy_headers s) in
        case broken_at (sy_headers s) of
          Some b \<Rightarrow> (SR_Error (SE_BrokenChain b), s)
        | None \<Rightarrow>
            (SR_RangeVerified (hd numbers) (last numbers),
             s\<lparr>sy_headers := map (\<lambda>(k, h). (k, h\<lparr>sh_verified := True\<rparr>)) (sy_headers s),
               sy_import_ready := sy_import_ready s @ numbers,
               sy_state := SS_Synced\<rparr>))"

definition timed_out :: "sync_engine \<Rightarrow> u64 \<Rightarrow> bool" where
  "timed_out s created \<longleftrightarrow> sc_request_timeout_ticks (sy_config s) < sy_current_tick s - created"

definition retry_header :: "request_id \<Rightarrow> sync_result list \<times> sync_engine \<Rightarrow> sync_result list \<times> sync_engine" where
  "retry_header i rs_s = (case rs_s of (rs, s) \<Rightarrow>
     (case map_of (sy_header_requests s) i of
        None \<Rightarrow> (rs, s)
      | Some req \<Rightarrow>
          let s1 = s\<lparr>sy_header_requests := AList.delete i (sy_header_requests s)\<rparr>;
              req1 = req\<lparr>hr_retries := hr_retries req + 1\<rparr>
          in if sc_max_retries (sy_config s) < hr_retries req1
             then (rs @ [SR_Error (SE_MaxRetries i)], s1)
             else (rs @ [SR_Error (SE_Timeout i)],
                   s1\<lparr>sy_next_request_id := sy_next_request_id s1 + 1,
                      sy_header_requests := AList.update (sy_next_request_id s1)
                        (req1\<lparr>hr_created_tick := sy_current_tick s1\<rparr>) (sy_header_requests s1)\<rparr>)))"

definition retry_body :: "request_id \<Rightarrow> sync_result list \<times> sync_engine \<Rightarrow> sync_result list \<times> sync_engine" where
  "retry_body i rs_s = (case rs_s of (rs, s) \<Rightarrow>
     (case map_of (sy_body_requests s) i of
        None \<Rightarrow> (rs, s)
      | Some req \<Rightarrow>
          let s1 = s\<lparr>sy_body_requests := AList.delete i (sy_body_requests s)\<rparr>;
              req1 = req\<lparr>br_retries := br_retries req + 1\<rparr>
          in if sc_max_retries (sy_config s) < br_retries req1
             then (rs @ [SR_Error (SE_MaxRetries i)], s1)
             else (rs @ [SR_Error (SE_Timeout i)],
                   s1\<lparr>sy_next_request_id := sy_next_request_id s1 + 1,
                      sy_body_requests := AList.update (sy_next_request_id s1)
                        (req1\<lparr>br_created_tick := sy_current_tick s1\<rparr>) (sy_body_requests s1)\<rparr>)))"

definition stalled :: "sync_engine \<Rightarrow> bool" where
  "stalled s \<longleftrightarrow> sy_state s \<noteq> SS_Synced \<and> sy_header_requests s = [] \<and> sy_body_requests s = []
     \<and> sy_headers s = [] \<and> sy_target s \<noteq> None"

definition sy_tick ::
  "(request_id list \<Rightarrow> request_id list) \<Rightarrow> sync_engine \<Rightarrow> sync_result list \<times> sync_engine" where
  "sy_tick ord s =
     (let s1 = s\<lparr>sy_current_tick := sy_current_tick s + 1\<rparr>;
          hs = ord (hm_keys (filter (\<lambda>(i, r). timed_out s1 (hr_created_tick r)) (sy_header_requests s1)));
          (rs1, s2) = fold retry_header hs ([], s1);
          bs = ord (hm_keys (filter (\<lambda>(i, r). timed_out s2 (br_created_tick r)) (sy_body_requests s2)));
          (rs2, s3) = fold retry_body bs (rs1, s2)
      in (rs2, if stalled s3 then s3\<lparr>sy_state := SS_Stalled\<rparr> else s3))"


section \<open>Invariant\<close>

datatype sy_op =
    SYDrain | SYBan peer_id | SYStatus peer_id u64 b256 | SYHead u64 | SYPollHeaders
  | SYHeaders "(u64 \<times> b256 \<times> b256) list" | SYPollBodies | SYBodies "b256 list" | SYVerify | SYTick

fun sy_step :: "(request_id list \<Rightarrow> request_id list) \<Rightarrow> sy_op \<Rightarrow> sync_engine \<Rightarrow> sync_engine option" where
  "sy_step ord SYDrain s = Some (snd (drain_import_ready s))"
| "sy_step ord (SYBan p) s = Some (ban_peer p s)"
| "sy_step ord (SYStatus p n h) s = Some (on_peer_status p n h s)"
| "sy_step ord (SYHead n) s = Some (update_local_head n s)"
| "sy_step ord SYPollHeaders s = Some (snd (poll_header_requests s))"
| "sy_step ord (SYHeaders hs) s = Some (snd (on_headers_received hs s))"
| "sy_step ord SYPollBodies s = map_option snd (poll_body_requests s)"
| "sy_step ord (SYBodies hs) s = Some (snd (on_bodies_received hs s))"
| "sy_step ord SYVerify s = Some (snd (verify_chain s))"
| "sy_step ord SYTick s = Some (snd (sy_tick ord s))"

text \<open>A run stops at the first panic.\<close>

definition sy_opt_step :: "(request_id list \<Rightarrow> request_id list) \<Rightarrow> sy_op \<Rightarrow> sync_engine option \<Rightarrow> sync_engine option" where
  "sy_opt_step ord x so = Option.bind so (sy_step ord x)"

definition headers_wf :: "(u64 \<times> synced_header) list \<Rightarrow> bool" where
  "headers_wf m \<longleftrightarrow> bt_wf m \<and> (\<forall>(k, h) \<in> set m. sh_number h = k)"

definition target_ahead :: "sync_engine \<Rightarrow> bool" where
  "target_ahead s \<longleftrightarrow> (\<forall>t. sy_target s = Some t \<longrightarrow> sy_local_head s < stg_best_block t)"

definition sy_inv :: "sync_engine \<Rightarrow> bool" where
  "sy_inv s \<longleftrightarrow> headers_wf (sy_headers s) \<and> hm_wf (sy_header_requests s)
     \<and> hm_wf (sy_body_requests s) \<and> target_ahead s"

lemma store_header_wf: "headers_wf m \<Longrightarrow> headers_wf (store_header h m)"
  unfolding headers_wf_def store_header_def
  by (auto simp: bt_insert_wf bt_insert_set simp del: map_of_eq_Some_iff split: prod.splits)

lemma store_headers_wf: "headers_wf m \<Longrightarrow> headers_wf (fold store_header hs m)"
  by (induction hs arbitrary: m) (simp_all add: store_header_wf)

lemma mark_body_keys: "mark_body x m = (n, m') \<Longrightarrow> hm_keys m' = hm_keys m"
  by (induction x m arbitrary: n m' rule: mark_body.induct)
    (auto split: if_splits prod.splits)

lemma mark_body_wf: "headers_wf m \<Longrightarrow> headers_wf (snd (mark_body x m))"
proof (induction x m rule: mark_body.induct)
  case (2 x k h m)
  obtain n m' where m': "mark_body x m = (n, m')" by force
  have "headers_wf m" using 2(2) by (simp add: headers_wf_def)
  with 2 m' mark_body_keys[OF m'] show ?case
    unfolding headers_wf_def by (auto simp flip: set_map simp del: map_of_eq_Some_iff)
qed simp

lemma mark_bodies_keys: "hm_keys (snd (mark_bodies hs m)) = hm_keys m"
proof (induction hs arbitrary: m)
  case (Cons h hs)
  obtain n m1 where "mark_body h m = (n, m1)" by force
  with Cons[of m1] mark_body_keys show ?case by (auto split: prod.splits)
qed simp

lemma mark_bodies_wf: "headers_wf m \<Longrightarrow> headers_wf (snd (mark_bodies hs m))"
proof (induction hs arbitrary: m)
  case (Cons h hs)
  obtain n m1 where m1: "mark_body h m = (n, m1)" by force
  obtain k m2 where m2: "mark_bodies hs m1 = (k, m2)" by force
  have "headers_wf m1" using mark_body_wf[of m h] Cons.prems m1 by simp
  then have "headers_wf m2" using Cons.IH[of m1] m2 by simp
  then show ?case using m1 m2 by simp
qed simp

lemma issue_headers_frame:
  "issue_headers n t st s = (rs, s') \<Longrightarrow> hm_wf (sy_header_requests s) \<Longrightarrow>
   hm_wf (sy_header_requests s') \<and> sy_headers s' = sy_headers s \<and> sy_target s' = sy_target s
   \<and> sy_local_head s' = sy_local_head s \<and> sy_body_requests s' = sy_body_requests s
   \<and> sy_state s' = sy_state s \<and> sy_config s' = sy_config s \<and> sy_current_tick s' = sy_current_tick s
   \<and> sy_banned_peers s' = sy_banned_peers s"
  by (induction n arbitrary: st s rs)
    (auto simp: Let_def hm_update_wf split: if_splits prod.splits)

lemma issue_bodies_frame:
  "issue_bodies cs s = (rs, s') \<Longrightarrow> hm_wf (sy_body_requests s) \<Longrightarrow>
   hm_wf (sy_body_requests s') \<and> sy_headers s' = sy_headers s \<and> sy_target s' = sy_target s
   \<and> sy_local_head s' = sy_local_head s \<and> sy_header_requests s' = sy_header_requests s
   \<and> sy_state s' = sy_state s \<and> sy_config s' = sy_config s \<and> sy_banned_peers s' = sy_banned_peers s"
  by (induction cs arbitrary: s rs)
    (auto simp: Let_def hm_update_wf split: prod.splits)

lemma retry_header_frame:
  "retry_header i (rs, s) = (rs', s') \<Longrightarrow> hm_wf (sy_header_requests s) \<Longrightarrow>
   hm_wf (sy_header_requests s') \<and> sy_headers s' = sy_headers s \<and> sy_target s' = sy_target s
   \<and> sy_local_head s' = sy_local_head s \<and> sy_body_requests s' = sy_body_requests s
   \<and> sy_state s' = sy_state s \<and> sy_config s' = sy_config s \<and> sy_current_tick s' = sy_current_tick s
   \<and> sy_banned_peers s' = sy_banned_peers s"
  by (auto simp: retry_header_def Let_def hm_update_wf hm_delete_wf split: if_splits option.splits)

lemma retry_body_frame:
  "retry_body i (rs, s) = (rs', s') \<Longrightarrow> hm_wf (sy_body_requests s) \<Longrightarrow>
   hm_wf (sy_body_requests s') \<and> sy_headers s' = sy_headers s \<and> sy_target s' = sy_target s
   \<and> sy_local_head s' = sy_local_head s \<and> sy_header_requests s' = sy_header_requests s
   \<and> sy_state s' = sy_state s \<and> sy_config s' = sy_config s \<and> sy_current_tick s' = sy_current_tick s
   \<and> sy_banned_peers s' = sy_banned_peers s"
  by (auto simp: retry_body_def Let_def hm_update_wf hm_delete_wf split: if_splits option.splits)

lemma retry_headers_frame:
  "fold retry_header is (rs, s) = (rs', s') \<Longrightarrow> hm_wf (sy_header_requests s) \<Longrightarrow>
   hm_wf (sy_header_requests s') \<and> sy_headers s' = sy_headers s \<and> sy_target s' = sy_target s
   \<and> sy_local_head s' = sy_local_head s \<and> sy_body_requests s' = sy_body_requests s
   \<and> sy_state s' = sy_state s \<and> sy_config s' = sy_config s \<and> sy_current_tick s' = sy_current_tick s
   \<and> sy_banned_peers s' = sy_banned_peers s"
proof (induction "is" arbitrary: rs s)
  case (Cons i "is")
  obtain rs1 s1 where s1: "retry_header i (rs, s) = (rs1, s1)" by force
  with Cons.IH[of rs1 s1] Cons.prems retry_header_frame[OF s1] show ?case by simp
qed simp

lemma retry_bodies_frame:
  "fold retry_body is (rs, s) = (rs', s') \<Longrightarrow> hm_wf (sy_body_requests s) \<Longrightarrow>
   hm_wf (sy_body_requests s') \<and> sy_headers s' = sy_headers s \<and> sy_target s' = sy_target s
   \<and> sy_local_head s' = sy_local_head s \<and> sy_header_requests s' = sy_header_requests s
   \<and> sy_state s' = sy_state s \<and> sy_config s' = sy_config s \<and> sy_current_tick s' = sy_current_tick s
   \<and> sy_banned_peers s' = sy_banned_peers s"
proof (induction "is" arbitrary: rs s)
  case (Cons i "is")
  obtain rs1 s1 where s1: "retry_body i (rs, s) = (rs1, s1)" by force
  with Cons.IH[of rs1 s1] Cons.prems retry_body_frame[OF s1] show ?case by simp
qed simp

text \<open>The phases of a tick, named.\<close>

lemma sy_tick_phases:
  assumes "sy_inv s"
  obtains rs1 s2 rs2 s3 where
    "fold retry_header (ord (hm_keys (filter (\<lambda>(i, r). timed_out s (hr_created_tick r - 1))
        (sy_header_requests s)))) ([], s\<lparr>sy_current_tick := sy_current_tick s + 1\<rparr>) = (rs1, s2)"
    "fold retry_body (ord (hm_keys (filter (\<lambda>(i, r). timed_out s2 (br_created_tick r))
        (sy_body_requests s2)))) (rs1, s2) = (rs2, s3)"
    "sy_tick ord s = (rs2, if stalled s3 then s3\<lparr>sy_state := SS_Stalled\<rparr> else s3)"
    "hm_wf (sy_header_requests s2)" "sy_body_requests s2 = sy_body_requests s"
    "hm_wf (sy_body_requests s3)" "sy_header_requests s3 = sy_header_requests s2"
    "sy_headers s3 = sy_headers s" "sy_target s3 = sy_target s" "sy_local_head s3 = sy_local_head s"
    "sy_config s3 = sy_config s" "sy_current_tick s3 = sy_current_tick s + 1"
    "sy_config s2 = sy_config s" "sy_current_tick s2 = sy_current_tick s + 1"
    "sy_state s3 = sy_state s" "sy_banned_peers s3 = sy_banned_peers s"
proof -
  let ?s1 = "s\<lparr>sy_current_tick := sy_current_tick s + 1\<rparr>"
  have t: "timed_out ?s1 c = timed_out s (c - 1)" for c
    by (simp add: timed_out_def algebra_simps)
  obtain rs1 s2 where s2: "fold retry_header (ord (hm_keys (filter (\<lambda>(i, r). timed_out s (hr_created_tick r - 1))
        (sy_header_requests s)))) ([], ?s1) = (rs1, s2)" by force
  obtain rs2 s3 where s3: "fold retry_body (ord (hm_keys (filter (\<lambda>(i, r). timed_out s2 (br_created_tick r))
        (sy_body_requests s2)))) (rs1, s2) = (rs2, s3)" by force
  have tick: "sy_tick ord s = (rs2, if stalled s3 then s3\<lparr>sy_state := SS_Stalled\<rparr> else s3)"
    using s2 s3 by (simp add: sy_tick_def Let_def t)
  have wf: "hm_wf (sy_header_requests ?s1)" "hm_wf (sy_body_requests s)"
    using assms by (simp_all add: sy_inv_def)
  note f2 = retry_headers_frame[OF s2 wf(1)]
  then have "hm_wf (sy_body_requests s2)" using wf(2) by simp
  note f3 = retry_bodies_frame[OF s3 this]
  show ?thesis
    using f2 f3 by (intro that[OF s2 s3 tick]) simp_all
qed

lemma update_local_head_inv: "sy_inv s \<Longrightarrow> sy_inv (update_local_head n s)"
  unfolding sy_inv_def update_local_head_def headers_wf_def target_ahead_def
  by (auto simp: Let_def bt_filter_wf split: option.splits)

lemma on_headers_received_inv:
  assumes "sy_inv s" shows "sy_inv (snd (on_headers_received hs s))"
proof (cases hs)
  case (Cons h hs')
  have "headers_wf (fold store_header hs (sy_headers s))"
    using assms store_headers_wf by (simp add: sy_inv_def)
  then show ?thesis
    using assms Cons unfolding sy_inv_def
    by (auto simp: on_headers_received_def target_ahead_def Let_def hm_filter_wf
        split: option.splits prod.splits)
qed (use assms in \<open>simp add: on_headers_received_def\<close>)

lemma on_bodies_received_inv:
  assumes "sy_inv s" shows "sy_inv (snd (on_bodies_received hs s))"
  using assms mark_bodies_wf[of "sy_headers s" hs]
  by (auto simp: on_bodies_received_def sy_inv_def target_ahead_def Let_def hm_filter_wf split: prod.splits)

lemma verify_chain_inv:
  assumes "sy_inv s" shows "sy_inv (snd (verify_chain s))"
proof -
  let ?f = "\<lambda>(k :: u64, h). (k, h\<lparr>sh_verified := True\<rparr>)"
  have keys: "hm_keys (map ?f m) = hm_keys m" for m
    by (induction m) auto
  have "headers_wf (map ?f (sy_headers s))"
    using assms unfolding sy_inv_def headers_wf_def keys by auto
  then show ?thesis
    using assms unfolding sy_inv_def by (auto simp: verify_chain_def target_ahead_def Let_def split: option.splits)
qed

lemma sy_tick_inv:
  assumes "sy_inv s" shows "sy_inv (snd (sy_tick ord s))"
  by (rule sy_tick_phases[OF assms, of ord])
    (use assms in \<open>auto simp: sy_inv_def target_ahead_def\<close>)

lemma poll_header_requests_inv:
  assumes "sy_inv s" shows "sy_inv (snd (poll_header_requests s))"
proof (cases "sy_state s = SS_DownloadingHeaders \<and> sy_target s \<noteq> None")
  case True
  then obtain t where t: "sy_target s = Some t" by auto
  obtain rs s' where s': "issue_headers (sc_max_header_requests (sy_config s)
      - length (sy_header_requests s)) t (next_start s) s = (rs, s')" by force
  have "hm_wf (sy_header_requests s)" using assms by (simp add: sy_inv_def)
  from issue_headers_frame[OF s' this] show ?thesis
    using True t s' assms by (simp add: poll_header_requests_def sy_inv_def target_ahead_def)
next
  case False
  then have "snd (poll_header_requests s) = s"
    by (auto simp: poll_header_requests_def split: option.splits)
  then show ?thesis using assms by simp
qed

lemma poll_body_requests_inv:
  assumes "sy_inv s" "poll_body_requests s = Some (rs, s')" shows "sy_inv s'"
  using assms issue_bodies_frame[of _ s rs s']
  by (auto simp: poll_body_requests_def sy_inv_def target_ahead_def split: if_splits)

interpretation sy_machine: op_machine "sy_opt_step ord" "\<lambda>so. pred_option sy_inv so" for ord
proof
  fix so x assume inv: "pred_option sy_inv so"
  show "pred_option sy_inv (sy_opt_step ord x so)"
  proof (cases so)
    case (Some s)
    then have s: "sy_inv s" using inv by simp
    show ?thesis
    proof (cases x)
      case SYPollBodies
      then show ?thesis using Some s poll_body_requests_inv[OF s]
        by (cases "poll_body_requests s") (auto simp: sy_opt_step_def)
    qed (use Some s in \<open>simp_all add: sy_opt_step_def update_local_head_inv on_headers_received_inv
        on_bodies_received_inv verify_chain_inv sy_tick_inv poll_header_requests_inv\<close>,
        auto simp: sy_inv_def drain_import_ready_def ban_peer_def on_peer_status_def target_ahead_def)
  qed (simp add: sy_opt_step_def)
qed


lemma sy_inv_new: "sy_inv (sy_new n cfg)"
  by (simp add: sy_inv_def sy_new_def headers_wf_def target_ahead_def)

definition sy_reaches ::
  "(request_id list \<Rightarrow> request_id list) \<Rightarrow> sync_config \<Rightarrow> u64 \<Rightarrow> sync_engine \<Rightarrow> bool" where
  "sy_reaches ord cfg head s \<longleftrightarrow>
     (\<exists>ops. fold (sy_opt_step ord) ops (Some (sy_new head cfg)) = Some s)"

lemma sy_reaches_inv: "sy_reaches ord cfg head s \<Longrightarrow> sy_inv s"
  using sy_machine.run_inv[of "Some (sy_new head cfg)" ord] sy_inv_new[of head cfg]
  unfolding sy_reaches_def by (metis option.pred_inject(2))

section \<open>Header requests\<close>

text \<open>The requests follow each other without gap or overlap and end at the target.\<close>

fun window :: "u64 \<Rightarrow> u64 \<Rightarrow> u64 \<Rightarrow> (request_id \<times> u64 \<times> u64 \<times> peer_id option) list \<Rightarrow> bool" where
  "window start best per [] \<longleftrightarrow> True"
| "window start best per ((i, st, c, p) # rs) \<longleftrightarrow>
     st = start \<and> st \<le> best \<and> 1 \<le> c \<and> c \<le> per \<and> unat st + unat c \<le> unat best + 1
     \<and> window (st + c) best per rs"

lemma count_bounds:
  fixes start best per :: u64
  assumes "start \<le> best" "1 \<le> start" "per \<noteq> 0"
  shows "1 \<le> min per (best - start + 1)" "min per (best - start + 1) \<le> per"
    and "unat start + unat (min per (best - start + 1)) \<le> unat best + 1"
proof -
  have d: "unat (best - start) = unat best - unat start"
    using assms(1) by (simp add: unat_sub word_le_nat_alt)
  have s1: "1 \<le> unat start" using assms(2) by (simp add: word_le_nat_alt)
  have "unat best < 2 ^ 64" using unsigned_less[of best] by simp
  moreover have "unat start \<le> unat best" using assms(1) by (simp add: word_le_nat_alt)
  ultimately have "unat best - unat start + 1 < 2 ^ 64" using s1 by linarith
  then have u: "unat (best - start + 1) = unat best - unat start + 1"
    using d by (simp add: unat_word_ariths)
  have p: "1 \<le> per" using assms(3) by (simp add: word_le_nat_alt unat_gt_0 Suc_le_eq)
  have "1 \<le> best - start + 1" using u by (simp add: word_le_nat_alt)
  with p show "1 \<le> min per (best - start + 1)" by simp
  show "min per (best - start + 1) \<le> per" by simp
  have "unat (min per (best - start + 1)) \<le> unat (best - start + 1)"
    by (simp add: word_le_nat_alt[symmetric])
  then show "unat start + unat (min per (best - start + 1)) \<le> unat best + 1"
    using u assms(1) by (simp add: word_le_nat_alt)
qed

lemma issue_headers_window:
  assumes "1 \<le> start" "sc_headers_per_request (sy_config s) \<noteq> 0"
    and "unat (stg_best_block t) + 1 < 2 ^ 64" and "issue_headers n t start s = (rs, s')"
  shows "window start (stg_best_block t) (sc_headers_per_request (sy_config s)) rs \<and> length rs \<le> n
    \<and> length (sy_header_requests s') \<le> length (sy_header_requests s) + length rs"
  using assms
proof (induction n arbitrary: start s rs)
  case (Suc n)
  show ?case
  proof (cases "stg_best_block t < start")
    case False
    let ?c = "min (sc_headers_per_request (sy_config s)) (stg_best_block t - start + 1)"
    let ?s1 = "s\<lparr>sy_next_request_id := sy_next_request_id s + 1,
                 sy_header_requests := AList.update (sy_next_request_id s)
                        \<lparr> hr_start = start, hr_count = ?c, hr_peer_id = stg_peer_id t,
                          hr_created_tick = sy_current_tick s, hr_retries = 0 \<rparr>
                        (sy_header_requests s)\<rparr>"
    obtain rs1 where rs: "rs = (sy_next_request_id s, start, ?c, Some (stg_peer_id t)) # rs1"
      and rec: "issue_headers n t (start + ?c) ?s1 = (rs1, s')"
      using Suc.prems(4) False by (auto simp: Let_def split: prod.splits)
    have c: "1 \<le> ?c" "?c \<le> sc_headers_per_request (sy_config s)"
        "unat start + unat ?c \<le> unat (stg_best_block t) + 1"
      using count_bounds[of start "stg_best_block t" "sc_headers_per_request (sy_config s)"]
        Suc.prems(1,2) False by auto
    then have "unat (start + ?c) = unat start + unat ?c"
      using Suc.prems(3) by (simp add: unat_word_ariths)
    then have "1 \<le> start + ?c" using Suc.prems(1) by (simp add: word_le_nat_alt)
    note IH = Suc.IH[OF this _ Suc.prems(3) rec]
    have "length (sy_header_requests ?s1) \<le> Suc (length (sy_header_requests s))"
      by (simp add: hm_update_length)
    then show ?thesis
      using IH Suc.prems(2) c False rs by auto
  qed (use Suc.prems in simp)
qed simp

text \<open>C29. In every state the engine reaches, the header requests it issues start at the first
  block not yet requested, follow each other without gap or overlap, ask for at least one and at
  most the configured number of headers, stay above the local head and end at the target, and
  they respect the limit of concurrent requests.\<close>

theorem poll_header_requests_window:
  assumes "sy_reaches ord cfg head s"
    and "sy_target s = Some t" and "sc_headers_per_request (sy_config s) \<noteq> 0"
    and "unat (stg_best_block t) + 1 < 2 ^ 64"
    and "poll_header_requests s = (rs, s')"
  shows "window (next_start s) (stg_best_block t) (sc_headers_per_request (sy_config s)) rs
    \<and> sy_local_head s < next_start s
    \<and> length (sy_header_requests s')
        \<le> max (length (sy_header_requests s)) (sc_max_header_requests (sy_config s))"
proof -
  have inv: "sy_inv s" using assms(1) by (rule sy_reaches_inv)
  then have "sy_local_head s < stg_best_block t" using assms(2) by (simp add: sy_inv_def target_ahead_def)
  then have "unat (sy_local_head s + 1) = Suc (unat (sy_local_head s))" by (rule unat_Suc_word)
  moreover have "sy_local_head s + 1 \<le> next_start s" by (simp add: next_start_def)
  ultimately have lt: "sy_local_head s < next_start s" and one: "1 \<le> next_start s"
    by (simp_all add: word_less_nat_alt word_le_nat_alt)
  show ?thesis
  proof (cases "sy_state s = SS_DownloadingHeaders")
    case True
    then have "issue_headers (sc_max_header_requests (sy_config s) - length (sy_header_requests s))
        t (next_start s) s = (rs, s')"
      using assms(2,5) by (simp add: poll_header_requests_def)
    from issue_headers_window[OF one assms(3,4) this] show ?thesis using lt by auto
  next
    case False
    then show ?thesis using assms(5) lt by (auto simp: poll_header_requests_def)
  qed
qed


section \<open>Verification of the downloaded chain\<close>

definition linked :: "u64 \<times> synced_header \<Rightarrow> u64 \<times> synced_header \<Rightarrow> bool" where
  "linked x y \<longleftrightarrow> fst y = fst x + 1 \<and> sh_parent_hash (snd y) = sh_hash (snd x)"

lemma broken_at_None:
  "broken_at m = None \<longleftrightarrow> (\<forall>i. Suc i < length m \<longrightarrow> linked (m ! i) (m ! Suc i))"
proof (induction m rule: broken_at.induct)
  case (1 a ha b hb m)
  have "(\<forall>i. Suc i < length ((a, ha) # (b, hb) # m) \<longrightarrow>
          linked (((a, ha) # (b, hb) # m) ! i) (((a, ha) # (b, hb) # m) ! Suc i))
    \<longleftrightarrow> linked (a, ha) (b, hb) \<and>
      (\<forall>i. Suc i < length ((b, hb) # m) \<longrightarrow> linked (((b, hb) # m) ! i) (((b, hb) # m) ! Suc i))"
    (is "(\<forall>i. ?P i) \<longleftrightarrow> ?Q \<and> (\<forall>i. ?R i)")
  proof
    assume P: "\<forall>i. ?P i"
    show "?Q \<and> (\<forall>i. ?R i)" using P[rule_format, of 0] P[rule_format, of "Suc _"] by auto
  next
    assume QR: "?Q \<and> (\<forall>i. ?R i)"
    show "\<forall>i. ?P i"
    proof
      fix i show "?P i" using QR by (cases i) auto
    qed
  qed
  with 1 show ?case by (auto simp: linked_def)
qed auto

text \<open>C13. \<open>verify_chain\<close> reports a verified range exactly when the downloaded headers are
  numbered consecutively and each names the hash of the one below as its parent; it then queues
  exactly the stored numbers for import. In every other case it reports an error and leaves the
  engine as it was.\<close>

theorem verify_chain_sound_complete:
  "((\<exists>a b. fst (verify_chain s) = SR_RangeVerified a b) \<longleftrightarrow>
      sy_headers s \<noteq> [] \<and>
      (\<forall>i. Suc i < length (sy_headers s) \<longrightarrow> linked (sy_headers s ! i) (sy_headers s ! Suc i)))
   \<and> (snd (verify_chain s) = s \<and> (\<exists>e. fst (verify_chain s) = SR_Error e) \<or>
      fst (verify_chain s) = SR_RangeVerified (hd (hm_keys (sy_headers s))) (last (hm_keys (sy_headers s)))
      \<and> sy_import_ready (snd (verify_chain s)) = sy_import_ready s @ hm_keys (sy_headers s)
      \<and> sy_state (snd (verify_chain s)) = SS_Synced)"
proof (cases "sy_headers s = []")
  case False
  then show ?thesis
    using broken_at_None[of "sy_headers s"]
    by (cases "broken_at (sy_headers s)") (simp_all add: verify_chain_def Let_def)
qed (simp add: verify_chain_def)

definition demo_sync :: "b256 \<Rightarrow> sync_engine" where
  "demo_sync parent = the (fold (sy_opt_step (\<lambda>xs. xs))
     [SYStatus ''p'' 2 22, SYPollHeaders, SYHeaders [(1, 11, 10), (2, 22, parent)], SYPollBodies,
      SYBodies [11, 22]] (Some (sy_new 0 sc_default)))"

theorem verify_chain_sound_complete_witness:
  "fst (verify_chain (demo_sync 11)) = SR_RangeVerified 1 2
   \<and> sy_import_ready (snd (verify_chain (demo_sync 11))) = [1, 2]"
proof -
  have f: "fst (verify_chain (demo_sync 11)) = SR_RangeVerified 1 2" by code_simp
  have k: "sy_import_ready (demo_sync 11) @ hm_keys (sy_headers (demo_sync 11)) = [1, 2]" by code_simp
  show ?thesis using verify_chain_sound_complete[of "demo_sync 11"] f k by auto
qed

section \<open>Time-outs\<close>

definition fresh_but :: "request_id list \<Rightarrow> sync_engine \<Rightarrow> bool" where
  "fresh_but is s \<longleftrightarrow> hm_wf (sy_header_requests s) \<and>
     (\<forall>(i, r) \<in> set (sy_header_requests s).
        (timed_out s (hr_created_tick r) \<longrightarrow> i \<in> set is)
        \<and> hr_retries r \<le> sc_max_retries (sy_config s))"

lemma retry_header_fresh:
  assumes "fresh_but (i # is) s" and "retry_header i (rs, s) = (rs', s')"
  shows "fresh_but is s' \<and> length (sy_header_requests s') \<le> length (sy_header_requests s)"
proof (cases "map_of (sy_header_requests s) i")
  case None
  then have "i \<notin> fst ` set (sy_header_requests s)" by (simp add: map_of_eq_None_iff)
  then have "fresh_but is s" using assms(1) by (force simp: fresh_but_def)
  then show ?thesis using assms(2) None by (simp add: retry_header_def)
next
  case (Some req)
  let ?d = "AList.delete i (sy_header_requests s)"
  have wf: "hm_wf ?d" using assms(1) by (simp add: fresh_but_def hm_delete_wf)
  have mem: "i \<in> set (hm_keys (sy_header_requests s))" using Some by (force dest: map_of_SomeD)
  have len: "Suc (length ?d) \<le> length (sy_header_requests s)"
  proof -
    have "length ?d = length (sy_header_requests s) - 1"
      using mem assms(1) by (simp add: fresh_but_def hm_delete_length)
    moreover have "sy_header_requests s \<noteq> []" using Some by auto
    ultimately show ?thesis by (cases "sy_header_requests s") auto
  qed
  have d: "(timed_out s (hr_created_tick r) \<longrightarrow> j \<in> set is) \<and> hr_retries r \<le> sc_max_retries (sy_config s)"
    if "(j, r) \<in> set ?d" for j r
    using that assms(1) by (auto simp: fresh_but_def hm_delete_set)
  show ?thesis
  proof (cases "sc_max_retries (sy_config s) < hr_retries req + 1")
    case True
    then have "s' = s\<lparr>sy_header_requests := ?d\<rparr>"
      using assms(2) Some by (simp add: retry_header_def Let_def)
    then show ?thesis using d wf len by (auto simp: fresh_but_def timed_out_def)
  next
    case False
    let ?r = "req\<lparr>hr_retries := hr_retries req + 1, hr_created_tick := sy_current_tick s\<rparr>"
    have s': "s' = s\<lparr>sy_next_request_id := sy_next_request_id s + 1,
        sy_header_requests := AList.update (sy_next_request_id s) ?r ?d\<rparr>"
      using assms(2) Some False by (auto simp: retry_header_def Let_def)
    have "\<not> timed_out s (sy_current_tick s)" by (simp add: timed_out_def)
    moreover have "hr_retries req + 1 \<le> sc_max_retries (sy_config s)" using False by simp
    ultimately show ?thesis
      using d wf len hm_update_set[OF wf, of "sy_next_request_id s" ?r]
      by (auto simp: fresh_but_def timed_out_def s' hm_update_wf hm_update_length)
  qed
qed

lemma retry_headers_fresh:
  "fresh_but is s \<Longrightarrow> fold retry_header is (rs, s) = (rs', s') \<Longrightarrow>
   fresh_but [] s' \<and> length (sy_header_requests s') \<le> length (sy_header_requests s)"
proof (induction "is" arbitrary: rs s)
  case (Cons i "is")
  obtain rs1 s1 where s1: "retry_header i (rs, s) = (rs1, s1)" by force
  from retry_header_fresh[OF Cons.prems(1) s1] Cons.IH[of s1 rs1] Cons.prems(2) s1
  show ?case by simp
qed simp

text \<open>After a tick no header request is older than the time-out and none was retried more
  often than allowed, and the tick did not create requests: every overdue request was renewed
  or given up.\<close>

theorem sy_tick_renews:
  assumes "iter_order ord" and "sy_inv s"
    and "list_all (\<lambda>(i, r). hr_retries r \<le> sc_max_retries (sy_config s)) (sy_header_requests s)"
    and "sy_tick ord s = (rs, s')"
  shows "list_all (\<lambda>(i, r). \<not> timed_out s' (hr_created_tick r)
      \<and> hr_retries r \<le> sc_max_retries (sy_config s')) (sy_header_requests s')
    \<and> length (sy_header_requests s') \<le> length (sy_header_requests s)
    \<and> sy_headers s' = sy_headers s"
proof (rule sy_tick_phases[OF assms(2), of ord])
  fix rs1 s2 rs2 s3
  let ?ids = "ord (hm_keys (filter (\<lambda>(i, r). timed_out s (hr_created_tick r - 1)) (sy_header_requests s)))"
  let ?s1 = "s\<lparr>sy_current_tick := sy_current_tick s + 1\<rparr>"
  assume f: "fold retry_header ?ids ([], ?s1) = (rs1, s2)"
    and t: "sy_tick ord s = (rs2, if stalled s3 then s3\<lparr>sy_state := SS_Stalled\<rparr> else s3)"
    and e: "sy_header_requests s3 = sy_header_requests s2" "sy_headers s3 = sy_headers s"
      "sy_config s3 = sy_config s" "sy_current_tick s3 = sy_current_tick s + 1"
      "sy_config s2 = sy_config s" "sy_current_tick s2 = sy_current_tick s + 1"
  have "timed_out ?s1 c = timed_out s (c - 1)" for c by (simp add: timed_out_def algebra_simps)
  then have "fresh_but ?ids ?s1"
    using assms(1-3) by (force simp: fresh_but_def sy_inv_def list_all_iff)
  from retry_headers_fresh[OF this f] show ?thesis
    using t assms(4) e by (auto simp: fresh_but_def list_all_iff timed_out_def)
qed


definition demo_requests :: sync_engine where
  "demo_requests = the (fold (sy_opt_step (\<lambda>xs. xs)) [SYStatus ''p'' 600 22, SYPollHeaders]
     (Some (sy_new 0 sc_default)))"

lemma demo_requests_reached: "sy_reaches (\<lambda>xs. xs) sc_default 0 demo_requests"
proof -
  have "fold (sy_opt_step (\<lambda>xs. xs)) [SYStatus ''p'' 600 22, SYPollHeaders] (Some (sy_new 0 sc_default)) \<noteq> None"
    by code_simp
  then show ?thesis unfolding sy_reaches_def demo_requests_def by (metis option.collapse)
qed

theorem sy_tick_renews_witness:
  "length (sy_header_requests (snd (sy_tick (\<lambda>xs. xs) demo_requests))) \<le> 3"
proof -
  have "list_all (\<lambda>(i, r). hr_retries r \<le> sc_max_retries (sy_config demo_requests)) (sy_header_requests demo_requests)"
    and "length (sy_header_requests demo_requests) = 3"
    by code_simp+
  then show ?thesis
    using sy_tick_renews[OF iter_order_id sy_reaches_inv[OF demo_requests_reached]]
    by (metis prod.collapse)
qed

definition demo_target :: sync_engine where
  "demo_target = on_peer_status ''p'' 600 22 (sy_new 0 sc_default)"

theorem poll_header_requests_window_witness:
  "window 1 600 256 (fst (poll_header_requests demo_target))
   \<and> length (fst (poll_header_requests demo_target)) = 3"
proof -
  have "fold (sy_opt_step (\<lambda>xs. xs)) [SYStatus ''p'' 600 22] (Some (sy_new 0 sc_default)) = Some demo_target"
    by (simp add: sy_opt_step_def demo_target_def)
  then have r: "sy_reaches (\<lambda>xs. xs) sc_default 0 demo_target" unfolding sy_reaches_def by blast
  have t: "sy_target demo_target = Some \<lparr> stg_best_block = 600, stg_best_hash = 22, stg_peer_id = ''p'' \<rparr>"
    "next_start demo_target = 1" "sc_headers_per_request (sy_config demo_target) = 256"
    "length (fst (poll_header_requests demo_target)) = 3"
    by code_simp+
  show ?thesis
    using poll_header_requests_window[OF r t(1) _ _ prod.collapse[symmetric]] t by simp
qed

section \<open>A bad header is never dropped\<close>

definition link_at :: "(u64 \<times> synced_header) list \<Rightarrow> u64 \<Rightarrow> (b256 \<times> b256) option" where
  "link_at m k = map_option (\<lambda>h. (sh_hash h, sh_parent_hash h)) (map_of m k)"

lemma link_at_store: "link_at m k = Some l \<Longrightarrow> link_at (store_header h m) k = Some l"
  by (auto simp: link_at_def store_header_def bt_insert_get split: prod.splits)

lemma link_at_stores: "link_at m k = Some l \<Longrightarrow> link_at (fold store_header hs m) k = Some l"
  by (induction hs arbitrary: m) (simp_all add: link_at_store)

lemma link_at_mark: "mark_body h m = (n, m') \<Longrightarrow> link_at m' k = link_at m k"
  by (induction h m arbitrary: n m' rule: mark_body.induct)
    (auto simp: link_at_def split: if_splits prod.splits)

lemma link_at_marks: "mark_bodies hs m = (n, m') \<Longrightarrow> link_at m' k = link_at m k"
proof (induction hs arbitrary: m n m')
  case (Cons h hs)
  obtain j m1 where m1: "mark_body h m = (j, m1)" by force
  obtain i m2 where m2: "mark_bodies hs m1 = (i, m2)" by force
  show ?case using Cons.IH[OF m2] link_at_mark[OF m1] Cons.prems m1 m2 by simp
qed simp

lemma link_at_verified: "link_at (map (\<lambda>(k, h). (k, h\<lparr>sh_verified := True\<rparr>)) m) k = link_at m k"
  by (induction m) (auto simp: link_at_def)

lemma link_at_step:
  assumes "sy_inv s" "link_at (sy_headers s) k = Some l" "sy_opt_step ord x (Some s) = Some s'"
    and "\<And>n. x \<noteq> SYHead n"
  shows "link_at (sy_headers s') k = Some l"
proof (cases x)
  case (SYHeaders hs)
  have "link_at (fold store_header hs (sy_headers s)) k = Some l"
    using assms(2) by (rule link_at_stores)
  moreover have "sy_headers s' = fold store_header hs (sy_headers s)"
    using assms(3) SYHeaders
    by (auto simp: sy_opt_step_def on_headers_received_def Let_def split: list.splits prod.splits option.splits)
  ultimately show ?thesis by simp
next
  case (SYBodies hs)
  obtain n m' where m': "mark_bodies hs (sy_headers s) = (n, m')" by force
  then have "sy_headers s' = m'"
    using assms(3) SYBodies by (auto simp: sy_opt_step_def on_bodies_received_def Let_def)
  then show ?thesis using link_at_marks[OF m'] assms(2) by simp
next
  case SYVerify
  then show ?thesis
    using assms(2,3)
    by (auto simp: sy_opt_step_def verify_chain_def Let_def link_at_verified split: if_splits option.splits)
next
  case SYPollHeaders
  have wf: "hm_wf (sy_header_requests s)" using assms(1) by (simp add: sy_inv_def)
  have "sy_headers s' = sy_headers s"
    using assms(3) SYPollHeaders issue_headers_frame[OF _ wf]
    by (auto simp: sy_opt_step_def poll_header_requests_def split: option.splits)
      (metis prod.collapse)
  then show ?thesis using assms(2) by simp
next
  case SYPollBodies
  have wf: "hm_wf (sy_body_requests s)" using assms(1) by (simp add: sy_inv_def)
  have "sy_headers s' = sy_headers s"
    using assms(3) SYPollBodies issue_bodies_frame[OF _ wf]
    by (auto simp: sy_opt_step_def poll_body_requests_def split: if_splits)
  then show ?thesis using assms(2) by simp
next
  case SYTick
  have "sy_headers (snd (sy_tick ord s)) = sy_headers s"
    by (rule sy_tick_phases[OF assms(1), of ord]) simp
  then show ?thesis using assms(2,3) SYTick by (simp add: sy_opt_step_def)
qed (use assms in \<open>auto simp: sy_opt_step_def drain_import_ready_def ban_peer_def on_peer_status_def\<close>)

lemma link_at_run:
  assumes "sy_inv s" "link_at (sy_headers s) k = Some l"
    and "list_all (\<lambda>x. \<forall>n. x \<noteq> SYHead n) xs" "fold (sy_opt_step ord) xs (Some s) = Some s'"
  shows "link_at (sy_headers s') k = Some l"
  using assms
proof (induction xs arbitrary: s)
  case (Cons x xs)
  obtain s1 where s1: "sy_opt_step ord x (Some s) = Some s1"
  proof (cases "sy_opt_step ord x (Some s)")
    case None
    have "fold (sy_opt_step ord) xs None = None"
      by (induction xs) (simp_all add: sy_opt_step_def)
    then show ?thesis using Cons.prems(4) None by simp
  qed blast
  have "sy_inv s1" using sy_machine.step_inv[of "Some s" ord x] Cons.prems(1) s1 by simp
  then show ?case
    using Cons.IH[of s1] link_at_step[OF Cons.prems(1,2) s1] Cons.prems(3,4) s1 by simp
qed simp

lemma broken_at_link:
  assumes "bt_wf m" "broken_at m = None" "(n, a) \<in> set m" "(n + 1, b) \<in> set m" "n < n + 1"
  shows "sh_parent_hash b = sh_hash a"
  using assms
proof (induction m rule: broken_at.induct)
  case (1 x hx y hy m)
  show ?case
  proof (cases "(n, a) = (x, hx)")
    case True
    then have "y = n + 1" "sh_parent_hash hy = sh_hash a" using 1(3) by (auto split: if_splits)
    moreover have "(n + 1, b) = (y, hy)" using 1(2,5,6) True calculation(1) by (auto simp: strict_sorted_iff)
    ultimately show ?thesis by simp
  next
    case False
    then have a: "(n, a) \<in> set ((y, hy) # m)" using 1(4) by auto
    then have "x < n" using 1(2) by auto
    then have "(n + 1, b) \<in> set ((y, hy) # m)" using 1(5,6) by auto
    then show ?thesis using 1 a by (auto split: if_splits)
  qed
qed auto

text \<open>Once a downloaded header does not name the hash of the header below it as its parent,
  no sequence of operations other than raising the local head lets the chain verify: headers are
  never replaced, so later good headers for these numbers are dropped as duplicates.\<close>

theorem bad_link_never_verifies:
  assumes "sy_inv s" and "map_of (sy_headers s) n = Some a" and "map_of (sy_headers s) (n + 1) = Some b"
    and "n < n + 1" and "sh_parent_hash b \<noteq> sh_hash a"
    and "list_all (\<lambda>x. \<forall>k. x \<noteq> SYHead k) xs" and "fold (sy_opt_step ord) xs (Some s) = Some s'"
  shows "\<exists>e. verify_chain s' = (SR_Error e, s')"
proof -
  have "link_at (sy_headers s') n = Some (sh_hash a, sh_parent_hash a)"
    and "link_at (sy_headers s') (n + 1) = Some (sh_hash b, sh_parent_hash b)"
    using link_at_run[OF assms(1) _ assms(6,7), of n "(sh_hash a, sh_parent_hash a)"]
      link_at_run[OF assms(1) _ assms(6,7), of "n + 1" "(sh_hash b, sh_parent_hash b)"]
    unfolding link_at_def assms(2,3) by simp_all
  then obtain a' b' where ab: "map_of (sy_headers s') n = Some a'" "sh_hash a' = sh_hash a"
    "map_of (sy_headers s') (n + 1) = Some b'" "sh_parent_hash b' = sh_parent_hash b"
    by (auto simp: link_at_def)
  have "sy_inv s'" using sy_machine.run_inv[of "Some s" ord xs] assms(1,7) by simp
  then have "bt_wf (sy_headers s')" by (simp add: sy_inv_def headers_wf_def)
  then have "broken_at (sy_headers s') \<noteq> None"
    using broken_at_link[of "sy_headers s'" n a' b'] ab assms(4,5) by (auto dest: map_of_SomeD)
  then show ?thesis by (auto simp: verify_chain_def Let_def)
qed

lemma demo_sync_inv: "sy_inv (demo_sync 99)"
proof -
  let ?r = "fold (sy_opt_step (\<lambda>xs. xs)) [SYStatus ''p'' 2 22, SYPollHeaders,
     SYHeaders [(1, 11, 10), (2, 22, 99)], SYPollBodies, SYBodies [11, 22]] (Some (sy_new 0 sc_default))"
  have "pred_option sy_inv ?r" by (rule sy_machine.run_inv) (simp add: sy_inv_new)
  moreover have "?r \<noteq> None" by code_simp
  ultimately show ?thesis by (auto simp: demo_sync_def)
qed

theorem bad_link_never_verifies_witness:
  "\<exists>e s'. fold (sy_opt_step (\<lambda>xs. xs)) [SYHeaders [(2, 22, 11)], SYVerify] (Some (demo_sync 99)) = Some s'
      \<and> verify_chain s' = (SR_Error e, s')"
proof -
  have m: "map_of (sy_headers (demo_sync 99)) 1 = Some \<lparr> sh_number = 1, sh_hash = 11,
      sh_parent_hash = 10, sh_body_downloaded = True, sh_verified = False \<rparr>"
    "map_of (sy_headers (demo_sync 99)) (1 + 1) = Some \<lparr> sh_number = 2, sh_hash = 22,
      sh_parent_hash = 99, sh_body_downloaded = True, sh_verified = False \<rparr>"
    by code_simp+
  obtain s' where s': "fold (sy_opt_step (\<lambda>xs. xs)) [SYHeaders [(2, 22, 11)], SYVerify]
      (Some (demo_sync 99)) = Some s'"
    by (simp add: sy_opt_step_def)
  have "\<exists>e. verify_chain s' = (SR_Error e, s')"
    by (rule bad_link_never_verifies[OF demo_sync_inv m _ _ _ s']) (simp_all add: word_less_nat_alt)
  with s' show ?thesis by blast
qed

section \<open>Bans are permanent\<close>

definition banned_set :: "sync_engine option \<Rightarrow> peer_id set" where
  "banned_set so = (case so of None \<Rightarrow> UNIV | Some s \<Rightarrow> set (sy_banned_peers s))"


interpretation sy_bans: mono_machine "sy_opt_step ord" "\<lambda>so. pred_option sy_inv so" banned_set for ord
proof
  fix so x assume inv: "pred_option sy_inv so"
  show "banned_set so \<subseteq> banned_set (sy_opt_step ord x so)"
  proof (cases so)
    case (Some s)
    then have s: "sy_inv s" using inv by simp
    then have wf: "hm_wf (sy_header_requests s)" "hm_wf (sy_body_requests s)" by (simp_all add: sy_inv_def)
    have ban: "sy_banned_peers (snd (sy_tick ord s)) = sy_banned_peers s"
      by (rule sy_tick_phases[OF s, of ord]) simp
    show ?thesis
    proof (cases x)
      case SYPollHeaders
      have "sy_banned_peers (snd (poll_header_requests s)) = sy_banned_peers s"
        using issue_headers_frame[OF _ wf(1)]
        by (auto simp: poll_header_requests_def split: option.splits) (metis prod.collapse)+
      then show ?thesis using Some SYPollHeaders by (simp add: sy_opt_step_def banned_set_def)
    next
      case SYPollBodies
      have "sy_banned_peers s' = sy_banned_peers s" if "poll_body_requests s = Some (rs, s')" for rs s'
        using issue_bodies_frame[OF _ wf(2), of _ rs s'] that
        by (auto simp: poll_body_requests_def split: if_splits)
      then show ?thesis using Some SYPollBodies
        by (cases "poll_body_requests s") (auto simp: sy_opt_step_def banned_set_def)
    qed (use Some ban in \<open>auto simp: sy_opt_step_def banned_set_def drain_import_ready_def ban_peer_def
        on_peer_status_def update_local_head_def on_headers_received_def on_bodies_received_def
        verify_chain_def Let_def split: option.splits list.splits prod.splits\<close>)
  qed (simp add: banned_set_def sy_opt_step_def)
qed

lemma bans_permanent:
  "sy_inv s \<Longrightarrow> is_peer_banned s p \<Longrightarrow> fold (sy_opt_step ord) xs (Some s) = Some s' \<Longrightarrow> is_peer_banned s' p"
  using sy_bans.run_mono[of "Some s" ord xs] by (auto simp: banned_set_def is_peer_banned_def)

end
