(* ===== verification/Peer_Manager.thy ===== *)
theory Peer_Manager
  imports Velo_Prelude
begin

text \<open>
  Peer scores, bans and connection limits, \<open>crates/network/src/peer_manager.rs\<close>. A score
  is an \<open>i64\<close>: an \<open>int\<close> with the wrap-around of its additions written out
  (\<open>i64_wrap\<close>). Iteration over the peer map is in an unspecified order, the parameter
  \<open>ord\<close>, where the result depends on it.
\<close>

section \<open>Data\<close>

definition i64_wrap :: "int \<Rightarrow> int" where
  "i64_wrap x = signed_take_bit 63 x"

definition INITIAL_SCORE :: int where "INITIAL_SCORE = 100"
definition DISCONNECT_THRESHOLD :: int where "DISCONNECT_THRESHOLD = - 50"
definition BAN_THRESHOLD :: int where "BAN_THRESHOLD = - 200"
definition MAX_SCORE :: int where "MAX_SCORE = 500"

datatype score_event =
    EV_ValidBlock | EV_ValidHeaders | EV_ValidBodies | EV_PongReceived | EV_InvalidBlock
  | EV_InvalidHeaders | EV_Timeout | EV_DuplicateData | EV_UnsolicitedData | EV_WrongChainId | EV_Decay

fun score_delta :: "score_event \<Rightarrow> int" where
  "score_delta EV_ValidBlock = 10"
| "score_delta EV_ValidHeaders = 5"
| "score_delta EV_ValidBodies = 5"
| "score_delta EV_PongReceived = 1"
| "score_delta EV_InvalidBlock = - 50"
| "score_delta EV_InvalidHeaders = - 30"
| "score_delta EV_Timeout = - 10"
| "score_delta EV_DuplicateData = - 5"
| "score_delta EV_UnsolicitedData = - 3"
| "score_delta EV_WrongChainId = - 100"
| "score_delta EV_Decay = 0"

datatype direction = DIR_Outbound | DIR_Inbound

record peer_info =
  pi_peer_id :: string
  pi_score :: int
  pi_direction :: direction
  pi_best_block :: u64
  pi_chain_id :: u64
  pi_connected_tick :: u64
  pi_last_activity_tick :: u64
  pi_good_messages :: u64
  pi_bad_messages :: u64
  pi_disconnect_pending :: bool

record peer_manager_config =
  pmc_max_peers :: nat
  pmc_max_inbound :: nat
  pmc_max_outbound :: nat
  pmc_idle_timeout_ticks :: u64
  pmc_decay_interval_ticks :: u64
  pmc_decay_amount :: int
  pmc_chain_id :: u64

definition pmc_default :: peer_manager_config where
  "pmc_default = \<lparr> pmc_max_peers = 50, pmc_max_inbound = 30, pmc_max_outbound = 20,
     pmc_idle_timeout_ticks = 300, pmc_decay_interval_ticks = 60, pmc_decay_amount = 5,
     pmc_chain_id = 27181 \<rparr>"

record peer_manager =
  pm_peers :: "(string \<times> peer_info) list"
  pm_banned :: "(string \<times> u64) list"
  pm_config :: peer_manager_config
  pm_current_tick :: u64
  pm_last_decay_tick :: u64

section \<open>Operations\<close>

definition pm_new :: "peer_manager_config \<Rightarrow> peer_manager" where
  "pm_new cfg = \<lparr> pm_peers = [], pm_banned = [], pm_config = cfg, pm_current_tick = 0,
     pm_last_decay_tick = 0 \<rparr>"

definition peer_count :: "peer_manager \<Rightarrow> nat" where
  "peer_count pm = length (pm_peers pm)"

definition direction_count :: "direction \<Rightarrow> (string \<times> peer_info) list \<Rightarrow> nat" where
  "direction_count d m = length (filter (\<lambda>(k, p). pi_direction p = d) m)"

definition inbound_count :: "peer_manager \<Rightarrow> nat" where
  "inbound_count pm = direction_count DIR_Inbound (pm_peers pm)"

definition outbound_count :: "peer_manager \<Rightarrow> nat" where
  "outbound_count pm = direction_count DIR_Outbound (pm_peers pm)"

definition is_connected :: "peer_manager \<Rightarrow> string \<Rightarrow> bool" where
  "is_connected pm i \<longleftrightarrow> map_of (pm_peers pm) i \<noteq> None"

definition is_banned :: "peer_manager \<Rightarrow> string \<Rightarrow> bool" where
  "is_banned pm i =
     (case map_of (pm_banned pm) i of
        Some expiry \<Rightarrow> expiry = 0 \<or> pm_current_tick pm < expiry
      | None \<Rightarrow> False)"

definition get_peer :: "peer_manager \<Rightarrow> string \<Rightarrow> peer_info option" where
  "get_peer pm i = map_of (pm_peers pm) i"

type_synonym peer_order = "(string \<times> peer_info) list \<Rightarrow> (string \<times> peer_info) list"

definition best_peers :: "peer_order \<Rightarrow> nat \<Rightarrow> peer_manager \<Rightarrow> peer_info list" where
  "best_peers ord limit pm = take limit (sort_key (\<lambda>p. - pi_score p) (map snd (ord (pm_peers pm))))"

definition peer_ids :: "peer_order \<Rightarrow> peer_manager \<Rightarrow> string list" where
  "peer_ids ord pm = map fst (ord (pm_peers pm))"

text \<open>\<open>min_by_key\<close> returns the first minimum.\<close>

definition worst_peer :: "peer_info list \<Rightarrow> peer_info option" where
  "worst_peer ps =
     (case ps of [] \<Rightarrow> None
      | p # qs \<Rightarrow> Some (fold (\<lambda>q b. if pi_score q < pi_score b then q else b) qs p))"

definition evict_worst_peer :: "peer_order \<Rightarrow> peer_manager \<Rightarrow> bool \<times> peer_manager" where
  "evict_worst_peer ord pm =
     (case worst_peer (map snd (ord (pm_peers pm))) of
        Some p \<Rightarrow> (True, pm\<lparr>pm_peers := AList.delete (pi_peer_id p) (pm_peers pm)\<rparr>)
      | None \<Rightarrow> (False, pm))"

definition new_peer :: "peer_manager \<Rightarrow> string \<Rightarrow> direction \<Rightarrow> peer_info" where
  "new_peer pm i d =
     \<lparr> pi_peer_id = i, pi_score = INITIAL_SCORE, pi_direction = d, pi_best_block = 0,
       pi_chain_id = 0, pi_connected_tick = pm_current_tick pm,
       pi_last_activity_tick = pm_current_tick pm, pi_good_messages = 0, pi_bad_messages = 0,
       pi_disconnect_pending = False \<rparr>"

definition at_direction_limit :: "peer_manager \<Rightarrow> direction \<Rightarrow> bool" where
  "at_direction_limit pm d =
     (case d of
        DIR_Inbound \<Rightarrow> pmc_max_inbound (pm_config pm) \<le> inbound_count pm
      | DIR_Outbound \<Rightarrow> pmc_max_outbound (pm_config pm) \<le> outbound_count pm)"

definition on_peer_connected ::
  "peer_order \<Rightarrow> string \<Rightarrow> direction \<Rightarrow> peer_manager \<Rightarrow> bool \<times> peer_manager" where
  "on_peer_connected ord i d pm =
     (if is_banned pm i then (False, pm)
      else let (room, pm1) = (if pmc_max_peers (pm_config pm) \<le> length (pm_peers pm)
                              then evict_worst_peer ord pm else (True, pm))
      in if \<not> room then (False, pm1)
      else if at_direction_limit pm1 d then (False, pm1)
      else (True, pm1\<lparr>pm_peers := AList.update i (new_peer pm1 i d) (pm_peers pm1)\<rparr>))"

definition on_peer_disconnected :: "string \<Rightarrow> peer_manager \<Rightarrow> peer_manager" where
  "on_peer_disconnected i pm = pm\<lparr>pm_peers := AList.delete i (pm_peers pm)\<rparr>"

definition clamp_score :: "int \<Rightarrow> int" where
  "clamp_score x = max (- MAX_SCORE) (min MAX_SCORE x)"

definition apply_event :: "u64 \<Rightarrow> score_event \<Rightarrow> peer_info \<Rightarrow> peer_info" where
  "apply_event now ev p =
     (let delta = score_delta ev;
          p1 = p\<lparr>pi_score := clamp_score (i64_wrap (pi_score p + delta)), pi_last_activity_tick := now\<rparr>;
          p2 = (if 0 < delta then p1\<lparr>pi_good_messages := pi_good_messages p1 + 1\<rparr>
                else if delta < 0 then p1\<lparr>pi_bad_messages := pi_bad_messages p1 + 1\<rparr>
                else p1)
      in if pi_score p2 \<le> BAN_THRESHOLD then p2\<lparr>pi_disconnect_pending := True\<rparr>
         else if pi_score p2 \<le> DISCONNECT_THRESHOLD then p2\<lparr>pi_disconnect_pending := True\<rparr>
         else p2)"

definition record_event :: "string \<Rightarrow> score_event \<Rightarrow> peer_manager \<Rightarrow> peer_manager" where
  "record_event i ev pm =
     (case map_of (pm_peers pm) i of
        None \<Rightarrow> pm
      | Some p \<Rightarrow>
          let p1 = apply_event (pm_current_tick pm) ev p;
              pm1 = pm\<lparr>pm_peers := AList.update i p1 (pm_peers pm)\<rparr>
          in if pi_score p1 \<le> BAN_THRESHOLD
             then pm1\<lparr>pm_banned := AList.update i 0 (pm_banned pm1)\<rparr> else pm1)"

definition update_peer_status :: "string \<Rightarrow> u64 \<Rightarrow> u64 \<Rightarrow> peer_manager \<Rightarrow> peer_manager" where
  "update_peer_status i best_block chain_id pm =
     (case map_of (pm_peers pm) i of
        None \<Rightarrow> pm
      | Some p \<Rightarrow>
          let pm1 = pm\<lparr>pm_peers := AList.update i
                (p\<lparr>pi_best_block := best_block, pi_chain_id := chain_id,
                   pi_last_activity_tick := pm_current_tick pm\<rparr>) (pm_peers pm)\<rparr>
          in if chain_id \<noteq> 0 \<and> chain_id \<noteq> pmc_chain_id (pm_config pm1)
             then record_event i EV_WrongChainId pm1 else pm1)"

definition peers_to_disconnect :: "peer_order \<Rightarrow> peer_manager \<Rightarrow> string list" where
  "peers_to_disconnect ord pm =
     map pi_peer_id (filter (\<lambda>p. pi_disconnect_pending p \<or>
         pmc_idle_timeout_ticks (pm_config pm) < pm_current_tick pm - pi_last_activity_tick p)
       (map snd (ord (pm_peers pm))))"

definition decay_score :: "int \<Rightarrow> int \<Rightarrow> int" where
  "decay_score decay x =
     (if INITIAL_SCORE < x then max (i64_wrap (x - decay)) INITIAL_SCORE
      else if x < INITIAL_SCORE then min (i64_wrap (x + decay)) INITIAL_SCORE
      else x)"

definition pm_tick :: "peer_manager \<Rightarrow> peer_manager" where
  "pm_tick pm =
     (let pm1 = pm\<lparr>pm_current_tick := pm_current_tick pm + 1\<rparr>;
          pm2 = (if pmc_decay_interval_ticks (pm_config pm1) \<le> pm_current_tick pm1 - pm_last_decay_tick pm1
                 then pm1\<lparr>pm_last_decay_tick := pm_current_tick pm1,
                          pm_peers := map (\<lambda>(k, p).
                            (k, p\<lparr>pi_score := decay_score (pmc_decay_amount (pm_config pm1)) (pi_score p)\<rparr>))
                            (pm_peers pm1)\<rparr>
                 else pm1)
      in pm2\<lparr>pm_banned := filter (\<lambda>(k, expiry). expiry = 0 \<or> pm_current_tick pm2 < expiry) (pm_banned pm2)\<rparr>)"

definition score_snapshot :: "peer_order \<Rightarrow> peer_manager \<Rightarrow> (string \<times> int) list" where
  "score_snapshot ord pm = map (\<lambda>(k, p). (pi_peer_id p, pi_score p)) (ord (pm_peers pm))"

section \<open>The invariant\<close>

datatype pm_op =
    PMConnect string direction | PMDisconnect string | PMEvent string score_event
  | PMStatus string u64 u64 | PMTick

fun pm_step :: "peer_order \<Rightarrow> pm_op \<Rightarrow> peer_manager \<Rightarrow> peer_manager" where
  "pm_step ord (PMConnect i d) pm = snd (on_peer_connected ord i d pm)"
| "pm_step ord (PMDisconnect i) pm = on_peer_disconnected i pm"
| "pm_step ord (PMEvent i ev) pm = record_event i ev pm"
| "pm_step ord (PMStatus i b c) pm = update_peer_status i b c pm"
| "pm_step ord PMTick pm = pm_tick pm"

definition peers_wf :: "peer_manager_config \<Rightarrow> (string \<times> peer_info) list \<Rightarrow> bool" where
  "peers_wf cfg m \<longleftrightarrow> hm_wf m \<and> length m \<le> pmc_max_peers cfg
     \<and> direction_count DIR_Inbound m \<le> pmc_max_inbound cfg
     \<and> direction_count DIR_Outbound m \<le> pmc_max_outbound cfg
     \<and> (\<forall>(k, p) \<in> set m. pi_peer_id p = k \<and> \<bar>pi_score p\<bar> \<le> MAX_SCORE)"

definition pm_inv :: "peer_manager \<Rightarrow> bool" where
  "pm_inv pm \<longleftrightarrow> peers_wf (pm_config pm) (pm_peers pm) \<and> hm_wf (pm_banned pm)
     \<and> 0 \<le> pmc_decay_amount (pm_config pm) \<and> pmc_decay_amount (pm_config pm) < 2 ^ 62"

lemma i64_wrap_small: "\<bar>x\<bar> < 2 ^ 63 \<Longrightarrow> i64_wrap x = x"
  unfolding i64_wrap_def by (rule signed_take_bit_int_eq_self) auto

lemma clamp_bound: "\<bar>clamp_score x\<bar> \<le> MAX_SCORE"
  by (auto simp: clamp_score_def MAX_SCORE_def)

lemma decay_score_between:
  assumes "\<bar>x\<bar> \<le> MAX_SCORE" "0 \<le> d" "d < 2 ^ 62"
  shows "decay_score d x = (if INITIAL_SCORE < x then max (x - d) INITIAL_SCORE
      else if x < INITIAL_SCORE then min (x + d) INITIAL_SCORE else x)"
proof -
  have "i64_wrap (x - d) = x - d" "i64_wrap (x + d) = x + d"
    using assms by (auto intro!: i64_wrap_small simp: MAX_SCORE_def)
  then show ?thesis by (simp add: decay_score_def)
qed

lemma decay_bound:
  "\<bar>x\<bar> \<le> MAX_SCORE \<Longrightarrow> 0 \<le> d \<Longrightarrow> d < 2 ^ 62 \<Longrightarrow> \<bar>decay_score d x\<bar> \<le> MAX_SCORE"
  by (auto simp: decay_score_between INITIAL_SCORE_def MAX_SCORE_def)

lemma direction_count_delete: "direction_count d (AList.delete k m) \<le> direction_count d m"
  by (induction m) (auto simp: direction_count_def AList.delete_eq)

lemma direction_count_update:
  "direction_count d (AList.update k p m) \<le>
     (if pi_direction p = d then Suc (direction_count d m) else direction_count d m)"
proof (induction m)
  case (Cons x m)
  then show ?case by (cases x) (auto simp: direction_count_def)
qed (simp add: direction_count_def)

lemma direction_count_same:
  "map_of m k = Some q \<Longrightarrow> pi_direction p = pi_direction q \<Longrightarrow>
   direction_count d (AList.update k p m) = direction_count d m"
proof (induction m)
  case (Cons x m)
  then show ?case by (cases x) (auto simp: direction_count_def split: if_splits)
qed simp

lemma direction_count_delete_other:
  "(k, p) \<in> set m \<Longrightarrow> pi_direction p \<noteq> d \<Longrightarrow> hm_wf m \<Longrightarrow>
   direction_count d (AList.delete k m) = direction_count d m"
proof (induction m)
  case (Cons x m)
  obtain j q where x: "x = (j, q)" by (cases x)
  show ?case
  proof (cases "j = k")
    case True
    then have "k \<notin> fst ` set m" "q = p" using Cons.prems x by force+
    then show ?thesis
      using True x Cons.prems(2) by (simp add: direction_count_def delete_idem)
  next
    case False
    then show ?thesis using Cons x by (auto simp: direction_count_def)
  qed
qed simp

lemma peers_wf_delete: "peers_wf cfg m \<Longrightarrow> peers_wf cfg (AList.delete k m)"
  using hm_delete_length_le[of k m] direction_count_delete[of DIR_Inbound k m]
    direction_count_delete[of DIR_Outbound k m]
  unfolding peers_wf_def by (auto simp: hm_delete_wf hm_delete_set)

lemma peers_wf_replace:
  assumes "peers_wf cfg m" "map_of m k = Some q" "pi_direction p = pi_direction q" "pi_peer_id p = k"
    "\<bar>pi_score p\<bar> \<le> MAX_SCORE"
  shows "peers_wf cfg (AList.update k p m)"
proof -
  have "hm_wf m" using assms(1) by (simp add: peers_wf_def)
  moreover have "k \<in> set (hm_keys m)" using assms(2) by (force dest: map_of_SomeD)
  ultimately show ?thesis
    using assms by (auto simp: peers_wf_def hm_update_wf hm_update_set hm_update_length direction_count_same)
qed

lemma peers_wf_get: "peers_wf cfg m \<Longrightarrow> map_of m k = Some p \<Longrightarrow> pi_peer_id p = k \<and> \<bar>pi_score p\<bar> \<le> MAX_SCORE"
  by (auto simp: peers_wf_def dest: map_of_SomeD)

lemma worst_fold:
  fixes qs :: "peer_info list"
  defines "f \<equiv> \<lambda>q b. if pi_score q < pi_score b then q else b"
  shows "fold f qs b \<in> insert b (set qs)
    \<and> pi_score (fold f qs b) \<le> pi_score b \<and> (\<forall>q \<in> set qs. pi_score (fold f qs b) \<le> pi_score q)"
proof (induction qs arbitrary: b)
  case (Cons q qs)
  have "pi_score (f q b) \<le> pi_score q \<and> pi_score (f q b) \<le> pi_score b \<and> f q b \<in> {q, b}"
    by (simp add: f_def)
  with Cons[of "f q b"] show ?case by (auto intro: order_trans)
qed simp

lemma worst_peer_mem: "worst_peer ps = Some p \<Longrightarrow> p \<in> set ps"
  using worst_fold by (cases ps) (auto simp: worst_peer_def)

lemma worst_peer_least: "worst_peer ps = Some p \<Longrightarrow> q \<in> set ps \<Longrightarrow> pi_score p \<le> pi_score q"
  using worst_fold by (cases ps) (auto simp: worst_peer_def)

lemma evict_worst_peer_cases:
  assumes "iter_order ord" "peers_wf cfg (pm_peers pm)"
  shows "pm_peers pm = [] \<and> evict_worst_peer ord pm = (False, pm) \<or>
    (\<exists>k p. (k, p) \<in> set (pm_peers pm) \<and> (\<forall>(j, q) \<in> set (pm_peers pm). pi_score p \<le> pi_score q)
      \<and> evict_worst_peer ord pm = (True, pm\<lparr>pm_peers := AList.delete k (pm_peers pm)\<rparr>)
      \<and> Suc (length (AList.delete k (pm_peers pm))) = length (pm_peers pm))"
proof (cases "worst_peer (map snd (ord (pm_peers pm)))")
  case None
  then have "ord (pm_peers pm) = []" by (auto simp: worst_peer_def split: list.splits)
  then have "pm_peers pm = []" using assms(1) by (metis iter_order_length length_0_conv)
  then show ?thesis using None by (simp add: evict_worst_peer_def)
next
  case (Some p)
  have set: "set (map snd (ord (pm_peers pm))) = snd ` set (pm_peers pm)" using assms(1) by simp
  then obtain k where k: "(k, p) \<in> set (pm_peers pm)" using worst_peer_mem[OF Some] by auto
  then have "pi_peer_id p = k" using assms(2) by (auto simp: peers_wf_def)
  moreover have "\<forall>(j, q) \<in> set (pm_peers pm). pi_score p \<le> pi_score q"
    using worst_peer_least[OF Some] set by force
  moreover have "Suc (length (AList.delete k (pm_peers pm))) = length (pm_peers pm)"
  proof -
    have "hm_wf (pm_peers pm)" using assms(2) by (simp add: peers_wf_def)
    moreover have "k \<in> set (hm_keys (pm_peers pm))" using k by force
    moreover have "pm_peers pm \<noteq> []" using k by auto
    ultimately show ?thesis by (simp add: hm_delete_length)
  qed
  ultimately show ?thesis using Some k by (auto simp: evict_worst_peer_def)
qed

lemma on_peer_connected_inv:
  assumes "iter_order ord" "pm_inv pm" shows "pm_inv (snd (on_peer_connected ord i d pm))"
proof -
  define r where "r = (if pmc_max_peers (pm_config pm) \<le> length (pm_peers pm)
      then evict_worst_peer ord pm else (True, pm))"
  have wf: "peers_wf (pm_config pm) (pm_peers pm)" using assms(2) by (simp add: pm_inv_def)
  have r: "pm_inv (snd r) \<and> pm_config (snd r) = pm_config pm
      \<and> (fst r \<longrightarrow> length (pm_peers (snd r)) < pmc_max_peers (pm_config pm))"
  proof (cases "pmc_max_peers (pm_config pm) \<le> length (pm_peers pm)")
    case True
    have "length (pm_peers pm) \<le> pmc_max_peers (pm_config pm)" using wf by (simp add: peers_wf_def)
    then show ?thesis
      using evict_worst_peer_cases[OF assms(1) wf] peers_wf_delete[OF wf] assms(2) True
      by (auto simp: r_def pm_inv_def)
  qed (use assms(2) in \<open>simp add: r_def\<close>)
  obtain room pm1 where rr: "r = (room, pm1)" by force
  have conn: "on_peer_connected ord i d pm =
      (if is_banned pm i then (False, pm) else if \<not> room then (False, pm1)
       else if at_direction_limit pm1 d then (False, pm1)
       else (True, pm1\<lparr>pm_peers := AList.update i (new_peer pm1 i d) (pm_peers pm1)\<rparr>))"
    using rr unfolding on_peer_connected_def r_def by simp
  have "peers_wf (pm_config pm1) (AList.update i (new_peer pm1 i d) (pm_peers pm1))"
    if "room" "\<not> at_direction_limit pm1 d"
  proof -
    have "length (pm_peers pm1) < pmc_max_peers (pm_config pm1)" "peers_wf (pm_config pm1) (pm_peers pm1)"
      using r rr that(1) by (auto simp: pm_inv_def)
    then show ?thesis
      using that(2) direction_count_update[of DIR_Inbound i "new_peer pm1 i d" "pm_peers pm1"]
        direction_count_update[of DIR_Outbound i "new_peer pm1 i d" "pm_peers pm1"]
      by (cases d)
        (auto simp: peers_wf_def hm_update_wf hm_update_set hm_update_length at_direction_limit_def
          inbound_count_def outbound_count_def new_peer_def INITIAL_SCORE_def MAX_SCORE_def)
  qed
  then show ?thesis using conn r rr assms(2) by (auto simp: pm_inv_def)
qed

lemma apply_event_frame:
  "pi_peer_id (apply_event now ev p) = pi_peer_id p \<and> pi_direction (apply_event now ev p) = pi_direction p
   \<and> pi_score (apply_event now ev p) = clamp_score (i64_wrap (pi_score p + score_delta ev))"
  by (simp add: apply_event_def Let_def)

lemma record_event_inv:
  assumes "pm_inv pm" shows "pm_inv (record_event i ev pm)"
proof (cases "map_of (pm_peers pm) i")
  case (Some p)
  have wf: "peers_wf (pm_config pm) (pm_peers pm)" using assms by (simp add: pm_inv_def)
  have "peers_wf (pm_config pm) (AList.update i (apply_event (pm_current_tick pm) ev p) (pm_peers pm))"
    using peers_wf_get[OF wf Some] clamp_bound
    by (intro peers_wf_replace[OF wf Some]) (simp_all add: apply_event_frame)
  then show ?thesis
    using assms Some by (simp add: record_event_def Let_def pm_inv_def hm_update_wf)
qed (use assms in \<open>simp add: record_event_def\<close>)

lemma update_peer_status_inv:
  assumes "pm_inv pm" shows "pm_inv (update_peer_status i b c pm)"
proof (cases "map_of (pm_peers pm) i")
  case (Some p)
  have wf: "peers_wf (pm_config pm) (pm_peers pm)" using assms by (simp add: pm_inv_def)
  let ?p = "p\<lparr>pi_best_block := b, pi_chain_id := c, pi_last_activity_tick := pm_current_tick pm\<rparr>"
  have "peers_wf (pm_config pm) (AList.update i ?p (pm_peers pm))"
    using peers_wf_get[OF wf Some] by (intro peers_wf_replace[OF wf Some]) simp_all
  then have "pm_inv (pm\<lparr>pm_peers := AList.update i ?p (pm_peers pm)\<rparr>)"
    using assms by (simp add: pm_inv_def)
  then show ?thesis
    using Some record_event_inv by (simp add: update_peer_status_def Let_def)
qed (use assms in \<open>simp add: update_peer_status_def\<close>)

lemma peers_wf_decay:
  assumes "peers_wf cfg m" "0 \<le> d" "d < 2 ^ 62"
  shows "peers_wf cfg (map (\<lambda>(k, p). (k, p\<lparr>pi_score := decay_score d (pi_score p)\<rparr>)) m)"
proof -
  let ?f = "\<lambda>(k, p). (k :: string, p\<lparr>pi_score := decay_score d (pi_score p)\<rparr>)"
  have keys: "hm_keys (map ?f m) = hm_keys m"
    and count: "direction_count dir (map ?f m) = direction_count dir m" for dir
    by (induction m) (auto simp: direction_count_def)
  have ok: "pi_peer_id p = k \<and> \<bar>pi_score p\<bar> \<le> MAX_SCORE" if "(k, p) \<in> set m" for k p
    using that assms(1) unfolding peers_wf_def by blast
  have "\<forall>(k, p) \<in> set (map ?f m). pi_peer_id p = k \<and> \<bar>pi_score p\<bar> \<le> MAX_SCORE"
  proof
    fix x assume "x \<in> set (map ?f m)"
    then obtain k p where x: "x = (k, p\<lparr>pi_score := decay_score d (pi_score p)\<rparr>)" "(k, p) \<in> set m" by auto
    then show "case x of (k, p) \<Rightarrow> pi_peer_id p = k \<and> \<bar>pi_score p\<bar> \<le> MAX_SCORE"
      using ok[OF x(2)] decay_bound[OF _ assms(2,3)] by simp
  qed
  then show ?thesis using assms(1) unfolding peers_wf_def keys count by simp
qed

lemma pm_tick_inv:
  assumes "pm_inv pm" shows "pm_inv (pm_tick pm)"
  using assms peers_wf_decay by (auto simp: pm_tick_def pm_inv_def Let_def hm_filter_wf)

lemma pm_step_inv: "iter_order ord \<Longrightarrow> pm_inv pm \<Longrightarrow> pm_inv (pm_step ord x pm)"
  by (cases x)
    (simp_all add: on_peer_connected_inv record_event_inv update_peer_status_inv pm_tick_inv,
      simp add: on_peer_disconnected_def pm_inv_def peers_wf_delete)


interpretation pm_machine: op_machine "pm_step ord" "\<lambda>pm. iter_order ord \<and> pm_inv pm" for ord
  by unfold_locales (simp add: pm_step_inv)

lemma pm_inv_new: "0 \<le> pmc_decay_amount cfg \<Longrightarrow> pmc_decay_amount cfg < 2 ^ 62 \<Longrightarrow> pm_inv (pm_new cfg)"
  by (simp add: pm_inv_def pm_new_def peers_wf_def direction_count_def)

lemma evict_config: "pm_config (snd (evict_worst_peer ord pm)) = pm_config pm"
  by (simp add: evict_worst_peer_def split: option.split)

lemma connected_config: "pm_config (snd (on_peer_connected ord i d pm)) = pm_config pm"
  using evict_config[of ord pm]
  by (cases "evict_worst_peer ord pm") (simp add: on_peer_connected_def)

lemma record_config: "pm_config (record_event i ev pm) = pm_config pm"
  by (simp add: record_event_def Let_def split: option.split)

lemma status_config: "pm_config (update_peer_status i b c pm) = pm_config pm"
  by (simp add: update_peer_status_def record_config Let_def split: option.split)

lemma pm_step_config: "pm_config (pm_step ord x pm) = pm_config pm"
  by (cases x)
    (simp_all add: connected_config record_config status_config on_peer_disconnected_def pm_tick_def Let_def)

lemma pm_run_inv: "iter_order ord \<Longrightarrow> pm_inv pm \<Longrightarrow> pm_inv (fold (pm_step ord) ops pm)"
  using pm_machine.run_inv[of ord pm ops] by simp

lemma pm_run_config: "pm_config (fold (pm_step ord) ops pm) = pm_config pm"
  by (induction ops arbitrary: pm) (simp_all add: pm_step_config)

text \<open>C31. Whatever happens, the manager never holds more peers, inbound peers or outbound peers
  than configured, and every score stays between -500 and 500.\<close>

theorem pm_limits_hold:
  assumes "iter_order ord" and "0 \<le> pmc_decay_amount cfg" and "pmc_decay_amount cfg < 2 ^ 62"
  shows "peer_count (fold (pm_step ord) ops (pm_new cfg)) \<le> pmc_max_peers cfg
    \<and> inbound_count (fold (pm_step ord) ops (pm_new cfg)) \<le> pmc_max_inbound cfg
    \<and> outbound_count (fold (pm_step ord) ops (pm_new cfg)) \<le> pmc_max_outbound cfg
    \<and> list_all (\<lambda>p. \<bar>pi_score p\<bar> \<le> 500) (hm_vals (pm_peers (fold (pm_step ord) ops (pm_new cfg))))"
proof -
  let ?pm = "fold (pm_step ord) ops (pm_new cfg)"
  have "pm_inv ?pm"
    using assms(1) pm_inv_new[OF assms(2,3)] by (rule pm_run_inv)
  moreover have "pm_config ?pm = cfg" by (simp add: pm_run_config) (simp add: pm_new_def)
  ultimately have wf: "peers_wf cfg (pm_peers ?pm)" by (simp add: pm_inv_def)
  then have "\<forall>p \<in> set (hm_vals (pm_peers ?pm)). \<bar>pi_score p\<bar> \<le> 500"
    by (auto simp: peers_wf_def MAX_SCORE_def)
  with wf show ?thesis
    by (simp add: peers_wf_def peer_count_def inbound_count_def outbound_count_def list_all_iff)
qed

theorem pm_limits_hold_witness:
  "peer_count (fold (pm_step (\<lambda>m. m)) [PMConnect ''a'' DIR_Inbound, PMConnect ''b'' DIR_Inbound,
      PMEvent ''a'' EV_InvalidBlock, PMTick] (pm_new (pmc_default\<lparr>pmc_max_peers := 1\<rparr>))) \<le> 1"
proof -
  let ?cfg = "pmc_default\<lparr>pmc_max_peers := 1\<rparr>"
  have d: "0 \<le> pmc_decay_amount ?cfg" "pmc_decay_amount ?cfg < 2 ^ 62" and m: "pmc_max_peers ?cfg = 1"
    by (simp_all add: pmc_default_def)
  show ?thesis
    using conjunct1[OF pm_limits_hold[OF iter_order_id d, of "[PMConnect ''a'' DIR_Inbound,
      PMConnect ''b'' DIR_Inbound, PMEvent ''a'' EV_InvalidBlock, PMTick]"]]
    unfolding m .
qed

section \<open>Decay\<close>

text \<open>A tick keeps every peer and moves its score towards the initial score without ever
  crossing it.\<close>

theorem pm_decay_towards_initial:
  assumes "pm_inv pm" and "get_peer pm i = Some p"
  shows "\<exists>q. get_peer (pm_tick pm) i = Some q
    \<and> \<bar>pi_score q - INITIAL_SCORE\<bar> \<le> \<bar>pi_score p - INITIAL_SCORE\<bar>
    \<and> (INITIAL_SCORE \<le> pi_score p \<longleftrightarrow> INITIAL_SCORE \<le> pi_score q \<and> \<not> pi_score p < INITIAL_SCORE)
    \<and> (pi_score q \<le> INITIAL_SCORE \<or> INITIAL_SCORE < pi_score p)"
proof -
  have p: "map_of (pm_peers pm) i = Some p" using assms(2) by (simp add: get_peer_def)
  have wf: "peers_wf (pm_config pm) (pm_peers pm)"
    and d: "0 \<le> pmc_decay_amount (pm_config pm)" "pmc_decay_amount (pm_config pm) < 2 ^ 62"
    using assms(1) by (simp_all add: pm_inv_def)
  have "\<bar>pi_score p\<bar> \<le> MAX_SCORE" using peers_wf_get[OF wf p] by simp
  note ds = decay_score_between[OF this d]
  have m: "map_of (map (\<lambda>(k, p). (k, f p)) m) i = map_option f (map_of m i)"
    for f :: "peer_info \<Rightarrow> peer_info" and m
    by (induction m) auto
  show ?thesis
    using p ds d
    by (auto simp: pm_tick_def get_peer_def Let_def m)
qed

definition demo_peers :: peer_manager where
  "demo_peers = fold (pm_step (\<lambda>m. m)) [PMConnect ''a'' DIR_Outbound, PMConnect ''b'' DIR_Inbound,
     PMEvent ''a'' EV_Timeout]
     (pm_new (pmc_default\<lparr>pmc_max_peers := 2, pmc_max_inbound := 1, pmc_decay_interval_ticks := 1\<rparr>))"

lemma demo_peers_inv: "pm_inv demo_peers"
  unfolding demo_peers_def by (rule pm_run_inv) (simp_all add: pm_inv_new pmc_default_def)

theorem pm_decay_towards_initial_witness:
  "\<exists>p q. get_peer demo_peers ''a'' = Some p \<and> pi_score p = 90 \<and> get_peer (pm_tick demo_peers) ''a'' = Some q
     \<and> \<bar>pi_score q - INITIAL_SCORE\<bar> \<le> 10"
proof -
  have "get_peer demo_peers ''a'' \<noteq> None" "pi_score (the (get_peer demo_peers ''a'')) = 90" by code_simp+
  then obtain p where p: "get_peer demo_peers ''a'' = Some p" "pi_score p = 90" by auto
  from pm_decay_towards_initial[OF demo_peers_inv p(1)] p show ?thesis
    by (auto simp: INITIAL_SCORE_def)
qed

section \<open>Bans\<close>

lemma banned_zero_step:
  "map_of (pm_banned pm) i = Some 0 \<Longrightarrow> hm_wf (pm_banned pm) \<Longrightarrow>
   map_of (pm_banned (pm_step ord x pm)) i = Some 0"
proof (cases x)
  case PMTick
  assume b: "map_of (pm_banned pm) i = Some 0" and "hm_wf (pm_banned pm)"
  then have "map_of (filter (\<lambda>(k, e). e = 0 \<or> t < e) (pm_banned pm)) i = Some 0" for t
    by (simp add: hm_get_in hm_filter_wf)
  then show ?thesis using PMTick b by (simp add: pm_tick_def Let_def)
qed (auto simp: on_peer_connected_def evict_worst_peer_def on_peer_disconnected_def record_event_def
      update_peer_status_def Let_def hm_update_get split: option.splits)

lemma banned_zero_run:
  assumes "iter_order ord" "pm_inv pm" "map_of (pm_banned pm) i = Some 0"
  shows "map_of (pm_banned (fold (pm_step ord) ops pm)) i = Some 0"
  using assms(2,3)
proof (induction ops arbitrary: pm)
  case (Cons x ops)
  have "hm_wf (pm_banned pm)" using Cons.prems(1) by (simp add: pm_inv_def)
  then show ?case
    using Cons pm_step_inv[OF assms(1)] banned_zero_step by simp
qed simp

text \<open>A peer whose score an event takes to the ban threshold is banned for good: from then
  on every connection attempt is refused and changes nothing.\<close>

theorem pm_ban_is_final:
  assumes "iter_order ord" and "pm_inv pm" and "get_peer pm i = Some p"
    and "clamp_score (i64_wrap (pi_score p + score_delta ev)) \<le> BAN_THRESHOLD"
  shows "on_peer_connected ord i d (fold (pm_step ord) ops (record_event i ev pm))
    = (False, fold (pm_step ord) ops (record_event i ev pm))"
proof -
  have "map_of (pm_banned (record_event i ev pm)) i = Some 0"
    using assms(3,4) by (simp add: record_event_def get_peer_def Let_def apply_event_frame hm_update_get)
  from banned_zero_run[OF assms(1) record_event_inv[OF assms(2)] this]
  show ?thesis by (simp add: on_peer_connected_def is_banned_def)
qed

definition demo_bad_peer :: peer_manager where
  "demo_bad_peer = fold (pm_step (\<lambda>m. m)) [PMConnect ''a'' DIR_Inbound, PMStatus ''a'' 5 1,
     PMEvent ''a'' EV_WrongChainId] (pm_new pmc_default)"

theorem pm_ban_is_final_witness:
  "fst (on_peer_connected (\<lambda>m. m) ''a'' DIR_Inbound
     (fold (pm_step (\<lambda>m. m)) [PMDisconnect ''a'', PMTick] (record_event ''a'' EV_WrongChainId demo_bad_peer)))
   = False"
proof -
  have inv: "pm_inv demo_bad_peer"
    unfolding demo_bad_peer_def by (rule pm_run_inv) (simp_all add: pm_inv_new pmc_default_def)
  have s: "get_peer demo_bad_peer ''a'' \<noteq> None" "pi_score (the (get_peer demo_bad_peer ''a'')) = - 100"
    by code_simp+
  then obtain p where p: "get_peer demo_bad_peer ''a'' = Some p" "pi_score p = - 100" by auto
  have "clamp_score (i64_wrap (pi_score p + score_delta EV_WrongChainId)) \<le> BAN_THRESHOLD"
    unfolding p by code_simp
  from pm_ban_is_final[OF iter_order_id inv p(1) this, of DIR_Inbound "[PMDisconnect ''a'', PMTick]"]
  show ?thesis by simp
qed

section \<open>Eviction before the direction check\<close>

text \<open>When the manager is full, the inbound limit is reached and some outbound peer has
  the lowest score, an inbound connection costs that outbound peer its place and is then
  refused.\<close>

theorem pm_evicts_then_rejects:
  assumes "iter_order ord" and "pm_inv pm" and "\<not> is_banned pm i"
    and "peer_count pm = pmc_max_peers (pm_config pm)" and "0 < peer_count pm"
    and "inbound_count pm = pmc_max_inbound (pm_config pm)"
    and "list_all (\<lambda>p. pi_direction p = DIR_Inbound \<longrightarrow>
           list_ex (\<lambda>q. pi_score q < pi_score p) (hm_vals (pm_peers pm))) (hm_vals (pm_peers pm))"
  shows "fst (on_peer_connected ord i DIR_Inbound pm) = False
    \<and> Suc (peer_count (snd (on_peer_connected ord i DIR_Inbound pm))) = peer_count pm
    \<and> inbound_count (snd (on_peer_connected ord i DIR_Inbound pm)) = inbound_count pm"
proof -
  have wf: "peers_wf (pm_config pm) (pm_peers pm)" using assms(2) by (simp add: pm_inv_def)
  have "pm_peers pm \<noteq> []" using assms(5) by (auto simp: peer_count_def)
  then obtain k p where k: "(k, p) \<in> set (pm_peers pm)"
    and least: "\<forall>(j, q) \<in> set (pm_peers pm). pi_score p \<le> pi_score q"
    and ev: "evict_worst_peer ord pm = (True, pm\<lparr>pm_peers := AList.delete k (pm_peers pm)\<rparr>)"
    and len: "Suc (length (AList.delete k (pm_peers pm))) = length (pm_peers pm)"
    using evict_worst_peer_cases[OF assms(1) wf] by blast
  have out: "pi_direction p \<noteq> DIR_Inbound"
    using assms(7) k least by (fastforce simp: list_all_iff list_ex_iff)
  have "hm_wf (pm_peers pm)" using wf by (simp add: peers_wf_def)
  with k out have same: "direction_count DIR_Inbound (AList.delete k (pm_peers pm))
      = direction_count DIR_Inbound (pm_peers pm)"
    by (rule direction_count_delete_other)
  show ?thesis
    using assms(3,4,6) ev len same
    by (simp add: on_peer_connected_def peer_count_def inbound_count_def at_direction_limit_def)
qed

theorem pm_evicts_then_rejects_witness:
  "fst (on_peer_connected (\<lambda>m. m) ''c'' DIR_Inbound demo_peers) = False"
proof -
  have "\<not> is_banned demo_peers ''c''" "peer_count demo_peers = pmc_max_peers (pm_config demo_peers)"
    "0 < peer_count demo_peers" "inbound_count demo_peers = pmc_max_inbound (pm_config demo_peers)"
    "list_all (\<lambda>p. pi_direction p = DIR_Inbound \<longrightarrow>
       list_ex (\<lambda>q. pi_score q < pi_score p) (hm_vals (pm_peers demo_peers))) (hm_vals (pm_peers demo_peers))"
    by code_simp+
  from pm_evicts_then_rejects[OF iter_order_id demo_peers_inv this] show ?thesis by simp
qed

end
