(* ===== verification/Trading.thy ===== *)
theory Trading
  imports Velo_Prelude
begin

text \<open>
  Player-to-player trades, \<open>crates/game-engine/src/trading.rs\<close>: two phases, both players
  confirm before items change hands. The main theorem is about whole runs: a trade executes only
  on consents given after the last change of either offer.
\<close>

section \<open>Data\<close>

type_synonym trade_id = u64
type_synonym item_def_id = u32

datatype trade_state =
    TS_Proposed | TS_Negotiating | TS_InitiatorConfirmed | TS_AcceptorConfirmed
  | TS_Completed | TS_Cancelled | TS_Expired

record trade_offer =
  to_items :: "(item_def_id \<times> u32) list"
  to_gold :: u64
  to_confirmed :: bool

definition offer_default :: trade_offer where
  "offer_default = \<lparr> to_items = [], to_gold = 0, to_confirmed = False \<rparr>"

record trade_session =
  ts_id :: trade_id
  ts_initiator :: string
  ts_acceptor :: string
  ts_state :: trade_state
  ts_initiator_offer :: trade_offer
  ts_acceptor_offer :: trade_offer
  ts_created_tick :: u64
  ts_timeout_ticks :: u64

datatype trade_error =
    TRE_NotFound trade_id
  | TRE_NotParticipant
  | TRE_InvalidState string
  | TRE_InsufficientItems item_def_id u32 u32
  | TRE_Expired
  | TRE_AlreadyTrading

datatype trade_result =
    TR_Created trade_id
  | TR_Accepted trade_id
  | TR_ItemAdded
  | TR_Confirmed
  | TR_Executed trade_id "(item_def_id \<times> u32) list" "(item_def_id \<times> u32) list"
  | TR_Cancelled trade_id
  | TR_Error trade_error

record trade_manager =
  tm_trades :: "(trade_id \<times> trade_session) list"
  tm_next_id :: trade_id
  tm_active_trades :: "(string \<times> trade_id) list"
  tm_default_timeout :: u64

section \<open>Operations\<close>

definition tm_new :: trade_manager where
  "tm_new = \<lparr> tm_trades = [], tm_next_id = 1, tm_active_trades = [], tm_default_timeout = 600 \<rparr>"

definition propose_trade :: "string \<Rightarrow> string \<Rightarrow> u64 \<Rightarrow> trade_manager \<Rightarrow> trade_result \<times> trade_manager" where
  "propose_trade initiator acceptor now m =
     (if map_of (tm_active_trades m) initiator \<noteq> None then (TR_Error TRE_AlreadyTrading, m)
      else if map_of (tm_active_trades m) acceptor \<noteq> None then (TR_Error TRE_AlreadyTrading, m)
      else let i = tm_next_id m;
               session = \<lparr> ts_id = i, ts_initiator = initiator, ts_acceptor = acceptor,
                 ts_state = TS_Proposed, ts_initiator_offer = offer_default,
                 ts_acceptor_offer = offer_default, ts_created_tick = now,
                 ts_timeout_ticks = tm_default_timeout m \<rparr>
           in (TR_Created i, m\<lparr>tm_next_id := i + 1,
                 tm_trades := AList.update i session (tm_trades m),
                 tm_active_trades := AList.update initiator i (tm_active_trades m)\<rparr>))"

definition accept_trade :: "trade_id \<Rightarrow> string \<Rightarrow> trade_manager \<Rightarrow> trade_result \<times> trade_manager" where
  "accept_trade i player m =
     (case map_of (tm_trades m) i of
        None \<Rightarrow> (TR_Error (TRE_NotFound i), m)
      | Some t \<Rightarrow>
          if ts_acceptor t \<noteq> player then (TR_Error TRE_NotParticipant, m)
          else if ts_state t \<noteq> TS_Proposed
               then (TR_Error (TRE_InvalidState ''Trade is not in Proposed state''), m)
          else (TR_Accepted i,
                m\<lparr>tm_trades := AList.update i (t\<lparr>ts_state := TS_Negotiating\<rparr>) (tm_trades m),
                  tm_active_trades := AList.update player i (tm_active_trades m)\<rparr>))"

definition modifiable :: "trade_state \<Rightarrow> bool" where
  "modifiable st \<longleftrightarrow> st = TS_Negotiating \<or> st = TS_InitiatorConfirmed \<or> st = TS_AcceptorConfirmed"

text \<open>Increment the first entry of the item, or append one; the quantity wraps.\<close>

fun offer_items :: "item_def_id \<Rightarrow> u32 \<Rightarrow> (item_def_id \<times> u32) list \<Rightarrow> (item_def_id \<times> u32) list" where
  "offer_items item q [] = [(item, q)]"
| "offer_items item q ((i, n) # xs) =
     (if i = item then (i, n + q) # xs else (i, n) # offer_items item q xs)"

definition unconfirm :: "trade_session \<Rightarrow> trade_session" where
  "unconfirm t = t\<lparr>ts_initiator_offer := (ts_initiator_offer t)\<lparr>to_confirmed := False\<rparr>,
                   ts_acceptor_offer := (ts_acceptor_offer t)\<lparr>to_confirmed := False\<rparr>,
                   ts_state := TS_Negotiating\<rparr>"

definition add_item ::
  "trade_id \<Rightarrow> string \<Rightarrow> item_def_id \<Rightarrow> u32 \<Rightarrow> trade_manager \<Rightarrow> trade_result \<times> trade_manager" where
  "add_item i player item q m =
     (case map_of (tm_trades m) i of
        None \<Rightarrow> (TR_Error (TRE_NotFound i), m)
      | Some t \<Rightarrow>
          if \<not> modifiable (ts_state t)
          then (TR_Error (TRE_InvalidState ''Trade is not in a modifiable state''), m)
          else if ts_initiator t = player then
            let t1 = unconfirm t; off = ts_initiator_offer t1 in
            (TR_ItemAdded, m\<lparr>tm_trades := AList.update i
               (t1\<lparr>ts_initiator_offer := off\<lparr>to_items := offer_items item q (to_items off)\<rparr>\<rparr>) (tm_trades m)\<rparr>)
          else if ts_acceptor t = player then
            let t1 = unconfirm t; off = ts_acceptor_offer t1 in
            (TR_ItemAdded, m\<lparr>tm_trades := AList.update i
               (t1\<lparr>ts_acceptor_offer := off\<lparr>to_items := offer_items item q (to_items off)\<rparr>\<rparr>) (tm_trades m)\<rparr>)
          else (TR_Error TRE_NotParticipant, m))"

text \<open>What confirming does to the session; \<open>None\<close> if the player takes no part in it.\<close>

definition confirm_session :: "string \<Rightarrow> trade_session \<Rightarrow> trade_session option" where
  "confirm_session player t =
     (if ts_initiator t = player then
        Some (t\<lparr>ts_initiator_offer := (ts_initiator_offer t)\<lparr>to_confirmed := True\<rparr>,
                ts_state := (if to_confirmed (ts_acceptor_offer t) then TS_Completed
                             else TS_InitiatorConfirmed)\<rparr>)
      else if ts_acceptor t = player then
        Some (t\<lparr>ts_acceptor_offer := (ts_acceptor_offer t)\<lparr>to_confirmed := True\<rparr>,
                ts_state := (if to_confirmed (ts_initiator_offer t) then TS_Completed
                             else TS_AcceptorConfirmed)\<rparr>)
      else None)"

definition confirm_trade :: "trade_id \<Rightarrow> string \<Rightarrow> trade_manager \<Rightarrow> trade_result \<times> trade_manager" where
  "confirm_trade i player m =
     (case map_of (tm_trades m) i of
        None \<Rightarrow> (TR_Error (TRE_NotFound i), m)
      | Some t \<Rightarrow>
          if \<not> modifiable (ts_state t)
          then (TR_Error (TRE_InvalidState ''Trade cannot be confirmed in current state''), m)
          else case confirm_session player t of
            None \<Rightarrow> (TR_Error TRE_NotParticipant, m)
          | Some t1 \<Rightarrow>
              let m1 = m\<lparr>tm_trades := AList.update i t1 (tm_trades m)\<rparr> in
              if ts_state t1 = TS_Completed then
                (TR_Executed (ts_id t1) (to_items (ts_acceptor_offer t1)) (to_items (ts_initiator_offer t1)),
                 m1\<lparr>tm_active_trades := AList.delete (ts_acceptor t1)
                       (AList.delete (ts_initiator t1) (tm_active_trades m1))\<rparr>)
              else (TR_Confirmed, m1))"

definition cancel_trade :: "trade_id \<Rightarrow> string \<Rightarrow> trade_manager \<Rightarrow> trade_result \<times> trade_manager" where
  "cancel_trade i player m =
     (case map_of (tm_trades m) i of
        None \<Rightarrow> (TR_Error (TRE_NotFound i), m)
      | Some t \<Rightarrow>
          if ts_initiator t \<noteq> player \<and> ts_acceptor t \<noteq> player then (TR_Error TRE_NotParticipant, m)
          else (TR_Cancelled i,
                m\<lparr>tm_trades := AList.update i (t\<lparr>ts_state := TS_Cancelled\<rparr>) (tm_trades m),
                  tm_active_trades := AList.delete (ts_acceptor t)
                    (AList.delete (ts_initiator t) (tm_active_trades m))\<rparr>))"

definition trade_overdue :: "u64 \<Rightarrow> trade_session \<Rightarrow> bool" where
  "trade_overdue now t \<longleftrightarrow> ts_state t \<notin> {TS_Completed, TS_Cancelled, TS_Expired}
     \<and> ts_created_tick t + ts_timeout_ticks t < now"

definition expire_trade :: "trade_id \<Rightarrow> trade_manager \<Rightarrow> trade_manager" where
  "expire_trade i m =
     (case map_of (tm_trades m) i of
        None \<Rightarrow> m
      | Some t \<Rightarrow>
          m\<lparr>tm_trades := AList.update i (t\<lparr>ts_state := TS_Expired\<rparr>) (tm_trades m),
            tm_active_trades := AList.delete (ts_acceptor t)
              (AList.delete (ts_initiator t) (tm_active_trades m))\<rparr>)"

definition tick_expirations :: "u64 \<Rightarrow> trade_manager \<Rightarrow> trade_manager" where
  "tick_expirations now m =
     fold expire_trade (hm_keys (filter (\<lambda>(i, t). trade_overdue now t) (tm_trades m))) m"

definition get_trade :: "trade_manager \<Rightarrow> trade_id \<Rightarrow> trade_session option" where
  "get_trade m i = map_of (tm_trades m) i"

definition get_player_trade :: "trade_manager \<Rightarrow> string \<Rightarrow> trade_session option" where
  "get_player_trade m p = Option.bind (map_of (tm_active_trades m) p) (map_of (tm_trades m))"

definition active_count :: "trade_manager \<Rightarrow> nat" where
  "active_count m = length (tm_active_trades m)"

section \<open>Runs\<close>

datatype tr_op =
    TRPropose string string u64 | TRAccept trade_id string | TRAdd trade_id string item_def_id u32
  | TRConfirm trade_id string | TRCancel trade_id string | TRTick u64

fun tr_step :: "tr_op \<Rightarrow> trade_manager \<Rightarrow> trade_manager" where
  "tr_step (TRPropose a b n) m = snd (propose_trade a b n m)"
| "tr_step (TRAccept i p) m = snd (accept_trade i p m)"
| "tr_step (TRAdd i p x q) m = snd (add_item i p x q m)"
| "tr_step (TRConfirm i p) m = snd (confirm_trade i p m)"
| "tr_step (TRCancel i p) m = snd (cancel_trade i p m)"
| "tr_step (TRTick n) m = tick_expirations n m"

text \<open>The player confirmed the trade at a moment of the run when both offers were as they
  are in the session.\<close>

definition same_offers :: "trade_session \<Rightarrow> trade_session \<Rightarrow> bool" where
  "same_offers t u \<longleftrightarrow>
     to_items (ts_initiator_offer t) = to_items (ts_initiator_offer u) \<and>
     to_items (ts_acceptor_offer t) = to_items (ts_acceptor_offer u) \<and>
     ts_initiator t = ts_initiator u \<and> ts_acceptor t = ts_acceptor u"

definition consented :: "tr_op list \<Rightarrow> trade_id \<Rightarrow> trade_session \<Rightarrow> string \<Rightarrow> bool" where
  "consented ops i t p \<longleftrightarrow>
     (\<exists>ys zs u. ops = ys @ TRConfirm i p # zs \<and> get_trade (fold tr_step ys tm_new) i = Some u
        \<and> same_offers t u)"

definition no_consent :: "trade_session \<Rightarrow> bool" where
  "no_consent t \<longleftrightarrow> \<not> to_confirmed (ts_initiator_offer t) \<and> \<not> to_confirmed (ts_acceptor_offer t)"

definition closed_trade :: "trade_session \<Rightarrow> bool" where
  "closed_trade t \<longleftrightarrow> ts_state t \<in> {TS_Completed, TS_Cancelled, TS_Expired}"

lemma expire_each:
  "map_of (tm_trades (fold expire_trade is m)) i = Some t \<Longrightarrow>
   map_of (tm_trades m) i = Some t \<or> closed_trade t"
proof (induction "is" arbitrary: m)
  case (Cons j "is")
  have "map_of (tm_trades (expire_trade j m)) i = Some t \<Longrightarrow> map_of (tm_trades m) i = Some t \<or> closed_trade t"
    by (auto simp: expire_trade_def hm_update_get closed_trade_def split: option.splits if_splits)
  with Cons.IH[of "expire_trade j m"] Cons.prems show ?case by auto
qed simp

text \<open>What one operation can do to the session under an id.\<close>

lemma tr_step_session:
  assumes "map_of (tm_trades (tr_step x m)) i = Some t"
  shows "map_of (tm_trades m) i = Some t \<or> no_consent t \<or> closed_trade t
    \<or> (\<exists>p u. x = TRConfirm i p \<and> map_of (tm_trades m) i = Some u \<and> modifiable (ts_state u)
         \<and> confirm_session p u = Some t)
    \<or> (\<exists>u. map_of (tm_trades m) i = Some u \<and> ts_state u = TS_Proposed \<and> t = u\<lparr>ts_state := TS_Negotiating\<rparr>)"
proof (cases x)
  case (TRPropose a b n)
  with assms show ?thesis
    by (auto simp: propose_trade_def Let_def hm_update_get no_consent_def offer_default_def split: if_splits)
next
  case (TRAccept j p)
  with assms show ?thesis
    by (auto simp: accept_trade_def hm_update_get split: if_splits option.splits)
next
  case (TRAdd j p y q)
  with assms show ?thesis
    by (auto simp: add_item_def Let_def hm_update_get no_consent_def unconfirm_def split: if_splits option.splits)
next
  case (TRConfirm j p)
  with assms show ?thesis
    by (auto simp: confirm_trade_def Let_def hm_update_get split: if_splits option.splits)
next
  case (TRCancel j p)
  with assms show ?thesis
    by (auto simp: cancel_trade_def hm_update_get closed_trade_def split: if_splits option.splits)
next
  case (TRTick n)
  with assms show ?thesis using expire_each by (auto simp: tick_expirations_def)
qed

definition session_ok :: "tr_op list \<Rightarrow> trade_id \<Rightarrow> trade_session \<Rightarrow> bool" where
  "session_ok ops i t \<longleftrightarrow> closed_trade t \<or>
     (ts_state t = TS_Proposed \<longrightarrow> no_consent t) \<and>
     (to_confirmed (ts_initiator_offer t) \<longrightarrow> consented ops i t (ts_initiator t)) \<and>
     (to_confirmed (ts_acceptor_offer t) \<longrightarrow> consented ops i t (ts_acceptor t))"

lemma consented_snoc: "consented ops i t p \<Longrightarrow> consented (ops @ [x]) i t p"
  unfolding consented_def by (metis append.assoc append_Cons)

lemma consented_same: "consented ops i t p \<Longrightarrow> same_offers u t \<Longrightarrow> consented ops i u p"
  unfolding consented_def same_offers_def by metis

lemma consented_now:
  "map_of (tm_trades (fold tr_step ops tm_new)) i = Some u \<Longrightarrow> same_offers t u \<Longrightarrow>
   consented (ops @ [TRConfirm i p]) i t p"
  unfolding consented_def get_trade_def by blast

lemma confirm_session_cases:
  assumes "confirm_session p u = Some t"
  shows "same_offers t u"
    and "to_confirmed (ts_initiator_offer t) \<longrightarrow> to_confirmed (ts_initiator_offer u) \<or> p = ts_initiator t"
    and "to_confirmed (ts_acceptor_offer t) \<longrightarrow> to_confirmed (ts_acceptor_offer u) \<or> p = ts_acceptor t"
    and "ts_state t \<noteq> TS_Proposed"
  using assms by (auto simp: confirm_session_def same_offers_def split: if_splits)

lemma sessions_ok: "map_of (tm_trades (fold tr_step ops tm_new)) i = Some t \<Longrightarrow> session_ok ops i t"
proof (induction ops arbitrary: i t rule: rev_induct)
  case (snoc x ops)
  let ?m = "fold tr_step ops tm_new"
  have t: "map_of (tm_trades (tr_step x ?m)) i = Some t" using snoc.prems by simp
  consider "map_of (tm_trades ?m) i = Some t" | "no_consent t" | "closed_trade t"
    | p u where "x = TRConfirm i p" "map_of (tm_trades ?m) i = Some u" "modifiable (ts_state u)"
        "confirm_session p u = Some t"
    | u where "map_of (tm_trades ?m) i = Some u" "ts_state u = TS_Proposed" "t = u\<lparr>ts_state := TS_Negotiating\<rparr>"
    using tr_step_session[OF t] by blast
  then show ?case
  proof cases
    case 1
    from snoc.IH[OF this] show ?thesis by (auto simp: session_ok_def intro: consented_snoc)
  next
    case (4 p u)
    note c = confirm_session_cases[OF 4(4)]
    have now: "consented (ops @ [x]) i t p" using consented_now[OF 4(2) c(1)] 4(1) by simp
    have u: "session_ok ops i u" using snoc.IH[OF 4(2)] .
    have "\<not> closed_trade u" using 4(3) by (auto simp: closed_trade_def modifiable_def)
    moreover have "ts_initiator u = ts_initiator t" "ts_acceptor u = ts_acceptor t"
      using c(1) by (simp_all add: same_offers_def)
    ultimately show ?thesis
      using u c now consented_same[OF consented_snoc c(1)] unfolding session_ok_def by metis
  next
    case (5 u)
    from snoc.IH[OF 5(1)] have "no_consent u" using 5(2) by (auto simp: session_ok_def closed_trade_def)
    then show ?thesis using 5(3) by (simp add: session_ok_def no_consent_def)
  qed (auto simp: session_ok_def no_consent_def)
qed (simp add: tm_new_def)

text \<open>C14. Whenever a trade executes, the confirming player is one of the two, the other one
  confirmed at an earlier moment at which both offers were exactly those that are now exchanged,
  and each side receives what the other offered.\<close>

theorem trade_executes_on_consent:
  assumes "confirm_trade i p (fold tr_step ops tm_new) = (TR_Executed j ir ar, m)"
  shows "\<exists>t other. get_trade (fold tr_step ops tm_new) i = Some t
    \<and> {p, other} = {ts_initiator t, ts_acceptor t} \<and> consented ops i t other
    \<and> ir = to_items (ts_acceptor_offer t) \<and> ar = to_items (ts_initiator_offer t)"
proof -
  let ?m = "fold tr_step ops tm_new"
  obtain t t1 where t: "map_of (tm_trades ?m) i = Some t" and "modifiable (ts_state t)"
    and t1: "confirm_session p t = Some t1" "ts_state t1 = TS_Completed"
    and r: "ir = to_items (ts_acceptor_offer t1)" "ar = to_items (ts_initiator_offer t1)"
    using assms by (auto simp: confirm_trade_def Let_def split: option.splits if_splits)
  then have ok: "session_ok ops i t" "\<not> closed_trade t"
    using sessions_ok[OF t] by (auto simp: closed_trade_def modifiable_def)
  have items: "to_items (ts_acceptor_offer t1) = to_items (ts_acceptor_offer t)"
    "to_items (ts_initiator_offer t1) = to_items (ts_initiator_offer t)"
    using confirm_session_cases(1)[OF t1(1)] by (simp_all add: same_offers_def)
  show ?thesis
  proof (cases "ts_initiator t = p")
    case True
    then have "to_confirmed (ts_acceptor_offer t)"
      using t1 by (auto simp: confirm_session_def split: if_splits)
    then have "consented ops i t (ts_acceptor t)" using ok by (simp add: session_ok_def)
    with True t r items show ?thesis unfolding get_trade_def by blast
  next
    case False
    then have p: "ts_acceptor t = p" "to_confirmed (ts_initiator_offer t)"
      using t1 by (auto simp: confirm_session_def split: if_splits)
    then have "consented ops i t (ts_initiator t)" using ok by (simp add: session_ok_def)
    with p t r items show ?thesis unfolding get_trade_def by blast
  qed
qed

definition demo_trade :: "tr_op list" where
  "demo_trade = [TRPropose ''a'' ''b'' 0, TRAccept 1 ''b'', TRAdd 1 ''a'' 31 5, TRConfirm 1 ''a'',
     TRAdd 1 ''b'' 20 2, TRConfirm 1 ''b'']"

theorem trade_executes_on_consent_witness:
  "\<exists>m. confirm_trade 1 ''a'' (fold tr_step demo_trade tm_new) = (TR_Executed 1 [(20, 2)] [(31, 5)], m)
     \<and> (\<exists>t. get_trade (fold tr_step demo_trade tm_new) 1 = Some t \<and> consented demo_trade 1 t ''b'')"
proof -
  have "fst (confirm_trade 1 ''a'' (fold tr_step demo_trade tm_new)) = TR_Executed 1 [(20, 2)] [(31, 5)]"
    by code_simp
  then obtain m where m: "confirm_trade 1 ''a'' (fold tr_step demo_trade tm_new)
      = (TR_Executed 1 [(20, 2)] [(31, 5)], m)" by (metis prod.collapse)
  have parts: "map_option (\<lambda>t. (ts_initiator t, ts_acceptor t)) (get_trade (fold tr_step demo_trade tm_new) 1)
      = Some (''a'', ''b'')"
    by code_simp
  from trade_executes_on_consent[OF m] obtain t q where
    t: "get_trade (fold tr_step demo_trade tm_new) 1 = Some t" and
    q: "{''a'', q} = {ts_initiator t, ts_acceptor t}" "consented demo_trade 1 t q" by blast
  have "q = ''b''" using q(1) t parts by (auto simp: doubleton_eq_iff)
  with m t q show ?thesis by blast
qed

section \<open>Cancelling looks at nothing\<close>

text \<open>A participant can cancel a trade in any state, a completed one included; both
  players then count as free, even when a newer trade of theirs is in progress.\<close>

theorem cancel_ignores_state:
  assumes "get_trade m i = Some t" and "p = ts_initiator t \<or> p = ts_acceptor t"
  shows "fst (cancel_trade i p m) = TR_Cancelled i
    \<and> get_trade (snd (cancel_trade i p m)) i = Some (t\<lparr>ts_state := TS_Cancelled\<rparr>)
    \<and> get_player_trade (snd (cancel_trade i p m)) (ts_initiator t) = None
    \<and> get_player_trade (snd (cancel_trade i p m)) (ts_acceptor t) = None"
  using assms
  by (auto simp: cancel_trade_def get_trade_def get_player_trade_def hm_update_get hm_delete_get)

definition demo_second_trade :: trade_manager where
  "demo_second_trade = fold tr_step (demo_trade @ [TRConfirm 1 ''a'', TRPropose ''a'' ''c'' 5, TRAccept 2 ''c'']) tm_new"

theorem cancel_ignores_state_witness:
  "get_player_trade demo_second_trade ''a'' \<noteq> None
   \<and> map_option ts_state (get_trade demo_second_trade 1) = Some TS_Completed
   \<and> get_player_trade (snd (cancel_trade 1 ''b'' demo_second_trade)) ''a'' = None"
proof -
  have s: "map_option (\<lambda>t. (ts_initiator t, ts_acceptor t, ts_state t)) (get_trade demo_second_trade 1)
      = Some (''a'', ''b'', TS_Completed)"
    and a: "get_player_trade demo_second_trade ''a'' \<noteq> None"
    by code_simp+
  then obtain t where t: "get_trade demo_second_trade 1 = Some t" "ts_initiator t = ''a''"
    "ts_acceptor t = ''b''" "ts_state t = TS_Completed" by auto
  with a cancel_ignores_state[OF t(1), of "''b''"] show ?thesis by simp
qed

end
