(* ===== verification/Items.thy ===== *)
theory Items
  imports Primitives F32
begin

text \<open>
  Item definitions, drop tables and their deterministic rolls, \<open>crates/game-engine/src/items.rs\<close>.
  A roll takes the first eight bytes of a Keccak hash modulo the total weight.
\<close>

section \<open>Data\<close>

type_synonym item_def_id = u32

datatype item_rarity = IR_Common | IR_Uncommon | IR_Rare | IR_Epic | IR_Legendary

fun drop_weight :: "item_rarity \<Rightarrow> u32" where
  "drop_weight IR_Common = 100"
| "drop_weight IR_Uncommon = 40"
| "drop_weight IR_Rare = 15"
| "drop_weight IR_Epic = 5"
| "drop_weight IR_Legendary = 1"

fun color_hex :: "item_rarity \<Rightarrow> string" where
  "color_hex IR_Common = ''#9d9d9d''"
| "color_hex IR_Uncommon = ''#1eff00''"
| "color_hex IR_Rare = ''#0070dd''"
| "color_hex IR_Epic = ''#a335ee''"
| "color_hex IR_Legendary = ''#ff8000''"

datatype item_category = IC_Weapon | IC_Armor | IC_Consumable | IC_Material | IC_Quest | IC_Misc

datatype equip_slot = ES_MainHand | ES_OffHand | ES_Head | ES_Chest | ES_Legs | ES_Boots

record item_stats =
  ist_attack :: f32
  ist_defense :: f32
  ist_health_bonus :: f32
  ist_speed_bonus :: f32
  ist_heal_amount :: f32

definition ist_default :: item_stats where
  "ist_default = \<lparr> ist_attack = 0, ist_defense = 0, ist_health_bonus = 0, ist_speed_bonus = 0, ist_heal_amount = 0 \<rparr>"

record item_def =
  it_id :: item_def_id
  it_name :: string
  it_description :: string
  it_category :: item_category
  it_rarity :: item_rarity
  it_max_stack :: u32
  it_stats :: item_stats
  it_equip_slot :: "equip_slot option"
  it_value :: u64

record drop_entry =
  de_item_id :: item_def_id
  de_weight :: u32
  de_min_quantity :: u32
  de_max_quantity :: u32

record drop_table =
  dt_npc_type :: string
  dt_entries :: "drop_entry list"
  dt_nothing_weight :: u32

record item_registry =
  ir_items :: "(item_def_id \<times> item_def) list"
  ir_drop_tables :: "(string \<times> drop_table) list"

section \<open>Rolling a drop\<close>

definition deterministic_random :: "externs \<Rightarrow> u64 \<Rightarrow> u64 \<Rightarrow> u64" where
  "deterministic_random X seed index =
     from_le_bytes (take 8 (to_be_bytes 32 (x_keccak X (to_le_bytes 8 seed @ to_le_bytes 8 index))))"

definition total_weight :: "drop_table \<Rightarrow> u64" where
  "total_weight t = ucast (dt_nothing_weight t) + sum_list (map (\<lambda>e. ucast (de_weight e)) (dt_entries t))"

text \<open>The loop over the entries, from the weight accumulated so far.\<close>

fun select_entry :: "u64 \<Rightarrow> u64 \<Rightarrow> drop_entry list \<Rightarrow> drop_entry option" where
  "select_entry r cumulative [] = None"
| "select_entry r cumulative (e # es) =
     (let c = cumulative + ucast (de_weight e) in if r < c then Some e else select_entry r c es)"

definition drop_quantity :: "externs \<Rightarrow> u64 \<Rightarrow> drop_entry \<Rightarrow> u32" where
  "drop_quantity X seed e =
     (let rng = saturating_sub (de_max_quantity e) (de_min_quantity e) + 1 in
      if rng \<le> 1 then de_min_quantity e
      else de_min_quantity e + ucast (deterministic_random X seed 1 mod ucast rng))"

text \<open>The entry a roll below the total weight lands on.\<close>

definition select_drop :: "drop_table \<Rightarrow> u64 \<Rightarrow> drop_entry option" where
  "select_drop t r =
     (let cumulative = ucast (dt_nothing_weight t) in
      if r < cumulative then None else select_entry r cumulative (dt_entries t))"

definition roll :: "externs \<Rightarrow> drop_table \<Rightarrow> u64 \<Rightarrow> (item_def_id \<times> u32) option" where
  "roll X t seed =
     (let total = total_weight t in
      if total = 0 then None
      else case select_drop t (deterministic_random X seed 0 mod total) of
             None \<Rightarrow> None
           | Some e \<Rightarrow> Some (de_item_id e, drop_quantity X seed e))"

section \<open>The registry\<close>

definition ir_new :: item_registry where
  "ir_new = \<lparr> ir_items = [], ir_drop_tables = [] \<rparr>"

definition ir_register :: "item_def \<Rightarrow> item_registry \<Rightarrow> item_registry" where
  "ir_register d r = r\<lparr>ir_items := AList.update (it_id d) d (ir_items r)\<rparr>"

definition register_drop_table :: "drop_table \<Rightarrow> item_registry \<Rightarrow> item_registry" where
  "register_drop_table t r = r\<lparr>ir_drop_tables := AList.update (dt_npc_type t) t (ir_drop_tables r)\<rparr>"

definition ir_get :: "item_registry \<Rightarrow> item_def_id \<Rightarrow> item_def option" where
  "ir_get r i = map_of (ir_items r) i"

definition get_drop_table :: "item_registry \<Rightarrow> string \<Rightarrow> drop_table option" where
  "get_drop_table r t = map_of (ir_drop_tables r) t"

definition item_count :: "item_registry \<Rightarrow> nat" where
  "item_count r = length (ir_items r)"

definition item_lit ::
  "u32 \<Rightarrow> string \<Rightarrow> string \<Rightarrow> item_category \<Rightarrow> item_rarity \<Rightarrow> u32 \<Rightarrow> item_stats \<Rightarrow> equip_slot option \<Rightarrow> u64 \<Rightarrow> item_def" where
  "item_lit i name desc cat rar stack st slot val =
     \<lparr> it_id = i, it_name = name, it_description = desc, it_category = cat, it_rarity = rar,
       it_max_stack = stack, it_stats = st, it_equip_slot = slot, it_value = val \<rparr>"

definition builtin_items :: "item_def list" where
  "builtin_items =
     [item_lit 1 ''Wooden Sword'' ''A simple wooden training sword.'' IC_Weapon IR_Common 1
        (ist_default\<lparr>ist_attack := f32_of_int 5\<rparr>) (Some ES_MainHand) 10,
      item_lit 2 ''Iron Sword'' ''A sturdy iron sword.'' IC_Weapon IR_Uncommon 1
        (ist_default\<lparr>ist_attack := f32_of_int 15\<rparr>) (Some ES_MainHand) 50,
      item_lit 3 ''Steel Greatsword'' ''A finely crafted steel greatsword.'' IC_Weapon IR_Rare 1
        (ist_default\<lparr>ist_attack := f32_of_int 30\<rparr>) (Some ES_MainHand) 200,
      item_lit 4 ''Dragon Slayer'' ''A legendary blade forged in dragon fire.'' IC_Weapon IR_Legendary 1
        (ist_default\<lparr>ist_attack := f32_of_int 80, ist_health_bonus := f32_of_int 50\<rparr>) (Some ES_MainHand) 5000,
      item_lit 10 ''Leather Helmet'' ''Basic leather head protection.'' IC_Armor IR_Common 1
        (ist_default\<lparr>ist_defense := f32_of_int 3\<rparr>) (Some ES_Head) 15,
      item_lit 11 ''Iron Chestplate'' ''Iron armor for the torso.'' IC_Armor IR_Uncommon 1
        (ist_default\<lparr>ist_defense := f32_of_int 12\<rparr>) (Some ES_Chest) 80,
      item_lit 12 ''Steel Boots'' ''Heavy steel boots.'' IC_Armor IR_Uncommon 1
        (ist_default\<lparr>ist_defense := f32_of_int 8, ist_speed_bonus := f32_lit (- 5) 2\<rparr>) (Some ES_Boots) 60,
      item_lit 20 ''Health Potion'' ''Restores 50 health.'' IC_Consumable IR_Common 10
        (ist_default\<lparr>ist_heal_amount := f32_of_int 50\<rparr>) None 25,
      item_lit 21 ''Greater Health Potion'' ''Restores 150 health.'' IC_Consumable IR_Uncommon 10
        (ist_default\<lparr>ist_heal_amount := f32_of_int 150\<rparr>) None 75,
      item_lit 22 ''Cooked Meat'' ''A hearty meal. Restores 30 health.'' IC_Consumable IR_Common 20
        (ist_default\<lparr>ist_heal_amount := f32_of_int 30\<rparr>) None 5,
      item_lit 30 ''Iron Ore'' ''Raw iron ore for smelting.'' IC_Material IR_Common 50 ist_default None 3,
      item_lit 31 ''Wood'' ''A piece of lumber.'' IC_Material IR_Common 50 ist_default None 1,
      item_lit 32 ''Dragon Scale'' ''A shimmering scale from a dragon.'' IC_Material IR_Epic 10 ist_default None 500]"

definition mk_drop :: "u32 \<Rightarrow> u32 \<Rightarrow> u32 \<Rightarrow> u32 \<Rightarrow> drop_entry" where
  "mk_drop i w lo hi = \<lparr> de_item_id = i, de_weight = w, de_min_quantity = lo, de_max_quantity = hi \<rparr>"

definition builtin_tables :: "drop_table list" where
  "builtin_tables =
     [\<lparr> dt_npc_type = ''merchant'', dt_entries = [mk_drop 20 30 1 2, mk_drop 31 40 1 3], dt_nothing_weight = 50 \<rparr>,
      \<lparr> dt_npc_type = ''guard'', dt_entries = [mk_drop 1 20 1 1, mk_drop 2 5 1 1, mk_drop 10 15 1 1, mk_drop 30 30 1 5],
        dt_nothing_weight = 30 \<rparr>,
      \<lparr> dt_npc_type = ''wolf'', dt_entries = [mk_drop 22 40 1 2, mk_drop 31 20 1 1], dt_nothing_weight = 40 \<rparr>,
      \<lparr> dt_npc_type = ''dragon'', dt_entries = [mk_drop 4 2 1 1, mk_drop 3 10 1 1, mk_drop 32 30 1 3, mk_drop 21 20 1 2],
        dt_nothing_weight = 5 \<rparr>]"

definition default_items :: item_registry where
  "default_items = fold register_drop_table builtin_tables (fold ir_register builtin_items ir_new)"

section \<open>The odds of a roll\<close>

lemma unat_widen:
  fixes w :: "'a::len word"
  assumes "LENGTH('a) \<le> LENGTH('b::len)"
  shows "unat (ucast w :: 'b word) = unat w"
proof -
  have "unat w < 2 ^ LENGTH('a)" by (rule unsigned_less)
  also have "(2 :: nat) ^ LENGTH('a) \<le> 2 ^ LENGTH('b)" using assms by (rule power_increasing) simp
  finally show ?thesis by (simp add: unsigned_ucast_eq take_bit_nat_eq_self)
qed

lemma card_word_interval: "card {r :: 'a::len word. a \<le> r \<and> r < b} = unat b - unat a"
proof -
  have "unat ` {r :: 'a word. a \<le> r \<and> r < b} = {unat a..<unat b}"
  proof (intro set_eqI iffI)
    fix n assume n: "n \<in> {unat a..<unat b}"
    have "unat b < 2 ^ LENGTH('a)" by (rule unsigned_less)
    moreover have "n < unat b" using n by simp
    ultimately have "n < 2 ^ LENGTH('a)" by (rule order.strict_trans[rotated])
    then have u: "unat (of_nat n :: 'a word) = n" by (simp add: unat_of_nat)
    then have "of_nat n \<in> {r :: 'a word. a \<le> r \<and> r < b}"
      using n by (simp add: word_le_nat_alt word_less_nat_alt)
    then show "n \<in> unat ` {r :: 'a word. a \<le> r \<and> r < b}" using u by (metis imageI)
  qed (auto simp: word_le_nat_alt word_less_nat_alt)
  moreover have "inj_on unat {r :: 'a word. a \<le> r \<and> r < b}" by (meson inj_onI word_unat_eq_iff)
  ultimately show ?thesis using card_image[of unat "{r :: 'a word. a \<le> r \<and> r < b}"] by simp
qed

abbreviation weights :: "drop_entry list \<Rightarrow> nat" where
  "weights es \<equiv> sum_list (map (\<lambda>e. unat (de_weight e)) es)"

text \<open>The 64-bit sum does not wrap while there are fewer than $2^{32}$ entries.\<close>

lemma weights_bound: "weights es \<le> length es * (2 ^ 32 - 1)"
proof (induction es)
  case (Cons e es)
  have "unat (de_weight e) < 2 ^ 32" using unsigned_less[of "de_weight e"] by simp
  with Cons show ?case by simp
qed simp

lemma unat_sum_weights:
  "weights es < 2 ^ 64 \<Longrightarrow> unat (sum_list (map (\<lambda>e. ucast (de_weight e) :: u64) es)) = weights es"
  by (induction es) (simp_all add: unat_word_ariths unat_widen)

lemma unat_add_weight:
  "unat (c :: u64) + unat (de_weight e) < 2 ^ 64 \<Longrightarrow> unat (c + ucast (de_weight e)) = unat c + unat (de_weight e)"
  by (simp add: unat_word_ariths unat_widen)

lemma select_entry_beyond: "select_entry r c es = Some e \<Longrightarrow> e \<in> set es"
  by (induction r c es rule: select_entry.induct) (auto simp: Let_def split: if_splits)

lemma card_select_entry:
  "unat c + weights es < 2 ^ 64 \<Longrightarrow>
   card {r. c \<le> r \<and> select_entry r c es = Some e} = weights (filter (\<lambda>d. d = e) es)"
proof (induction es arbitrary: c)
  case (Cons a es)
  let ?c = "c + ucast (de_weight a)"
  let ?here = "{r. c \<le> r \<and> r < ?c \<and> a = e}" and ?later = "{r. ?c \<le> r \<and> select_entry r ?c es = Some e}"
  have u: "unat ?c = unat c + unat (de_weight a)" using Cons.prems by (simp add: unat_add_weight)
  have "card {r. c \<le> r \<and> select_entry r c (a # es) = Some e} = card (?here \<union> ?later)"
    using u by (intro arg_cong[where f = card]) (auto simp: Let_def word_le_nat_alt word_less_nat_alt)
  also have "\<dots> = card ?here + card ?later"
    by (rule card_Un_disjoint) auto
  also have "card ?here = (if a = e then unat (de_weight a) else 0)"
    using card_word_interval[of c ?c] u by (cases "a = e") simp_all
  also have "card ?later = weights (filter (\<lambda>d. d = e) es)"
    by (rule Cons.IH) (use Cons.prems u in simp)
  finally show ?case by simp
qed simp

lemma select_entry_total:
  "unat c + weights es < 2 ^ 64 \<Longrightarrow> c \<le> r \<Longrightarrow>
   select_entry r c es = None \<longleftrightarrow> unat c + weights es \<le> unat r"
proof (induction es arbitrary: c)
  case (Cons a es)
  have u: "unat (c + ucast (de_weight a)) = unat c + unat (de_weight a)"
    using Cons.prems by (simp add: unat_add_weight)
  show ?case
  proof (cases "r < c + ucast (de_weight a)")
    case True
    then show ?thesis using u by (simp add: word_less_nat_alt)
  next
    case False
    then show ?thesis using Cons.IH[of "c + ucast (de_weight a)"] Cons.prems u by (auto simp: Let_def not_less add.assoc)
  qed
qed (simp add: word_le_nat_alt)

lemma unat_total_weight:
  assumes "length (dt_entries t) < 2 ^ 32"
  shows "unat (total_weight t) = unat (dt_nothing_weight t) + weights (dt_entries t)
    \<and> unat (dt_nothing_weight t) + weights (dt_entries t) < 2 ^ 64"
proof -
  have n: "unat (dt_nothing_weight t) < 2 ^ 32" using unsigned_less[of "dt_nothing_weight t"] by simp
  have "weights (dt_entries t) \<le> (2 ^ 32 - 1) * (2 ^ 32 - 1)"
    using weights_bound[of "dt_entries t"] assms mult_le_mono1[of "length (dt_entries t)" "2 ^ 32 - 1"] by force
  then have s: "unat (dt_nothing_weight t) + weights (dt_entries t) < 2 ^ 64" using n by simp
  then show ?thesis
    by (simp add: total_weight_def unat_word_ariths unat_sum_weights unat_widen)
qed

lemma select_drop_odds:
  assumes "length (dt_entries t) < 2 ^ 32"
  shows "card {r. r < total_weight t \<and> select_drop t r = None} = unat (dt_nothing_weight t)"
    and "card {r. r < total_weight t \<and> select_drop t r = Some e} = weights (filter (\<lambda>d. d = e) (dt_entries t))"
proof -
  let ?n = "ucast (dt_nothing_weight t) :: u64"
  note u = unat_total_weight[OF assms]
  have n: "unat ?n = unat (dt_nothing_weight t)" by (simp add: unat_widen)
  have none: "select_entry r ?n (dt_entries t) = None \<longleftrightarrow> total_weight t \<le> r" if "?n \<le> r" for r
    using select_entry_total[of ?n "dt_entries t" r] that u n by (simp add: word_le_nat_alt)
  have le: "?n \<le> total_weight t" using u n by (simp add: word_le_nat_alt)
  have "{r. r < total_weight t \<and> select_drop t r = None} = {r. 0 \<le> r \<and> r < ?n}"
    using none le by (auto simp: select_drop_def Let_def not_less split: if_splits)
  then show "card {r. r < total_weight t \<and> select_drop t r = None} = unat (dt_nothing_weight t)"
    using card_word_interval[of 0 ?n] n by simp
  have "{r. r < total_weight t \<and> select_drop t r = Some e} = {r. ?n \<le> r \<and> select_entry r ?n (dt_entries t) = Some e}"
    using none by (auto simp: select_drop_def Let_def not_less split: if_splits) (metis not_le option.distinct(1))
  then show "card {r. r < total_weight t \<and> select_drop t r = Some e} = weights (filter (\<lambda>d. d = e) (dt_entries t))"
    using card_select_entry[of ?n "dt_entries t" e] u n by simp
qed

lemma drop_quantity_bounds:
  "de_min_quantity e \<le> drop_quantity X seed e
   \<and> drop_quantity X seed e \<le> max (de_min_quantity e) (de_max_quantity e)"
proof (cases "saturating_sub (de_max_quantity e) (de_min_quantity e) + 1 \<le> 1")
  case True
  then show ?thesis by (simp add: drop_quantity_def)
next
  case False
  let ?lo = "de_min_quantity e" and ?d = "saturating_sub (de_max_quantity e) (de_min_quantity e)"
  let ?q = "deterministic_random X seed 1 mod ucast (?d + 1)"
  have d: "unat ?d = unat (de_max_quantity e) - unat ?lo" by (rule unat_saturating_sub)
  have "?d + 1 \<noteq> 0" using False by auto
  then have s: "unat (?d + 1) = Suc (unat ?d)" by (metis unat_plus_simple unatSuc add.commute)
  have p: "0 < unat ?d" using False s by (simp add: word_le_nat_alt)
  have "unat ?q < Suc (unat ?d)"
    using s by (simp add: unat_mod unat_widen)
  then have q: "unat ?q \<le> unat (de_max_quantity e) - unat ?lo" using d by simp
  have m: "unat (de_max_quantity e) < 2 ^ 32" using unsigned_less[of "de_max_quantity e"] by simp
  then have "unat (ucast ?q :: u32) = unat ?q" using q by (simp add: unsigned_ucast_eq take_bit_nat_eq_self)
  then have "unat (?lo + ucast ?q) = unat ?lo + unat ?q" using q p d m by (simp add: unat_word_ariths)
  then show ?thesis using False q p d by (simp add: drop_quantity_def Let_def word_le_nat_alt max_def)
qed

lemma roll_SomeE:
  assumes "roll X t seed = Some (i, q)"
  obtains e where "e \<in> set (dt_entries t)" "select_drop t (deterministic_random X seed 0 mod total_weight t) = Some e"
    "total_weight t \<noteq> 0" "i = de_item_id e" "q = drop_quantity X seed e"
proof -
  from assms obtain e where s: "select_drop t (deterministic_random X seed 0 mod total_weight t) = Some e"
    and e: "total_weight t \<noteq> 0" "i = de_item_id e" "q = drop_quantity X seed e"
    by (auto simp: roll_def Let_def split: if_splits option.splits)
  then have "e \<in> set (dt_entries t)"
    using select_entry_beyond by (auto simp: select_drop_def Let_def split: if_splits)
  with s e that show thesis by blast
qed

text \<open>C34. The roll is fair: of the numbers below the total weight, exactly as many give nothing as
  the weight of nothing says and exactly as many select an entry as its weights say; what is
  dropped is an entry with a quantity between its bounds.\<close>

theorem roll_fair:
  assumes "length (dt_entries t) < 2 ^ 32"
  shows "unat (total_weight t) = unat (dt_nothing_weight t) + weights (dt_entries t)
    \<and> card {r. r < total_weight t \<and> select_drop t r = None} = unat (dt_nothing_weight t)
    \<and> card {r. r < total_weight t \<and> select_drop t r = Some e} = weights (filter (\<lambda>d. d = e) (dt_entries t))
    \<and> (roll X t seed = None \<or>
        (\<exists>d. d \<in> set (dt_entries t) \<and> fst (the (roll X t seed)) = de_item_id d
           \<and> de_min_quantity d \<le> snd (the (roll X t seed))
           \<and> snd (the (roll X t seed)) \<le> max (de_min_quantity d) (de_max_quantity d)))"
proof (cases "roll X t seed")
  case (Some iq)
  obtain i q where iq: "iq = (i, q)" by (cases iq)
  from Some iq obtain d where "d \<in> set (dt_entries t)" "i = de_item_id d" "q = drop_quantity X seed d"
    by (auto elim: roll_SomeE)
  with drop_quantity_bounds[of d X seed] have "\<exists>d. d \<in> set (dt_entries t) \<and> i = de_item_id d
      \<and> de_min_quantity d \<le> q \<and> q \<le> max (de_min_quantity d) (de_max_quantity d)" by blast
  with Some iq select_drop_odds[OF assms] unat_total_weight[OF assms] show ?thesis by simp
qed (use select_drop_odds[OF assms] unat_total_weight[OF assms] in simp)

section \<open>The built-in tables\<close>

definition drop_fits :: "item_registry \<Rightarrow> drop_entry \<Rightarrow> bool" where
  "drop_fits r e = (case ir_get r (de_item_id e) of
     None \<Rightarrow> False
   | Some d \<Rightarrow> 1 \<le> de_min_quantity e \<and> max (de_min_quantity e) (de_max_quantity e) \<le> it_max_stack d)"

lemma default_items_items: "ir_items default_items = map (\<lambda>d. (it_id d, d)) builtin_items"
proof -
  have "ir_items (fold register_drop_table ts r) = ir_items r" for ts r
    by (induction ts arbitrary: r) (simp_all add: register_drop_table_def)
  then show ?thesis
    by (simp add: default_items_def builtin_items_def item_lit_def ir_register_def ir_new_def)
qed

lemma default_items_tables: "ir_drop_tables default_items = map (\<lambda>t. (dt_npc_type t, t)) builtin_tables"
proof -
  have "ir_drop_tables (fold ir_register ds r) = ir_drop_tables r" for ds r
    by (induction ds arbitrary: r) (simp_all add: ir_register_def)
  then show ?thesis
    by (simp add: default_items_def builtin_tables_def register_drop_table_def ir_new_def)
qed

lemma builtin_get: "ir_get default_items i = find (\<lambda>d. it_id d = i) builtin_items"
proof -
  have "map_of (map (\<lambda>d. (it_id d, d)) ds) i = find (\<lambda>d. it_id d = i) ds" for ds
    by (induction ds) auto
  then show ?thesis by (simp add: ir_get_def default_items_items)
qed

lemma builtin_fit: "list_all (\<lambda>t. list_all (drop_fits default_items) (dt_entries t)) builtin_tables"
  by (simp add: builtin_tables_def drop_fits_def builtin_get builtin_items_def item_lit_def mk_drop_def)

text \<open>What a built-in table drops, for any seed and hash function, is a built-in item in a
  quantity that is not zero and fits one stack.\<close>

theorem builtin_drops_fit:
  assumes "get_drop_table default_items npc = Some t" and "roll X t seed = Some (i, q)"
  shows "\<exists>d. ir_get default_items i = Some d \<and> it_id d = i \<and> 1 \<le> q \<and> q \<le> it_max_stack d"
proof -
  obtain e where e: "e \<in> set (dt_entries t)" and i: "i = de_item_id e" and q: "q = drop_quantity X seed e"
    using assms(2) by (rule roll_SomeE)
  have "t \<in> set builtin_tables"
    using assms(1) by (auto simp: get_drop_table_def default_items_tables dest!: map_of_SomeD)
  with builtin_fit e have "drop_fits default_items e" by (auto simp: list_all_iff)
  then obtain d where d: "ir_get default_items i = Some d" "1 \<le> de_min_quantity e"
    "max (de_min_quantity e) (de_max_quantity e) \<le> it_max_stack d"
    by (auto simp: drop_fits_def i split: option.splits)
  moreover have "it_id d = i" using d(1) by (auto simp: builtin_get find_Some_iff)
  moreover have "1 \<le> q" "q \<le> it_max_stack d"
    using d(2,3) drop_quantity_bounds[of e X seed] q by (simp_all only:) (meson order.trans)+
  ultimately show ?thesis by blast
qed

theorem roll_fair_witness:
  "card {r. r < total_weight (builtin_tables ! 2) \<and> select_drop (builtin_tables ! 2) r = Some (mk_drop 22 40 1 2)} = 40"
  using roll_fair[of "builtin_tables ! 2" "mk_drop 22 40 1 2" demo_externs 0]
  by (simp add: builtin_tables_def mk_drop_def)

lemma demo_random:
  "deterministic_random (demo_externs\<lparr>x_keccak := \<lambda>_. from_be_bytes (b # replicate 31 0)\<rparr>) seed index = ucast b"
proof -
  have "to_be_bytes 32 (from_be_bytes (b # replicate 31 0) :: b256) = b # replicate 31 0"
    by (rule to_from_be_bytes) simp_all
  moreover have "le_number (replicate n 0) = 0" for n by (induction n) simp_all
  then have "(from_le_bytes (b # replicate 7 0) :: u64) = ucast b"
    by (simp add: from_le_bytes_def from_be_bytes_def)
  ultimately show ?thesis by (simp add: deterministic_random_def)
qed

theorem builtin_drops_fit_witness:
  "roll (demo_externs\<lparr>x_keccak := \<lambda>_. from_be_bytes (60 # replicate 31 0)\<rparr>) (builtin_tables ! 0) 7 = Some (20, 1)
   \<and> (\<exists>d. ir_get default_items 20 = Some d \<and> it_id d = 20 \<and> (1::u32) \<le> 1 \<and> 1 \<le> it_max_stack d)"
proof -
  let ?X = "demo_externs\<lparr>x_keccak := \<lambda>_. from_be_bytes (60 # replicate 31 0)\<rparr>"
  have r: "roll ?X (builtin_tables ! 0) 7 = Some (20, 1)"
    by (simp add: roll_def demo_random total_weight_def select_drop_def drop_quantity_def saturating_sub_def
        builtin_tables_def mk_drop_def)
  have t: "get_drop_table default_items ''merchant'' = Some (builtin_tables ! 0)"
    by (simp add: get_drop_table_def default_items_tables builtin_tables_def)
  from r builtin_drops_fit[OF t r] show ?thesis by simp
qed

end
