(* ===== verification/Crafting.thy ===== *)
theory Crafting
  imports Items
begin

text \<open>
  Recipes and crafting, \<open>crates/game-engine/src/crafting.rs\<close>. An inventory is the
  \<open>HashMap\<close> from item ids to quantities. \<open>execute_craft\<close> is \<open>None\<close> where the
  code panics; the subtraction of a quantity wraps.
\<close>

section \<open>Data\<close>

type_synonym recipe_id = u32
type_synonym item_id = u32

datatype craft_category = CC_Weapon | CC_Armor | CC_Consumable | CC_Material | CC_Tool

record crafting_recipe =
  cr_id :: recipe_id
  cr_name :: string
  cr_materials :: "(item_id \<times> u32) list"
  cr_result_item_id :: item_id
  cr_result_quantity :: u32
  cr_required_level :: u32
  cr_craft_ticks :: u32
  cr_category :: craft_category

datatype craft_result =
    CR_Success recipe_id item_id u32
  | CR_MissingMaterials "(item_id \<times> u32 \<times> u32) list"
  | CR_LevelTooLow u32 u32
  | CR_RecipeNotFound recipe_id

type_synonym crafting_registry = "(recipe_id \<times> crafting_recipe) list"
type_synonym inventory = "(item_id \<times> u32) list"

section \<open>Operations\<close>

definition craft_register :: "crafting_recipe \<Rightarrow> crafting_registry \<Rightarrow> crafting_registry" where
  "craft_register r reg = AList.update (cr_id r) r reg"

definition recipe ::
  "u32 \<Rightarrow> string \<Rightarrow> (item_id \<times> u32) list \<Rightarrow> u32 \<Rightarrow> u32 \<Rightarrow> u32 \<Rightarrow> u32 \<Rightarrow> craft_category \<Rightarrow> crafting_recipe" where
  "recipe i name mats item q level ticks cat =
     \<lparr> cr_id = i, cr_name = name, cr_materials = mats, cr_result_item_id = item,
       cr_result_quantity = q, cr_required_level = level, cr_craft_ticks = ticks, cr_category = cat \<rparr>"

text \<open>The built-in recipes; the item registry argument of the source is not used by it.\<close>

definition default_recipes :: crafting_registry where
  "default_recipes = fold craft_register
     [recipe 1 ''Craft Wooden Sword'' [(31, 5)] 1 1 1 0 CC_Weapon,
      recipe 2 ''Craft Iron Sword'' [(30, 5), (31, 2)] 2 1 3 0 CC_Weapon,
      recipe 3 ''Forge Steel Greatsword'' [(30, 15), (31, 5)] 3 1 8 0 CC_Weapon,
      recipe 4 ''Forge Dragon Slayer'' [(30, 30), (32, 5), (31, 10)] 4 1 15 0 CC_Weapon,
      recipe 10 ''Craft Leather Helmet'' [(31, 3)] 10 1 1 0 CC_Armor,
      recipe 11 ''Forge Iron Chestplate'' [(30, 10), (31, 3)] 11 1 5 0 CC_Armor,
      recipe 12 ''Forge Steel Boots'' [(30, 8), (31, 2)] 12 1 4 0 CC_Armor,
      recipe 20 ''Brew Health Potion'' [(31, 2)] 20 2 1 0 CC_Consumable,
      recipe 21 ''Brew Greater Health Potion'' [(20, 3), (32, 1)] 21 1 10 0 CC_Consumable,
      recipe 22 ''Cook Meat'' [(31, 1)] 22 2 1 0 CC_Consumable,
      recipe 30 ''Smelt Iron Ingot'' [(30, 3), (31, 1)] 30 2 2 0 CC_Material] []"

definition recipe_get :: "crafting_registry \<Rightarrow> recipe_id \<Rightarrow> crafting_recipe option" where
  "recipe_get reg i = map_of reg i"

definition recipes_for_level :: "crafting_registry \<Rightarrow> u32 \<Rightarrow> crafting_recipe list" where
  "recipes_for_level reg level = filter (\<lambda>r. cr_required_level r \<le> level) (hm_vals reg)"

definition recipes_by_category :: "crafting_registry \<Rightarrow> craft_category \<Rightarrow> crafting_recipe list" where
  "recipes_by_category reg c = filter (\<lambda>r. cr_category r = c) (hm_vals reg)"

definition recipe_count :: "crafting_registry \<Rightarrow> nat" where
  "recipe_count reg = length reg"

definition stock :: "inventory \<Rightarrow> item_id \<Rightarrow> u32" where
  "stock bag x = (case map_of bag x of None \<Rightarrow> 0 | Some n \<Rightarrow> n)"

definition missing_materials :: "inventory \<Rightarrow> (item_id \<times> u32) list \<Rightarrow> (item_id \<times> u32 \<times> u32) list" where
  "missing_materials bag mats =
     map (\<lambda>(x, q). (x, q, stock bag x)) (filter (\<lambda>(x, q). stock bag x < q) mats)"

definition can_craft :: "crafting_registry \<Rightarrow> recipe_id \<Rightarrow> u32 \<Rightarrow> inventory \<Rightarrow> craft_result" where
  "can_craft reg i level bag =
     (case recipe_get reg i of
        None \<Rightarrow> CR_RecipeNotFound i
      | Some r \<Rightarrow>
          if level < cr_required_level r then CR_LevelTooLow (cr_required_level r) level
          else let missing = missing_materials bag (cr_materials r) in
            if missing \<noteq> [] then CR_MissingMaterials missing
            else CR_Success i (cr_result_item_id r) (cr_result_quantity r))"

text \<open>One material: \<open>get_mut\<close>, \<open>unwrap\<close>, subtract, remove at zero.\<close>

definition consume :: "item_id \<times> u32 \<Rightarrow> inventory \<Rightarrow> inventory option" where
  "consume mq bag = (case mq of (x, q) \<Rightarrow>
     (case map_of bag x of
        None \<Rightarrow> None
      | Some n \<Rightarrow> if n - q = 0 then Some (AList.delete x bag) else Some (AList.update x (n - q) bag)))"

fun consume_all :: "(item_id \<times> u32) list \<Rightarrow> inventory \<Rightarrow> inventory option" where
  "consume_all [] bag = Some bag"
| "consume_all (mq # mats) bag = Option.bind (consume mq bag) (consume_all mats)"

definition execute_craft ::
  "crafting_registry \<Rightarrow> recipe_id \<Rightarrow> u32 \<Rightarrow> inventory \<Rightarrow> (craft_result \<times> inventory) option" where
  "execute_craft reg i level bag =
     (let result = can_craft reg i level bag in
      case result of
        CR_Success rid item q \<Rightarrow>
          Option.bind (recipe_get reg rid) (\<lambda>r.
          Option.bind (consume_all (cr_materials r) bag) (\<lambda>bag1.
          Some (result, AList.update item (stock bag1 item + q) bag1)))
      | _ \<Rightarrow> Some (result, bag))"

section \<open>Consumption\<close>

lemma stock_update: "stock (AList.update x n bag) y = (if y = x then n else stock bag y)"
  by (simp add: stock_def hm_update_get)

lemma stock_delete: "stock (AList.delete x bag) y = (if y = x then 0 else stock bag y)"
  by (simp add: stock_def hm_delete_get)

lemma consume_stock:
  assumes "0 < q" "q \<le> stock bag x"
  obtains bag' where "consume (x, q) bag = Some bag'"
    "\<And>y. stock bag' y = (if y = x then stock bag x - q else stock bag y)"
proof -
  have "0 < stock bag x" using assms by (metis order_less_le_trans)
  then obtain n where n: "map_of bag x = Some n" "stock bag x = n"
    by (auto simp: stock_def split: option.splits)
  show ?thesis
  proof (cases "n - q = 0")
    case True
    with n show ?thesis by (intro that[of "AList.delete x bag"]) (auto simp: consume_def stock_delete)
  next
    case False
    with n show ?thesis by (intro that[of "AList.update x (n - q) bag"]) (auto simp: consume_def stock_update)
  qed
qed

definition required :: "(item_id \<times> u32) list \<Rightarrow> item_id \<Rightarrow> u32" where
  "required mats x = (case map_of mats x of None \<Rightarrow> 0 | Some q \<Rightarrow> q)"

lemma consume_all_stock:
  assumes "distinct (map fst mats)" "\<forall>(x, q) \<in> set mats. 0 < q \<and> q \<le> stock bag x"
  shows "\<exists>bag'. consume_all mats bag = Some bag' \<and> (\<forall>y. stock bag' y = stock bag y - required mats y)"
  using assms
proof (induction mats arbitrary: bag)
  case (Cons mq mats)
  obtain x q where mq: "mq = (x, q)" by (cases mq)
  then obtain bag1 where bag1: "consume (x, q) bag = Some bag1"
    "\<And>y. stock bag1 y = (if y = x then stock bag x - q else stock bag y)"
    using Cons.prems(2) consume_stock[of q bag x] by auto
  have x: "x \<notin> fst ` set mats" using Cons.prems(1) mq by simp
  have "\<forall>(y, r) \<in> set mats. 0 < r \<and> r \<le> stock bag1 y"
  proof
    fix yr assume yr: "yr \<in> set mats"
    then have "fst yr \<noteq> x" using x by auto
    then show "case yr of (y, r) \<Rightarrow> 0 < r \<and> r \<le> stock bag1 y"
      using Cons.prems(2) bag1(2) yr by auto
  qed
  then obtain bag' where bag': "consume_all mats bag1 = Some bag'"
    "\<forall>y. stock bag' y = stock bag1 y - required mats y"
    using Cons.IH[of bag1] Cons.prems(1) by auto
  have "required mats x = 0" using x map_of_eq_None_iff[of mats x] by (simp add: required_def)
  then have "stock bag' y = stock bag y - required (mq # mats) y" for y
    using bag' bag1(2) mq by (simp add: required_def)
  then show ?case using bag' bag1 mq by auto
qed (simp add: required_def)

definition recipe_ok :: "crafting_recipe \<Rightarrow> bool" where
  "recipe_ok r \<longleftrightarrow> distinct (map fst (cr_materials r)) \<and> list_all (\<lambda>(x, q). 0 < q) (cr_materials r)"

lemma missing_none: "missing_materials bag mats = [] \<longleftrightarrow> (\<forall>(x, q) \<in> set mats. q \<le> stock bag x)"
  by (auto simp: missing_materials_def filter_empty_conv)

lemma required_short:
  assumes "distinct (map fst mats)"
  shows "(\<exists>x. stock bag x < required mats x) \<longleftrightarrow> missing_materials bag mats \<noteq> []"
proof -
  have "(\<exists>x. stock bag x < required mats x) \<longleftrightarrow> (\<exists>(x, q) \<in> set mats. stock bag x < q)"
  proof
    assume "\<exists>x. stock bag x < required mats x"
    then obtain x where x: "stock bag x < required mats x" by blast
    then obtain q where "map_of mats x = Some q" by (cases "map_of mats x") (simp_all add: required_def)
    then show "\<exists>(x, q) \<in> set mats. stock bag x < q"
      using x by (auto simp: required_def dest: map_of_SomeD simp del: map_of_eq_Some_iff)
  next
    assume "\<exists>(x, q) \<in> set mats. stock bag x < q"
    then obtain x q where "(x, q) \<in> set mats" "stock bag x < q" by blast
    then have "stock bag x < required mats x" using assms by (simp add: required_def)
    then show "\<exists>x. stock bag x < required mats x" by blast
  qed
  then show ?thesis using missing_none[of bag mats] by (auto simp: not_less[symmetric])
qed

text \<open>C32. When the recipe asked for lists every material once and with a positive quantity, crafting does not
  panic and its outcome is fixed by the recipe, the level and the stock: an unknown recipe, a level that is too low
  and a shortage, reported with exactly the materials that are short, leave the inventory alone; in
  every other case the attempt succeeds, takes exactly the required quantity of every material, adds
  the product (modulo \<open>2 ^ 32\<close>), and touches no other item.\<close>

theorem craft_conserves:
  assumes "\<And>r. recipe_get reg i = Some r \<Longrightarrow> recipe_ok r"
  shows "case recipe_get reg i of
      None \<Rightarrow> execute_craft reg i level bag = Some (CR_RecipeNotFound i, bag)
    | Some r \<Rightarrow>
        if level < cr_required_level r
        then execute_craft reg i level bag = Some (CR_LevelTooLow (cr_required_level r) level, bag)
        else if \<exists>x. stock bag x < required (cr_materials r) x
        then \<exists>ms. execute_craft reg i level bag = Some (CR_MissingMaterials ms, bag)
          \<and> set ms = {(x, q, stock bag x) | x q. (x, q) \<in> set (cr_materials r) \<and> stock bag x < q}
        else \<exists>bag'. execute_craft reg i level bag
            = Some (CR_Success i (cr_result_item_id r) (cr_result_quantity r), bag')
          \<and> (\<forall>x. stock bag' x = stock bag x - required (cr_materials r) x
               + (if x = cr_result_item_id r then cr_result_quantity r else 0))"
proof (cases "recipe_get reg i")
  case None
  then show ?thesis by (simp add: execute_craft_def can_craft_def)
next
  case (Some r)
  then have ok: "distinct (map fst (cr_materials r))" "\<forall>(x, q) \<in> set (cr_materials r). 0 < q"
    using assms by (auto simp: recipe_ok_def list_all_iff)
  let ?m = "missing_materials bag (cr_materials r)"
  have "set ?m = {(x, q, stock bag x) | x q. (x, q) \<in> set (cr_materials r) \<and> stock bag x < q}"
    by (force simp: missing_materials_def)
  moreover have "\<exists>bag'. execute_craft reg i level bag
        = Some (CR_Success i (cr_result_item_id r) (cr_result_quantity r), bag')
      \<and> (\<forall>x. stock bag' x = stock bag x - required (cr_materials r) x
           + (if x = cr_result_item_id r then cr_result_quantity r else 0))"
    if "\<not> level < cr_required_level r" and m: "?m = []"
  proof -
    have "\<forall>(x, q) \<in> set (cr_materials r). 0 < q \<and> q \<le> stock bag x" using ok(2) m by (auto simp: missing_none)
    then obtain bag1 where "consume_all (cr_materials r) bag = Some bag1"
      "\<forall>y. stock bag1 y = stock bag y - required (cr_materials r) y"
      using consume_all_stock[OF ok(1)] by blast
    then show ?thesis using Some that by (simp add: execute_craft_def can_craft_def stock_update)
  qed
  ultimately show ?thesis
    unfolding Some option.case required_short[OF ok(1)]
    using Some by (auto simp: execute_craft_def can_craft_def Let_def)
qed

lemma default_recipes_ok: "list_all recipe_ok (hm_vals default_recipes)"
  by code_simp

lemma default_recipe_ok: "recipe_get default_recipes i = Some r \<Longrightarrow> recipe_ok r"
  using default_recipes_ok unfolding recipe_get_def list_all_iff by (force dest: map_of_SomeD)

theorem craft_conserves_witness:
  "\<exists>bag'. execute_craft default_recipes 2 3 [(30, 7), (31, 2)] = Some (CR_Success 2 2 1, bag')
     \<and> stock bag' 30 = 2 \<and> stock bag' 31 = 0 \<and> stock bag' 2 = 1"
proof -
  let ?bag = "[(30, 7), (31, 2)] :: inventory"
  have r: "recipe_get default_recipes 2 = Some (recipe 2 ''Craft Iron Sword'' [(30, 5), (31, 2)] 2 1 3 0 CC_Weapon)"
    by code_simp
  have "\<not> (\<exists>x. stock ?bag x < required [(30, 5), (31, 2)] x)"
    unfolding required_short[of "[(30, 5), (31, 2)]", simplified] by code_simp
  with craft_conserves[where reg = default_recipes and i = 2 and level = 3 and bag = "?bag", OF default_recipe_ok[of 2]]
  obtain bag' where "execute_craft default_recipes 2 3 ?bag = Some (CR_Success 2 2 1, bag')"
    and "\<forall>x. stock bag' x = stock ?bag x - required [(30, 5), (31, 2)] x + (if x = 2 then 1 else 0)"
    unfolding r option.case recipe_def by auto
  then show ?thesis by (simp add: stock_def[of "?bag"] required_def)
qed

section \<open>A material listed twice\<close>

text \<open>A recipe may list a material twice; each line is checked against the whole stock, so
  a stock that covers one line only passes the check, and crafting then panics on the second
  line or, with a little more in stock, wraps the quantity around to almost \<open>2 ^ 32\<close>.\<close>

theorem duplicate_material_breaks_craft:
  assumes "recipe_get reg i = Some r" and "cr_materials r = [(x, q), (x, q)]"
    and "cr_required_level r \<le> level" and "0 < q" and "cr_result_item_id r \<noteq> x"
    and "stock bag x = q + d" and "d < q" and "q \<le> q + d"
  shows "\<exists>p k. can_craft reg i level bag = CR_Success i p k
    \<and> (if d = 0 then execute_craft reg i level bag = None
       else map_option (\<lambda>(res, bag'). stock bag' x) (execute_craft reg i level bag) = Some (d - q))"
proof -
  have c: "can_craft reg i level bag = CR_Success i (cr_result_item_id r) (cr_result_quantity r)"
  proof -
    have "\<not> q + d < q" "\<not> level < cr_required_level r" using assms(3,8) by (simp_all add: not_less)
    then show ?thesis using assms(1,2,6) by (simp add: can_craft_def missing_materials_def)
  qed
  have "stock bag x \<noteq> 0" using assms(4,6,8) by (metis leD order_less_le_trans word_gt_0)
  then have get: "map_of bag x = Some (q + d)"
    using assms(6) by (auto simp: stock_def split: option.splits)
  show ?thesis
  proof (cases "d = 0")
    case True
    then have "execute_craft reg i level bag = None"
      using c assms(1,2) get by (simp add: execute_craft_def consume_def hm_delete_get)
    with True c show ?thesis by simp
  next
    case False
    have "d - q \<noteq> 0" using assms(7) by auto
    then have "map_option (\<lambda>(res, bag'). stock bag' x) (execute_craft reg i level bag) = Some (d - q)"
      using c assms(1,2,5) get False
      by (simp add: execute_craft_def consume_def hm_update_get stock_update)
    with False c show ?thesis by simp
  qed
qed

definition demo_recipes :: crafting_registry where
  "demo_recipes = craft_register (recipe 1 ''Rope'' [(7, 3), (7, 3)] 8 1 0 0 CC_Tool) []"

theorem duplicate_material_breaks_craft_witness:
  "execute_craft demo_recipes 1 5 [(7, 3)] = None"
proof -
  have "recipe_get demo_recipes 1 = Some (recipe 1 ''Rope'' [(7, 3), (7, 3)] 8 1 0 0 CC_Tool)"
    by (simp add: recipe_get_def demo_recipes_def craft_register_def recipe_def)
  from duplicate_material_breaks_craft[OF this, of 7 3 5 "[(7, 3)]" 0] show ?thesis
    by (simp add: recipe_def stock_def)
qed

section \<open>Recipes and items\<close>

text \<open>\<open>register_crafting_items\<close>.\<close>

definition register_crafting_items :: "item_registry \<Rightarrow> item_registry" where
  "register_crafting_items r =
     fold ir_register
       [item_lit 33 ''Iron Ingot'' ''A refined iron bar, ready for smithing.'' IC_Material IR_Common 50 ist_default None 8,
        item_lit 34 ''Leather'' ''Tanned animal hide.'' IC_Material IR_Common 50 ist_default None 5,
        item_lit 35 ''Herb'' ''A medicinal herb used in potion brewing.'' IC_Material IR_Common 50 ist_default None 3] r"

text \<open>What the materials of a recipe and its product are worth by the item values.\<close>

definition item_worth :: "item_registry \<Rightarrow> item_id \<times> u32 \<Rightarrow> u64 option" where
  "item_worth r xq = map_option (\<lambda>d. it_value d * ucast (snd xq)) (ir_get r (fst xq))"

definition recipe_closed :: "item_registry \<Rightarrow> crafting_recipe \<Rightarrow> bool" where
  "recipe_closed r c \<longleftrightarrow> list_all (\<lambda>xq. ir_get r (fst xq) \<noteq> None) ((cr_result_item_id c, cr_result_quantity c) # cr_materials c)"

definition material_worth :: "item_registry \<Rightarrow> crafting_recipe \<Rightarrow> u64" where
  "material_worth r c = sum_list (map (the \<circ> item_worth r) (cr_materials c))"

definition product_worth :: "item_registry \<Rightarrow> crafting_recipe \<Rightarrow> u64" where
  "product_worth r c = the (item_worth r (cr_result_item_id c, cr_result_quantity c))"

text \<open>Every built-in recipe names built-in items only; none uses or makes the three items that
  \<open>register_crafting_items\<close> adds, and the recipe called \<open>Smelt Iron Ingot\<close> turns three
  iron ores into two.\<close>

lemma default_recipes_closed:
  "list_all (recipe_closed default_items) (hm_vals default_recipes)
   \<and> list_all (\<lambda>c. list_all (\<lambda>x. x \<notin> set (cr_result_item_id c # map fst (cr_materials c))) [33, 34, 35]) (hm_vals default_recipes)
   \<and> map_option (\<lambda>c. (cr_materials c, cr_result_item_id c, cr_result_quantity c)) (recipe_get default_recipes 30)
     = Some ([(30, 3), (31, 1)], 30, 2)"
  by (simp add: default_recipes_def craft_register_def recipe_def recipe_closed_def recipe_get_def
      builtin_get builtin_items_def item_lit_def)

text \<open>The recipes whose product is worth less than what they consume.\<close>

lemma losing_recipes:
  "map cr_id (filter (\<lambda>c. product_worth default_items c < material_worth default_items c) (hm_vals default_recipes)) = [21, 30]"
  by (simp add: default_recipes_def craft_register_def recipe_def product_worth_def material_worth_def item_worth_def
      builtin_get builtin_items_def item_lit_def)

end
