(* ===== verification/Quests.thy ===== *)
theory Quests
  imports Velo_Prelude
begin

text \<open>
  Quests, \<open>crates/game-engine/src/quests.rs\<close>: definitions, acceptance, progress,
  completion. The coordinates of an Explore objective are only stored, so a value of type
  \<open>f32\<close> is its IEEE 754 bit pattern. The progress handlers are \<open>None\<close> where
  indexing the progress list panics; \<open>quest_never_panics\<close> shows that this cannot happen.
\<close>

section \<open>Data\<close>

type_synonym quest_id = u32
type_synonym f32_bits = u32

datatype quest_objective =
    QO_Kill string u32
  | QO_Gather u32 u32
  | QO_Explore f32_bits f32_bits f32_bits
  | QO_Deliver u32 u32 string
  | QO_TalkTo string
  | QO_Craft u32 u32

record quest_reward =
  qr_experience :: u64
  qr_items :: "(u32 \<times> u32) list"
  qr_gold :: u64

record quest_def =
  qd_id :: quest_id
  qd_name :: string
  qd_description :: string
  qd_objectives :: "quest_objective list"
  qd_reward :: quest_reward
  qd_required_level :: u32
  qd_prerequisites :: "quest_id list"
  qd_repeatable :: bool

record objective_progress =
  op_current :: u32
  op_required :: u32
  op_complete :: bool

record active_quest =
  aq_quest_id :: quest_id
  aq_objectives :: "objective_progress list"
  aq_accepted_tick :: u64

record player_quest_state =
  pq_active :: "active_quest list"
  pq_completed :: "quest_id list"
  pq_max_active :: nat

datatype quest_error =
    QE_NotFound quest_id
  | QE_LevelTooLow u32 u32
  | QE_PrerequisitesNotMet "quest_id list"
  | QE_AlreadyActive quest_id
  | QE_AlreadyCompleted quest_id
  | QE_TooManyActive
  | QE_NotActive quest_id

datatype quest_result =
    QR_Accepted quest_id
  | QR_ProgressUpdated quest_id nat u32 u32
  | QR_Completed quest_id quest_reward
  | QR_Error quest_error

type_synonym quest_registry = "(quest_id \<times> quest_def) list"

section \<open>Operations\<close>

definition aq_is_complete :: "active_quest \<Rightarrow> bool" where
  "aq_is_complete a \<longleftrightarrow> list_all op_complete (aq_objectives a)"

definition pq_new :: player_quest_state where
  "pq_new = \<lparr> pq_active = [], pq_completed = [], pq_max_active = 5 \<rparr>"

definition pq_is_active :: "player_quest_state \<Rightarrow> quest_id \<Rightarrow> bool" where
  "pq_is_active st i \<longleftrightarrow> list_ex (\<lambda>q. aq_quest_id q = i) (pq_active st)"

definition pq_is_completed :: "player_quest_state \<Rightarrow> quest_id \<Rightarrow> bool" where
  "pq_is_completed st i \<longleftrightarrow> i \<in> set (pq_completed st)"

definition quest_register :: "quest_def \<Rightarrow> quest_registry \<Rightarrow> quest_registry" where
  "quest_register d reg = AList.update (qd_id d) d reg"

definition quest ::
  "quest_id \<Rightarrow> string \<Rightarrow> string \<Rightarrow> quest_objective list \<Rightarrow> u64 \<Rightarrow> (u32 \<times> u32) list \<Rightarrow> u64 \<Rightarrow> u32
     \<Rightarrow> quest_id list \<Rightarrow> bool \<Rightarrow> quest_def" where
  "quest i name desc objs xp items gold level prereqs rep =
     \<lparr> qd_id = i, qd_name = name, qd_description = desc, qd_objectives = objs,
       qd_reward = \<lparr> qr_experience = xp, qr_items = items, qr_gold = gold \<rparr>,
       qd_required_level = level, qd_prerequisites = prereqs, qd_repeatable = rep \<rparr>"

definition default_quests :: quest_registry where
  "default_quests = fold quest_register
     [quest 1 ''First Steps''
        ''Explore the world around the spawn area.''
        [QO_Explore 1112014848 1112014848 1101004800] 50 [(1, 1)] 10 1 [] False,
      quest 2 ''Gathering Wood''
        ''Collect wood for the village.''
        [QO_Gather 31 5] 80 [(20, 2)] 20 1 [] True,
      quest 3 ''Wolf Menace''
        ''Wolves have been threatening the village. Defeat 3 wolves.''
        [QO_Kill ''wolf'' 3] 150 [(2, 1)] 50 2 [1] False,
      quest 10 ''Iron Supply''
        ''Gather iron ore for the blacksmith.''
        [QO_Gather 30 10] 200 [(11, 1)] 100 3 [] True,
      quest 11 ''Merchant's Request''
        ''Talk to the merchant and deliver 5 wood.''
        [QO_TalkTo ''merchant'', QO_Deliver 31 5 ''merchant''] 120 [(20, 3)] 30 2 [] False,
      quest 12 ''Smith's Challenge''
        ''Craft an Iron Sword to prove your skill.''
        [QO_Craft 2 1] 250 [(30, 10)] 75 3 [10] False,
      quest 20 ''Dragon Hunt''
        ''Slay the fearsome dragon that terrorizes the land.''
        [QO_Kill ''dragon'' 1] 1000 [(32, 3), (21, 5)] 500 10 [3] False,
      quest 21 ''Skeleton Purge''
        ''Clear out the skeleton infestation. Defeat 10 skeletons.''
        [QO_Kill ''skeleton'' 10] 500 [(3, 1)] 200 5 [3] True,
      quest 22 ''Master Crafter''
        ''Forge the legendary Dragon Slayer sword.''
        [QO_Craft 4 1] 2000 [] 1000 15 [12, 20] False] []"

definition quest_get :: "quest_registry \<Rightarrow> quest_id \<Rightarrow> quest_def option" where
  "quest_get reg i = map_of reg i"

definition available_quests :: "quest_registry \<Rightarrow> u32 \<Rightarrow> quest_id list \<Rightarrow> quest_id list \<Rightarrow> quest_def list" where
  "available_quests reg level completed active =
     filter (\<lambda>q. qd_required_level q \<le> level \<and> qd_id q \<notin> set active
         \<and> (qd_repeatable q \<or> qd_id q \<notin> set completed)
         \<and> list_all (\<lambda>p. p \<in> set completed) (qd_prerequisites q)) (hm_vals reg)"

definition quest_count :: "quest_registry \<Rightarrow> nat" where
  "quest_count reg = length reg"

fun objective_required :: "quest_objective \<Rightarrow> u32" where
  "objective_required (QO_Kill t n) = n"
| "objective_required (QO_Gather i n) = n"
| "objective_required (QO_Explore x y r) = 1"
| "objective_required (QO_Deliver i n t) = n"
| "objective_required (QO_TalkTo t) = 1"
| "objective_required (QO_Craft i n) = n"

definition new_progress :: "quest_objective \<Rightarrow> objective_progress" where
  "new_progress ob = \<lparr> op_current = 0, op_required = objective_required ob, op_complete = False \<rparr>"

definition accept_quest ::
  "quest_registry \<Rightarrow> quest_id \<Rightarrow> u32 \<Rightarrow> u64 \<Rightarrow> player_quest_state \<Rightarrow> quest_result \<times> player_quest_state" where
  "accept_quest reg i level now st =
     (case quest_get reg i of
        None \<Rightarrow> (QR_Error (QE_NotFound i), st)
      | Some q \<Rightarrow>
          if level < qd_required_level q then (QR_Error (QE_LevelTooLow (qd_required_level q) level), st)
          else let missing = filter (\<lambda>p. \<not> pq_is_completed st p) (qd_prerequisites q) in
          if missing \<noteq> [] then (QR_Error (QE_PrerequisitesNotMet missing), st)
          else if pq_is_active st i then (QR_Error (QE_AlreadyActive i), st)
          else if \<not> qd_repeatable q \<and> pq_is_completed st i then (QR_Error (QE_AlreadyCompleted i), st)
          else if pq_max_active st \<le> length (pq_active st) then (QR_Error QE_TooManyActive, st)
          else (QR_Accepted i, st\<lparr>pq_active := pq_active st @
                  [\<lparr> aq_quest_id = i, aq_objectives = map new_progress (qd_objectives q),
                     aq_accepted_tick = now \<rparr>]\<rparr>))"

text \<open>What an event does to the progress of a matching objective: \<open>on_kill\<close> counts one,
  \<open>on_gather\<close> and \<open>on_craft\<close> add a quantity (which wraps) and cap at the target.\<close>

definition bump_kill :: "objective_progress \<Rightarrow> objective_progress" where
  "bump_kill p =
     (let p1 = p\<lparr>op_current := op_current p + 1\<rparr>
      in if op_required p1 \<le> op_current p1 then p1\<lparr>op_complete := True\<rparr> else p1)"

definition bump_quantity :: "u32 \<Rightarrow> objective_progress \<Rightarrow> objective_progress" where
  "bump_quantity n p =
     (let p1 = p\<lparr>op_current := op_current p + n\<rparr>
      in if op_required p1 \<le> op_current p1
         then p1\<lparr>op_current := op_required p1, op_complete := True\<rparr> else p1)"

text \<open>The loop over the objectives of one quest, from index \<open>i\<close>.\<close>

fun update_objectives ::
  "(quest_objective \<Rightarrow> bool) \<Rightarrow> (objective_progress \<Rightarrow> objective_progress) \<Rightarrow> quest_id \<Rightarrow> nat
     \<Rightarrow> quest_objective list \<Rightarrow> objective_progress list
     \<Rightarrow> (quest_result list \<times> objective_progress list) option" where
  "update_objectives m f q i [] ps = Some ([], ps)"
| "update_objectives m f q i (ob # obs) [] =
     (if m ob then None else update_objectives m f q (Suc i) obs [])"
| "update_objectives m f q i (ob # obs) (p # ps) =
     (if m ob \<and> \<not> op_complete p
      then map_option (\<lambda>(rs, ps'). (QR_ProgressUpdated q i (op_current (f p)) (op_required (f p)) # rs,
                                    f p # ps'))
             (update_objectives m f q (Suc i) obs ps)
      else map_option (\<lambda>(rs, ps'). (rs, p # ps')) (update_objectives m f q (Suc i) obs ps))"

text \<open>The loop over the active quests; unknown quests are skipped.\<close>

fun update_actives ::
  "quest_registry \<Rightarrow> (quest_objective \<Rightarrow> bool) \<Rightarrow> (objective_progress \<Rightarrow> objective_progress)
     \<Rightarrow> active_quest list \<Rightarrow> (quest_result list \<times> active_quest list) option" where
  "update_actives reg m f [] = Some ([], [])"
| "update_actives reg m f (a # as) =
     (case quest_get reg (aq_quest_id a) of
        None \<Rightarrow> map_option (\<lambda>(rs, as'). (rs, a # as')) (update_actives reg m f as)
      | Some q \<Rightarrow>
          Option.bind (update_objectives m f (aq_quest_id a) 0 (qd_objectives q) (aq_objectives a)) (\<lambda>(rs, ps).
          Option.bind (update_actives reg m f as) (\<lambda>(rs', as').
          Some (rs @ rs', a\<lparr>aq_objectives := ps\<rparr> # as'))))"

definition on_event ::
  "quest_registry \<Rightarrow> (quest_objective \<Rightarrow> bool) \<Rightarrow> (objective_progress \<Rightarrow> objective_progress)
     \<Rightarrow> player_quest_state \<Rightarrow> (quest_result list \<times> player_quest_state) option" where
  "on_event reg m f st =
     map_option (\<lambda>(rs, as). (rs, st\<lparr>pq_active := as\<rparr>)) (update_actives reg m f (pq_active st))"

definition on_kill :: "quest_registry \<Rightarrow> string \<Rightarrow> player_quest_state \<Rightarrow> (quest_result list \<times> player_quest_state) option" where
  "on_kill reg t = on_event reg (\<lambda>ob. case ob of QO_Kill qt _ \<Rightarrow> qt = t | _ \<Rightarrow> False) bump_kill"

definition on_gather ::
  "quest_registry \<Rightarrow> u32 \<Rightarrow> u32 \<Rightarrow> player_quest_state \<Rightarrow> (quest_result list \<times> player_quest_state) option" where
  "on_gather reg x n = on_event reg (\<lambda>ob. case ob of QO_Gather qi _ \<Rightarrow> qi = x | _ \<Rightarrow> False) (bump_quantity n)"

definition on_craft ::
  "quest_registry \<Rightarrow> u32 \<Rightarrow> u32 \<Rightarrow> player_quest_state \<Rightarrow> (quest_result list \<times> player_quest_state) option" where
  "on_craft reg x n = on_event reg (\<lambda>ob. case ob of QO_Craft qi _ \<Rightarrow> qi = x | _ \<Rightarrow> False) (bump_quantity n)"

text \<open>The first loop of \<open>check_completions\<close>: results and indices of the finished quests.\<close>

fun finished_from :: "quest_registry \<Rightarrow> nat \<Rightarrow> active_quest list \<Rightarrow> quest_result list \<times> nat list" where
  "finished_from reg i [] = ([], [])"
| "finished_from reg i (a # as) =
     (let (rs, idxs) = finished_from reg (Suc i) as in
      if aq_is_complete a then
        (case quest_get reg (aq_quest_id a) of
           Some q \<Rightarrow> (QR_Completed (aq_quest_id a) (qd_reward q) # rs, i # idxs)
         | None \<Rightarrow> (rs, idxs))
      else (rs, idxs))"

text \<open>The second loop, over the indices in reverse: \<open>Vec::remove\<close> and push.\<close>

definition complete_at :: "nat \<Rightarrow> player_quest_state \<Rightarrow> player_quest_state" where
  "complete_at idx st =
     st\<lparr>pq_active := take idx (pq_active st) @ drop (Suc idx) (pq_active st),
        pq_completed := pq_completed st @ [aq_quest_id (pq_active st ! idx)]\<rparr>"

definition check_completions ::
  "quest_registry \<Rightarrow> player_quest_state \<Rightarrow> quest_result list \<times> player_quest_state" where
  "check_completions reg st =
     (let (rs, idxs) = finished_from reg 0 (pq_active st)
      in (rs, fold complete_at (rev idxs) st))"

section \<open>Completion is a filter\<close>

definition finished :: "quest_registry \<Rightarrow> active_quest \<Rightarrow> bool" where
  "finished reg a \<longleftrightarrow> aq_is_complete a \<and> quest_get reg (aq_quest_id a) \<noteq> None"

lemma finished_from_shift:
  "finished_from reg (k + i) as = (let (rs, idxs) = finished_from reg i as in (rs, map ((+) k) idxs))"
proof (induction as arbitrary: i)
  case (Cons a as)
  then show ?case using Cons[of "Suc i"] by (auto simp: Let_def split: prod.splits option.splits)
qed simp

lemma fold_complete_shift:
  "fold complete_at (map Suc idxs) (st\<lparr>pq_active := a # as\<rparr>) =
     (let st' = fold complete_at idxs (st\<lparr>pq_active := as\<rparr>)
      in st'\<lparr>pq_active := a # pq_active st'\<rparr>)"
proof (induction idxs arbitrary: st as)
  case (Cons i idxs)
  let ?st = "st\<lparr>pq_completed := pq_completed st @ [aq_quest_id (as ! i)]\<rparr>"
  have "complete_at (Suc i) (st\<lparr>pq_active := a # as\<rparr>) =
      ?st\<lparr>pq_active := a # (take i as @ drop (Suc i) as)\<rparr>"
    by (simp add: complete_at_def)
  moreover have "complete_at i (st\<lparr>pq_active := as\<rparr>) = ?st\<lparr>pq_active := take i as @ drop (Suc i) as\<rparr>"
    by (simp add: complete_at_def)
  ultimately show ?case using Cons[where st = ?st] by simp
qed simp

lemma finished_fold:
  assumes "finished_from reg 0 as = (rs, idxs)"
  shows "fold complete_at (rev idxs) (st\<lparr>pq_active := as\<rparr>) =
    st\<lparr>pq_active := filter (\<lambda>a. \<not> finished reg a) as,
       pq_completed := pq_completed st @ rev (map aq_quest_id (filter (finished reg) as))\<rparr>"
    and "rs = map (\<lambda>a. QR_Completed (aq_quest_id a) (qd_reward (the (quest_get reg (aq_quest_id a)))))
           (filter (finished reg) as)"
  using assms
proof (induction as arbitrary: rs idxs)
  case (Cons a as)
  obtain rs1 idxs1 where r1: "finished_from reg 0 as = (rs1, idxs1)" by force
  have shift: "finished_from reg (Suc 0) as = (rs1, map Suc idxs1)"
    using finished_from_shift[of reg 1 0 as] r1 by simp
  have run: "fold complete_at (rev (map Suc idxs1)) (st\<lparr>pq_active := a # as\<rparr>) =
      st\<lparr>pq_active := a # filter (\<lambda>a. \<not> finished reg a) as,
         pq_completed := pq_completed st @ rev (map aq_quest_id (filter (finished reg) as))\<rparr>"
    using fold_complete_shift[where idxs = "rev idxs1" and st = st] Cons.IH(1)[OF r1] by (simp add: rev_map[symmetric] Let_def)
  { case 1
    have c0: "complete_at 0 (st\<lparr>pq_active := a # l, pq_completed := c\<rparr>) =
        st\<lparr>pq_active := l, pq_completed := c @ [aq_quest_id a]\<rparr>" for l c
      by (simp add: complete_at_def)
    have "idxs = (if finished reg a then 0 # map Suc idxs1 else map Suc idxs1)"
      using 1 shift by (cases "quest_get reg (aq_quest_id a)") (auto simp: finished_def split: if_splits)
    then show ?case using run c0 by simp
  next
    case 2
    then show ?case using shift Cons.IH(2)[OF r1]
      by (cases "quest_get reg (aq_quest_id a)") (auto simp: finished_def split: if_splits) }
qed simp_all

text \<open>\<open>check_completions\<close>, which removes by index from the back, keeps exactly the
  unfinished quests in their order, moves exactly the finished ones to the completed list (in
  reverse order) and reports each with its reward.\<close>

theorem check_completions_filters:
  "check_completions reg st =
     (map (\<lambda>a. QR_Completed (aq_quest_id a) (qd_reward (the (quest_get reg (aq_quest_id a)))))
        (filter (finished reg) (pq_active st)),
      st\<lparr>pq_active := filter (\<lambda>a. \<not> finished reg a) (pq_active st),
         pq_completed := pq_completed st @ rev (map aq_quest_id (filter (finished reg) (pq_active st)))\<rparr>)"
proof -
  obtain rs idxs where r: "finished_from reg 0 (pq_active st) = (rs, idxs)" by force
  show ?thesis
    using finished_fold(1)[OF r, where st = st] finished_fold(2)[OF r] r by (simp add: check_completions_def)
qed


section \<open>The invariant\<close>

datatype q_op =
    Q_Accept quest_id u32 u64 | Q_Kill string | Q_Gather u32 u32 | Q_Craft u32 u32 | Q_Check

fun q_step :: "quest_registry \<Rightarrow> q_op \<Rightarrow> player_quest_state \<Rightarrow> player_quest_state option" where
  "q_step reg (Q_Accept i level now) st = Some (snd (accept_quest reg i level now st))"
| "q_step reg (Q_Kill t) st = map_option snd (on_kill reg t st)"
| "q_step reg (Q_Gather x n) st = map_option snd (on_gather reg x n st)"
| "q_step reg (Q_Craft x n) st = map_option snd (on_craft reg x n st)"
| "q_step reg Q_Check st = Some (snd (check_completions reg st))"

definition q_opt_step :: "quest_registry \<Rightarrow> q_op \<Rightarrow> player_quest_state option \<Rightarrow> player_quest_state option" where
  "q_opt_step reg x so = Option.bind so (q_step reg x)"

text \<open>An active quest is known, has a progress entry per objective, its prerequisites were
  completed, and objectives that no event advances are not complete.\<close>

definition never_advanced :: "quest_objective \<Rightarrow> bool" where
  "never_advanced ob \<longleftrightarrow> (case ob of QO_Explore _ _ _ \<Rightarrow> True | QO_Deliver _ _ _ \<Rightarrow> True
     | QO_TalkTo _ \<Rightarrow> True | _ \<Rightarrow> False)"

definition progress_ok :: "quest_objective list \<Rightarrow> objective_progress list \<Rightarrow> bool" where
  "progress_ok obs ps \<longleftrightarrow> list_all2 (\<lambda>ob p. never_advanced ob \<longrightarrow> \<not> op_complete p) obs ps"

definition active_ok :: "quest_registry \<Rightarrow> quest_id list \<Rightarrow> active_quest \<Rightarrow> bool" where
  "active_ok reg cs a \<longleftrightarrow> (\<exists>q. quest_get reg (aq_quest_id a) = Some q
     \<and> progress_ok (qd_objectives q) (aq_objectives a)
     \<and> set (qd_prerequisites q) \<subseteq> set cs
     \<and> (qd_repeatable q \<or> aq_quest_id a \<notin> set cs))"

definition once_only :: "quest_registry \<Rightarrow> quest_id list \<Rightarrow> bool" where
  "once_only reg cs \<longleftrightarrow>
     (\<forall>i q. quest_get reg i = Some q \<and> \<not> qd_repeatable q \<longrightarrow> count_list cs i \<le> 1)"

definition no_stuck_quest :: "quest_registry \<Rightarrow> quest_id list \<Rightarrow> bool" where
  "no_stuck_quest reg cs \<longleftrightarrow>
     (\<forall>i \<in> set cs. \<exists>q. quest_get reg i = Some q \<and> \<not> list_ex never_advanced (qd_objectives q)
        \<and> set (qd_prerequisites q) \<subseteq> set cs)"

definition q_inv :: "quest_registry \<Rightarrow> player_quest_state \<Rightarrow> bool" where
  "q_inv reg st \<longleftrightarrow> distinct (map aq_quest_id (pq_active st))
     \<and> length (pq_active st) \<le> pq_max_active st
     \<and> list_all (active_ok reg (pq_completed st)) (pq_active st)
     \<and> once_only reg (pq_completed st) \<and> no_stuck_quest reg (pq_completed st)"

lemma update_objectives_ok:
  assumes "progress_ok obs ps" and "\<And>ob. m ob \<Longrightarrow> \<not> never_advanced ob"
  shows "\<exists>rs ps'. update_objectives m f q i obs ps = Some (rs, ps') \<and> progress_ok obs ps'"
  using assms(1) unfolding progress_ok_def
proof (induction obs ps arbitrary: i rule: list_all2_induct)
  case (Cons ob obs p ps)
  from Cons.IH[of "Suc i"] obtain rs ps' where
    "update_objectives m f q (Suc i) obs ps = Some (rs, ps')"
    "list_all2 (\<lambda>ob p. never_advanced ob \<longrightarrow> \<not> op_complete p) obs ps'" by blast
  then show ?case using Cons.hyps(1) assms(2)[of ob] by auto
qed simp

lemma update_actives_ok:
  assumes "list_all (active_ok reg cs) as" and "\<And>ob. m ob \<Longrightarrow> \<not> never_advanced ob"
  shows "\<exists>rs as'. update_actives reg m f as = Some (rs, as') \<and> list_all (active_ok reg cs) as'
    \<and> map aq_quest_id as' = map aq_quest_id as"
  using assms(1)
proof (induction as)
  case (Cons a as)
  then obtain q where q: "quest_get reg (aq_quest_id a) = Some q"
    "progress_ok (qd_objectives q) (aq_objectives a)" and a: "active_ok reg cs a"
    by (auto simp: active_ok_def)
  obtain rs ps where ps: "update_objectives m f (aq_quest_id a) 0 (qd_objectives q) (aq_objectives a) = Some (rs, ps)"
    "progress_ok (qd_objectives q) ps"
    using update_objectives_ok[OF q(2) assms(2)] by blast
  obtain rs' as' where as': "update_actives reg m f as = Some (rs', as')"
    "list_all (active_ok reg cs) as'" "map aq_quest_id as' = map aq_quest_id as"
    using Cons by auto
  have "active_ok reg cs (a\<lparr>aq_objectives := ps\<rparr>)" using a q(1) ps(2) by (simp add: active_ok_def)
  then show ?case using q(1) ps(1) as' by simp
qed simp

lemma on_event_ok:
  assumes "q_inv reg st" and "\<And>ob. m ob \<Longrightarrow> \<not> never_advanced ob"
  shows "\<exists>rs st'. on_event reg m f st = Some (rs, st') \<and> q_inv reg st' \<and> pq_max_active st' = pq_max_active st"
proof -
  have "list_all (active_ok reg (pq_completed st)) (pq_active st)" using assms(1) by (simp add: q_inv_def)
  then obtain rs as' where as': "update_actives reg m f (pq_active st) = Some (rs, as')"
    "list_all (active_ok reg (pq_completed st)) as'" "map aq_quest_id as' = map aq_quest_id (pq_active st)"
    using update_actives_ok[OF _ assms(2), where f = f] by blast
  have "length as' = length (pq_active st)" using as'(3) by (metis length_map)
  then show ?thesis using as' assms(1) by (simp add: on_event_def q_inv_def)
qed

lemma accept_quest_inv:
  assumes "q_inv reg st" shows "q_inv reg (snd (accept_quest reg i level now st))"
proof (cases "snd (accept_quest reg i level now st) = st")
  case False
  then obtain q where q: "quest_get reg i = Some q" and
    c: "filter (\<lambda>p. \<not> pq_is_completed st p) (qd_prerequisites q) = []" "\<not> pq_is_active st i"
      "qd_repeatable q \<or> \<not> pq_is_completed st i" "length (pq_active st) < pq_max_active st" and
    st': "snd (accept_quest reg i level now st) = st\<lparr>pq_active := pq_active st @
        [\<lparr> aq_quest_id = i, aq_objectives = map new_progress (qd_objectives q), aq_accepted_tick = now \<rparr>]\<rparr>"
    by (auto simp: accept_quest_def Let_def split: option.splits if_splits)
  have "set (qd_prerequisites q) \<subseteq> set (pq_completed st)"
    using c(1) by (auto simp: filter_empty_conv pq_is_completed_def)
  moreover have "progress_ok (qd_objectives q) (map new_progress (qd_objectives q))"
    by (simp add: progress_ok_def list_all2_map2 new_progress_def list.rel_refl)
  moreover have "i \<notin> aq_quest_id ` set (pq_active st)"
    using c(2) by (auto simp: pq_is_active_def list_ex_iff)
  ultimately show ?thesis
    using assms q c unfolding st' by (auto simp: q_inv_def active_ok_def pq_is_completed_def)
qed (use assms in simp)

lemma all_complete_no_stuck:
  "list_all2 (\<lambda>ob p. never_advanced ob \<longrightarrow> \<not> op_complete p) obs ps \<Longrightarrow> list_all op_complete ps \<Longrightarrow>
   \<not> list_ex never_advanced obs"
  by (induction obs ps rule: list_all2_induct) auto

lemma count_list_distinct: "distinct xs \<Longrightarrow> count_list xs i \<le> 1"
  by (induction xs) (auto simp: count_list_0_iff)

lemma finished_no_stuck:
  assumes "active_ok reg cs a" "finished reg a" "quest_get reg (aq_quest_id a) = Some q"
  shows "\<not> list_ex never_advanced (qd_objectives q)"
proof -
  have "list_all2 (\<lambda>ob p. never_advanced ob \<longrightarrow> \<not> op_complete p) (qd_objectives q) (aq_objectives a)"
    using assms(1,3) by (auto simp: active_ok_def progress_ok_def)
  moreover have "list_all op_complete (aq_objectives a)" using assms(2) by (simp add: finished_def aq_is_complete_def)
  ultimately show ?thesis by (rule all_complete_no_stuck)
qed

lemma check_completions_inv:
  assumes "q_inv reg st" shows "q_inv reg (snd (check_completions reg st))"
proof -
  let ?fin = "map aq_quest_id (filter (finished reg) (pq_active st))"
  let ?cs = "pq_completed st @ rev ?fin"
  have inv: "distinct (map aq_quest_id (pq_active st))" "length (pq_active st) \<le> pq_max_active st"
    "list_all (active_ok reg (pq_completed st)) (pq_active st)"
    "once_only reg (pq_completed st)" "no_stuck_quest reg (pq_completed st)"
    using assms by (simp_all add: q_inv_def)
  have dist: "distinct ?fin" using inv(1) by (rule distinct_map_filter)
  have ok: "active_ok reg (pq_completed st) a" if "a \<in> set (pq_active st)" for a
    using inv(3) that by (simp add: list_all_iff)
  have "active_ok reg ?cs a" if a: "a \<in> set (pq_active st)" "\<not> finished reg a" for a
  proof -
    have "aq_quest_id a \<notin> set ?fin"
    proof
      assume "aq_quest_id a \<in> set ?fin"
      then obtain b where b: "b \<in> set (pq_active st)" "finished reg b" "aq_quest_id b = aq_quest_id a" by auto
      then have "b = a" using inv(1) a(1) by (auto simp: distinct_map inj_on_def)
      then show False using a(2) b(2) by simp
    qed
    then show ?thesis using ok[OF a(1)] by (auto simp: active_ok_def)
  qed
  then have act: "list_all (active_ok reg ?cs) (filter (\<lambda>a. \<not> finished reg a) (pq_active st))"
    by (simp add: list_all_iff)
  have "once_only reg ?cs"
    unfolding once_only_def
  proof (intro allI impI)
    fix i q assume iq: "quest_get reg i = Some q \<and> \<not> qd_repeatable q"
    show "count_list ?cs i \<le> 1"
    proof (cases "i \<in> set ?fin")
      case True
      then obtain b where b: "b \<in> set (pq_active st)" "aq_quest_id b = i" by auto
      then have "i \<notin> set (pq_completed st)" using ok[OF b(1)] iq by (auto simp: active_ok_def)
      then have "count_list (pq_completed st) i = 0" by (simp add: count_list_0_iff)
      moreover have "count_list (rev ?fin) i \<le> 1"
        using dist by (intro count_list_distinct) simp
      ultimately show ?thesis by simp
    next
      case False
      then have "count_list (rev ?fin) i = 0" by (simp add: count_list_0_iff)
      then show ?thesis using inv(4) iq by (simp add: once_only_def)
    qed
  qed
  moreover have "no_stuck_quest reg ?cs"
    unfolding no_stuck_quest_def
  proof
    fix i assume i: "i \<in> set ?cs"
    show "\<exists>q. quest_get reg i = Some q \<and> \<not> list_ex never_advanced (qd_objectives q)
        \<and> set (qd_prerequisites q) \<subseteq> set ?cs"
    proof (cases "i \<in> set (pq_completed st)")
      case True
      then show ?thesis using inv(5) unfolding no_stuck_quest_def set_append by blast
    next
      case False
      then obtain b where b: "b \<in> set (pq_active st)" "finished reg b" "aq_quest_id b = i" using i by auto
      then obtain q where "quest_get reg i = Some q" "set (qd_prerequisites q) \<subseteq> set (pq_completed st)"
        using ok[OF b(1)] by (auto simp: active_ok_def)
      then show ?thesis using finished_no_stuck[OF ok[OF b(1)] b(2), of q] b(3) by auto
    qed
  qed
  moreover have "distinct (map aq_quest_id (filter (\<lambda>a. \<not> finished reg a) (pq_active st)))"
    using inv(1) by (rule distinct_map_filter)
  moreover have "length (filter (\<lambda>a. \<not> finished reg a) (pq_active st)) \<le> pq_max_active st"
    using inv(2) length_filter_le order_trans by blast
  ultimately show ?thesis
    unfolding check_completions_filters q_inv_def using act by simp
qed


lemma on_kill_ok: "q_inv reg st \<Longrightarrow> \<exists>rs st'. on_kill reg t st = Some (rs, st') \<and> q_inv reg st'"
  unfolding on_kill_def
  using on_event_ok[of reg st "\<lambda>ob. case ob of QO_Kill qt _ \<Rightarrow> qt = t | _ \<Rightarrow> False" bump_kill]
  by (fastforce simp: never_advanced_def split: quest_objective.splits)

lemma on_gather_ok: "q_inv reg st \<Longrightarrow> \<exists>rs st'. on_gather reg y n st = Some (rs, st') \<and> q_inv reg st'"
  unfolding on_gather_def
  using on_event_ok[of reg st "\<lambda>ob. case ob of QO_Gather qi _ \<Rightarrow> qi = y | _ \<Rightarrow> False" "bump_quantity n"]
  by (fastforce simp: never_advanced_def split: quest_objective.splits)

lemma on_craft_ok: "q_inv reg st \<Longrightarrow> \<exists>rs st'. on_craft reg y n st = Some (rs, st') \<and> q_inv reg st'"
  unfolding on_craft_def
  using on_event_ok[of reg st "\<lambda>ob. case ob of QO_Craft qi _ \<Rightarrow> qi = y | _ \<Rightarrow> False" "bump_quantity n"]
  by (fastforce simp: never_advanced_def split: quest_objective.splits)

lemma q_step_ok: "q_inv reg st \<Longrightarrow> \<exists>st'. q_step reg x st = Some st' \<and> q_inv reg st'"
  using on_kill_ok on_gather_ok on_craft_ok accept_quest_inv check_completions_inv
  by (cases x) fastforce+

interpretation q_machine: op_machine "q_opt_step reg" "\<lambda>so. so \<noteq> None \<and> pred_option (q_inv reg) so" for reg
proof
  fix so x assume "so \<noteq> None \<and> pred_option (q_inv reg) so"
  then obtain st where "so = Some st" "q_inv reg st" by auto
  with q_step_ok[of reg st x]
  show "q_opt_step reg x so \<noteq> None \<and> pred_option (q_inv reg) (q_opt_step reg x so)"
    by (auto simp: q_opt_step_def)
qed

lemma q_inv_new: "q_inv reg pq_new"
  by (simp add: q_inv_def pq_new_def once_only_def no_stuck_quest_def)

lemma q_run:
  obtains st where "fold (q_opt_step reg) ops (Some pq_new) = Some st" "q_inv reg st"
  using q_machine.run_inv[of "Some pq_new" reg ops] q_inv_new by auto

text \<open>C33. Any sequence of quest operations over one registry runs without a panic; no quest is
  then active twice, at most five are active, the prerequisites of every active quest have been
  completed, and a quest that is not repeatable has been completed at most once and is not active
  again.\<close>

theorem quest_never_panics:
  "\<exists>st. fold (q_opt_step reg) ops (Some pq_new) = Some st
    \<and> distinct (map aq_quest_id (pq_active st))
    \<and> length (pq_active st) \<le> pq_max_active st
    \<and> list_all (active_ok reg (pq_completed st)) (pq_active st)
    \<and> once_only reg (pq_completed st)"
proof -
  obtain st where "fold (q_opt_step reg) ops (Some pq_new) = Some st" "q_inv reg st" by (rule q_run)
  then show ?thesis by (auto simp: q_inv_def)
qed

text \<open>No operation advances an Explore, Deliver or TalkTo objective, so of the nine
  built-in quests only Gathering Wood, Iron Supply and Smith's Challenge can ever be completed:
  First Steps and Merchant's Request cannot, and the other four need First Steps first.\<close>

theorem default_quests_completable:
  "\<exists>st. fold (q_opt_step default_quests) ops (Some pq_new) = Some st
    \<and> set (pq_completed st) \<subseteq> {2, 10, 12}"
proof -
  obtain st where st: "fold (q_opt_step default_quests) ops (Some pq_new) = Some st"
    and inv: "q_inv default_quests st" by (rule q_run)
  let ?c = "set (pq_completed st)"
  have req: "quest_get default_quests i \<noteq> None
      \<and> \<not> list_ex never_advanced (qd_objectives (the (quest_get default_quests i)))
      \<and> set (qd_prerequisites (the (quest_get default_quests i))) \<subseteq> ?c" if "i \<in> ?c" for i
    using inv that by (fastforce simp: q_inv_def no_stuck_quest_def)
  have stuck: "list_ex never_advanced (qd_objectives (the (quest_get default_quests 1)))"
    "list_ex never_advanced (qd_objectives (the (quest_get default_quests 11)))"
    and pre: "1 \<in> set (qd_prerequisites (the (quest_get default_quests 3)))"
    "3 \<in> set (qd_prerequisites (the (quest_get default_quests 20)))"
    "3 \<in> set (qd_prerequisites (the (quest_get default_quests 21)))"
    "20 \<in> set (qd_prerequisites (the (quest_get default_quests 22)))"
    and keys: "set (hm_keys default_quests) = {1, 2, 3, 10, 11, 12, 20, 21, 22}"
    by code_simp+
  have "1 \<notin> ?c" "11 \<notin> ?c" using req stuck by blast+
  then have "3 \<notin> ?c" using req pre(1) by blast
  then have "20 \<notin> ?c" "21 \<notin> ?c" using req pre(2,3) by blast+
  then have "22 \<notin> ?c" using req pre(4) by blast
  have "?c \<subseteq> {1, 2, 3, 10, 11, 12, 20, 21, 22}"
  proof
    fix i assume "i \<in> ?c"
    then have "quest_get default_quests i \<noteq> None" using req by blast
    then have "i \<in> set (hm_keys default_quests)" unfolding quest_get_def by (force dest: map_of_SomeD)
    then show "i \<in> {1, 2, 3, 10, 11, 12, 20, 21, 22}" unfolding keys .
  qed
  with \<open>1 \<notin> ?c\<close> \<open>11 \<notin> ?c\<close> \<open>3 \<notin> ?c\<close> \<open>20 \<notin> ?c\<close> \<open>21 \<notin> ?c\<close> \<open>22 \<notin> ?c\<close> have "?c \<subseteq> {2, 10, 12}" by blast
  with st show ?thesis by blast
qed

section \<open>Availability\<close>

text \<open>A quest that \<open>available_quests\<close> lists is accepted, unless the player has too many.\<close>

lemma available_accepted:
  assumes "hm_wf reg" and "list_all (\<lambda>(k, d). qd_id d = k) reg"
    and "d \<in> set (available_quests reg level (pq_completed st) (map aq_quest_id (pq_active st)))"
    and "length (pq_active st) < pq_max_active st"
  shows "fst (accept_quest reg (qd_id d) level now st) = QR_Accepted (qd_id d)"
proof -
  have d: "d \<in> snd ` set reg" "qd_required_level d \<le> level" "qd_id d \<notin> aq_quest_id ` set (pq_active st)"
    "qd_repeatable d \<or> qd_id d \<notin> set (pq_completed st)" "list_all (\<lambda>p. p \<in> set (pq_completed st)) (qd_prerequisites d)"
    using assms(3) by (auto simp: available_quests_def)
  then have "(qd_id d, d) \<in> set reg" using assms(2) by (auto simp: list_all_iff)
  then have "quest_get reg (qd_id d) = Some d" using assms(1) by (simp add: quest_get_def)
  then show ?thesis
    using d(2-5) assms(4)
    by (auto simp: accept_quest_def Let_def pq_is_completed_def pq_is_active_def list_ex_iff list_all_iff
        filter_empty_conv image_iff)
qed

end
