(* ===== verification/Ecs.thy ===== *)
theory Ecs
  imports Primitives F32
begin

text \<open>
  The entity store and the systems of a game tick, \<open>crates/game-engine/src/ecs.rs\<close> and
  \<open>systems.rs\<close>. The entities are a \<open>HashMap\<close>: the loops over them take its
  iteration order as \<open>ord\<close>. \<open>bincode\<close> of a world, which writes the entities in that
  order, and \<open>cos\<close> and \<open>sin\<close> are the record \<open>ecs_ext\<close>. The last section
  proves that the systems do not depend on the order.
\<close>

section \<open>Components\<close>

type_synonym entity_id = u64
type_synonym vec3 = "f32 \<times> f32 \<times> f32"

record position_component =
  pos_x :: f32
  pos_y :: f32
  pos_z :: f32

record health_component =
  hc_current :: f32
  hc_maximum :: f32
  hc_is_dead :: bool

record player_component =
  pl_address :: string
  pl_name :: string
  pl_level :: u32
  pl_experience :: u64

datatype npc_behavior = NB_Idle | NB_Patrol | NB_Aggressive | NB_Merchant

record npc_component =
  nc_npc_type :: string
  nc_behavior :: npc_behavior
  nc_home_position :: position_component

record item =
  it_item_id :: u32
  it_quantity :: u32
  it_metadata :: "string option"

record inventory_component =
  ic_items :: "item list"
  ic_max_slots :: u32

record physics_component =
  ph_velocity_x :: f32
  ph_velocity_y :: f32
  ph_velocity_z :: f32
  ph_mass :: f32
  ph_is_grounded :: bool

record combat_component =
  cb_attack :: f32
  cb_defense :: f32
  cb_attack_range :: f32
  cb_attack_cooldown :: u32
  cb_cooldown_remaining :: u32
  cb_crit_chance :: f32
  cb_crit_multiplier :: f32

definition combat_default :: combat_component where
  "combat_default = \<lparr> cb_attack = f32_of_int 10, cb_defense = f32_of_int 5,
     cb_attack_range = f32_of_int 2, cb_attack_cooldown = 5, cb_cooldown_remaining = 0,
     cb_crit_chance = f32_lit 5 2, cb_crit_multiplier = f32_of_int 2 \<rparr>"

datatype npc_ai_state =
    NAS_Idle u32
  | NAS_Patrolling nat
  | NAS_Chasing entity_id
  | NAS_Fleeing entity_id u32
  | NAS_Returning
  | NAS_Dead u32

record ai_state_component =
  as_state :: npc_ai_state
  as_waypoints :: "vec3 list"
  as_leash_range :: f32
  as_aggro_range :: f32
  as_move_speed :: f32
  as_experience_reward :: u64

record equipment_component =
  eq_main_hand :: "u32 option"
  eq_off_hand :: "u32 option"
  eq_head :: "u32 option"
  eq_chest :: "u32 option"
  eq_legs :: "u32 option"
  eq_boots :: "u32 option"

datatype component =
    CO_Position position_component
  | CO_Health health_component
  | CO_Player player_component
  | CO_Npc npc_component
  | CO_Inventory inventory_component
  | CO_Physics physics_component
  | CO_Combat combat_component
  | CO_AiState ai_state_component
  | CO_Equipment equipment_component

section \<open>The store (\<open>ecs.rs\<close>)\<close>

type_synonym entity_map = "(entity_id \<times> component list) list"
type_synonym entity_order = "entity_map \<Rightarrow> entity_map"

record ecs_world =
  ew_next_entity_id :: entity_id
  ew_entities :: entity_map

record ecs_ext =
  ee_serialize :: "entity_id \<Rightarrow> entity_map \<Rightarrow> string + bytes"
  ee_deserialize :: "bytes \<Rightarrow> string + ecs_world"
  ee_cos :: "f32 \<Rightarrow> f32"
  ee_sin :: "f32 \<Rightarrow> f32"

definition ecs_new :: ecs_world where
  "ecs_new = \<lparr> ew_next_entity_id = 1, ew_entities = [] \<rparr>"

definition ecs_spawn :: "component list \<Rightarrow> ecs_world \<Rightarrow> entity_id \<times> ecs_world" where
  "ecs_spawn cs w =
     (let i = ew_next_entity_id w in
      (i, w\<lparr>ew_next_entity_id := i + 1, ew_entities := AList.update i cs (ew_entities w)\<rparr>))"

definition ecs_despawn :: "entity_id \<Rightarrow> ecs_world \<Rightarrow> bool \<times> ecs_world" where
  "ecs_despawn i w =
     (map_of (ew_entities w) i \<noteq> None, w\<lparr>ew_entities := AList.delete i (ew_entities w)\<rparr>)"

definition get_components :: "ecs_world \<Rightarrow> entity_id \<Rightarrow> component list option" where
  "get_components w i = map_of (ew_entities w) i"

text \<open>A change made through \<open>get_components_mut\<close>; nothing where there is no such entity.\<close>

definition modify_components ::
  "entity_id \<Rightarrow> (component list \<Rightarrow> component list) \<Rightarrow> ecs_world \<Rightarrow> ecs_world" where
  "modify_components i f w = w\<lparr>ew_entities := hm_modify i f (ew_entities w)\<rparr>"

definition get_component :: "ecs_world \<Rightarrow> entity_id \<Rightarrow> (component \<Rightarrow> bool) \<Rightarrow> component option" where
  "get_component w i P = Option.bind (map_of (ew_entities w) i) (find P)"

definition is_position :: "component \<Rightarrow> bool" where
  "is_position c = (case c of CO_Position _ \<Rightarrow> True | _ \<Rightarrow> False)"

definition is_player :: "component \<Rightarrow> bool" where
  "is_player c = (case c of CO_Player _ \<Rightarrow> True | _ \<Rightarrow> False)"

definition is_npc :: "component \<Rightarrow> bool" where
  "is_npc c = (case c of CO_Npc _ \<Rightarrow> True | _ \<Rightarrow> False)"

definition is_physics :: "component \<Rightarrow> bool" where
  "is_physics c = (case c of CO_Physics _ \<Rightarrow> True | _ \<Rightarrow> False)"

definition is_health :: "component \<Rightarrow> bool" where
  "is_health c = (case c of CO_Health _ \<Rightarrow> True | _ \<Rightarrow> False)"

definition get_position :: "ecs_world \<Rightarrow> entity_id \<Rightarrow> position_component option" where
  "get_position w i =
     (case get_component w i is_position of Some (CO_Position p) \<Rightarrow> Some p | _ \<Rightarrow> None)"

definition entities_with :: "entity_order \<Rightarrow> (component \<Rightarrow> bool) \<Rightarrow> ecs_world \<Rightarrow> entity_id list" where
  "entities_with ord P w = map fst (filter (\<lambda>(_, cs). list_ex P cs) (ord (ew_entities w)))"

definition player_entities :: "entity_order \<Rightarrow> ecs_world \<Rightarrow> entity_id list" where
  "player_entities ord w = entities_with ord is_player w"

definition npc_entities :: "entity_order \<Rightarrow> ecs_world \<Rightarrow> entity_id list" where
  "npc_entities ord w = entities_with ord is_npc w"

definition entity_count :: "ecs_world \<Rightarrow> nat" where
  "entity_count w = length (ew_entities w)"

definition ecs_serialize :: "ecs_ext \<Rightarrow> entity_order \<Rightarrow> ecs_world \<Rightarrow> string + bytes" where
  "ecs_serialize E ord w = ee_serialize E (ew_next_entity_id w) (ord (ew_entities w))"

definition ecs_deserialize :: "ecs_ext \<Rightarrow> bytes \<Rightarrow> string + ecs_world" where
  "ecs_deserialize E bs = ee_deserialize E bs"

definition state_hash :: "externs \<Rightarrow> ecs_ext \<Rightarrow> entity_order \<Rightarrow> ecs_world \<Rightarrow> b256" where
  "state_hash X E ord w =
     x_keccak X (case ecs_serialize E ord w of Inl _ \<Rightarrow> [] | Inr bs \<Rightarrow> bs)"

section \<open>The systems (\<open>systems.rs\<close>)\<close>

text \<open>The shape of every system: collect the ids, then change each entity that is still there.\<close>

definition for_entities ::
  "entity_order \<Rightarrow> (component \<Rightarrow> bool) \<Rightarrow> (component list \<Rightarrow> component list) \<Rightarrow> ecs_world \<Rightarrow> ecs_world" where
  "for_entities ord P f w = fold (\<lambda>i w. modify_components i f w) (entities_with ord P w) w"

text \<open>The reading loops keep the last component of a kind.\<close>

definition last_position :: "component list \<Rightarrow> position_component option" where
  "last_position cs = fold (\<lambda>c p. case c of CO_Position q \<Rightarrow> Some q | _ \<Rightarrow> p) cs None"

definition last_physics :: "component list \<Rightarrow> physics_component option" where
  "last_physics cs = fold (\<lambda>c p. case c of CO_Physics q \<Rightarrow> Some q | _ \<Rightarrow> p) cs None"

definition last_npc :: "component list \<Rightarrow> npc_component option" where
  "last_npc cs = fold (\<lambda>c p. case c of CO_Npc q \<Rightarrow> Some q | _ \<Rightarrow> p) cs None"

definition set_position :: "position_component \<Rightarrow> component \<Rightarrow> component" where
  "set_position p c = (case c of CO_Position _ \<Rightarrow> CO_Position p | _ \<Rightarrow> c)"

definition set_physics :: "physics_component \<Rightarrow> component \<Rightarrow> component" where
  "set_physics p c = (case c of CO_Physics _ \<Rightarrow> CO_Physics p | _ \<Rightarrow> c)"

definition move_body ::
  "position_component \<Rightarrow> physics_component \<Rightarrow> position_component \<times> physics_component" where
  "move_body pos ph =
     (let pos1 = pos\<lparr>pos_x := f32_add (pos_x pos) (ph_velocity_x ph),
                     pos_y := f32_add (pos_y pos) (ph_velocity_y ph),
                     pos_z := f32_add (pos_z pos) (ph_velocity_z ph)\<rparr>;
          ph1 = (if \<not> ph_is_grounded ph
                 then ph\<lparr>ph_velocity_z := f32_sub (ph_velocity_z ph) (f32_mul (f32_lit 981 2) (f32_lit 16 3))\<rparr>
                 else ph);
          (pos2, ph2) = (if f32_le (pos_z pos1) 0
                         then (pos1\<lparr>pos_z := 0\<rparr>, ph1\<lparr>ph_velocity_z := 0, ph_is_grounded := True\<rparr>)
                         else (pos1, ph1));
          ph3 = ph2\<lparr>ph_velocity_x := f32_mul (ph_velocity_x ph2) (f32_lit 9 1),
                    ph_velocity_y := f32_mul (ph_velocity_y ph2) (f32_lit 9 1)\<rparr>
      in (pos2, ph3))"

definition physics_entity :: "component list \<Rightarrow> component list" where
  "physics_entity cs =
     (case (last_position cs, last_physics cs) of
        (Some pos, Some ph) \<Rightarrow>
          let (pos', ph') = move_body pos ph in map (\<lambda>c. set_physics ph' (set_position pos' c)) cs
      | _ \<Rightarrow> cs)"

definition physics_system :: "entity_order \<Rightarrow> ecs_world \<Rightarrow> ecs_world" where
  "physics_system ord w = for_entities ord is_physics physics_entity w"

definition npc_position ::
  "ecs_ext \<Rightarrow> u64 \<Rightarrow> npc_component \<Rightarrow> position_component \<Rightarrow> position_component" where
  "npc_position E tick npc pos =
     (case nc_behavior npc of
        NB_Patrol \<Rightarrow>
          let angle = f32_mul (f32_of_int (uint tick)) (f32_lit 5 2); radius = f32_of_int 5 in
          pos\<lparr>pos_x := f32_add (pos_x (nc_home_position npc)) (f32_mul (ee_cos E angle) radius),
              pos_y := f32_add (pos_y (nc_home_position npc)) (f32_mul (ee_sin E angle) radius)\<rparr>
      | _ \<Rightarrow> pos)"

definition npc_entity :: "ecs_ext \<Rightarrow> u64 \<Rightarrow> component list \<Rightarrow> component list" where
  "npc_entity E tick cs =
     (case (last_npc cs, last_position cs) of
        (Some npc, Some pos) \<Rightarrow> map (set_position (npc_position E tick npc pos)) cs
      | _ \<Rightarrow> cs)"

definition npc_ai_system :: "ecs_ext \<Rightarrow> entity_order \<Rightarrow> u64 \<Rightarrow> ecs_world \<Rightarrow> ecs_world" where
  "npc_ai_system E ord tick w = for_entities ord is_npc (npc_entity E tick) w"

definition check_death :: "component \<Rightarrow> component" where
  "check_death c =
     (case c of
        CO_Health h \<Rightarrow>
          if f32_le (hc_current h) 0 \<and> \<not> hc_is_dead h
          then CO_Health (h\<lparr>hc_is_dead := True, hc_current := 0\<rparr>) else c
      | _ \<Rightarrow> c)"

definition combat_system :: "entity_order \<Rightarrow> ecs_world \<Rightarrow> ecs_world" where
  "combat_system ord w = for_entities ord is_health (map check_death) w"

definition needs_respawn :: "component list \<Rightarrow> bool" where
  "needs_respawn cs = list_ex (\<lambda>c. case c of CO_Health h \<Rightarrow> hc_is_dead h | _ \<Rightarrow> False) cs"

definition revive :: "component \<Rightarrow> component" where
  "revive c =
     (case c of
        CO_Health h \<Rightarrow> CO_Health (h\<lparr>hc_current := hc_maximum h, hc_is_dead := False\<rparr>)
      | CO_Position p \<Rightarrow> CO_Position (p\<lparr>pos_x := 0, pos_y := 0, pos_z := f32_of_int 64\<rparr>)
      | _ \<Rightarrow> c)"

definition respawn_entity :: "component list \<Rightarrow> component list" where
  "respawn_entity cs = (if needs_respawn cs then map revive cs else cs)"

definition respawn_system :: "entity_order \<Rightarrow> ecs_world \<Rightarrow> ecs_world" where
  "respawn_system ord w = for_entities ord is_player respawn_entity w"

definition run_tick :: "ecs_ext \<Rightarrow> entity_order \<Rightarrow> u64 \<Rightarrow> ecs_world \<Rightarrow> ecs_world" where
  "run_tick E ord tick w =
     respawn_system ord (combat_system ord (npc_ai_system E ord tick (physics_system ord w)))"

section \<open>The systems do not depend on the iteration order\<close>

definition entities_wf :: "ecs_world \<Rightarrow> bool" where
  "entities_wf w \<longleftrightarrow> hm_wf (ew_entities w)"

definition map_entities ::
  "(component \<Rightarrow> bool) \<Rightarrow> (component list \<Rightarrow> component list) \<Rightarrow> entity_map \<Rightarrow> entity_map" where
  "map_entities P f m = map (\<lambda>(i, cs). (i, if list_ex P cs then f cs else cs)) m"

lemma map_entities_get:
  "map_of (map_entities P f m) i = map_option (\<lambda>cs. if list_ex P cs then f cs else cs) (map_of m i)"
  by (induction m) (auto simp: map_entities_def)

lemma map_entities_keys [simp]: "hm_keys (map_entities P f m) = hm_keys m"
  by (induction m) (auto simp: map_entities_def)

lemma fold_modify:
  "distinct ids \<Longrightarrow> fold (\<lambda>i w. modify_components i f w) ids w =
     w\<lparr>ew_entities := map (\<lambda>(i, cs). (i, if i \<in> set ids then f cs else cs)) (ew_entities w)\<rparr>"
proof (induction ids arbitrary: w)
  case (Cons j ids)
  have "fold (\<lambda>i w. modify_components i f w) (j # ids) w = modify_components j f w
      \<lparr>ew_entities := map (\<lambda>(i, cs). (i, if i \<in> set ids then f cs else cs))
         (ew_entities (modify_components j f w))\<rparr>"
    using Cons by simp
  also have "map (\<lambda>(i, cs). (i, if i \<in> set ids then f cs else cs)) (ew_entities (modify_components j f w))
      = map (\<lambda>(i, cs). (i, if i \<in> set (j # ids) then f cs else cs)) (ew_entities w)"
    using Cons.prems by (auto simp: modify_components_def hm_modify_def)
  finally show ?case by (simp add: modify_components_def)
qed (simp add: case_prod_beta)

lemma entities_with_set:
  assumes "iter_order ord" and "entities_wf w"
  shows "distinct (entities_with ord P w)"
    and "(i, cs) \<in> set (ew_entities w) \<Longrightarrow> i \<in> set (entities_with ord P w) \<longleftrightarrow> list_ex P cs"
proof -
  show "distinct (entities_with ord P w)"
    using assms by (simp add: entities_with_def entities_wf_def distinct_map_filter)
  have uniq: "(i, ds) \<in> set (ew_entities w) \<Longrightarrow> (i, es) \<in> set (ew_entities w) \<Longrightarrow> ds = es" for ds es
    using assms(2) unfolding entities_wf_def by (metis eq_key_imp_eq_value)
  show "i \<in> set (entities_with ord P w) \<longleftrightarrow> list_ex P cs" if m: "(i, cs) \<in> set (ew_entities w)"
  proof
    assume "i \<in> set (entities_with ord P w)"
    then obtain ds where "(i, ds) \<in> set (ew_entities w)" "list_ex P ds"
      using assms(1) unfolding entities_with_def by auto
    then show "list_ex P cs" using uniq[OF m] by simp
  next
    assume "list_ex P cs"
    then have "(i, cs) \<in> set (filter (\<lambda>(_, cs). list_ex P cs) (ord (ew_entities w)))"
      using m assms(1) by simp
    then have "fst (i, cs) \<in> set (entities_with ord P w)"
      unfolding entities_with_def set_map by (rule imageI)
    then show "i \<in> set (entities_with ord P w)" by simp
  qed
qed

lemma for_entities_eq:
  assumes "iter_order ord" and "entities_wf w"
  shows "for_entities ord P f w = w\<lparr>ew_entities := map_entities P f (ew_entities w)\<rparr>"
  unfolding for_entities_def fold_modify[OF entities_with_set(1)[OF assms]]
  using entities_with_set(2)[OF assms] by (auto simp: map_entities_def intro!: ecs_world.fold_congs)

lemma for_entities_wf:
  assumes "iter_order ord" and "entities_wf w"
  shows "entities_wf (for_entities ord P f w)"
  using assms by (simp add: for_entities_eq entities_wf_def)

lemmas system_defs = physics_system_def npc_ai_system_def combat_system_def respawn_system_def

definition tick_entities :: "ecs_ext \<Rightarrow> u64 \<Rightarrow> entity_map \<Rightarrow> entity_map" where
  "tick_entities E tick m =
     map_entities is_player respawn_entity (map_entities is_health (map check_death)
       (map_entities is_npc (npc_entity E tick) (map_entities is_physics physics_entity m)))"

lemma run_tick_eq:
  assumes o: "iter_order ord" and w: "entities_wf w"
  shows "run_tick E ord tick w = w\<lparr>ew_entities := tick_entities E tick (ew_entities w)\<rparr>"
proof -
  note wf = for_entities_wf[OF o]
  show ?thesis
    unfolding run_tick_def system_defs tick_entities_def
    using w wf by (simp add: for_entities_eq[OF o] entities_wf_def)
qed

lemma tick_entities_keys [simp]: "hm_keys (tick_entities E tick m) = hm_keys m"
  by (simp add: tick_entities_def)

section \<open>What a tick keeps\<close>

text \<open>The systems change no component's kind and no player's address.\<close>

definition same_kind :: "component \<Rightarrow> component \<Rightarrow> bool" where
  "same_kind c d \<longleftrightarrow> (case (c, d) of
     (CO_Position _, CO_Position _) \<Rightarrow> True
   | (CO_Health h, CO_Health k) \<Rightarrow> hc_maximum h = hc_maximum k
   | (CO_Physics _, CO_Physics _) \<Rightarrow> True
   | _ \<Rightarrow> c = d)"

lemma same_kind_refl [simp]: "same_kind c c"
  by (simp add: same_kind_def split: component.split)

lemma same_kind_trans [trans]: "same_kind c d \<Longrightarrow> same_kind d e \<Longrightarrow> same_kind c e"
  by (cases c; cases d; cases e) (simp_all add: same_kind_def)

definition same_kinds :: "component list \<Rightarrow> component list \<Rightarrow> bool" where
  "same_kinds cs ds \<longleftrightarrow> list_all2 same_kind cs ds"

lemma same_kinds_refl [simp]: "same_kinds cs cs"
  by (simp add: same_kinds_def list_all2_refl)

lemma same_kinds_trans [trans]: "same_kinds cs ds \<Longrightarrow> same_kinds ds es \<Longrightarrow> same_kinds cs es"
  unfolding same_kinds_def by (rule list_all2_trans[OF same_kind_trans])

lemma same_kinds_map: "(\<And>c. same_kind c (f c)) \<Longrightarrow> same_kinds cs (map f cs)"
  by (simp add: same_kinds_def list_all2_conv_all_nth)

lemma entity_same_kinds:
  "same_kinds cs (physics_entity cs)" "same_kinds cs (npc_entity E tick cs)"
  "same_kinds cs (map check_death cs)" "same_kinds cs (respawn_entity cs)"
proof -
  show "same_kinds cs (physics_entity cs)"
    by (auto simp: physics_entity_def set_position_def set_physics_def same_kind_def case_prod_beta
        split: option.split component.split intro!: same_kinds_map)
  show "same_kinds cs (npc_entity E tick cs)"
    by (auto simp: npc_entity_def set_position_def same_kind_def split: option.split component.split
        intro!: same_kinds_map)
  show "same_kinds cs (map check_death cs)"
    by (auto simp: check_death_def same_kind_def split: component.split intro!: same_kinds_map)
  show "same_kinds cs (respawn_entity cs)"
    by (auto simp: respawn_entity_def revive_def same_kind_def split: component.split intro!: same_kinds_map)
qed

definition tick_entity :: "ecs_ext \<Rightarrow> u64 \<Rightarrow> component list \<Rightarrow> component list" where
  "tick_entity E tick cs =
     (let step = (\<lambda>P f cs. if list_ex P cs then f cs else cs) in
      step is_player respawn_entity (step is_health (map check_death)
        (step is_npc (npc_entity E tick) (step is_physics physics_entity cs))))"

lemma tick_entities_get: "map_of (tick_entities E tick m) i = map_option (tick_entity E tick) (map_of m i)"
  by (cases "map_of m i") (simp_all add: tick_entities_def map_entities_get tick_entity_def Let_def)

lemma tick_entity_same_kinds: "same_kinds cs (tick_entity E tick cs)"
proof -
  let ?s = "\<lambda>P f cs. if list_ex P cs then f cs else cs"
  let ?a = "?s is_physics physics_entity cs"
  let ?b = "?s is_npc (npc_entity E tick) ?a"
  let ?c = "?s is_health (map check_death) ?b"
  have "same_kinds cs ?a" by (simp add: entity_same_kinds)
  also have "same_kinds ?a ?b" by (simp add: entity_same_kinds)
  also have "same_kinds ?b ?c" using entity_same_kinds(3)[of ?b] by simp
  also have "same_kinds ?c (?s is_player respawn_entity ?c)" using entity_same_kinds(4)[of ?c] by simp
  finally show ?thesis by (simp only: tick_entity_def Let_def)
qed

definition player_address :: "component list \<Rightarrow> string option" where
  "player_address cs = (case find is_player cs of Some (CO_Player p) \<Rightarrow> Some (pl_address p) | _ \<Rightarrow> None)"

definition has_address :: "string \<Rightarrow> component list \<Rightarrow> bool" where
  "has_address a cs \<longleftrightarrow> list_ex (\<lambda>c. case c of CO_Player p \<Rightarrow> pl_address p = a | _ \<Rightarrow> False) cs"

lemma same_kind_player: "same_kind c d \<Longrightarrow> is_player c \<or> is_player d \<Longrightarrow> c = d"
  by (cases c; cases d) (simp_all add: same_kind_def is_player_def)

lemma same_kinds_ex:
  "same_kinds cs ds \<Longrightarrow> (\<And>c d. same_kind c d \<Longrightarrow> P c = P d) \<Longrightarrow> list_ex P cs = list_ex P ds"
  unfolding same_kinds_def by (induction rule: list_all2_induct) auto

lemma same_kinds_address: "same_kinds cs ds \<Longrightarrow> has_address a cs = has_address a ds"
  unfolding has_address_def
  by (erule same_kinds_ex) (auto simp: same_kind_def split: component.splits)

lemma same_kinds_is_player: "same_kinds cs ds \<Longrightarrow> list_ex is_player cs = list_ex is_player ds"
  by (erule same_kinds_ex) (auto simp: same_kind_def is_player_def split: component.splits)

text \<open>Nobody is dead after a tick.\<close>

definition alive :: "component \<Rightarrow> bool" where
  "alive c \<longleftrightarrow> (case c of CO_Health h \<Rightarrow> \<not> hc_is_dead h | _ \<Rightarrow> True)"

lemma respawn_alive: "list_all alive (respawn_entity cs)"
  by (auto simp: respawn_entity_def needs_respawn_def list_all_iff list_ex_iff alive_def revive_def
      split: component.splits)

lemma tick_entity_alive:
  assumes "list_ex is_player cs"
  shows "list_all alive (tick_entity E tick cs)"
proof -
  let ?s = "\<lambda>P f cs. if list_ex P cs then f cs else cs"
  let ?c = "?s is_health (map check_death) (?s is_npc (npc_entity E tick) (?s is_physics physics_entity cs))"
  have "tick_entity E tick cs = ?s is_player respawn_entity ?c" by (simp only: tick_entity_def Let_def)
  moreover have "list_ex is_player (?s is_player respawn_entity ?c)"
    using same_kinds_is_player[OF tick_entity_same_kinds[of cs E tick]] assms calculation by simp
  then have "list_ex is_player ?c"
    using same_kinds_is_player[OF entity_same_kinds(4)[of ?c]] by (simp split: if_splits)
  ultimately show ?thesis using respawn_alive[of ?c] by simp
qed

end
