(* ===== verification/Spawns.thy ===== *)
theory Spawns
  imports Ecs
begin

text \<open>
  NPC archetypes and spawn points, \<open>crates/game-engine/src/npc_ai.rs\<close>, with its
  distance and target helpers. The spawn points are a \<open>Vec\<close>, so their order is fixed.
\<close>

section \<open>Archetypes and spawn points\<close>

datatype ai_state =
    AI_Idle u32
  | AI_Patrolling nat
  | AI_Chasing entity_id
  | AI_Fleeing entity_id u32
  | AI_Returning
  | AI_Dead u32

datatype behavior_pattern =
  BP_Passive | BP_PatrolPassive | BP_PatrolAggressive | BP_Guardian | BP_Timid | BP_Predator

record npc_archetype =
  na_npc_type :: string
  na_display_name :: string
  na_max_health :: f32
  na_attack_damage :: f32
  na_attack_range :: f32
  na_attack_cooldown :: u32
  na_move_speed :: f32
  na_aggro_range :: f32
  na_leash_range :: f32
  na_behavior_pattern :: behavior_pattern
  na_respawn_ticks :: u32
  na_experience_reward :: u64
  na_level :: u32

record spawn_point =
  sp_archetype :: string
  sp_position :: vec3
  sp_patrol_waypoints :: "vec3 list"
  sp_spawn_radius :: f32
  sp_max_count :: u32
  sp_current_count :: u32
  sp_respawn_cooldown :: u32
  sp_cooldown_remaining :: u32

record spawn_manager =
  sm_spawn_points :: "spawn_point list"
  sm_archetypes :: "npc_archetype list"

definition default_archetypes :: "npc_archetype list" where
  "default_archetypes = [
     \<lparr> na_npc_type = ''merchant'', na_display_name = ''Wandering Merchant'', na_max_health = f32_of_int 100,
       na_attack_damage = 0, na_attack_range = 0, na_attack_cooldown = 0,
       na_move_speed = f32_lit 5 1, na_aggro_range = 0, na_leash_range = f32_of_int 20,
       na_behavior_pattern = BP_Passive, na_respawn_ticks = 600, na_experience_reward = 0,
       na_level = 1 \<rparr>,
     \<lparr> na_npc_type = ''guard'', na_display_name = ''Town Guard'', na_max_health = f32_of_int 150,
       na_attack_damage = f32_of_int 12, na_attack_range = f32_of_int 2, na_attack_cooldown = 10,
       na_move_speed = f32_of_int 1, na_aggro_range = f32_of_int 8, na_leash_range = f32_of_int 30,
       na_behavior_pattern = BP_Guardian, na_respawn_ticks = 300, na_experience_reward = 25,
       na_level = 3 \<rparr>,
     \<lparr> na_npc_type = ''wolf'', na_display_name = ''Wild Wolf'', na_max_health = f32_of_int 60,
       na_attack_damage = f32_of_int 8, na_attack_range = f32_lit 15 1, na_attack_cooldown = 8,
       na_move_speed = f32_lit 15 1, na_aggro_range = f32_of_int 10, na_leash_range = f32_of_int 25,
       na_behavior_pattern = BP_Predator, na_respawn_ticks = 200, na_experience_reward = 15,
       na_level = 2 \<rparr>,
     \<lparr> na_npc_type = ''rabbit'', na_display_name = ''Forest Rabbit'', na_max_health = f32_of_int 15,
       na_attack_damage = 0, na_attack_range = 0, na_attack_cooldown = 0,
       na_move_speed = f32_of_int 2, na_aggro_range = f32_of_int 6, na_leash_range = f32_of_int 20,
       na_behavior_pattern = BP_Timid, na_respawn_ticks = 100, na_experience_reward = 5,
       na_level = 1 \<rparr>,
     \<lparr> na_npc_type = ''dragon'', na_display_name = ''Elder Dragon'', na_max_health = f32_of_int 1000,
       na_attack_damage = f32_of_int 50, na_attack_range = f32_of_int 4, na_attack_cooldown = 15,
       na_move_speed = f32_lit 12 1, na_aggro_range = f32_of_int 15, na_leash_range = f32_of_int 40,
       na_behavior_pattern = BP_PatrolAggressive, na_respawn_ticks = 3000, na_experience_reward = 500,
       na_level = 10 \<rparr>,
     \<lparr> na_npc_type = ''skeleton'', na_display_name = ''Skeletal Warrior'', na_max_health = f32_of_int 80,
       na_attack_damage = f32_of_int 10, na_attack_range = f32_lit 15 1, na_attack_cooldown = 12,
       na_move_speed = f32_lit 8 1, na_aggro_range = f32_of_int 8, na_leash_range = f32_of_int 20,
       na_behavior_pattern = BP_PatrolAggressive, na_respawn_ticks = 250, na_experience_reward = 20,
       na_level = 3 \<rparr> ]"

definition sm_new :: spawn_manager where
  "sm_new = \<lparr> sm_spawn_points = [], sm_archetypes = default_archetypes \<rparr>"

definition get_archetype :: "spawn_manager \<Rightarrow> string \<Rightarrow> npc_archetype option" where
  "get_archetype m t = find (\<lambda>a. na_npc_type a = t) (sm_archetypes m)"

section \<open>Generating the spawn points\<close>

definition spawn_configs :: "(string \<times> f32 \<times> f32 \<times> u32 \<times> f32) list" where
  "spawn_configs = [
     (''merchant'', f32_of_int 5, f32_of_int 5, 1, f32_of_int 3),
     (''guard'', 0, f32_of_int 10, 2, f32_of_int 5),
     (''guard'', f32_of_int 10, 0, 2, f32_of_int 5),
     (''wolf'', f32_of_int 30, f32_of_int 30, 3, f32_of_int 10),
     (''wolf'', f32_of_int (- 20), f32_of_int 25, 2, f32_of_int 8),
     (''rabbit'', f32_of_int 15, f32_of_int 15, 4, f32_of_int 12),
     (''rabbit'', f32_of_int (- 10), f32_of_int (- 10), 3, f32_of_int 10),
     (''skeleton'', f32_of_int 40, f32_of_int (- 30), 3, f32_of_int 8),
     (''skeleton'', f32_of_int (- 35), f32_of_int 40, 2, f32_of_int 6),
     (''dragon'', f32_of_int 60, f32_of_int 60, 1, f32_of_int 5)]"

text \<open>Byte \<open>k\<close> of a hash, scaled to an offset between -2.5 and 2.5.\<close>

definition spawn_offset :: "b256 \<Rightarrow> nat \<Rightarrow> f32" where
  "spawn_offset h k =
     f32_mul (f32_sub (f32_div (f32_of_int (uint (to_be_bytes 32 h ! k))) (f32_of_int 255)) (f32_lit 5 1))
       (f32_of_int 5)"

definition patrols :: "behavior_pattern \<Rightarrow> bool" where
  "patrols b \<longleftrightarrow> b = BP_PatrolPassive \<or> b = BP_PatrolAggressive \<or> b = BP_Guardian"

definition FRAC_PI_2 :: f32 where
  "FRAC_PI_2 = 0x3FC90FDB"

definition waypoint :: "ecs_ext \<Rightarrow> f32 \<Rightarrow> f32 \<Rightarrow> f32 \<Rightarrow> int \<Rightarrow> vec3" where
  "waypoint E x y radius wp =
     (let angle = f32_mul (f32_of_int wp) FRAC_PI_2 in
      (f32_add x (f32_mul (f32_mul (ee_cos E angle) radius) (f32_lit 5 1)),
       f32_add y (f32_mul (f32_mul (ee_sin E angle) radius) (f32_lit 5 1)), 0))"

definition make_spawn_point ::
  "externs \<Rightarrow> ecs_ext \<Rightarrow> u64 \<Rightarrow> spawn_manager \<Rightarrow> nat \<Rightarrow> string \<times> f32 \<times> f32 \<times> u32 \<times> f32 \<Rightarrow> spawn_point" where
  "make_spawn_point X E seed m i cfg =
     (case cfg of (t, base_x, base_y, max_count, radius) \<Rightarrow>
        let h = x_keccak X (to_le_bytes 8 seed @ to_le_bytes 8 (of_nat i :: u64));
            x = f32_add base_x (spawn_offset h 0); y = f32_add base_y (spawn_offset h 1);
            arch = get_archetype m t
        in \<lparr> sp_archetype = t, sp_position = (x, y, 0),
             sp_patrol_waypoints =
               (case arch of
                  Some a \<Rightarrow> if patrols (na_behavior_pattern a) then map (waypoint E x y radius) [0, 1, 2, 3] else []
                | None \<Rightarrow> []),
             sp_spawn_radius = radius, sp_max_count = max_count, sp_current_count = 0,
             sp_respawn_cooldown = (case arch of Some a \<Rightarrow> na_respawn_ticks a | None \<Rightarrow> 200),
             sp_cooldown_remaining = 0 \<rparr>)"

definition generate_spawn_points :: "externs \<Rightarrow> ecs_ext \<Rightarrow> u64 \<Rightarrow> spawn_manager \<Rightarrow> spawn_manager" where
  "generate_spawn_points X E seed m =
     m\<lparr>sm_spawn_points := sm_spawn_points m @
         map (\<lambda>(i, cfg). make_spawn_point X E seed m i cfg) (zip [0..<length spawn_configs] spawn_configs)\<rparr>"

section \<open>Spawning\<close>

type_synonym spawn = "string \<times> vec3 \<times> vec3 list"

definition tick_spawn_point :: "spawn_point \<Rightarrow> spawn list \<times> spawn_point" where
  "tick_spawn_point p =
     (if sp_current_count p < sp_max_count p then
        if 0 < sp_cooldown_remaining p
        then ([], p\<lparr>sp_cooldown_remaining := sp_cooldown_remaining p - 1\<rparr>)
        else ([(sp_archetype p, sp_position p, sp_patrol_waypoints p)],
              p\<lparr>sp_current_count := sp_current_count p + 1,
                sp_cooldown_remaining := sp_respawn_cooldown p\<rparr>)
      else ([], p))"

definition tick_spawns :: "spawn_manager \<Rightarrow> spawn list \<times> spawn_manager" where
  "tick_spawns m =
     (let rs = map tick_spawn_point (sm_spawn_points m) in
      (concat (map fst rs), m\<lparr>sm_spawn_points := map snd rs\<rparr>))"

text \<open>The search of \<open>notify_death\<close>: the first spawn point at the least distance.\<close>

definition F32_MAX :: f32 where
  "F32_MAX = 0x7F7FFFFF"

definition dist_sq :: "f32 \<Rightarrow> f32 \<Rightarrow> f32 \<Rightarrow> f32 \<Rightarrow> f32" where
  "dist_sq ax ay bx by =
     (let dx = f32_sub ax bx; dy = f32_sub ay by in f32_add (f32_mul dx dx) (f32_mul dy dy))"

fun nearest_spawn ::
  "string \<Rightarrow> f32 \<Rightarrow> f32 \<Rightarrow> nat \<Rightarrow> spawn_point list \<Rightarrow> f32 \<Rightarrow> nat option \<Rightarrow> nat option" where
  "nearest_spawn t x y i [] best_dist best = best"
| "nearest_spawn t x y i (p # ps) best_dist best =
     (if sp_archetype p = t \<and> 0 < sp_current_count p then
        let d = dist_sq (fst (sp_position p)) (fst (snd (sp_position p))) x y in
        if f32_less d best_dist then nearest_spawn t x y (Suc i) ps d (Some i)
        else nearest_spawn t x y (Suc i) ps best_dist best
      else nearest_spawn t x y (Suc i) ps best_dist best)"

definition notify_death :: "string \<Rightarrow> vec3 \<Rightarrow> spawn_manager \<Rightarrow> spawn_manager" where
  "notify_death t pos m =
     (case nearest_spawn t (fst pos) (fst (snd pos)) 0 (sm_spawn_points m) F32_MAX None of
        None \<Rightarrow> m
      | Some i \<Rightarrow>
          let p = sm_spawn_points m ! i in
          m\<lparr>sm_spawn_points := (sm_spawn_points m)[i :=
              p\<lparr>sp_current_count := saturating_sub (sp_current_count p) 1,
                sp_cooldown_remaining := sp_respawn_cooldown p\<rparr>]\<rparr>)"

section \<open>Distances and targets\<close>

definition distance_2d :: "vec3 \<Rightarrow> vec3 \<Rightarrow> f32" where
  "distance_2d a b = f32_sqrt (dist_sq (fst a) (fst (snd a)) (fst b) (fst (snd b)))"

definition move_toward :: "position_component \<Rightarrow> vec3 \<Rightarrow> f32 \<Rightarrow> f32 \<times> f32" where
  "move_toward p target speed =
     (let dx = f32_sub (fst target) (pos_x p); dy = f32_sub (fst (snd target)) (pos_y p);
          dist = f32_sqrt (f32_add (f32_mul dx dx) (f32_mul dy dy))
      in if f32_less dist (f32_lit 1 1) then (0, 0)
         else (f32_mul (f32_div dx dist) speed, f32_mul (f32_div dy dist) speed))"

definition last_alive :: "component list \<Rightarrow> bool" where
  "last_alive cs = fold (\<lambda>c a. case c of CO_Health h \<Rightarrow> \<not> hc_is_dead h | _ \<Rightarrow> a) cs True"

definition nearer ::
  "ecs_world \<Rightarrow> position_component \<Rightarrow> f32 \<Rightarrow> entity_id \<Rightarrow> (entity_id \<times> f32) option \<Rightarrow> (entity_id \<times> f32) option" where
  "nearer w p max_range i nearest =
     (case get_components w i of
        None \<Rightarrow> nearest
      | Some cs \<Rightarrow>
          if \<not> last_alive cs then nearest
          else case last_position cs of
            None \<Rightarrow> nearest
          | Some q \<Rightarrow>
              let dist = f32_sqrt (dist_sq (pos_x q) (pos_y q) (pos_x p) (pos_y p)) in
              if f32_le dist max_range \<and> (case nearest of None \<Rightarrow> True | Some (_, d) \<Rightarrow> f32_less dist d)
              then Some (i, dist) else nearest)"

definition find_nearest_player ::
  "entity_order \<Rightarrow> ecs_world \<Rightarrow> position_component \<Rightarrow> f32 \<Rightarrow> (entity_id \<times> f32) option" where
  "find_nearest_player ord w p max_range = fold (nearer w p max_range) (player_entities ord w) None"

section \<open>The population is bounded\<close>

definition point_ok :: "spawn_point \<Rightarrow> bool" where
  "point_ok p \<longleftrightarrow> sp_current_count p \<le> sp_max_count p"

definition sm_ok :: "spawn_manager \<Rightarrow> bool" where
  "sm_ok m \<longleftrightarrow> list_all point_ok (sm_spawn_points m)"

definition point_pop :: "spawn_point \<Rightarrow> nat" where
  "point_pop p = unat (sp_current_count p)"

definition population :: "spawn_manager \<Rightarrow> nat" where
  "population m = (\<Sum>p\<leftarrow>sm_spawn_points m. point_pop p)"

definition capacity :: "spawn_manager \<Rightarrow> nat" where
  "capacity m = (\<Sum>p\<leftarrow>sm_spawn_points m. unat (sp_max_count p))"

lemma tick_spawn_point_ok:
  assumes "point_ok p"
  shows "point_ok (snd (tick_spawn_point p))"
    and "point_pop (snd (tick_spawn_point p)) = point_pop p + length (fst (tick_spawn_point p))"
    and "sp_max_count (snd (tick_spawn_point p)) = sp_max_count p"
  using assms unat_Suc_word[of "sp_current_count p" "sp_max_count p"]
  by (auto simp: tick_spawn_point_def point_ok_def point_pop_def inc_le)

lemma tick_spawns_ok:
  assumes "sm_ok m"
  shows "sm_ok (snd (tick_spawns m))"
    and "population (snd (tick_spawns m)) = population m + length (fst (tick_spawns m))"
    and "capacity (snd (tick_spawns m)) = capacity m"
proof -
  have "list_all point_ok ps \<Longrightarrow> list_all point_ok (map (snd \<circ> tick_spawn_point) ps)
      \<and> (\<Sum>p\<leftarrow>map (snd \<circ> tick_spawn_point) ps. point_pop p)
          = (\<Sum>p\<leftarrow>ps. point_pop p) + length (concat (map (fst \<circ> tick_spawn_point) ps))
      \<and> (\<Sum>p\<leftarrow>map (snd \<circ> tick_spawn_point) ps. unat (sp_max_count p)) = (\<Sum>p\<leftarrow>ps. unat (sp_max_count p))" for ps
    by (induction ps) (simp_all add: tick_spawn_point_ok)
  from this[of "sm_spawn_points m"] assms show "sm_ok (snd (tick_spawns m))"
    "population (snd (tick_spawns m)) = population m + length (fst (tick_spawns m))"
    "capacity (snd (tick_spawns m)) = capacity m"
    by (simp_all add: sm_ok_def tick_spawns_def Let_def population_def capacity_def)
qed

lemma sm_ok_population: "sm_ok m \<Longrightarrow> population m \<le> capacity m"
  unfolding population_def capacity_def sm_ok_def
  by (rule sum_list_mono) (auto simp: point_ok_def point_pop_def list_all_iff word_le_nat_alt)

lemma make_spawn_point_counts:
  "sp_current_count (make_spawn_point X E seed m i cfg) = 0"
  "sp_max_count (make_spawn_point X E seed m i cfg) = fst (snd (snd (snd cfg)))"
  by (cases cfg; simp add: make_spawn_point_def Let_def)+

lemma generate_ok: "sm_ok (generate_spawn_points X E seed sm_new)"
  by (auto simp: sm_ok_def generate_spawn_points_def sm_new_def make_spawn_point_counts point_ok_def
      list_all_iff)

lemma generate_capacity: "capacity (generate_spawn_points X E seed sm_new) = 23"
  by (simp add: capacity_def generate_spawn_points_def sm_new_def spawn_configs_def
      make_spawn_point_counts upt_rec)

fun spawn_run :: "nat \<Rightarrow> spawn_manager \<Rightarrow> spawn list \<times> spawn_manager" where
  "spawn_run 0 m = ([], m)"
| "spawn_run (Suc n) m = (let (s, m1) = tick_spawns m; (ss, m2) = spawn_run n m1 in (s @ ss, m2))"

lemma spawn_run_ok:
  "sm_ok m \<Longrightarrow> sm_ok (snd (spawn_run n m))
    \<and> population (snd (spawn_run n m)) = population m + length (fst (spawn_run n m))
    \<and> capacity (snd (spawn_run n m)) = capacity m"
proof (induction n arbitrary: m)
  case (Suc n)
  then show ?case
    using tick_spawns_ok[OF Suc.prems] Suc.IH[of "snd (tick_spawns m)"]
    by (simp add: Let_def case_prod_beta)
qed simp

end
