(* ===== verification/Events.thy ===== *)
theory Events
  imports Spawns
begin

text \<open>
  Periodic events, ground items and the event buffer,
  \<open>crates/game-engine/src/events.rs\<close>.
\<close>

section \<open>Data\<close>

datatype weather_type = WT_Clear | WT_Rain | WT_Storm | WT_Fog | WT_Snow

datatype world_event_type =
    WE_DayNightTransition bool
  | WE_WeatherChange weather_type
  | WE_EnemyWave u32
  | WE_ResourceRespawn
  | WE_WorldBoss

datatype game_event =
    GE_EntitySpawned entity_id string vec3
  | GE_EntityDied entity_id string "entity_id option" vec3
  | GE_EntityDespawned entity_id string
  | GE_PlayerJoined entity_id string
  | GE_PlayerLevelUp entity_id string u32
  | GE_ItemDropped vec3 u32 u32 u64
  | GE_ItemPickedUp entity_id u32 u32
  | GE_CombatHit entity_id entity_id f32 bool
  | GE_ChatMessage entity_id string string
  | GE_WorldEvent world_event_type u64

record ground_item =
  gi_drop_id :: u64
  gi_item_id :: u32
  gi_quantity :: u32
  gi_position :: vec3
  gi_dropped_at :: u64
  gi_despawn_ticks :: u32

record event_manager =
  em_current_events :: "game_event list"
  em_ground_items :: "ground_item list"
  em_next_drop_id :: u64
  em_is_day :: bool
  em_weather :: weather_type
  em_day_cycle_ticks :: u64
  em_weather_interval_ticks :: u64

section \<open>Operations\<close>

definition em_new :: event_manager where
  "em_new = \<lparr> em_current_events = [], em_ground_items = [], em_next_drop_id = 1, em_is_day = True,
     em_weather = WT_Clear, em_day_cycle_ticks = 6000, em_weather_interval_ticks = 3000 \<rparr>"

definition em_emit :: "game_event \<Rightarrow> event_manager \<Rightarrow> event_manager" where
  "em_emit e m = m\<lparr>em_current_events := em_current_events m @ [e]\<rparr>"

definition drain_events :: "event_manager \<Rightarrow> game_event list \<times> event_manager" where
  "drain_events m = (em_current_events m, m\<lparr>em_current_events := []\<rparr>)"

definition drop_item :: "u32 \<Rightarrow> u32 \<Rightarrow> vec3 \<Rightarrow> u64 \<Rightarrow> event_manager \<Rightarrow> u64 \<times> event_manager" where
  "drop_item item q pos tick m =
     (let i = em_next_drop_id m;
          m1 = m\<lparr>em_next_drop_id := i + 1,
                 em_ground_items := em_ground_items m @
                   [\<lparr> gi_drop_id = i, gi_item_id = item, gi_quantity = q, gi_position = pos,
                      gi_dropped_at = tick, gi_despawn_ticks = 600 \<rparr>]\<rparr>
      in (i, em_emit (GE_ItemDropped pos item q i) m1))"

definition in_pickup_range :: "vec3 \<Rightarrow> f32 \<Rightarrow> ground_item \<Rightarrow> bool" where
  "in_pickup_range pos rng g =
     f32_le (dist_sq (fst (gi_position g)) (fst (snd (gi_position g))) (fst pos) (fst (snd pos)))
       (f32_mul rng rng)"

definition try_pickup ::
  "entity_id \<Rightarrow> vec3 \<Rightarrow> f32 \<Rightarrow> event_manager \<Rightarrow> (u32 \<times> u32) option \<times> event_manager" where
  "try_pickup i pos rng m =
     (case List.extract (in_pickup_range pos rng) (em_ground_items m) of
        None \<Rightarrow> (None, m)
      | Some (before, g, after) \<Rightarrow>
          (Some (gi_item_id g, gi_quantity g),
           em_emit (GE_ItemPickedUp i (gi_item_id g) (gi_quantity g))
             (m\<lparr>em_ground_items := before @ after\<rparr>)))"

definition deterministic_weather :: "externs \<Rightarrow> u64 \<Rightarrow> u64 \<Rightarrow> weather_type" where
  "deterministic_weather X tick seed =
     (let h = x_keccak X (to_le_bytes 8 seed @ to_le_bytes 8 tick @ map (\<lambda>c. of_nat (of_char c)) ''weather'');
          r = unat (hd (to_be_bytes 32 h)) mod 5
      in if r = 0 then WT_Clear else if r = 1 then WT_Rain else if r = 2 then WT_Storm
         else if r = 3 then WT_Fog else WT_Snow)"

text \<open>\<open>is_multiple_of\<close>; the callers with a variable divisor test that it is not zero.\<close>

definition is_multiple_of :: "u64 \<Rightarrow> u64 \<Rightarrow> bool" where
  "is_multiple_of a b = (if b = 0 then a = 0 else a mod b = 0)"

definition day_night :: "u64 \<Rightarrow> event_manager \<Rightarrow> event_manager" where
  "day_night tick m =
     (if 0 < em_day_cycle_ticks m \<and> is_multiple_of tick (em_day_cycle_ticks m) then
        let m1 = m\<lparr>em_is_day := \<not> em_is_day m\<rparr> in
        em_emit (GE_WorldEvent (WE_DayNightTransition (em_is_day m1)) tick) m1
      else m)"

definition weather_change :: "externs \<Rightarrow> u64 \<Rightarrow> u64 \<Rightarrow> event_manager \<Rightarrow> event_manager" where
  "weather_change X tick seed m =
     (if 0 < em_weather_interval_ticks m \<and> is_multiple_of tick (em_weather_interval_ticks m) then
        let w = deterministic_weather X tick seed in
        if w \<noteq> em_weather m then em_emit (GE_WorldEvent (WE_WeatherChange w) tick) (m\<lparr>em_weather := w\<rparr>)
        else m
      else m)"

definition resource_respawn :: "u64 \<Rightarrow> event_manager \<Rightarrow> event_manager" where
  "resource_respawn tick m =
     (if is_multiple_of tick 1000 \<and> 0 < tick then em_emit (GE_WorldEvent WE_ResourceRespawn tick) m else m)"

definition enemy_wave :: "u64 \<Rightarrow> event_manager \<Rightarrow> event_manager" where
  "enemy_wave tick m =
     (if is_multiple_of tick 5000 \<and> 0 < tick
      then em_emit (GE_WorldEvent (WE_EnemyWave (min (ucast (tick div 5000)) 5)) tick) m else m)"

definition keeps_item :: "u64 \<Rightarrow> ground_item \<Rightarrow> bool" where
  "keeps_item tick g \<longleftrightarrow>
     gi_despawn_ticks g = 0 \<or> saturating_sub tick (gi_dropped_at g) < ucast (gi_despawn_ticks g)"

definition tick_periodic_events :: "externs \<Rightarrow> u64 \<Rightarrow> u64 \<Rightarrow> event_manager \<Rightarrow> event_manager" where
  "tick_periodic_events X tick seed m =
     (let m1 = enemy_wave tick (resource_respawn tick (weather_change X tick seed (day_night tick m)))
      in m1\<lparr>em_ground_items := filter (keeps_item tick) (em_ground_items m1)\<rparr>)"

section \<open>Drop identifiers and pick-ups\<close>

definition em_inv :: "event_manager \<Rightarrow> bool" where
  "em_inv m \<longleftrightarrow> distinct (map gi_drop_id (em_ground_items m)) \<and>
     (\<forall>g \<in> set (em_ground_items m). gi_drop_id g < em_next_drop_id m)"

lemma em_emit_simps [simp]:
  "em_ground_items (em_emit e m) = em_ground_items m" "em_next_drop_id (em_emit e m) = em_next_drop_id m"
  by (simp_all add: em_emit_def)

lemma tick_events_items:
  "em_ground_items (tick_periodic_events X tick seed m) = filter (keeps_item tick) (em_ground_items m)"
  "em_next_drop_id (tick_periodic_events X tick seed m) = em_next_drop_id m"
  by (simp_all add: tick_periodic_events_def Let_def enemy_wave_def resource_respawn_def
      weather_change_def day_night_def)

end
