(* ===== verification/Game_World.thy ===== *)
theory Game_World
  imports Events
begin

text \<open>
  The game world, \<open>crates/game-engine/src/world.rs\<close>: construction and restoration, the
  player actions, the tick, the queries. The terrain and the item registry are fields of the
  source that no operation below reads; they are left out. A tick returns its result and the
  world, since a failed action leaves what the actions before it did.
\<close>

section \<open>State\<close>

datatype game_engine_error =
    GEE_EntityNotFound u64
  | GEE_InvalidAction string
  | GEE_WorldNotInitialized
  | GEE_Physics string
  | GEE_Terrain string
  | GEE_Serialization string
  | GEE_DeterminismViolation string
  | GEE_State string

record game_world =
  gw_ecs :: ecs_world
  gw_current_tick :: u64
  gw_seed :: u64
  gw_spawn_manager :: spawn_manager
  gw_event_manager :: event_manager

section \<open>Construction (\<open>new\<close>, \<open>from_state\<close>)\<close>

definition npc_behavior_of :: "behavior_pattern \<Rightarrow> npc_behavior" where
  "npc_behavior_of b =
     (case b of
        BP_Passive \<Rightarrow> NB_Idle
      | BP_PatrolPassive \<Rightarrow> NB_Patrol
      | BP_PatrolAggressive \<Rightarrow> NB_Patrol
      | BP_Guardian \<Rightarrow> NB_Aggressive
      | BP_Timid \<Rightarrow> NB_Idle
      | BP_Predator \<Rightarrow> NB_Aggressive)"

definition vec_position :: "vec3 \<Rightarrow> position_component" where
  "vec_position v = \<lparr> pos_x = fst v, pos_y = fst (snd v), pos_z = snd (snd v) \<rparr>"

definition npc_components :: "npc_archetype \<Rightarrow> string \<Rightarrow> vec3 \<Rightarrow> vec3 list \<Rightarrow> component list" where
  "npc_components a t position waypoints =
     [CO_Position (vec_position position),
      CO_Health \<lparr> hc_current = na_max_health a, hc_maximum = na_max_health a, hc_is_dead = False \<rparr>,
      CO_Npc \<lparr> nc_npc_type = t, nc_behavior = npc_behavior_of (na_behavior_pattern a),
               nc_home_position = vec_position position \<rparr>,
      CO_Physics \<lparr> ph_velocity_x = 0, ph_velocity_y = 0, ph_velocity_z = 0,
                   ph_mass = f32_of_int 80, ph_is_grounded = True \<rparr>,
      CO_Combat \<lparr> cb_attack = na_attack_damage a, cb_defense = f32_mul (na_attack_damage a) (f32_lit 3 1),
                  cb_attack_range = na_attack_range a, cb_attack_cooldown = na_attack_cooldown a,
                  cb_cooldown_remaining = 0, cb_crit_chance = 0, cb_crit_multiplier = f32_lit 15 1 \<rparr>,
      CO_AiState \<lparr> as_state = NAS_Idle 10, as_waypoints = waypoints, as_leash_range = na_leash_range a,
                   as_aggro_range = na_aggro_range a, as_move_speed = na_move_speed a,
                   as_experience_reward = na_experience_reward a \<rparr>]"

definition is_combat :: "component \<Rightarrow> bool" where
  "is_combat c = (case c of CO_Combat _ \<Rightarrow> True | _ \<Rightarrow> False)"

text \<open>\<open>new\<close> drops the combat component of an archetype that does no damage.\<close>

definition initial_npc_components ::
  "npc_archetype \<Rightarrow> string \<Rightarrow> vec3 \<Rightarrow> vec3 list \<Rightarrow> component list" where
  "initial_npc_components a t position waypoints =
     (let cs = npc_components a t position waypoints in
      if f32_eq (na_attack_damage a) 0 then filter (\<lambda>c. \<not> is_combat c) cs else cs)"

definition spawn_npc ::
  "(npc_archetype \<Rightarrow> string \<Rightarrow> vec3 \<Rightarrow> vec3 list \<Rightarrow> component list) \<Rightarrow> spawn_manager \<Rightarrow> spawn \<Rightarrow> ecs_world \<Rightarrow> ecs_world" where
  "spawn_npc mk m s w =
     (case s of (t, position, waypoints) \<Rightarrow>
        (case get_archetype m t of
           None \<Rightarrow> w
         | Some a \<Rightarrow> snd (ecs_spawn (mk a t position waypoints) w)))"

definition gw_new :: "externs \<Rightarrow> ecs_ext \<Rightarrow> u64 \<Rightarrow> game_world" where
  "gw_new X E seed =
     (let m = generate_spawn_points X E seed sm_new; (spawns, m1) = tick_spawns m in
      \<lparr> gw_ecs = fold (spawn_npc initial_npc_components m1) spawns ecs_new, gw_current_tick = 0,
        gw_seed = seed, gw_spawn_manager = m1, gw_event_manager = em_new \<rparr>)"

definition gw_from_state :: "externs \<Rightarrow> ecs_ext \<Rightarrow> bytes \<Rightarrow> u64 \<Rightarrow> game_engine_error + game_world" where
  "gw_from_state X E data seed =
     (case ecs_deserialize E data of
        Inl e \<Rightarrow> Inl (GEE_Serialization e)
      | Inr ecs \<Rightarrow>
          Inr \<lparr> gw_ecs = ecs, gw_current_tick = 0, gw_seed = seed,
                gw_spawn_manager = generate_spawn_points X E seed sm_new, gw_event_manager = em_new \<rparr>)"

section \<open>Player actions\<close>

text \<open>The first entity, in iteration order, with a player component of that address.\<close>

definition find_player_entity :: "entity_order \<Rightarrow> ecs_world \<Rightarrow> string \<Rightarrow> entity_id option" where
  "find_player_entity ord w addr =
     find (\<lambda>i. case get_components w i of None \<Rightarrow> False | Some cs \<Rightarrow> has_address addr cs)
       (player_entities ord w)"

definition player_components :: "string \<Rightarrow> f32 \<Rightarrow> f32 \<Rightarrow> f32 \<Rightarrow> component list" where
  "player_components addr x y z =
     [CO_Position \<lparr> pos_x = x, pos_y = y, pos_z = z \<rparr>,
      CO_Health \<lparr> hc_current = f32_of_int 100, hc_maximum = f32_of_int 100, hc_is_dead = False \<rparr>,
      CO_Player \<lparr> pl_address = addr, pl_name = ''Player_'' @ take 8 addr, pl_level = 1, pl_experience = 0 \<rparr>,
      CO_Physics \<lparr> ph_velocity_x = 0, ph_velocity_y = 0, ph_velocity_z = 0,
                   ph_mass = f32_of_int 70, ph_is_grounded = True \<rparr>,
      CO_Inventory \<lparr> ic_items = [], ic_max_slots = 20 \<rparr>,
      CO_Combat combat_default,
      CO_Equipment \<lparr> eq_main_hand = None, eq_off_hand = None, eq_head = None, eq_chest = None,
                     eq_legs = None, eq_boots = None \<rparr>]"

definition spawn_player :: "string \<Rightarrow> f32 \<Rightarrow> f32 \<Rightarrow> f32 \<Rightarrow> ecs_world \<Rightarrow> entity_id \<times> ecs_world" where
  "spawn_player addr x y z w = ecs_spawn (player_components addr x y z) w"

definition from_milliunits :: "64 word \<Rightarrow> f32" where
  "from_milliunits v = f32_div (f32_of_int (sint v)) (f32_of_int 1000)"

definition hit :: "component \<Rightarrow> component" where
  "hit c =
     (case c of
        CO_Health h \<Rightarrow>
          let h1 = h\<lparr>hc_current := f32_sub (hc_current h) (f32_of_int 10)\<rparr> in
          CO_Health (if f32_le (hc_current h1) 0 then h1\<lparr>hc_current := 0, hc_is_dead := True\<rparr> else h1)
      | _ \<Rightarrow> c)"

definition process_action ::
  "entity_order \<Rightarrow> string \<Rightarrow> game_action \<Rightarrow> ecs_world \<Rightarrow> (game_engine_error + unit) \<times> ecs_world" where
  "process_action ord addr action w =
     (case action of
        GA_Move x y z \<Rightarrow>
          let fx = from_milliunits x; fy = from_milliunits y; fz = from_milliunits z in
          (case find_player_entity ord w addr of
             Some i \<Rightarrow>
               (Inr (), modify_components i (map (set_position \<lparr> pos_x = fx, pos_y = fy, pos_z = fz \<rparr>)) w)
           | None \<Rightarrow> (Inr (), snd (spawn_player addr fx fy fz w)))
      | GA_Respawn \<Rightarrow>
          (case find_player_entity ord w addr of
             Some i \<Rightarrow> (Inr (), modify_components i (map revive) w)
           | None \<Rightarrow> (Inr (), w))
      | GA_Attack target \<Rightarrow>
          (case get_components w target of
             Some _ \<Rightarrow> (Inr (), modify_components target (map hit) w)
           | None \<Rightarrow> (Inl (GEE_EntityNotFound target), w))
      | _ \<Rightarrow> (Inr (), w))"

fun process_actions ::
  "entity_order \<Rightarrow> (string \<times> game_action) list \<Rightarrow> ecs_world \<Rightarrow> (game_engine_error + unit) \<times> ecs_world" where
  "process_actions ord [] w = (Inr (), w)"
| "process_actions ord ((addr, action) # actions) w =
     (case process_action ord addr action w of
        (Inl e, w1) \<Rightarrow> (Inl e, w1)
      | (Inr _, w1) \<Rightarrow> process_actions ord actions w1)"

section \<open>The tick\<close>

definition gw_tick ::
  "externs \<Rightarrow> ecs_ext \<Rightarrow> entity_order \<Rightarrow> (string \<times> game_action) list \<Rightarrow> game_world
     \<Rightarrow> (game_engine_error + b256) \<times> game_world" where
  "gw_tick X E ord actions g =
     (let g1 = g\<lparr>gw_current_tick := gw_current_tick g + 1\<rparr>; now = gw_current_tick g1 in
      case process_actions ord actions (gw_ecs g1) of
        (Inl e, w) \<Rightarrow> (Inl e, g1\<lparr>gw_ecs := w\<rparr>)
      | (Inr _, w) \<Rightarrow>
          let w1 = run_tick E ord now w;
              ev = tick_periodic_events X now (gw_seed g1) (gw_event_manager g1);
              (spawns, m) = tick_spawns (gw_spawn_manager g1);
              w2 = fold (spawn_npc npc_components m) spawns w1
          in (Inr (state_hash X E ord w2),
              g1\<lparr>gw_ecs := w2, gw_spawn_manager := m, gw_event_manager := ev\<rparr>))"

definition gw_serialize_state :: "ecs_ext \<Rightarrow> entity_order \<Rightarrow> game_world \<Rightarrow> game_engine_error + bytes" where
  "gw_serialize_state E ord g =
     (case ecs_serialize E ord (gw_ecs g) of Inl e \<Rightarrow> Inl (GEE_Serialization e) | Inr bs \<Rightarrow> Inr bs)"

definition gw_state_root :: "externs \<Rightarrow> ecs_ext \<Rightarrow> entity_order \<Rightarrow> game_world \<Rightarrow> b256" where
  "gw_state_root X E ord g = state_hash X E ord (gw_ecs g)"

definition gw_player_count :: "entity_order \<Rightarrow> game_world \<Rightarrow> nat" where
  "gw_player_count ord g = length (player_entities ord (gw_ecs g))"

section \<open>Queries\<close>

record player_info =
  pin_entity_id :: u64
  pin_address :: string
  pin_position :: vec3
  pin_health :: f32
  pin_max_health :: f32
  pin_level :: u32
  pin_is_alive :: bool

definition info_new :: "entity_id \<Rightarrow> player_info" where
  "info_new i = \<lparr> pin_entity_id = i, pin_address = [], pin_position = (0, 0, 0), pin_health = 0,
     pin_max_health = 0, pin_level = 0, pin_is_alive = True \<rparr>"

definition info_add :: "component \<Rightarrow> player_info \<Rightarrow> player_info" where
  "info_add c info =
     (case c of
        CO_Player p \<Rightarrow> info\<lparr>pin_address := pl_address p, pin_level := pl_level p\<rparr>
      | CO_Position p \<Rightarrow> info\<lparr>pin_position := (pos_x p, pos_y p, pos_z p)\<rparr>
      | CO_Health h \<Rightarrow>
          info\<lparr>pin_health := hc_current h, pin_max_health := hc_maximum h, pin_is_alive := \<not> hc_is_dead h\<rparr>
      | _ \<Rightarrow> info)"

definition get_all_players :: "entity_order \<Rightarrow> game_world \<Rightarrow> player_info list" where
  "get_all_players ord g =
     concat (map (\<lambda>i. case get_components (gw_ecs g) i of
                        None \<Rightarrow> [] | Some cs \<Rightarrow> [fold info_add cs (info_new i)])
       (player_entities ord (gw_ecs g)))"

text \<open>\<open>get_player_info\<close> takes address and level from a matching player component only.\<close>

definition info_match :: "string \<Rightarrow> component \<Rightarrow> player_info \<Rightarrow> player_info" where
  "info_match addr c info =
     (case c of CO_Player p \<Rightarrow> if pl_address p = addr then info_add c info else info | _ \<Rightarrow> info_add c info)"

definition get_player_info :: "entity_order \<Rightarrow> game_world \<Rightarrow> string \<Rightarrow> player_info option" where
  "get_player_info ord g addr =
     (case find_player_entity ord (gw_ecs g) addr of
        None \<Rightarrow> None
      | Some i \<Rightarrow> map_option (\<lambda>cs. fold (info_match addr) cs (info_new i)) (get_components (gw_ecs g) i))"

record entity_snapshot =
  esn_entity_id :: u64
  esn_entity_type :: string
  esn_position :: vec3
  esn_health :: "vec3 option"

definition entity_type :: "component list \<Rightarrow> string" where
  "entity_type cs = fold (\<lambda>c t. case c of CO_Player p \<Rightarrow> ''player:'' @ pl_address p
     | CO_Npc n \<Rightarrow> ''npc:'' @ nc_npc_type n | _ \<Rightarrow> t) cs ''unknown''"

definition last_health :: "component list \<Rightarrow> health_component option" where
  "last_health cs = fold (\<lambda>c p. case c of CO_Health h \<Rightarrow> Some h | _ \<Rightarrow> p) cs None"

definition get_entities_in_area ::
  "entity_order \<Rightarrow> game_world \<Rightarrow> f32 \<Rightarrow> f32 \<Rightarrow> f32 \<Rightarrow> f32 \<Rightarrow> entity_snapshot list" where
  "get_entities_in_area ord g min_x min_y max_x max_y =
     concat (map (\<lambda>(i, cs).
       case last_position cs of
         None \<Rightarrow> []
       | Some p \<Rightarrow>
           if f32_le min_x (pos_x p) \<and> f32_le (pos_x p) max_x \<and> f32_le min_y (pos_y p) \<and> f32_le (pos_y p) max_y
           then [\<lparr> esn_entity_id = i, esn_entity_type = entity_type cs,
                   esn_position = (pos_x p, pos_y p, pos_z p),
                   esn_health = map_option (\<lambda>h. (hc_current h, hc_maximum h,
                     if hc_is_dead h then f32_of_int 1 else 0)) (last_health cs) \<rparr>]
           else [])
       (ord (ew_entities (gw_ecs g))))"

section \<open>One player entity per address\<close>

definition addr_unique :: "ecs_world \<Rightarrow> bool" where
  "addr_unique w \<longleftrightarrow> (\<forall>i j cs ds a. map_of (ew_entities w) i = Some cs \<longrightarrow> map_of (ew_entities w) j = Some ds
     \<longrightarrow> has_address a cs \<longrightarrow> has_address a ds \<longrightarrow> i = j)"

definition ecs_inv :: "ecs_world \<Rightarrow> bool" where
  "ecs_inv w \<longleftrightarrow> entities_wf w \<and> addr_unique w"

lemma ecs_invD: "ecs_inv w \<Longrightarrow> entities_wf w" "ecs_inv w \<Longrightarrow> addr_unique w"
  by (simp_all add: ecs_inv_def)

lemma addr_uniqueD:
  "addr_unique w \<Longrightarrow> map_of (ew_entities w) i = Some cs \<Longrightarrow> map_of (ew_entities w) j = Some ds \<Longrightarrow>
   has_address a cs \<Longrightarrow> has_address a ds \<Longrightarrow> i = j"
  unfolding addr_unique_def by blast

lemma has_address_player: "has_address a cs \<Longrightarrow> list_ex is_player cs"
  unfolding has_address_def list_ex_iff is_player_def by (force split: component.splits)

lemma player_entities_mem:
  assumes "iter_order ord" and "entities_wf w"
  shows "i \<in> set (player_entities ord w) \<longleftrightarrow>
    (\<exists>cs. map_of (ew_entities w) i = Some cs \<and> list_ex is_player cs)"
proof
  assume "i \<in> set (player_entities ord w)"
  then obtain cs where "(i, cs) \<in> set (ew_entities w)" "list_ex is_player cs"
    using assms(1) by (auto simp: player_entities_def entities_with_def)
  then show "\<exists>cs. map_of (ew_entities w) i = Some cs \<and> list_ex is_player cs"
    using assms(2) by (auto simp: entities_wf_def)
next
  assume "\<exists>cs. map_of (ew_entities w) i = Some cs \<and> list_ex is_player cs"
  then obtain cs where "(i, cs) \<in> set (ew_entities w)" "list_ex is_player cs"
    by (auto dest: map_of_SomeD)
  then show "i \<in> set (player_entities ord w)"
    unfolding player_entities_def using entities_with_set(2)[OF assms] by blast
qed

lemma find_player_Some:
  assumes "iter_order ord" and "entities_wf w" and "find_player_entity ord w a = Some i"
  shows "\<exists>cs. map_of (ew_entities w) i = Some cs \<and> has_address a cs"
  using assms(3) by (auto simp: find_player_entity_def find_Some_iff get_components_def split: option.splits)

lemma find_player_None:
  assumes "iter_order ord" and "entities_wf w" and "find_player_entity ord w a = None"
    and "map_of (ew_entities w) i = Some cs"
  shows "\<not> has_address a cs"
proof
  assume "has_address a cs"
  then have "i \<in> set (player_entities ord w)"
    using player_entities_mem[OF assms(1,2)] assms(4) has_address_player by blast
  then show False
    using assms(3,4) \<open>has_address a cs\<close> by (auto simp: find_player_entity_def find_None_iff get_components_def)
qed

lemma find_player_iff:
  assumes o: "iter_order ord" and w: "ecs_inv w"
  shows "find_player_entity ord w a = Some i \<longleftrightarrow>
    (\<exists>cs. map_of (ew_entities w) i = Some cs \<and> has_address a cs)"
proof
  show "find_player_entity ord w a = Some i \<Longrightarrow> \<exists>cs. map_of (ew_entities w) i = Some cs \<and> has_address a cs"
    by (rule find_player_Some[OF o ecs_invD(1)[OF w]])
next
  assume "\<exists>cs. map_of (ew_entities w) i = Some cs \<and> has_address a cs"
  then obtain cs where i: "map_of (ew_entities w) i = Some cs" "has_address a cs" by blast
  then obtain j where j: "find_player_entity ord w a = Some j"
    using find_player_None[OF o ecs_invD(1)[OF w], of a i cs]
    by (cases "find_player_entity ord w a") simp_all
  obtain ds where "map_of (ew_entities w) j = Some ds" "has_address a ds"
    using find_player_Some[OF o ecs_invD(1)[OF w] j] by blast
  then show "find_player_entity ord w a = Some i"
    using addr_uniqueD[OF ecs_invD(2)[OF w] i(1) _ i(2), of j ds] j by simp
qed

lemma find_player_order:
  assumes "iter_order ord" and "iter_order ord'" and "ecs_inv w"
  shows "find_player_entity ord w a = find_player_entity ord' w a"
proof -
  have "find_player_entity ord w a = Some i \<longleftrightarrow> find_player_entity ord' w a = Some i" for i
    by (simp only: find_player_iff[OF assms(1,3)] find_player_iff[OF assms(2,3)])
  then show ?thesis by (metis option.exhaust)
qed

section \<open>Every operation keeps the invariant\<close>

lemma same_kinds_inv:
  assumes w: "ecs_inv w" and keys: "hm_keys (ew_entities v) = hm_keys (ew_entities w)"
    and kinds: "\<And>k ds. map_of (ew_entities v) k = Some ds \<Longrightarrow>
      \<exists>cs. map_of (ew_entities w) k = Some cs \<and> same_kinds cs ds"
  shows "ecs_inv v"
proof -
  have "addr_unique v"
    unfolding addr_unique_def
  proof (intro allI impI)
    fix i j cs ds a
    assume i: "map_of (ew_entities v) i = Some cs" "has_address a cs"
      and j: "map_of (ew_entities v) j = Some ds" "has_address a ds"
    obtain cs' where cs': "map_of (ew_entities w) i = Some cs'" "same_kinds cs' cs" using kinds[OF i(1)] by blast
    obtain ds' where ds': "map_of (ew_entities w) j = Some ds'" "same_kinds ds' ds" using kinds[OF j(1)] by blast
    show "i = j"
      by (rule addr_uniqueD[OF ecs_invD(2)[OF w] cs'(1) ds'(1), of a])
        (simp_all add: same_kinds_address[OF cs'(2)] same_kinds_address[OF ds'(2)] i j)
  qed
  then show ?thesis using ecs_invD(1)[OF w] keys by (simp add: ecs_inv_def entities_wf_def)
qed

lemma modify_inv:
  assumes w: "ecs_inv w" and f: "\<And>cs. same_kinds cs (f cs)"
  shows "ecs_inv (modify_components i f w)"
  by (rule same_kinds_inv[OF w])
    (use f in \<open>auto simp: modify_components_def hm_modify_get split: if_splits\<close>)

lemma spawn_inv:
  assumes w: "ecs_inv w"
    and fresh: "\<And>a i ds. has_address a cs \<Longrightarrow> map_of (ew_entities w) i = Some ds \<Longrightarrow> \<not> has_address a ds"
  shows "ecs_inv (snd (ecs_spawn cs w))"
proof -
  have "addr_unique (snd (ecs_spawn cs w))"
    unfolding addr_unique_def
  proof (intro allI impI)
    fix i j xs ys a
    assume "map_of (ew_entities (snd (ecs_spawn cs w))) i = Some xs"
      and "map_of (ew_entities (snd (ecs_spawn cs w))) j = Some ys"
      and "has_address a xs" and "has_address a ys"
    then show "i = j"
      using fresh[of a i xs] fresh[of a j ys] addr_uniqueD[OF ecs_invD(2)[OF w], of i xs j ys a]
      by (simp add: ecs_spawn_def Let_def hm_update_get split: if_splits)
  qed
  then show ?thesis
    using ecs_invD(1)[OF w] by (simp add: ecs_inv_def entities_wf_def ecs_spawn_def Let_def hm_update_wf)
qed

lemma kind_maps:
  "same_kinds cs (map (set_position p) cs)" "same_kinds cs (map revive cs)" "same_kinds cs (map hit cs)"
  by (rule same_kinds_map;
      simp add: set_position_def revive_def hit_def same_kind_def Let_def split: component.split)+

lemma npc_no_address: "\<not> has_address a (npc_components b t p wps)"
  "\<not> has_address a (initial_npc_components b t p wps)"
  by (simp_all add: has_address_def npc_components_def initial_npc_components_def Let_def is_combat_def)

lemma player_has_address: "has_address b (player_components a x y z) \<longleftrightarrow> b = a"
  by (auto simp: has_address_def player_components_def)

lemma spawn_npc_inv:
  assumes "ecs_inv w" and "\<And>b t p wps a. \<not> has_address a (mk b t p wps)"
  shows "ecs_inv (spawn_npc mk m s w)"
  using assms by (auto simp: spawn_npc_def split: prod.splits option.splits intro!: spawn_inv)

lemma spawn_npcs_inv:
  assumes "\<And>b t p wps a. \<not> has_address a (mk b t p wps)"
  shows "ecs_inv w \<Longrightarrow> ecs_inv (fold (spawn_npc mk m) ss w)"
  by (induction ss arbitrary: w) (simp_all add: spawn_npc_inv assms)

lemma process_action_inv:
  assumes o: "iter_order ord" and w: "ecs_inv w"
  shows "ecs_inv (snd (process_action ord addr action w))"
proof (cases action)
  case (GA_Move x y z)
  show ?thesis
  proof (cases "find_player_entity ord w addr")
    case None
    then show ?thesis
      using GA_Move find_player_None[OF o ecs_invD(1)[OF w] None] w
      by (auto simp: process_action_def Let_def spawn_player_def player_has_address intro!: spawn_inv)
  qed (use GA_Move w in \<open>simp add: process_action_def Let_def modify_inv kind_maps\<close>)
qed (use w in \<open>simp_all add: process_action_def modify_inv kind_maps split: option.split\<close>)

lemma process_actions_inv:
  assumes o: "iter_order ord"
  shows "ecs_inv w \<Longrightarrow> ecs_inv (snd (process_actions ord actions w))"
proof (induction actions arbitrary: w)
  case (Cons pa actions)
  obtain p a where pa: "pa = (p, a)" by (cases pa)
  obtain r w1 where r: "process_action ord p a w = (r, w1)" by (cases "process_action ord p a w")
  have "ecs_inv w1" using process_action_inv[OF o Cons.prems, of p a] r by simp
  then show ?case using Cons.IH pa r by (cases r) simp_all
qed simp

lemma run_tick_inv:
  assumes o: "iter_order ord" and w: "ecs_inv w"
  shows "ecs_inv (run_tick E ord tick w)"
proof -
  have "ecs_inv (w\<lparr>ew_entities := tick_entities E tick (ew_entities w)\<rparr>)"
    by (rule same_kinds_inv[OF w]) (auto simp: tick_entities_get tick_entity_same_kinds)
  then show ?thesis using run_tick_eq[OF o ecs_invD(1)[OF w]] by simp
qed

lemma gw_tick_inv:
  assumes o: "iter_order ord" and g: "ecs_inv (gw_ecs g)"
  shows "ecs_inv (gw_ecs (snd (gw_tick X E ord actions g)))"
proof -
  obtain r w where p: "process_actions ord actions (gw_ecs g) = (r, w)"
    by (cases "process_actions ord actions (gw_ecs g)")
  have "ecs_inv w" using process_actions_inv[OF o g, of actions] p by simp
  then show ?thesis
    using p by (cases r)
      (simp_all add: gw_tick_def Let_def case_prod_beta run_tick_inv[OF o] spawn_npcs_inv npc_no_address)
qed

lemma gw_new_inv: "ecs_inv (gw_ecs (gw_new X E seed))"
proof -
  have "ecs_inv ecs_new" by (simp add: ecs_inv_def entities_wf_def addr_unique_def ecs_new_def)
  then show ?thesis
    by (simp add: gw_new_def Let_def case_prod_beta spawn_npcs_inv npc_no_address)
qed

section \<open>Two nodes that iterate in different orders agree\<close>

lemma process_action_order:
  assumes "iter_order ord" and "iter_order ord'" and "ecs_inv w"
  shows "process_action ord p a w = process_action ord' p a w"
  by (cases a) (simp_all add: process_action_def find_player_order[OF assms])

lemma process_actions_order:
  assumes o: "iter_order ord" "iter_order ord'"
  shows "ecs_inv w \<Longrightarrow> process_actions ord actions w = process_actions ord' actions w"
proof (induction actions arbitrary: w)
  case (Cons pa actions)
  obtain p a where pa: "pa = (p, a)" by (cases pa)
  obtain r w1 where r: "process_action ord p a w = (r, w1)" by (cases "process_action ord p a w")
  have "ecs_inv w1" using process_action_inv[OF o(1) Cons.prems, of p a] r by simp
  with Cons.IH[of w1] show ?case
    using r process_action_order[OF o Cons.prems, of p a] pa by (cases r) simp_all
qed simp

lemma gw_tick_order:
  assumes o: "iter_order ord" "iter_order ord'" and g: "ecs_inv (gw_ecs g)"
  shows "snd (gw_tick X E ord actions g) = snd (gw_tick X E ord' actions g)"
    and "isl (fst (gw_tick X E ord actions g)) = isl (fst (gw_tick X E ord' actions g))"
proof -
  obtain r w where p: "process_actions ord actions (gw_ecs g) = (r, w)"
    by (cases "process_actions ord actions (gw_ecs g)")
  have w: "ecs_inv w" using process_actions_inv[OF o(1) g, of actions] p by simp
  have p': "process_actions ord' actions (gw_ecs g) = (r, w)"
    using process_actions_order[OF o g, of actions] p by simp
  have "run_tick E ord t w = run_tick E ord' t w" for t
    by (simp add: run_tick_eq[OF _ ecs_invD(1)[OF w]] o)
  then show "snd (gw_tick X E ord actions g) = snd (gw_tick X E ord' actions g)"
    "isl (fst (gw_tick X E ord actions g)) = isl (fst (gw_tick X E ord' actions g))"
    using p p' by (cases r; simp add: gw_tick_def Let_def case_prod_beta)+
qed

definition gw_step ::
  "externs \<Rightarrow> ecs_ext \<Rightarrow> entity_order \<times> (string \<times> game_action) list \<Rightarrow> game_world \<Rightarrow> game_world" where
  "gw_step X E oa g = snd (gw_tick X E (fst oa) (snd oa) g)"

definition gw_step_inv :: "game_world \<Rightarrow> bool" where
  "gw_step_inv g \<longleftrightarrow> ecs_inv (gw_ecs g)"

interpretation gw_machine: op_machine
  "\<lambda>oa g. if iter_order (fst oa) then gw_step X E oa g else g" gw_step_inv for X E
  by unfold_locales (simp add: gw_step_def gw_step_inv_def gw_tick_inv)

lemma gw_runs_agree:
  "gw_step_inv g \<Longrightarrow> list_all (iter_order \<circ> fst) xs \<Longrightarrow> list_all (iter_order \<circ> fst) ys \<Longrightarrow>
   map snd xs = map snd ys \<Longrightarrow> fold (gw_step X E) xs g = fold (gw_step X E) ys g"
proof (induction xs arbitrary: ys g)
  case (Cons x xs)
  obtain y ys' where ys: "ys = y # ys'" using Cons.prems(4) by (cases ys) simp_all
  have xy: "gw_step X E x g = gw_step X E y g"
    using Cons.prems ys gw_tick_order(1)[of "fst x" "fst y" g X E] by (simp add: gw_step_def gw_step_inv_def)
  have "gw_step_inv (gw_step X E x g)"
    using Cons.prems(1,2) by (simp add: gw_step_def gw_step_inv_def gw_tick_inv)
  with Cons.IH[of _ ys'] Cons.prems ys xy show ?case by simp
qed simp

text \<open>C3. Determinism of the game: two nodes that start from the same seed and apply the same
  actions tick after tick have the same world, entity by entity, whatever the iteration orders
  of their hash maps.\<close>

theorem gw_nodes_agree:
  assumes "list_all (iter_order \<circ> fst) xs" and "list_all (iter_order \<circ> fst) ys" and "map snd xs = map snd ys"
  shows "fold (gw_step X E) xs (gw_new X E seed) = fold (gw_step X E) ys (gw_new X E seed)"
  by (rule gw_runs_agree[OF _ assms]) (simp add: gw_step_inv_def gw_new_inv)

text \<open>The hash of the state is not deterministic: it is taken of the entities in iteration
  order, and a serialiser that keeps the entries it is given in order writes different bytes for
  the same world in two orders, as soon as the world has two entities.\<close>

theorem state_hash_input_depends_on_order:
  assumes "\<forall>n m m' bs. ee_serialize E n m = Inr bs \<longrightarrow> ee_serialize E n m' = Inr bs \<longrightarrow> m = m'"
    and "ecs_inv w" and "2 \<le> entity_count w" and "ecs_serialize E (\<lambda>m. m) w = Inr bs"
  shows "iter_order (\<lambda>m. m) \<and> iter_order rev \<and> ecs_serialize E rev w \<noteq> Inr bs"
proof -
  let ?m = "ew_entities w"
  have "?m \<noteq> rev ?m"
  proof
    assume eq: "?m = rev ?m"
    have len: "0 < length ?m" "0 \<noteq> length ?m - 1" using assms(3) unfolding entity_count_def by linarith+
    have "?m ! 0 = ?m ! (length ?m - 1)"
      using arg_cong[OF eq, of "\<lambda>m. m ! 0"] len by (simp add: rev_nth)
    then have "hm_keys ?m ! 0 = hm_keys ?m ! (length ?m - 1)" using len by simp
    then show False
      using ecs_invD(1)[OF assms(2)] len by (simp add: entities_wf_def nth_eq_iff_index_eq del: nth_map)
  qed
  then show ?thesis using assms(1,4) unfolding ecs_serialize_def by (metis iter_order_id iter_order_rev)
qed

section \<open>Nobody is dead between ticks\<close>

definition players_alive :: "ecs_world \<Rightarrow> bool" where
  "players_alive w \<longleftrightarrow> (\<forall>i cs. map_of (ew_entities w) i = Some cs \<longrightarrow> list_ex is_player cs \<longrightarrow> list_all alive cs)"

lemma run_tick_players_alive:
  assumes "iter_order ord" and "ecs_inv w"
  shows "players_alive (run_tick E ord tick w)"
  unfolding players_alive_def run_tick_eq[OF assms(1) ecs_invD(1)[OF assms(2)]]
  using same_kinds_is_player[OF tick_entity_same_kinds[of _ E tick]] tick_entity_alive
  by (auto simp: tick_entities_get)

lemma spawn_npcs_players_alive:
  "players_alive w \<Longrightarrow> players_alive (fold (spawn_npc npc_components m) ss w)"
proof (induction ss arbitrary: w)
  case (Cons s ss)
  have "\<not> list_ex is_player (npc_components a t p wps)" for a t p wps
    by (simp add: npc_components_def is_player_def)
  then have "players_alive (spawn_npc npc_components m s w)"
    using Cons.prems
    by (auto simp: players_alive_def spawn_npc_def ecs_spawn_def Let_def hm_update_get
        split: prod.splits option.splits)
  with Cons.IH show ?case by simp
qed simp

lemma info_alive: "list_all alive cs \<Longrightarrow> pin_is_alive info \<Longrightarrow> pin_is_alive (fold info_add cs info)"
  by (induction cs arbitrary: info) (auto simp: info_add_def alive_def split: component.splits)

lemma gw_reachable_inv:
  assumes "list_all (iter_order \<circ> fst) xs"
  shows "ecs_inv (gw_ecs (fold (gw_step X E) xs (gw_new X E seed)))"
proof -
  have "fold (gw_step X E) xs g = fold (\<lambda>oa g. if iter_order (fst oa) then gw_step X E oa g else g) xs g" for g
    using assms by (induction xs arbitrary: g) simp_all
  then show ?thesis
    using gw_machine.run_inv[of "gw_new X E seed" X E xs] by (simp add: gw_step_inv_def gw_new_inv)
qed

text \<open>C23. After a tick that succeeds every player is alive, whatever attacks it processed: the
  respawn system revives the dead within the same tick, so the state between blocks never
  shows a dead player.\<close>

theorem gw_players_alive:
  assumes "list_all (iter_order \<circ> fst) xs" and "iter_order ord" and "iter_order ord'"
    and "gw_tick X E ord actions (fold (gw_step X E) xs (gw_new X E seed)) = (Inr root, g)"
    and "info \<in> set (get_all_players ord' g)"
  shows "pin_is_alive info"
proof -
  let ?g = "fold (gw_step X E) xs (gw_new X E seed)"
  obtain w where p: "process_actions ord actions (gw_ecs ?g) = (Inr (), w)"
    using assms(4) by (auto simp: gw_tick_def Let_def split: prod.splits sum.splits)
  have w: "ecs_inv w"
    using process_actions_inv[OF assms(2) gw_reachable_inv[OF assms(1), where X = X and E = E and seed = seed],
        where actions = actions] p by simp
  have "gw_ecs g = fold (spawn_npc npc_components (snd (tick_spawns (gw_spawn_manager ?g))))
      (fst (tick_spawns (gw_spawn_manager ?g))) (run_tick E ord (gw_current_tick ?g + 1) w)"
    using assms(4) p by (auto simp: gw_tick_def Let_def case_prod_beta)
  then have "players_alive (gw_ecs g)"
    by (simp add: spawn_npcs_players_alive run_tick_players_alive[OF assms(2) w])
  moreover have "ecs_inv (gw_ecs g)"
    using gw_tick_inv[OF assms(2) gw_reachable_inv[OF assms(1), where X = X and E = E and seed = seed],
        where X = X and E = E and actions = actions] assms(4) by simp
  ultimately show ?thesis
    using assms(5) player_entities_mem[OF assms(3) ecs_invD(1)] info_alive
    by (auto simp: get_all_players_def get_components_def players_alive_def info_new_def)
qed

section \<open>Restoring loses the spawn manager\<close>

lemma archetype_cooldowns:
  "list_all (\<lambda>(t, _). \<exists>a. get_archetype sm_new t = Some a \<and> 0 < na_respawn_ticks a) spawn_configs"
  by (simp add: spawn_configs_def get_archetype_def sm_new_def default_archetypes_def)

lemma fresh_spawn_point:
  assumes "cfg \<in> set spawn_configs"
  shows "0 < sp_max_count (make_spawn_point X E seed sm_new i cfg)"
    and "0 < sp_respawn_cooldown (make_spawn_point X E seed sm_new i cfg)"
    and "sp_cooldown_remaining (make_spawn_point X E seed sm_new i cfg) = 0"
proof -
  obtain t x y n r where c: "cfg = (t, x, y, n, r)" by (cases cfg)
  have "0 < n" using assms unfolding c by (auto simp: spawn_configs_def)
  moreover obtain a where "get_archetype sm_new t = Some a" "0 < na_respawn_ticks a"
    using archetype_cooldowns assms unfolding c by (auto simp: list_all_iff)
  ultimately show "0 < sp_max_count (make_spawn_point X E seed sm_new i cfg)"
    "0 < sp_respawn_cooldown (make_spawn_point X E seed sm_new i cfg)"
    "sp_cooldown_remaining (make_spawn_point X E seed sm_new i cfg) = 0"
    by (simp_all add: c make_spawn_point_def Let_def)
qed

lemma fresh_tick:
  assumes "p \<in> set (sm_spawn_points (generate_spawn_points X E seed sm_new))"
  shows "length (fst (tick_spawn_point p)) = 1" and "fst (tick_spawn_point (snd (tick_spawn_point p))) = []"
proof -
  obtain i cfg where "p = make_spawn_point X E seed sm_new i cfg" "cfg \<in> set spawn_configs"
    using assms by (auto simp: generate_spawn_points_def dest: set_zip_rightD) (simp add: sm_new_def)
  then show "length (fst (tick_spawn_point p)) = 1" "fst (tick_spawn_point (snd (tick_spawn_point p))) = []"
    using fresh_spawn_point[of cfg X E seed i] make_spawn_point_counts[of X E seed sm_new i cfg]
    by (simp_all add: tick_spawn_point_def)
qed

text \<open>A restart does not restore the world that was saved: the spawn manager starts empty
  and the tick counter at zero, so the next tick of the restored world spawns an NPC at each of
  the ten spawn points, where the next tick of the world that kept running spawns none.\<close>

theorem gw_restart_respawns:
  assumes "gw_from_state X E data seed = Inr g"
  shows "length (fst (tick_spawns (gw_spawn_manager g))) = 10
    \<and> fst (tick_spawns (gw_spawn_manager (gw_new X E seed))) = [] \<and> gw_current_tick g = 0"
proof -
  let ?m = "generate_spawn_points X E seed sm_new"
  have g: "gw_spawn_manager g = ?m" "gw_current_tick g = 0"
    using assms by (auto simp: gw_from_state_def split: sum.splits)
  have "length (concat (map (fst \<circ> tick_spawn_point) ps)) = length ps"
    if "\<forall>p \<in> set ps. length (fst (tick_spawn_point p)) = 1" for ps
    using that by (induction ps) simp_all
  then have "length (fst (tick_spawns ?m)) = length (sm_spawn_points ?m)"
    using fresh_tick(1) by (simp add: tick_spawns_def Let_def)
  moreover have "length (sm_spawn_points ?m) = 10"
    by (simp add: generate_spawn_points_def sm_new_def spawn_configs_def)
  moreover have "gw_spawn_manager (gw_new X E seed) = snd (tick_spawns ?m)"
    by (simp add: gw_new_def Let_def case_prod_beta)
  moreover have "fst (tick_spawns (snd (tick_spawns ?m))) = []"
    using fresh_tick(2) by (simp add: tick_spawns_def Let_def)
  ultimately show ?thesis using g by simp
qed

section \<open>Concrete instances\<close>

definition demo_entities :: entity_map where
  "demo_entities = [(1, []), (2, [])]"

definition demo_ext :: ecs_ext where
  "demo_ext = \<lparr>
     ee_serialize = (\<lambda>n m. if m = demo_entities then Inr [1] else if m = rev demo_entities then Inr [2]
       else Inl ''unsupported''),
     ee_deserialize = (\<lambda>bs. Inr \<lparr> ew_next_entity_id = 3,
       ew_entities = if bs = [1] then demo_entities else rev demo_entities \<rparr>),
     ee_cos = (\<lambda>_. 0), ee_sin = (\<lambda>_. 0) \<rparr>"

theorem gw_nodes_agree_witness:
  "fold (gw_step demo_externs demo_ext) [(rev, [(''0xab'', GA_Move 1 2 3)]), (rev, [])]
     (gw_new demo_externs demo_ext 42)
   = fold (gw_step demo_externs demo_ext) [(\<lambda>m. m, [(''0xab'', GA_Move 1 2 3)]), (rev, [])]
       (gw_new demo_externs demo_ext 42)"
  by (rule gw_nodes_agree) simp_all

lemma demo_ext_injective:
  "ee_serialize demo_ext n m = Inr bs \<Longrightarrow> ee_serialize demo_ext n m' = Inr bs \<Longrightarrow> m = m'"
  by (auto simp: demo_ext_def split: if_splits)

abbreviation demo_world :: ecs_world where
  "demo_world \<equiv> \<lparr> ew_next_entity_id = 3, ew_entities = demo_entities \<rparr>"

lemma demo_world_inv: "ecs_inv demo_world" "entity_count demo_world = 2"
  by (simp_all add: ecs_inv_def entities_wf_def addr_unique_def demo_entities_def has_address_def entity_count_def)

theorem state_hash_input_depends_on_order_witness:
  "ecs_serialize demo_ext rev demo_world \<noteq> Inr [1]"
proof -
  have "ecs_serialize demo_ext (\<lambda>m. m) demo_world = Inr [1]"
    by (simp add: ecs_serialize_def demo_ext_def)
  from state_hash_input_depends_on_order[OF _ demo_world_inv(1) _ this] show ?thesis
    using demo_ext_injective demo_world_inv(2) by simp
qed

theorem gw_players_alive_witness:
  "list_all pin_is_alive (get_all_players rev (snd (gw_tick demo_externs demo_ext rev
     [(''0xab'', GA_Move 1 2 3), (''0xcd'', GA_Chat ''hi'')] (gw_new demo_externs demo_ext 42))))"
proof -
  let ?t = "gw_tick demo_externs demo_ext rev [(''0xab'', GA_Move 1 2 3), (''0xcd'', GA_Chat ''hi'')]
    (gw_new demo_externs demo_ext 42)"
  have "\<not> isl (fst ?t)"
    by (simp add: gw_tick_def Let_def process_action_def case_prod_beta split: option.split)
  then obtain root g where t: "?t = (Inr root, g)"
    by (metis prod.collapse sum.collapse(2))
  then have "gw_tick demo_externs demo_ext rev [(''0xab'', GA_Move 1 2 3), (''0xcd'', GA_Chat ''hi'')]
      (fold (gw_step demo_externs demo_ext) [] (gw_new demo_externs demo_ext 42)) = (Inr root, g)" by simp
  note alive = gw_players_alive[OF _ iter_order_rev iter_order_rev this]
  have "pin_is_alive info" if "info \<in> set (get_all_players rev g)" for info
    by (rule alive[OF _ that]) simp
  then show ?thesis unfolding t by (simp add: list_all_iff)
qed

theorem gw_restart_respawns_witness:
  "\<exists>g. gw_from_state demo_externs demo_ext [1] 42 = Inr g \<and> length (fst (tick_spawns (gw_spawn_manager g))) = 10"
proof -
  obtain g where g: "gw_from_state demo_externs demo_ext [1] 42 = Inr g"
    by (simp add: gw_from_state_def ecs_deserialize_def demo_ext_def)
  from gw_restart_respawns[OF this] g show ?thesis by blast
qed

end
