(* ===== verification/Storage.thy ===== *)
theory Storage
  imports Primitives
begin

text \<open>
  The database, \<open>crates/storage/src/db.rs\<close>, \<open>batch.rs\<close>, \<open>tables.rs\<close>. RocksDB and
  \<open>bincode\<close> are third-party: the record \<open>rocks\<close> holds their operations, on a database
  of any type, and \<open>rocks_ok\<close> and \<open>bincode_ok\<close> state their documentation. A write
  returns its result and the database, because a failed operation may have written a part.
\<close>

section \<open>Third-party operations\<close>

datatype batch_op = BO_Put string bytes bytes | BO_Delete string bytes

record 'db rocks =
  rk_has_cf :: "'db \<Rightarrow> string \<Rightarrow> bool"
  rk_get :: "'db \<Rightarrow> string \<Rightarrow> bytes \<Rightarrow> string + bytes option"
  rk_put :: "'db \<Rightarrow> string \<Rightarrow> bytes \<Rightarrow> bytes \<Rightarrow> string + 'db"
  rk_delete :: "'db \<Rightarrow> string \<Rightarrow> bytes \<Rightarrow> string + 'db"
  rk_write :: "'db \<Rightarrow> batch_op list \<Rightarrow> string + 'db"
  rk_ser_header :: "block_header \<Rightarrow> string + bytes"
  rk_de_header :: "bytes \<Rightarrow> string + block_header"
  rk_ser_body :: "signed_transaction list \<Rightarrow> string + bytes"
  rk_de_body :: "bytes \<Rightarrow> string + signed_transaction list"
  rk_ser_tx_index :: "b256 \<Rightarrow> u32 \<Rightarrow> string + bytes"

type_synonym contents = "string \<Rightarrow> bytes \<Rightarrow> string + bytes option"

fun batch_step :: "batch_op \<Rightarrow> contents \<Rightarrow> contents" where
  "batch_step (BO_Put c j v) g = (\<lambda>cf k. if cf = c \<and> k = j then Inr (Some v) else g cf k)"
| "batch_step (BO_Delete c j) g = (\<lambda>cf k. if cf = c \<and> k = j then Inr None else g cf k)"

definition batch_get :: "batch_op list \<Rightarrow> contents \<Rightarrow> contents" where
  "batch_get ops g = fold batch_step ops g"

lemma batch_get_simps [simp]:
  "batch_get [] g = g"
  "batch_get (x # ops) g = batch_get ops (batch_step x g)"
  by (simp_all add: batch_get_def)

text \<open>A write that succeeds takes effect, on its key only; a batch applies its operations in
  order; no write adds or drops a column family.\<close>

definition rocks_ok :: "'db rocks \<Rightarrow> bool" where
  "rocks_ok R \<longleftrightarrow>
     (\<forall>db cf k v db'. rk_put R db cf k v = Inr db' \<longrightarrow>
        rk_get R db' = batch_get [BO_Put cf k v] (rk_get R db) \<and> rk_has_cf R db' = rk_has_cf R db) \<and>
     (\<forall>db cf k db'. rk_delete R db cf k = Inr db' \<longrightarrow>
        rk_get R db' = batch_get [BO_Delete cf k] (rk_get R db) \<and> rk_has_cf R db' = rk_has_cf R db) \<and>
     (\<forall>db ops db'. rk_write R db ops = Inr db' \<longrightarrow>
        rk_get R db' = batch_get ops (rk_get R db) \<and> rk_has_cf R db' = rk_has_cf R db)"

definition bincode_ok :: "'db rocks \<Rightarrow> bool" where
  "bincode_ok R \<longleftrightarrow>
     (\<forall>h bs. rk_ser_header R h = Inr bs \<longrightarrow> rk_de_header R bs = Inr h) \<and>
     (\<forall>txs bs. rk_ser_body R txs = Inr bs \<longrightarrow> rk_de_body R bs = Inr txs)"

section \<open>Tables and errors\<close>

datatype storage_error =
    STE_Database string
  | STE_NotFound string
  | STE_Serialization string
  | STE_Deserialization string
  | STE_Corruption string
  | STE_Io string

definition CF_HEADERS :: string where "CF_HEADERS = ''headers''"
definition CF_BODIES :: string where "CF_BODIES = ''bodies''"
definition CF_NUMBER :: string where "CF_NUMBER = ''block_number_to_hash''"
definition CF_TRANSACTIONS :: string where "CF_TRANSACTIONS = ''transactions''"
definition CF_RECEIPTS :: string where "CF_RECEIPTS = ''receipts''"
definition CF_ACCOUNTS :: string where "CF_ACCOUNTS = ''accounts''"
definition CF_CODE :: string where "CF_CODE = ''code''"
definition CF_STORAGE :: string where "CF_STORAGE = ''storage''"
definition CF_GAME_STATE :: string where "CF_GAME_STATE = ''game_state''"
definition CF_META :: string where "CF_META = ''meta''"

definition ALL_COLUMN_FAMILIES :: "string list" where
  "ALL_COLUMN_FAMILIES = [CF_HEADERS, CF_BODIES, CF_NUMBER, CF_TRANSACTIONS, CF_RECEIPTS,
     CF_ACCOUNTS, CF_CODE, CF_STORAGE, CF_GAME_STATE, CF_META]"

section \<open>The database (\<open>db.rs\<close>)\<close>

type_synonym 's effect = "'s \<Rightarrow> (storage_error + unit) \<times> 's"

text \<open>The \<open>?\<close> operator between two writes.\<close>

definition and_then :: "'s effect \<Rightarrow> 's effect \<Rightarrow> 's effect" where
  "and_then f g s = (case f s of (Inl e, s') \<Rightarrow> (Inl e, s') | (Inr _, s') \<Rightarrow> g s')"

definition str_bytes :: "string \<Rightarrow> bytes" where
  "str_bytes s = map (\<lambda>c. of_nat (of_char c)) s"

definition get_cf :: "'db rocks \<Rightarrow> 'db \<Rightarrow> string \<Rightarrow> bytes \<Rightarrow> storage_error + bytes option" where
  "get_cf R db cf k =
     (if \<not> rk_has_cf R db cf then Inl (STE_Database (''Column family not found: '' @ cf))
      else case rk_get R db cf k of Inl e \<Rightarrow> Inl (STE_Database e) | Inr v \<Rightarrow> Inr v)"

definition put_cf :: "'db rocks \<Rightarrow> string \<Rightarrow> bytes \<Rightarrow> bytes \<Rightarrow> 'db effect" where
  "put_cf R cf k v db =
     (if \<not> rk_has_cf R db cf then (Inl (STE_Database (''Column family not found: '' @ cf)), db)
      else case rk_put R db cf k v of Inl e \<Rightarrow> (Inl (STE_Database e), db) | Inr db' \<Rightarrow> (Inr (), db'))"

definition delete_cf :: "'db rocks \<Rightarrow> string \<Rightarrow> bytes \<Rightarrow> 'db effect" where
  "delete_cf R cf k db =
     (if \<not> rk_has_cf R db cf then (Inl (STE_Database (''Column family not found: '' @ cf)), db)
      else case rk_delete R db cf k of Inl e \<Rightarrow> (Inl (STE_Database e), db) | Inr db' \<Rightarrow> (Inr (), db'))"

definition hash_bytes :: "b256 \<Rightarrow> bytes" where
  "hash_bytes h = to_be_bytes 32 h"

definition number_bytes :: "u64 \<Rightarrow> bytes" where
  "number_bytes n = to_be_bytes 8 n"

definition put_header :: "'db rocks \<Rightarrow> b256 \<Rightarrow> block_header \<Rightarrow> 'db effect" where
  "put_header R hash h db =
     (case rk_ser_header R h of
        Inl e \<Rightarrow> (Inl (STE_Serialization e), db)
      | Inr enc \<Rightarrow>
          and_then (put_cf R CF_HEADERS (hash_bytes hash) enc)
            (put_cf R CF_NUMBER (number_bytes (bh_number h)) (hash_bytes hash)) db)"

definition get_header :: "'db rocks \<Rightarrow> 'db \<Rightarrow> b256 \<Rightarrow> storage_error + block_header option" where
  "get_header R db hash =
     (case get_cf R db CF_HEADERS (hash_bytes hash) of
        Inl e \<Rightarrow> Inl e
      | Inr None \<Rightarrow> Inr None
      | Inr (Some bs) \<Rightarrow>
          (case rk_de_header R bs of Inl e \<Rightarrow> Inl (STE_Deserialization e) | Inr h \<Rightarrow> Inr (Some h)))"

definition get_block_hash_by_number :: "'db rocks \<Rightarrow> 'db \<Rightarrow> u64 \<Rightarrow> storage_error + b256 option" where
  "get_block_hash_by_number R db n =
     (case get_cf R db CF_NUMBER (number_bytes n) of
        Inl e \<Rightarrow> Inl e
      | Inr None \<Rightarrow> Inr None
      | Inr (Some bs) \<Rightarrow>
          if length bs \<noteq> 32 then Inl (STE_Corruption ''Invalid block hash length'')
          else Inr (Some (from_be_bytes bs)))"

text \<open>The loop over the transactions, from index \<open>idx\<close>.\<close>

fun put_tx_indexes :: "'db rocks \<Rightarrow> b256 \<Rightarrow> nat \<Rightarrow> signed_transaction list \<Rightarrow> 'db effect" where
  "put_tx_indexes R hash idx [] db = (Inr (), db)"
| "put_tx_indexes R hash idx (tx # txs) db =
     (case rk_ser_tx_index R hash (of_nat idx) of
        Inl e \<Rightarrow> (Inl (STE_Serialization e), db)
      | Inr enc \<Rightarrow>
          and_then (put_cf R CF_TRANSACTIONS (hash_bytes (st_hash tx)) enc)
            (put_tx_indexes R hash (Suc idx) txs) db)"

definition put_body :: "'db rocks \<Rightarrow> b256 \<Rightarrow> signed_transaction list \<Rightarrow> 'db effect" where
  "put_body R hash txs db =
     (case rk_ser_body R txs of
        Inl e \<Rightarrow> (Inl (STE_Serialization e), db)
      | Inr enc \<Rightarrow> put_cf R CF_BODIES (hash_bytes hash) enc db)"

definition put_block :: "externs \<Rightarrow> 'db rocks \<Rightarrow> block \<Rightarrow> 'db effect" where
  "put_block X R b =
     (let hash = block_hash X b in
      and_then (put_header R hash (bl_header b))
        (and_then (put_body R hash (bl_transactions b)) (put_tx_indexes R hash 0 (bl_transactions b))))"

definition put_meta :: "'db rocks \<Rightarrow> string \<Rightarrow> bytes \<Rightarrow> 'db effect" where
  "put_meta R key v = put_cf R CF_META (str_bytes key) v"

definition get_meta :: "'db rocks \<Rightarrow> 'db \<Rightarrow> string \<Rightarrow> storage_error + bytes option" where
  "get_meta R db key = get_cf R db CF_META (str_bytes key)"

definition put_latest_block_number :: "'db rocks \<Rightarrow> u64 \<Rightarrow> 'db effect" where
  "put_latest_block_number R n = put_meta R ''latest_block_number'' (number_bytes n)"

definition get_latest_block_number :: "'db rocks \<Rightarrow> 'db \<Rightarrow> storage_error + u64 option" where
  "get_latest_block_number R db =
     (case get_meta R db ''latest_block_number'' of
        Inl e \<Rightarrow> Inl e
      | Inr None \<Rightarrow> Inr None
      | Inr (Some bs) \<Rightarrow>
          if length bs \<noteq> 8 then Inl (STE_Corruption ''Invalid block number length'')
          else Inr (Some (from_be_bytes bs)))"

definition get_body :: "'db rocks \<Rightarrow> 'db \<Rightarrow> b256 \<Rightarrow> storage_error + signed_transaction list option" where
  "get_body R db hash =
     (case get_cf R db CF_BODIES (hash_bytes hash) of
        Inl e \<Rightarrow> Inl e
      | Inr None \<Rightarrow> Inr None
      | Inr (Some bs) \<Rightarrow>
          (case rk_de_body R bs of Inl e \<Rightarrow> Inl (STE_Deserialization e) | Inr b \<Rightarrow> Inr (Some b)))"

definition put_receipt :: "'db rocks \<Rightarrow> b256 \<Rightarrow> bytes \<Rightarrow> 'db effect" where
  "put_receipt R tx_hash v = put_cf R CF_RECEIPTS (hash_bytes tx_hash) v"

definition get_receipt :: "'db rocks \<Rightarrow> 'db \<Rightarrow> b256 \<Rightarrow> storage_error + bytes option" where
  "get_receipt R db tx_hash = get_cf R db CF_RECEIPTS (hash_bytes tx_hash)"

definition put_game_state :: "'db rocks \<Rightarrow> bytes \<Rightarrow> bytes \<Rightarrow> 'db effect" where
  "put_game_state R key v = put_cf R CF_GAME_STATE key v"

definition get_game_state :: "'db rocks \<Rightarrow> 'db \<Rightarrow> bytes \<Rightarrow> storage_error + bytes option" where
  "get_game_state R db key = get_cf R db CF_GAME_STATE key"

section \<open>Batches (\<open>batch.rs\<close>)\<close>

record 'db write_batch =
  wb_batch :: "batch_op list"
  wb_db :: 'db
  wb_op_count :: nat

definition wb_new :: "'db \<Rightarrow> 'db write_batch" where
  "wb_new db = \<lparr> wb_batch = [], wb_db = db, wb_op_count = 0 \<rparr>"

definition wb_put_cf :: "'db rocks \<Rightarrow> string \<Rightarrow> bytes \<Rightarrow> bytes \<Rightarrow> 'db write_batch effect" where
  "wb_put_cf R cf k v w =
     (if \<not> rk_has_cf R (wb_db w) cf then (Inl (STE_Database (''Column family not found: '' @ cf)), w)
      else (Inr (), w\<lparr>wb_batch := wb_batch w @ [BO_Put cf k v], wb_op_count := wb_op_count w + 1\<rparr>))"

definition wb_delete_cf :: "'db rocks \<Rightarrow> string \<Rightarrow> bytes \<Rightarrow> 'db write_batch effect" where
  "wb_delete_cf R cf k w =
     (if \<not> rk_has_cf R (wb_db w) cf then (Inl (STE_Database (''Column family not found: '' @ cf)), w)
      else (Inr (), w\<lparr>wb_batch := wb_batch w @ [BO_Delete cf k], wb_op_count := wb_op_count w + 1\<rparr>))"

definition wb_put_header :: "'db rocks \<Rightarrow> b256 \<Rightarrow> block_header \<Rightarrow> 'db write_batch effect" where
  "wb_put_header R hash h w =
     (case rk_ser_header R h of
        Inl e \<Rightarrow> (Inl (STE_Serialization e), w)
      | Inr enc \<Rightarrow>
          and_then (wb_put_cf R CF_HEADERS (hash_bytes hash) enc)
            (wb_put_cf R CF_NUMBER (number_bytes (bh_number h)) (hash_bytes hash)) w)"

fun wb_put_tx_indexes :: "'db rocks \<Rightarrow> b256 \<Rightarrow> nat \<Rightarrow> signed_transaction list \<Rightarrow> 'db write_batch effect" where
  "wb_put_tx_indexes R hash idx [] w = (Inr (), w)"
| "wb_put_tx_indexes R hash idx (tx # txs) w =
     (case rk_ser_tx_index R hash (of_nat idx) of
        Inl e \<Rightarrow> (Inl (STE_Serialization e), w)
      | Inr enc \<Rightarrow>
          and_then (wb_put_cf R CF_TRANSACTIONS (hash_bytes (st_hash tx)) enc)
            (wb_put_tx_indexes R hash (Suc idx) txs) w)"

definition wb_put_body :: "'db rocks \<Rightarrow> b256 \<Rightarrow> signed_transaction list \<Rightarrow> 'db write_batch effect" where
  "wb_put_body R hash txs w =
     (case rk_ser_body R txs of
        Inl e \<Rightarrow> (Inl (STE_Serialization e), w)
      | Inr enc \<Rightarrow> wb_put_cf R CF_BODIES (hash_bytes hash) enc w)"

definition wb_put_block :: "externs \<Rightarrow> 'db rocks \<Rightarrow> block \<Rightarrow> 'db write_batch effect" where
  "wb_put_block X R b =
     (let hash = block_hash X b in
      and_then (wb_put_header R hash (bl_header b))
        (and_then (wb_put_body R hash (bl_transactions b)) (wb_put_tx_indexes R hash 0 (bl_transactions b))))"

definition wb_put_receipt :: "'db rocks \<Rightarrow> b256 \<Rightarrow> bytes \<Rightarrow> 'db write_batch effect" where
  "wb_put_receipt R tx_hash v = wb_put_cf R CF_RECEIPTS (hash_bytes tx_hash) v"

definition wb_put_meta :: "'db rocks \<Rightarrow> string \<Rightarrow> bytes \<Rightarrow> 'db write_batch effect" where
  "wb_put_meta R key v = wb_put_cf R CF_META (str_bytes key) v"

definition wb_commit :: "'db rocks \<Rightarrow> 'db write_batch \<Rightarrow> (storage_error + unit) \<times> 'db" where
  "wb_commit R w =
     (case rk_write R (wb_db w) (wb_batch w) of
        Inl e \<Rightarrow> (Inl (STE_Database (''Batch write failed: '' @ e)), wb_db w)
      | Inr db' \<Rightarrow> (Inr (), db'))"

section \<open>Writes as lists of operations\<close>

text \<open>\<open>writes R f ops\<close>: whenever the effect succeeds it has written exactly \<open>ops\<close>.\<close>

definition writes :: "'db rocks \<Rightarrow> 'db effect \<Rightarrow> batch_op list \<Rightarrow> bool" where
  "writes R f ops \<longleftrightarrow> (\<forall>db db'. f db = (Inr (), db') \<longrightarrow>
     rk_get R db' = batch_get ops (rk_get R db) \<and> rk_has_cf R db' = rk_has_cf R db)"

definition collects :: "'db rocks \<Rightarrow> 'db write_batch effect \<Rightarrow> batch_op list \<Rightarrow> bool" where
  "collects R f ops \<longleftrightarrow> (\<forall>w w'. f w = (Inr (), w') \<longrightarrow>
     wb_batch w' = wb_batch w @ ops \<and> wb_db w' = wb_db w
     \<and> wb_op_count w' = wb_op_count w + length ops)"

lemma batch_get_append: "batch_get (a @ b) g = batch_get b (batch_get a g)"
  by (simp add: batch_get_def)

lemma and_then_ok:
  "and_then f g s = (Inr (), s') \<longleftrightarrow> (\<exists>s1. f s = (Inr (), s1) \<and> g s1 = (Inr (), s'))"
  by (auto simp: and_then_def split: prod.splits sum.splits)

lemma writesD:
  "writes R f ops \<Longrightarrow> f db = (Inr (), db') \<Longrightarrow> rk_get R db' = batch_get ops (rk_get R db)"
  "writes R f ops \<Longrightarrow> f db = (Inr (), db') \<Longrightarrow> rk_has_cf R db' = rk_has_cf R db"
  unfolding writes_def by blast+

lemma collectsD:
  "collects R f ops \<Longrightarrow> f w = (Inr (), w') \<Longrightarrow> wb_batch w' = wb_batch w @ ops"
  "collects R f ops \<Longrightarrow> f w = (Inr (), w') \<Longrightarrow> wb_db w' = wb_db w"
  "collects R f ops \<Longrightarrow> f w = (Inr (), w') \<Longrightarrow> wb_op_count w' = wb_op_count w + length ops"
  unfolding collects_def by blast+

lemma writes_then:
  assumes f: "writes R f a" and g: "writes R g b"
  shows "writes R (and_then f g) (a @ b)"
  unfolding writes_def and_then_ok
proof (intro allI impI, elim exE conjE)
  fix db db' s1
  assume 1: "f db = (Inr (), s1)" and 2: "g s1 = (Inr (), db')"
  show "rk_get R db' = batch_get (a @ b) (rk_get R db) \<and> rk_has_cf R db' = rk_has_cf R db"
    by (simp add: writesD[OF f 1] writesD[OF g 2] batch_get_append)
qed

lemma collects_then:
  assumes f: "collects R f a" and g: "collects R g b"
  shows "collects R (and_then f g) (a @ b)"
  unfolding collects_def and_then_ok
proof (intro allI impI, elim exE conjE)
  fix w w' s1
  assume 1: "f w = (Inr (), s1)" and 2: "g s1 = (Inr (), w')"
  show "wb_batch w' = wb_batch w @ a @ b \<and> wb_db w' = wb_db w
      \<and> wb_op_count w' = wb_op_count w + length (a @ b)"
    by (simp add: collectsD[OF f 1] collectsD[OF g 2])
qed

lemma writes_put: "rocks_ok R \<Longrightarrow> writes R (put_cf R cf k v) [BO_Put cf k v]"
  unfolding writes_def put_cf_def rocks_ok_def
  by (auto split: sum.splits if_splits simp del: batch_get_simps)

lemma collects_put: "collects R (wb_put_cf R cf k v) [BO_Put cf k v]"
  unfolding collects_def wb_put_cf_def by (auto split: if_splits)

definition header_ops :: "'db rocks \<Rightarrow> b256 \<Rightarrow> block_header \<Rightarrow> batch_op list" where
  "header_ops R hash h =
     [BO_Put CF_HEADERS (hash_bytes hash) (projr (rk_ser_header R h)),
      BO_Put CF_NUMBER (number_bytes (bh_number h)) (hash_bytes hash)]"

definition index_ops :: "'db rocks \<Rightarrow> b256 \<Rightarrow> nat \<Rightarrow> signed_transaction list \<Rightarrow> batch_op list" where
  "index_ops R hash idx txs =
     map (\<lambda>(i, tx). BO_Put CF_TRANSACTIONS (hash_bytes (st_hash tx)) (projr (rk_ser_tx_index R hash (of_nat i))))
       (zip [idx..<idx + length txs] txs)"

definition block_ops :: "externs \<Rightarrow> 'db rocks \<Rightarrow> block \<Rightarrow> batch_op list" where
  "block_ops X R b =
     (let hash = block_hash X b in
      header_ops R hash (bl_header b)
      @ [BO_Put CF_BODIES (hash_bytes hash) (projr (rk_ser_body R (bl_transactions b)))]
      @ index_ops R hash 0 (bl_transactions b))"

lemma index_ops_Cons:
  "index_ops R hash idx (tx # txs) =
     [BO_Put CF_TRANSACTIONS (hash_bytes (st_hash tx)) (projr (rk_ser_tx_index R hash (of_nat idx)))]
     @ index_ops R hash (Suc idx) txs"
  by (simp add: index_ops_def upt_rec)

lemma writes_guard: "(\<And>v. x = Inr v \<Longrightarrow> writes R (f v) (ops v)) \<Longrightarrow>
   writes R (\<lambda>db. case x of Inl e \<Rightarrow> (Inl (g e), db) | Inr v \<Rightarrow> f v db) (ops (projr x))"
  by (cases x) (auto simp: writes_def)

lemma collects_guard: "(\<And>v. x = Inr v \<Longrightarrow> collects R (f v) (ops v)) \<Longrightarrow>
   collects R (\<lambda>db. case x of Inl e \<Rightarrow> (Inl (g e), db) | Inr v \<Rightarrow> f v db) (ops (projr x))"
  by (cases x) (auto simp: collects_def)

lemma put_header_writes: "rocks_ok R \<Longrightarrow> writes R (put_header R hash h) (header_ops R hash h)"
  unfolding put_header_def header_ops_def
  by (rule writes_guard) (use writes_then[OF writes_put writes_put] in fastforce)

lemma put_body_writes: "rocks_ok R \<Longrightarrow>
  writes R (put_body R hash txs) [BO_Put CF_BODIES (hash_bytes hash) (projr (rk_ser_body R txs))]"
  unfolding put_body_def by (rule writes_guard) (rule writes_put)

lemma put_tx_indexes_writes: "rocks_ok R \<Longrightarrow> writes R (put_tx_indexes R hash idx txs) (index_ops R hash idx txs)"
proof (induction txs arbitrary: idx)
  case Nil
  then show ?case by (simp add: writes_def index_ops_def)
next
  case (Cons tx txs)
  have "put_tx_indexes R hash idx (tx # txs) = (\<lambda>db. case rk_ser_tx_index R hash (of_nat idx) of
        Inl e \<Rightarrow> (Inl (STE_Serialization e), db)
      | Inr enc \<Rightarrow> and_then (put_cf R CF_TRANSACTIONS (hash_bytes (st_hash tx)) enc)
            (put_tx_indexes R hash (Suc idx) txs) db)" by (rule ext) simp
  then show ?case unfolding index_ops_Cons
    by (simp only:) (rule writes_guard[where
        ops = "\<lambda>v. [BO_Put CF_TRANSACTIONS (hash_bytes (st_hash tx)) v] @ index_ops R hash (Suc idx) txs"],
      rule writes_then[OF writes_put[OF Cons.prems] Cons.IH[OF Cons.prems]])
qed

lemma put_block_writes: "rocks_ok R \<Longrightarrow> writes R (put_block X R b) (block_ops X R b)"
  unfolding put_block_def block_ops_def Let_def
  by (intro writes_then put_header_writes put_body_writes put_tx_indexes_writes)

lemma wb_put_header_collects: "collects R (wb_put_header R hash h) (header_ops R hash h)"
  unfolding wb_put_header_def header_ops_def
  by (rule collects_guard) (use collects_then[OF collects_put collects_put] in fastforce)

lemma wb_put_body_collects:
  "collects R (wb_put_body R hash txs) [BO_Put CF_BODIES (hash_bytes hash) (projr (rk_ser_body R txs))]"
  unfolding wb_put_body_def by (rule collects_guard) (rule collects_put)

lemma wb_put_tx_indexes_collects: "collects R (wb_put_tx_indexes R hash idx txs) (index_ops R hash idx txs)"
proof (induction txs arbitrary: idx)
  case Nil
  then show ?case by (simp add: collects_def index_ops_def)
next
  case (Cons tx txs)
  have "wb_put_tx_indexes R hash idx (tx # txs) = (\<lambda>db. case rk_ser_tx_index R hash (of_nat idx) of
        Inl e \<Rightarrow> (Inl (STE_Serialization e), db)
      | Inr enc \<Rightarrow> and_then (wb_put_cf R CF_TRANSACTIONS (hash_bytes (st_hash tx)) enc)
            (wb_put_tx_indexes R hash (Suc idx) txs) db)" by (rule ext) simp
  then show ?case unfolding index_ops_Cons
    by (simp only:) (rule collects_guard[where
        ops = "\<lambda>v. [BO_Put CF_TRANSACTIONS (hash_bytes (st_hash tx)) v] @ index_ops R hash (Suc idx) txs"],
      rule collects_then[OF collects_put Cons.IH])
qed

lemma wb_put_block_collects: "collects R (wb_put_block X R b) (block_ops X R b)"
  unfolding wb_put_block_def block_ops_def Let_def
  by (intro collects_then wb_put_header_collects wb_put_body_collects wb_put_tx_indexes_collects)

text \<open>Storing a block through a batch and committing it leaves the same contents in every
  table as storing it directly, whenever both succeed.\<close>

theorem batch_equals_direct:
  assumes "rocks_ok R" and "put_block X R b db = (Inr (), db1)"
    and "wb_put_block X R b (wb_new db) = (Inr (), w)" and "wb_commit R w = (Inr (), db2)"
  shows "rk_get R db2 = rk_get R db1 \<and> rk_has_cf R db2 = rk_has_cf R db1
    \<and> wb_op_count w = 3 + length (bl_transactions b)"
proof -
  have 1: "rk_get R db1 = batch_get (block_ops X R b) (rk_get R db)" "rk_has_cf R db1 = rk_has_cf R db"
    using put_block_writes[OF assms(1), of X b] assms(2) by (auto simp: writes_def)
  have w: "wb_batch w = block_ops X R b" "wb_db w = db" "wb_op_count w = length (block_ops X R b)"
    using wb_put_block_collects[of R X b] assms(3) by (auto simp: collects_def wb_new_def)
  have "rk_write R db (block_ops X R b) = Inr db2"
    using assms(4) w by (auto simp: wb_commit_def split: sum.splits)
  then have "rk_get R db2 = batch_get (block_ops X R b) (rk_get R db)" "rk_has_cf R db2 = rk_has_cf R db"
    using assms(1) unfolding rocks_ok_def by blast+
  with 1 w show ?thesis by (simp add: block_ops_def header_ops_def index_ops_def Let_def)
qed

section \<open>Reading a block back\<close>

lemma batch_get_other:
  "(\<And>k v. BO_Put cf k v \<notin> set ops) \<Longrightarrow> (\<And>k. BO_Delete cf k \<notin> set ops) \<Longrightarrow> batch_get ops g cf = g cf"
proof (induction ops arbitrary: g)
  case (Cons op ops)
  have "batch_step op g cf = g cf"
    using Cons.prems by (cases op) (auto simp: fun_eq_iff)
  with Cons show ?case by simp
qed simp

lemma cf_distinct: "distinct ALL_COLUMN_FAMILIES"
  by code_simp

lemma cf_neq:
  "CF_HEADERS \<noteq> CF_NUMBER" "CF_HEADERS \<noteq> CF_BODIES" "CF_HEADERS \<noteq> CF_TRANSACTIONS"
  "CF_NUMBER \<noteq> CF_BODIES" "CF_NUMBER \<noteq> CF_TRANSACTIONS" "CF_BODIES \<noteq> CF_TRANSACTIONS"
  using cf_distinct by (auto simp: ALL_COLUMN_FAMILIES_def)

lemma index_ops_other: "cf \<noteq> CF_TRANSACTIONS \<Longrightarrow> batch_get (index_ops R hash idx txs) g cf = g cf"
  by (rule batch_get_other) (auto simp: index_ops_def)

lemma put_cf_has: "put_cf R cf k v db = (Inr (), db') \<Longrightarrow> rk_has_cf R db cf"
  by (auto simp: put_cf_def split: if_splits)

lemma put_block_reads:
  assumes "rocks_ok R" and "bincode_ok R" and "put_block X R b db = (Inr (), db')"
  shows "get_header R db' (block_hash X b) = Inr (Some (bl_header b))
    \<and> get_body R db' (block_hash X b) = Inr (Some (bl_transactions b))
    \<and> get_block_hash_by_number R db' (block_number b) = Inr (Some (block_hash X b))"
proof -
  let ?h = "block_hash X b"
  have g: "rk_get R db' = batch_get (block_ops X R b) (rk_get R db)"
    and cf: "rk_has_cf R db' = rk_has_cf R db"
    using put_block_writes[OF assms(1), of X b] assms(3) by (auto simp: writes_def)
  obtain db1 db2 where s: "put_header R ?h (bl_header b) db = (Inr (), db1)"
    "put_body R ?h (bl_transactions b) db1 = (Inr (), db2)"
    using assms(3) by (auto simp: put_block_def Let_def and_then_ok)
  have c1: "rk_has_cf R db1 = rk_has_cf R db"
    using put_header_writes[OF assms(1)] s(1) by (auto simp: writes_def)
  obtain hb bb where ser: "rk_ser_header R (bl_header b) = Inr hb" "rk_ser_body R (bl_transactions b) = Inr bb"
    using s by (auto simp: put_header_def put_body_def split: sum.splits)
  obtain db0 where p: "put_cf R CF_HEADERS (hash_bytes ?h) hb db = (Inr (), db0)"
    "put_cf R CF_NUMBER (number_bytes (bh_number (bl_header b))) (hash_bytes ?h) db0 = (Inr (), db1)"
    using s(1) ser by (auto simp: put_header_def and_then_ok)
  have c0: "rk_has_cf R db0 = rk_has_cf R db"
    by (rule writesD(2)[OF writes_put[OF assms(1)] p(1)])
  have "put_cf R CF_BODIES (hash_bytes ?h) bb db1 = (Inr (), db2)"
    using s(2) ser by (simp add: put_body_def)
  then have has: "rk_has_cf R db CF_HEADERS" "rk_has_cf R db CF_NUMBER" "rk_has_cf R db CF_BODIES"
    using put_cf_has[OF p(1)] put_cf_has[OF p(2)] c0 c1 by (auto dest: put_cf_has)
  have de: "rk_de_header R hb = Inr (bl_header b)" "rk_de_body R bb = Inr (bl_transactions b)"
    using assms(2) ser by (auto simp: bincode_ok_def)
  have gets: "rk_get R db' CF_HEADERS (hash_bytes ?h) = Inr (Some hb)"
    "rk_get R db' CF_BODIES (hash_bytes ?h) = Inr (Some bb)"
    "rk_get R db' CF_NUMBER (number_bytes (bh_number (bl_header b))) = Inr (Some (hash_bytes ?h))"
    unfolding g block_ops_def header_ops_def Let_def using ser cf_neq
    by (simp_all add: batch_get_append index_ops_other)
  have "from_be_bytes (hash_bytes ?h) = ?h" "length (hash_bytes ?h) = 32"
    by (simp_all add: hash_bytes_def from_to_be_bytes)
  then show ?thesis
    using gets has de cf
    by (simp add: get_header_def get_body_def get_block_hash_by_number_def get_cf_def block_number_def)
qed

lemma number_bytes_inject [simp]: "number_bytes n = number_bytes m \<longleftrightarrow> n = m"
proof
  assume "number_bytes n = number_bytes m"
  then have "from_be_bytes (number_bytes n) = (from_be_bytes (number_bytes m) :: u64)" by simp
  then show "n = m" by (simp add: number_bytes_def from_to_be_bytes)
qed simp

lemma put_block_other_number:
  assumes "rocks_ok R" and "put_block X R b db = (Inr (), db')" and "n \<noteq> block_number b"
  shows "get_block_hash_by_number R db' n = get_block_hash_by_number R db n"
proof -
  have "rk_get R db' = batch_get (block_ops X R b) (rk_get R db)" "rk_has_cf R db' = rk_has_cf R db"
    using put_block_writes[OF assms(1), of X b] assms(2) by (auto simp: writes_def)
  then show ?thesis
    using cf_neq assms(3)
    by (simp add: get_block_hash_by_number_def get_cf_def block_ops_def header_ops_def Let_def
        batch_get_append index_ops_other block_number_def)
qed

text \<open>A stored block is read back: its header and its transactions by the block's hash, and
  its hash by its number.\<close>

theorem put_block_roundtrip:
  assumes "rocks_ok R" and "bincode_ok R" and "put_block X R b db = (Inr (), db')"
  shows "get_header R db' (block_hash X b) = Inr (Some (bl_header b))
    \<and> get_body R db' (block_hash X b) = Inr (Some (bl_transactions b))
    \<and> get_block_hash_by_number R db' (block_number b) = Inr (Some (block_hash X b))"
  using put_block_reads[OF assms] .

section \<open>Writes to other tables and the latest block number\<close>

text \<open>A write to one column family leaves what the others return.\<close>

definition same_table :: "'db rocks \<Rightarrow> string \<Rightarrow> 'db \<Rightarrow> 'db \<Rightarrow> bool" where
  "same_table R cf db db' \<longleftrightarrow> rk_get R db' cf = rk_get R db cf \<and> rk_has_cf R db' = rk_has_cf R db"

lemma same_table_refl [simp]: "same_table R cf db db"
  by (simp add: same_table_def)

lemma same_table_trans: "same_table R cf a b \<Longrightarrow> same_table R cf b c \<Longrightarrow> same_table R cf a c"
  by (simp add: same_table_def)

lemma same_table_get: "same_table R cf db db' \<Longrightarrow> get_cf R db' cf k = get_cf R db cf k"
  by (simp add: same_table_def get_cf_def)

lemma put_cf_other:
  assumes R: "rocks_ok R" and ne: "cf \<noteq> cf'"
  shows "same_table R cf db (snd (put_cf R cf' k v db))"
proof (cases "put_cf R cf' k v db")
  case (Pair r db')
  show ?thesis
  proof (cases r)
    case Inl
    then show ?thesis using Pair by (auto simp: put_cf_def split: if_splits sum.splits)
  next
    case (Inr u)
    then have p: "put_cf R cf' k v db = (Inr (), db')" using Pair by simp
    show ?thesis
      using ne writesD[OF writes_put[OF R] p] p by (auto simp: same_table_def fun_eq_iff)
  qed
qed

lemma other_tables:
  assumes "rocks_ok R"
  shows "cf \<noteq> CF_RECEIPTS \<Longrightarrow> same_table R cf db (snd (put_receipt R h v db))"
    and "cf \<noteq> CF_META \<Longrightarrow> same_table R cf db (snd (put_latest_block_number R n db))"
    and "cf \<noteq> CF_GAME_STATE \<Longrightarrow> same_table R cf db (snd (put_game_state R k v db))"
  by (simp_all add: put_receipt_def put_latest_block_number_def put_meta_def put_game_state_def
      put_cf_other[OF assms])

lemma get_header_table: "same_table R CF_HEADERS db db' \<Longrightarrow> get_header R db' h = get_header R db h"
  by (simp add: get_header_def same_table_get)

lemma get_body_table: "same_table R CF_BODIES db db' \<Longrightarrow> get_body R db' h = get_body R db h"
  by (simp add: get_body_def same_table_get)

lemma get_number_table:
  "same_table R CF_NUMBER db db' \<Longrightarrow> get_block_hash_by_number R db' n = get_block_hash_by_number R db n"
  by (simp add: get_block_hash_by_number_def same_table_get)

lemma get_latest_table:
  "same_table R CF_META db db' \<Longrightarrow> get_latest_block_number R db' = get_latest_block_number R db"
  by (simp add: get_latest_block_number_def get_meta_def same_table_get)

lemma put_latest_get:
  assumes R: "rocks_ok R" and p: "put_latest_block_number R n db = (Inr (), db')"
  shows "get_latest_block_number R db' = Inr (Some n)"
proof -
  have p': "put_cf R CF_META (str_bytes ''latest_block_number'') (number_bytes n) db = (Inr (), db')"
    using p by (simp add: put_latest_block_number_def put_meta_def)
  have "get_cf R db' CF_META (str_bytes ''latest_block_number'') = Inr (Some (number_bytes n))"
    using put_cf_has[OF p'] writesD[OF writes_put[OF R] p'] by (simp add: get_cf_def)
  then show ?thesis
    by (simp add: get_latest_block_number_def get_meta_def number_bytes_def from_to_be_bytes)
qed

section \<open>A concrete database\<close>

text \<open>A database held as a function, a serialiser of headers with fields of fixed width, and one of
  bodies that accepts the repetitions of one known transaction.\<close>

definition demo_header_bytes :: "block_header \<Rightarrow> bytes" where
  "demo_header_bytes h =
     to_be_bytes 32 (bh_parent_hash h) @ to_be_bytes 32 (bh_ommers_hash h) @ to_be_bytes 20 (bh_beneficiary h)
     @ to_be_bytes 32 (bh_state_root h) @ to_be_bytes 32 (bh_transactions_root h) @ to_be_bytes 32 (bh_receipts_root h)
     @ to_be_bytes 32 (bh_game_state_root h) @ to_be_bytes 256 (bh_logs_bloom h) @ to_be_bytes 32 (bh_difficulty h)
     @ to_be_bytes 8 (bh_number h) @ to_be_bytes 8 (bh_gas_limit h) @ to_be_bytes 8 (bh_gas_used h)
     @ to_be_bytes 8 (bh_timestamp h) @ to_be_bytes 8 (bh_game_tick h) @ to_be_bytes 32 (bh_mix_hash h)
     @ to_be_bytes 8 (bh_nonce h)
     @ (case bh_base_fee_per_gas h of None \<Rightarrow> replicate 9 0 | Some fee \<Rightarrow> 1 # to_be_bytes 8 fee)
     @ bh_extra_data h"

definition field_at :: "nat \<Rightarrow> nat \<Rightarrow> bytes \<Rightarrow> 'a::len word" where
  "field_at i n bs = from_be_bytes (take n (drop i bs))"

definition demo_header_of :: "bytes \<Rightarrow> block_header" where
  "demo_header_of bs =
     \<lparr> bh_parent_hash = field_at 0 32 bs, bh_ommers_hash = field_at 32 32 bs, bh_beneficiary = field_at 64 20 bs,
       bh_state_root = field_at 84 32 bs, bh_transactions_root = field_at 116 32 bs,
       bh_receipts_root = field_at 148 32 bs, bh_game_state_root = field_at 180 32 bs,
       bh_logs_bloom = field_at 212 256 bs, bh_difficulty = field_at 468 32 bs, bh_number = field_at 500 8 bs,
       bh_gas_limit = field_at 508 8 bs, bh_gas_used = field_at 516 8 bs, bh_timestamp = field_at 524 8 bs,
       bh_game_tick = field_at 532 8 bs, bh_extra_data = drop 589 bs, bh_mix_hash = field_at 540 32 bs,
       bh_nonce = field_at 572 8 bs,
       bh_base_fee_per_gas = (if take 1 (drop 580 bs) = [1] then Some (field_at 581 8 bs) else None) \<rparr>"

lemma demo_header_roundtrip: "demo_header_of (demo_header_bytes h) = h"
  by (cases "bh_base_fee_per_gas h")
    (simp_all add: demo_header_of_def demo_header_bytes_def field_at_def from_to_be_bytes)

definition demo_tx :: signed_transaction where
  "demo_tx = demo_signed demo_secret (new_game_action 27181 0 GA_Respawn)"

definition demo_rocks :: "contents rocks" where
  "demo_rocks = \<lparr>
     rk_has_cf = (\<lambda>_ cf. cf \<in> set ALL_COLUMN_FAMILIES),
     rk_get = (\<lambda>db. db),
     rk_put = (\<lambda>db cf k v. Inr (batch_get [BO_Put cf k v] db)),
     rk_delete = (\<lambda>db cf k. Inr (batch_get [BO_Delete cf k] db)),
     rk_write = (\<lambda>db ops. Inr (batch_get ops db)),
     rk_ser_header = (\<lambda>h. Inr (demo_header_bytes h)),
     rk_de_header = (\<lambda>bs. Inr (demo_header_of bs)),
     rk_ser_body = (\<lambda>txs. if txs = replicate (length txs) demo_tx
       then Inr (replicate (length txs) 1) else Inl ''unsupported''),
     rk_de_body = (\<lambda>bs. Inr (replicate (length bs) demo_tx)),
     rk_ser_tx_index = (\<lambda>h i. Inr (to_be_bytes 32 h @ to_be_bytes 4 i)) \<rparr>"

lemma demo_rocks_ok: "rocks_ok demo_rocks"
  by (simp add: rocks_ok_def demo_rocks_def)

lemma demo_bincode_ok: "bincode_ok demo_rocks"
  unfolding bincode_ok_def
proof (intro conjI allI impI)
  fix h bs assume "rk_ser_header demo_rocks h = Inr bs"
  then show "rk_de_header demo_rocks bs = Inr h"
    by (auto simp: demo_rocks_def demo_header_roundtrip)
next
  fix txs bs assume "rk_ser_body demo_rocks txs = Inr bs"
  then have "txs = replicate (length txs) demo_tx" "bs = replicate (length txs) 1"
    by (simp_all add: demo_rocks_def split: if_splits)
  then show "rk_de_body demo_rocks bs = Inr txs"
    by (simp add: demo_rocks_def)
qed

definition demo_block :: block where
  "demo_block = block_new (header_genesis 0) [demo_tx]"

lemma cf_known [simp]:
  "CF_HEADERS \<in> set ALL_COLUMN_FAMILIES" "CF_BODIES \<in> set ALL_COLUMN_FAMILIES"
  "CF_NUMBER \<in> set ALL_COLUMN_FAMILIES" "CF_TRANSACTIONS \<in> set ALL_COLUMN_FAMILIES"
  "CF_RECEIPTS \<in> set ALL_COLUMN_FAMILIES" "CF_GAME_STATE \<in> set ALL_COLUMN_FAMILIES"
  "CF_META \<in> set ALL_COLUMN_FAMILIES"
  by (simp_all add: ALL_COLUMN_FAMILIES_def)

lemma demo_put_cf:
  "cf \<in> set ALL_COLUMN_FAMILIES \<Longrightarrow> put_cf demo_rocks cf k v db = (Inr (), batch_step (BO_Put cf k v) db)"
  by (simp add: put_cf_def demo_rocks_def)

lemma demo_wb_put_cf:
  "cf \<in> set ALL_COLUMN_FAMILIES \<Longrightarrow> wb_put_cf demo_rocks cf k v w
     = (Inr (), w\<lparr>wb_batch := wb_batch w @ [BO_Put cf k v], wb_op_count := wb_op_count w + 1\<rparr>)"
  by (simp add: wb_put_cf_def demo_rocks_def)

lemma demo_ser:
  "rk_ser_header demo_rocks h = Inr (demo_header_bytes h)"
  "rk_ser_body demo_rocks [demo_tx] = Inr [1]"
  "rk_ser_tx_index demo_rocks th i = Inr (to_be_bytes 32 th @ to_be_bytes 4 i)"
  by (simp_all add: demo_rocks_def)

lemma demo_put_block_of: "\<exists>db'. put_block X demo_rocks (block_new h [demo_tx]) db = (Inr (), db')"
  by (simp add: put_block_def Let_def put_header_def put_body_def and_then_def
      block_new_def demo_ser demo_put_cf del: batch_step.simps)

lemma demo_put_block: "\<exists>db'. put_block X demo_rocks demo_block db = (Inr (), db')"
  unfolding demo_block_def by (rule demo_put_block_of)

lemma demo_wb_put_block: "\<exists>w'. wb_put_block X demo_rocks demo_block w = (Inr (), w')"
  by (simp add: wb_put_block_def Let_def wb_put_header_def wb_put_body_def and_then_def demo_block_def
      block_new_def demo_ser demo_wb_put_cf)

lemma demo_commit: "\<exists>db'. wb_commit demo_rocks w = (Inr (), db')"
  by (simp add: wb_commit_def demo_rocks_def)

theorem batch_equals_direct_witness:
  "\<exists>(db1 :: contents) db2 w. wb_commit demo_rocks w = (Inr (), db2) \<and> rk_get demo_rocks db2 = rk_get demo_rocks db1
     \<and> wb_op_count w = 4"
proof -
  obtain db1 where 1: "put_block demo_externs demo_rocks demo_block (\<lambda>_ _. Inr None) = (Inr (), db1)"
    using demo_put_block by blast
  obtain w where w: "wb_put_block demo_externs demo_rocks demo_block (wb_new (\<lambda>_ _. Inr None)) = (Inr (), w)"
    using demo_wb_put_block by blast
  obtain db2 where 2: "wb_commit demo_rocks w = (Inr (), db2)"
    using demo_commit by blast
  from batch_equals_direct[OF demo_rocks_ok 1 w 2] 2 show ?thesis
    by (auto simp: demo_block_def block_new_def)
qed

theorem put_block_roundtrip_witness:
  "\<exists>db' :: contents. get_body demo_rocks db' (block_hash demo_externs demo_block) = Inr (Some [demo_tx])
     \<and> get_block_hash_by_number demo_rocks db' 0 = Inr (Some (block_hash demo_externs demo_block))"
proof -
  obtain db1 where 1: "put_block demo_externs demo_rocks demo_block (\<lambda>_ _. Inr None) = (Inr (), db1)"
    using demo_put_block by blast
  from put_block_roundtrip[OF demo_rocks_ok demo_bincode_ok 1] show ?thesis
    by (auto simp: demo_block_def block_new_def block_number_def header_genesis_def)
qed

end
