(* ===== verification/World_State.thy ===== *)
theory World_State
  imports Storage
begin

text \<open>
  The account state, \<open>crates/state/src/world_state.rs\<close>: a read cache and a set of dirty
  accounts over the database. \<open>serde_json\<close> of an account is the record
  \<open>account_json\<close>. Every operation returns its result and the new state, a read too: it
  fills the cache. The reference is the function from addresses to accounts that a restarted
  node would read.
\<close>

section \<open>State\<close>

datatype state_error =
    SE_Storage storage_error
  | SE_AccountNotFound string
  | SE_InsufficientBalance u256 u256
  | SE_NonceMismatch u64 u64
  | SE_StateRootMismatch string string
  | SE_InvalidTransition string
  | SE_Serialization string

record account_json =
  aj_ser :: "account \<Rightarrow> string + bytes"
  aj_de :: "bytes \<Rightarrow> string + account"

definition json_ok :: "account_json \<Rightarrow> bool" where
  "json_ok J \<longleftrightarrow> (\<forall>a bs. aj_ser J a = Inr bs \<longrightarrow> aj_de J bs = Inr a)"

type_synonym account_map = "(address \<times> account) list"

record 'db world_state =
  ws_db :: 'db
  ws_account_cache :: account_map
  ws_dirty_accounts :: account_map
  ws_state_root :: b256

definition ws_new :: "'db \<Rightarrow> 'db world_state" where
  "ws_new db = \<lparr> ws_db = db, ws_account_cache = [], ws_dirty_accounts = [], ws_state_root = 0 \<rparr>"

section \<open>Operations\<close>

definition address_bytes :: "address \<Rightarrow> bytes" where
  "address_bytes a = to_be_bytes 20 a"

definition ws_get_account ::
  "'db rocks \<Rightarrow> account_json \<Rightarrow> address \<Rightarrow> 'db world_state
     \<Rightarrow> (state_error + account option) \<times> 'db world_state" where
  "ws_get_account R J a w =
     (case map_of (ws_account_cache w) a of
        Some acc \<Rightarrow> (Inr (Some acc), w)
      | None \<Rightarrow>
     (case map_of (ws_dirty_accounts w) a of
        Some acc \<Rightarrow> (Inr (Some acc), w)
      | None \<Rightarrow>
     (case get_game_state R (ws_db w) (address_bytes a) of
        Inl e \<Rightarrow> (Inl (SE_Storage e), w)
      | Inr None \<Rightarrow> (Inr None, w)
      | Inr (Some data) \<Rightarrow>
          (case aj_de J data of
             Inl e \<Rightarrow> (Inl (SE_Serialization e), w)
           | Inr acc \<Rightarrow>
               (Inr (Some acc), w\<lparr>ws_account_cache := AList.update a acc (ws_account_cache w)\<rparr>)))))"

definition ws_get_or_create ::
  "'db rocks \<Rightarrow> account_json \<Rightarrow> address \<Rightarrow> 'db world_state
     \<Rightarrow> (state_error + account) \<times> 'db world_state" where
  "ws_get_or_create R J a w =
     (case ws_get_account R J a w of
        (Inl e, w') \<Rightarrow> (Inl e, w')
      | (Inr (Some acc), w') \<Rightarrow> (Inr acc, w')
      | (Inr None, w') \<Rightarrow> (Inr account_default, w'))"

definition ws_put_account :: "address \<Rightarrow> account \<Rightarrow> 'db world_state \<Rightarrow> 'db world_state" where
  "ws_put_account a acc w =
     w\<lparr>ws_dirty_accounts := AList.update a acc (ws_dirty_accounts w),
       ws_account_cache := AList.update a acc (ws_account_cache w)\<rparr>"

definition ws_get_balance ::
  "'db rocks \<Rightarrow> account_json \<Rightarrow> address \<Rightarrow> 'db world_state
     \<Rightarrow> (state_error + u256) \<times> 'db world_state" where
  "ws_get_balance R J a w =
     (case ws_get_account R J a w of
        (Inl e, w') \<Rightarrow> (Inl e, w')
      | (Inr (Some acc), w') \<Rightarrow> (Inr (ac_balance acc), w')
      | (Inr None, w') \<Rightarrow> (Inr 0, w'))"

definition ws_get_nonce ::
  "'db rocks \<Rightarrow> account_json \<Rightarrow> address \<Rightarrow> 'db world_state
     \<Rightarrow> (state_error + u64) \<times> 'db world_state" where
  "ws_get_nonce R J a w =
     (case ws_get_account R J a w of
        (Inl e, w') \<Rightarrow> (Inl e, w')
      | (Inr (Some acc), w') \<Rightarrow> (Inr (ac_nonce acc), w')
      | (Inr None, w') \<Rightarrow> (Inr 0, w'))"

definition ws_increment_nonce ::
  "'db rocks \<Rightarrow> account_json \<Rightarrow> address \<Rightarrow> 'db world_state
     \<Rightarrow> (state_error + unit) \<times> 'db world_state" where
  "ws_increment_nonce R J a w =
     (case ws_get_or_create R J a w of
        (Inl e, w') \<Rightarrow> (Inl e, w')
      | (Inr acc, w') \<Rightarrow> (Inr (), ws_put_account a (acc\<lparr>ac_nonce := ac_nonce acc + 1\<rparr>) w'))"

definition ws_add_balance ::
  "'db rocks \<Rightarrow> account_json \<Rightarrow> address \<Rightarrow> u256 \<Rightarrow> 'db world_state
     \<Rightarrow> (state_error + unit) \<times> 'db world_state" where
  "ws_add_balance R J a amount w =
     (case ws_get_or_create R J a w of
        (Inl e, w') \<Rightarrow> (Inl e, w')
      | (Inr acc, w') \<Rightarrow>
          (case checked_add (ac_balance acc) amount of
             None \<Rightarrow> (Inl (SE_InvalidTransition ''Balance overflow''), w')
           | Some b \<Rightarrow> (Inr (), ws_put_account a (acc\<lparr>ac_balance := b\<rparr>) w')))"

definition ws_sub_balance ::
  "'db rocks \<Rightarrow> account_json \<Rightarrow> address \<Rightarrow> u256 \<Rightarrow> 'db world_state
     \<Rightarrow> (state_error + unit) \<times> 'db world_state" where
  "ws_sub_balance R J a amount w =
     (case ws_get_or_create R J a w of
        (Inl e, w') \<Rightarrow> (Inl e, w')
      | (Inr acc, w') \<Rightarrow>
          if ac_balance acc < amount
          then (Inl (SE_InsufficientBalance (ac_balance acc) amount), w')
          else (Inr (), ws_put_account a (acc\<lparr>ac_balance := ac_balance acc - amount\<rparr>) w'))"

text \<open>The loop of \<open>commit\<close> over the drained accounts; it stops at the first error.\<close>

fun commit_accounts ::
  "'db rocks \<Rightarrow> account_json \<Rightarrow> account_map \<Rightarrow> 'db \<Rightarrow> (state_error + unit) \<times> 'db" where
  "commit_accounts R J [] db = (Inr (), db)"
| "commit_accounts R J ((a, acc) # rest) db =
     (case aj_ser J acc of
        Inl e \<Rightarrow> (Inl (SE_Serialization e), db)
      | Inr bs \<Rightarrow>
          (case put_game_state R (address_bytes a) bs db of
             (Inl e, db') \<Rightarrow> (Inl (SE_Storage e), db')
           | (Inr _, db') \<Rightarrow> commit_accounts R J rest db'))"

text \<open>What the hasher is fed, account after account.\<close>

fun root_input :: "account_json \<Rightarrow> account_map \<Rightarrow> state_error + bytes" where
  "root_input J [] = Inr []"
| "root_input J ((a, acc) # rest) =
     (case aj_ser J acc of
        Inl e \<Rightarrow> Inl (SE_Serialization e)
      | Inr bs \<Rightarrow>
          (case root_input J rest of
             Inl e \<Rightarrow> Inl e
           | Inr bs' \<Rightarrow> Inr (address_bytes a @ bs @ bs')))"

definition compute_state_root ::
  "externs \<Rightarrow> account_json \<Rightarrow> (account_map \<Rightarrow> account_map) \<Rightarrow> 'db world_state \<Rightarrow> state_error + b256" where
  "compute_state_root X J ord w =
     (case root_input J (sort_key fst (ord (ws_account_cache w))) of
        Inl e \<Rightarrow> Inl e
      | Inr bs \<Rightarrow> Inr (x_keccak X bs))"

definition ws_commit ::
  "externs \<Rightarrow> 'db rocks \<Rightarrow> account_json \<Rightarrow> (account_map \<Rightarrow> account_map) \<Rightarrow> 'db world_state
     \<Rightarrow> (state_error + b256) \<times> 'db world_state" where
  "ws_commit X R J ord w =
     (let dirty = ord (ws_dirty_accounts w); w1 = w\<lparr>ws_dirty_accounts := []\<rparr> in
      case commit_accounts R J dirty (ws_db w1) of
        (Inl e, db') \<Rightarrow> (Inl e, w1\<lparr>ws_db := db'\<rparr>)
      | (Inr _, db') \<Rightarrow>
          let w2 = w1\<lparr>ws_db := db'\<rparr> in
          (case compute_state_root X J ord w2 of
             Inl e \<Rightarrow> (Inl e, w2)
           | Inr root \<Rightarrow> (Inr root, w2\<lparr>ws_state_root := root\<rparr>)))"

definition ws_clear_cache :: "'db world_state \<Rightarrow> 'db world_state" where
  "ws_clear_cache w = w\<lparr>ws_account_cache := [], ws_dirty_accounts := []\<rparr>"

section \<open>Reads\<close>

definition db_account :: "'db rocks \<Rightarrow> account_json \<Rightarrow> 'db \<Rightarrow> address \<Rightarrow> state_error + account option" where
  "db_account R J db a = fst (ws_get_account R J a (ws_new db))"

definition ws_read :: "'db rocks \<Rightarrow> account_json \<Rightarrow> 'db world_state \<Rightarrow> address \<Rightarrow> state_error + account option" where
  "ws_read R J w a = fst (ws_get_account R J a w)"

text \<open>A dirty account is cached; a cached account that is not dirty is the stored one.\<close>

definition ws_inv :: "'db rocks \<Rightarrow> account_json \<Rightarrow> 'db world_state \<Rightarrow> bool" where
  "ws_inv R J w \<longleftrightarrow> hm_wf (ws_account_cache w) \<and> hm_wf (ws_dirty_accounts w) \<and>
     (\<forall>a x. map_of (ws_dirty_accounts w) a = Some x \<longrightarrow> map_of (ws_account_cache w) a = Some x) \<and>
     (\<forall>a x. map_of (ws_account_cache w) a = Some x \<longrightarrow> map_of (ws_dirty_accounts w) a = None \<longrightarrow>
        db_account R J (ws_db w) a = Inr (Some x))"

lemma ws_inv_wf:
  "ws_inv R J w \<Longrightarrow> hm_wf (ws_account_cache w)" "ws_inv R J w \<Longrightarrow> hm_wf (ws_dirty_accounts w)"
  unfolding ws_inv_def by blast+

lemma ws_inv_dirty:
  "ws_inv R J w \<Longrightarrow> map_of (ws_dirty_accounts w) a = Some x \<Longrightarrow> map_of (ws_account_cache w) a = Some x"
  unfolding ws_inv_def by blast

lemma ws_inv_clean:
  "ws_inv R J w \<Longrightarrow> map_of (ws_account_cache w) a = Some x \<Longrightarrow>
   map_of (ws_dirty_accounts w) a = None \<Longrightarrow> db_account R J (ws_db w) a = Inr (Some x)"
  unfolding ws_inv_def by blast

lemma ws_inv_new: "ws_inv R J (ws_new db)"
  by (simp add: ws_inv_def ws_new_def)

lemma db_account_eq:
  "db_account R J db a =
     (case get_game_state R db (address_bytes a) of
        Inl e \<Rightarrow> Inl (SE_Storage e)
      | Inr None \<Rightarrow> Inr None
      | Inr (Some data) \<Rightarrow>
          (case aj_de J data of Inl e \<Rightarrow> Inl (SE_Serialization e) | Inr acc \<Rightarrow> Inr (Some acc)))"
  by (simp add: db_account_def ws_get_account_def ws_new_def split: sum.splits option.splits)

lemma ws_read_eq:
  assumes "ws_inv R J w"
  shows "ws_read R J w a =
    (case map_of (ws_account_cache w) a of Some x \<Rightarrow> Inr (Some x) | None \<Rightarrow> db_account R J (ws_db w) a)"
proof (cases "map_of (ws_account_cache w) a")
  case None
  then have "map_of (ws_dirty_accounts w) a = None"
    using ws_inv_dirty[OF assms, of a] by (cases "map_of (ws_dirty_accounts w) a") auto
  with None show ?thesis
    by (simp add: ws_read_def ws_get_account_def db_account_eq split: sum.splits option.splits)
qed (simp add: ws_read_def ws_get_account_def)

lemma ws_get_account_cases:
  assumes i: "ws_inv R J w"
  obtains (same) "snd (ws_get_account R J a w) = w"
  | (cached) x where "snd (ws_get_account R J a w) =
        w\<lparr>ws_account_cache := AList.update a x (ws_account_cache w)\<rparr>"
      "map_of (ws_account_cache w) a = None" "map_of (ws_dirty_accounts w) a = None"
      "db_account R J (ws_db w) a = Inr (Some x)" "fst (ws_get_account R J a w) = Inr (Some x)"
proof (cases "snd (ws_get_account R J a w) = w")
  case False
  then show ?thesis
    using cached by (simp add: ws_get_account_def db_account_eq split: sum.splits option.splits)
qed (rule same)

lemma ws_get_account_inv:
  assumes i: "ws_inv R J w"
  shows "ws_inv R J (snd (ws_get_account R J a w))"
    and "ws_read R J (snd (ws_get_account R J a w)) b = ws_read R J w b"
    and "ws_db (snd (ws_get_account R J a w)) = ws_db w"
proof -
  let ?w = "snd (ws_get_account R J a w)"
  have "ws_inv R J ?w \<and> ws_read R J ?w b = ws_read R J w b \<and> ws_db ?w = ws_db w"
    using i
  proof (cases rule: ws_get_account_cases[where a = a])
    case (cached x)
    have iw: "ws_inv R J ?w"
      using i cached ws_inv_wf[OF i] unfolding ws_inv_def cached(1)
      by (auto simp: hm_update_get hm_update_wf simp del: map_of_eq_Some_iff)
    then show ?thesis
      using cached i by (simp add: ws_read_eq hm_update_get cong: option.case_cong)
  qed (use i in simp)
  then show "ws_inv R J ?w" "ws_read R J ?w b = ws_read R J w b" "ws_db ?w = ws_db w"
    by simp_all
qed

lemma ws_put_account_inv:
  assumes i: "ws_inv R J w"
  shows "ws_inv R J (ws_put_account a acc w)"
    and "ws_read R J (ws_put_account a acc w) b = (if b = a then Inr (Some acc) else ws_read R J w b)"
    and "ws_db (ws_put_account a acc w) = ws_db w"
proof -
  show iw: "ws_inv R J (ws_put_account a acc w)"
    using i ws_inv_wf[OF i] unfolding ws_inv_def ws_put_account_def
    by (simp add: hm_update_get hm_update_wf del: map_of_eq_Some_iff)
  show "ws_read R J (ws_put_account a acc w) b = (if b = a then Inr (Some acc) else ws_read R J w b)"
    unfolding ws_read_eq[OF iw] ws_read_eq[OF i] by (simp add: ws_put_account_def hm_update_get cong: option.case_cong)
qed (simp add: ws_put_account_def)

section \<open>Commit\<close>

lemma put_game_state_get:
  assumes R: "rocks_ok R" and p: "put_game_state R k bs db = (Inr (), db')"
  shows "get_game_state R db' j = (if j = k then Inr (Some bs) else get_game_state R db j)"
proof -
  have p': "put_cf R CF_GAME_STATE k bs db = (Inr (), db')" using p by (simp add: put_game_state_def)
  show ?thesis
    unfolding get_game_state_def get_cf_def
    using put_cf_has[OF p'] by (simp add: writesD[OF writes_put[OF R] p'])
qed

lemma address_bytes_inject [simp]: "address_bytes a = address_bytes b \<longleftrightarrow> a = b"
proof
  assume "address_bytes a = address_bytes b"
  then have "(from_be_bytes (address_bytes a) :: address) = from_be_bytes (address_bytes b)" by simp
  then show "a = b" by (simp add: address_bytes_def from_to_be_bytes)
qed simp

lemma commit_accounts_stores:
  assumes R: "rocks_ok R" and J: "json_ok J"
  shows "commit_accounts R J m db = (Inr (), db') \<Longrightarrow> hm_wf m \<Longrightarrow>
    db_account R J db' a = (case map_of m a of Some x \<Rightarrow> Inr (Some x) | None \<Rightarrow> db_account R J db a)"
proof (induction m arbitrary: db)
  case (Cons kv m)
  obtain b acc where kv: "kv = (b, acc)" by (cases kv)
  obtain bs db1 where s: "aj_ser J acc = Inr bs" "put_game_state R (address_bytes b) bs db = (Inr (), db1)"
    and m: "commit_accounts R J m db1 = (Inr (), db')"
    using Cons.prems(1) unfolding kv by (auto split: sum.splits prod.splits)
  have de: "aj_de J bs = Inr acc" using J s(1) by (simp add: json_ok_def)
  have 1: "db_account R J db1 a = (if a = b then Inr (Some acc) else db_account R J db a)"
    by (simp add: db_account_eq put_game_state_get[OF R s(2)] de)
  have "map_of m b = None"
    using Cons.prems(2) unfolding kv by (simp add: map_of_eq_None_iff)
  then show ?case
    using Cons.IH[OF m] Cons.prems(2) 1 unfolding kv by (auto split: option.split)
qed simp

lemma hm_order_get: "iter_order ord \<Longrightarrow> hm_wf m \<Longrightarrow> map_of (ord m) = map_of m"
  by (subst map_of_inject_set) simp_all

lemma sort_order_eq:
  fixes m :: "('k::linorder \<times> 'v) list"
  assumes "iter_order ord" and "hm_wf m"
  shows "sort_key fst (ord m) = sort_key fst m"
proof (rule sort_key_inj_key_eq)
  show "mset (ord m) = mset (sort_key fst m)" using assms(1) by (simp add: iter_order_def)
  show "inj_on fst (set (ord m))" using assms by (simp add: distinct_map)
qed simp

lemma ws_commit_ok:
  assumes "ws_commit X R J ord w = (Inr root, w')"
  obtains db' where "commit_accounts R J (ord (ws_dirty_accounts w)) (ws_db w) = (Inr (), db')"
    and "w' = w\<lparr>ws_dirty_accounts := [], ws_db := db', ws_state_root := root\<rparr>"
    and "compute_state_root X J ord w = Inr root"
  using assms that
  by (auto simp: ws_commit_def Let_def compute_state_root_def split: sum.splits prod.splits)

lemma ws_commit_inv:
  assumes R: "rocks_ok R" and J: "json_ok J" and o: "iter_order ord" and i: "ws_inv R J w"
    and c: "ws_commit X R J ord w = (Inr root, w')"
  shows "ws_inv R J w'" and "ws_read R J w' a = ws_read R J w a"
    and "db_account R J (ws_db w') a = ws_read R J w a"
proof -
  from c obtain db' where s: "commit_accounts R J (ord (ws_dirty_accounts w)) (ws_db w) = (Inr (), db')"
    and w': "w' = w\<lparr>ws_dirty_accounts := [], ws_db := db', ws_state_root := root\<rparr>"
    by (rule ws_commit_ok)
  note wf = ws_inv_wf[OF i]
  have db: "db_account R J db' b = (case map_of (ws_dirty_accounts w) b of
      Some x \<Rightarrow> Inr (Some x) | None \<Rightarrow> db_account R J (ws_db w) b)" for b
    using commit_accounts_stores[OF R J s] wf o by (simp add: hm_order_get)
  have dba: "db_account R J db' b = ws_read R J w b" for b
    unfolding ws_read_eq[OF i] db
    using ws_inv_dirty[OF i, of b] ws_inv_clean[OF i, of b]
    by (cases "map_of (ws_dirty_accounts w) b"; cases "map_of (ws_account_cache w) b")
      (simp_all del: map_of_eq_Some_iff)
  have cached: "db_account R J db' b = Inr (Some x)" if "map_of (ws_account_cache w) b = Some x" for b x
    unfolding dba ws_read_eq[OF i] that by simp
  show iw: "ws_inv R J w'"
    unfolding ws_inv_def w' using wf cached by simp
  show "ws_read R J w' a = ws_read R J w a"
    unfolding ws_read_eq[OF iw] using dba cached
    by (simp add: w' ws_read_eq[OF i] split: option.split)
  show "db_account R J (ws_db w') a = ws_read R J w a"
    by (simp add: w' dba)
qed

lemma ws_clear_inv:
  "ws_inv R J (ws_clear_cache w)" "ws_read R J (ws_clear_cache w) a = db_account R J (ws_db w) a"
  by (simp_all add: ws_inv_def ws_clear_cache_def ws_read_def db_account_eq ws_get_account_def
      split: sum.split option.split)

section \<open>The reference: two maps\<close>

datatype ws_op =
    WS_Get address
  | WS_Put address account
  | WS_Increment address
  | WS_Add address u256
  | WS_Sub address u256
  | WS_Commit
  | WS_Clear

definition discard :: "(state_error + 'a) \<times> 's \<Rightarrow> (state_error + account option) \<times> 's" where
  "discard rs = (case rs of (Inl e, s) \<Rightarrow> (Inl e, s) | (Inr _, s) \<Rightarrow> (Inr None, s))"

fun ws_exec ::
  "externs \<Rightarrow> 'db rocks \<Rightarrow> account_json \<Rightarrow> (account_map \<Rightarrow> account_map) \<Rightarrow> ws_op \<Rightarrow> 'db world_state
     \<Rightarrow> (state_error + account option) \<times> 'db world_state" where
  "ws_exec X R J ord (WS_Get a) w = ws_get_account R J a w"
| "ws_exec X R J ord (WS_Put a acc) w = (Inr None, ws_put_account a acc w)"
| "ws_exec X R J ord (WS_Increment a) w = discard (ws_increment_nonce R J a w)"
| "ws_exec X R J ord (WS_Add a x) w = discard (ws_add_balance R J a x w)"
| "ws_exec X R J ord (WS_Sub a x) w = discard (ws_sub_balance R J a x w)"
| "ws_exec X R J ord WS_Commit w = discard (ws_commit X R J ord w)"
| "ws_exec X R J ord WS_Clear w = (Inr None, ws_clear_cache w)"

text \<open>The accounts as last written, and as last committed.\<close>

record acct_spec =
  sp_live :: "address \<Rightarrow> account option"
  sp_stored :: "address \<Rightarrow> account option"

definition sp_account :: "acct_spec \<Rightarrow> address \<Rightarrow> account" where
  "sp_account s a = (case sp_live s a of None \<Rightarrow> account_default | Some acc \<Rightarrow> acc)"

definition sp_write :: "address \<Rightarrow> account \<Rightarrow> acct_spec \<Rightarrow> acct_spec" where
  "sp_write a acc s = s\<lparr>sp_live := (sp_live s)(a \<mapsto> acc)\<rparr>"

fun sp_exec :: "ws_op \<Rightarrow> acct_spec \<Rightarrow> (state_error + account option) \<times> acct_spec" where
  "sp_exec (WS_Get a) s = (Inr (sp_live s a), s)"
| "sp_exec (WS_Put a acc) s = (Inr None, sp_write a acc s)"
| "sp_exec (WS_Increment a) s =
     (Inr None, sp_write a ((sp_account s a)\<lparr>ac_nonce := ac_nonce (sp_account s a) + 1\<rparr>) s)"
| "sp_exec (WS_Add a x) s =
     (let b = ac_balance (sp_account s a) in
      if 2 ^ 256 \<le> unat b + unat x then (Inl (SE_InvalidTransition ''Balance overflow''), s)
      else (Inr None, sp_write a ((sp_account s a)\<lparr>ac_balance := b + x\<rparr>) s))"
| "sp_exec (WS_Sub a x) s =
     (let b = ac_balance (sp_account s a) in
      if b < x then (Inl (SE_InsufficientBalance b x), s)
      else (Inr None, sp_write a ((sp_account s a)\<lparr>ac_balance := b - x\<rparr>) s))"
| "sp_exec WS_Commit s = (Inr None, s\<lparr>sp_stored := sp_live s\<rparr>)"
| "sp_exec WS_Clear s = (Inr None, s\<lparr>sp_live := sp_stored s\<rparr>)"

definition ws_sim :: "'db rocks \<Rightarrow> account_json \<Rightarrow> 'db world_state \<Rightarrow> acct_spec \<Rightarrow> bool" where
  "ws_sim R J w s \<longleftrightarrow> ws_inv R J w \<and> (\<forall>a. ws_read R J w a = Inr (sp_live s a))
     \<and> (\<forall>a. db_account R J (ws_db w) a = Inr (sp_stored s a))"

lemma ws_simD:
  "ws_sim R J w s \<Longrightarrow> ws_inv R J w"
  "ws_sim R J w s \<Longrightarrow> ws_read R J w a = Inr (sp_live s a)"
  "ws_sim R J w s \<Longrightarrow> db_account R J (ws_db w) a = Inr (sp_stored s a)"
  unfolding ws_sim_def by blast+

lemma sim_get:
  assumes "ws_sim R J w s"
  shows "fst (ws_get_account R J a w) = Inr (sp_live s a)"
    and "ws_sim R J (snd (ws_get_account R J a w)) s"
  using ws_simD[OF assms] ws_get_account_inv[of R J w]
  by (simp_all add: ws_sim_def ws_read_def[symmetric])

lemma sim_get_or_create:
  assumes "ws_sim R J w s"
  obtains w' where "ws_get_or_create R J a w = (Inr (sp_account s a), w')" "ws_sim R J w' s"
proof -
  obtain r w' where g: "ws_get_account R J a w = (r, w')" by (cases "ws_get_account R J a w")
  have "r = Inr (sp_live s a)" "ws_sim R J w' s" using sim_get[OF assms, of a] g by simp_all
  then show thesis
    using that g by (cases "sp_live s a") (simp_all add: ws_get_or_create_def sp_account_def)
qed

lemma sim_put: "ws_sim R J w s \<Longrightarrow> ws_sim R J (ws_put_account a acc w) (sp_write a acc s)"
  using ws_put_account_inv[of R J w a acc] unfolding ws_sim_def sp_write_def by simp

lemma checked_add_eq:
  "checked_add (b :: u256) x = (if 2 ^ 256 \<le> unat b + unat x then None else Some (b + x))"
  by (simp add: checked_add_def no_olen_add_nat not_less)

lemma ws_step_sim:
  assumes R: "rocks_ok R" and J: "json_ok J" and o: "iter_order ord" and s: "ws_sim R J w s"
    and x: "ws_exec X R J ord x w = (r, w')" and ok: "x = WS_Commit \<longrightarrow> \<not> isl r"
  shows "fst (sp_exec x s) = r \<and> ws_sim R J w' (snd (sp_exec x s))"
proof (cases x)
  case (WS_Get a)
  then show ?thesis using x sim_get[OF s, of a] by simp
next
  case (WS_Put a acc)
  then show ?thesis using x sim_put[OF s] by auto
next
  case (WS_Increment a)
  obtain w1 where "ws_get_or_create R J a w = (Inr (sp_account s a), w1)" "ws_sim R J w1 s"
    using sim_get_or_create[OF s] .
  then show ?thesis using x sim_put WS_Increment by (auto simp: ws_increment_nonce_def discard_def)
next
  case (WS_Add a y)
  obtain w1 where "ws_get_or_create R J a w = (Inr (sp_account s a), w1)" "ws_sim R J w1 s"
    using sim_get_or_create[OF s] .
  then show ?thesis using x sim_put WS_Add
    by (auto simp: ws_add_balance_def discard_def checked_add_eq Let_def split: if_splits)
next
  case (WS_Sub a y)
  obtain w1 where "ws_get_or_create R J a w = (Inr (sp_account s a), w1)" "ws_sim R J w1 s"
    using sim_get_or_create[OF s] .
  then show ?thesis using x sim_put WS_Sub
    by (auto simp: ws_sub_balance_def discard_def Let_def split: if_splits)
next
  case WS_Commit
  obtain root where c: "ws_commit X R J ord w = (Inr root, w')" and r: "r = Inr None"
    using x ok WS_Commit by (auto simp: discard_def split: prod.splits sum.splits)
  have "ws_sim R J w' (s\<lparr>sp_stored := sp_live s\<rparr>)"
    unfolding ws_sim_def
    using ws_commit_inv[OF R J o ws_simD(1)[OF s] c] ws_simD(2)[OF s] by simp
  then show ?thesis using WS_Commit r by simp
next
  case WS_Clear
  then show ?thesis using x ws_clear_inv[of R J w] ws_simD(3)[OF s]
    by (auto simp: ws_sim_def ws_clear_cache_def)
qed

lemma ws_run_sim:
  assumes R: "rocks_ok R" and J: "json_ok J" and o: "iter_order ord"
  shows "ws_sim R J w s \<Longrightarrow> run_results (ws_exec X R J ord) xs w = (rs, w') \<Longrightarrow>
    (\<forall>(x, r) \<in> set (zip xs rs). x = WS_Commit \<longrightarrow> \<not> isl r) \<Longrightarrow>
    fst (run_results sp_exec xs s) = rs \<and> ws_sim R J w' (snd (run_results sp_exec xs s))"
proof (induction xs arbitrary: w s rs)
  case (Cons x xs)
  obtain r w1 where e: "ws_exec X R J ord x w = (r, w1)" by (cases "ws_exec X R J ord x w")
  obtain rs1 where rs: "run_results (ws_exec X R J ord) xs w1 = (rs1, w')" "rs = r # rs1"
    using Cons.prems(2) e by (auto split: prod.splits)
  have "fst (sp_exec x s) = r \<and> ws_sim R J w1 (snd (sp_exec x s))"
    by (rule ws_step_sim[OF R J o Cons.prems(1) e]) (use Cons.prems(3) rs in auto)
  with Cons.IH[OF _ rs(1)] Cons.prems(3) rs(2) show ?case
    by (auto simp: Let_def case_prod_beta)
qed auto

text \<open>C4. The cache, the dirty set and the database together are a map of accounts: from a
  database that can be read, every operation of the state returns what the reference returns,
  and after any run reads see the accounts as last written and the database those last
  committed, provided no commit failed.\<close>

theorem ws_refines_spec:
  assumes "rocks_ok R" and "json_ok J" and "iter_order ord"
    and "\<forall>a. db_account R J db a = Inr (f a)"
    and "run_results (ws_exec X R J ord) xs (ws_new db) = (rs, w')"
    and "\<forall>(x, r) \<in> set (zip xs rs). x = WS_Commit \<longrightarrow> \<not> isl r"
  shows "\<exists>s. run_results sp_exec xs \<lparr> sp_live = f, sp_stored = f \<rparr> = (rs, s)
    \<and> (\<forall>a. ws_read R J w' a = Inr (sp_live s a)) \<and> (\<forall>a. db_account R J (ws_db w') a = Inr (sp_stored s a))"
proof -
  have "ws_sim R J (ws_new db) \<lparr> sp_live = f, sp_stored = f \<rparr>"
    using assms(4) ws_inv_new[of R J db] by (simp add: ws_sim_def ws_read_eq) (simp add: ws_new_def)
  from ws_run_sim[OF assms(1-3) this assms(5,6)] show ?thesis
    by (metis prod.collapse ws_simD(2,3))
qed

section \<open>The state root\<close>

lemma compute_state_root_order:
  assumes "iter_order ord" and "iter_order ord'" and "hm_wf (ws_account_cache w)"
  shows "compute_state_root X J ord w = compute_state_root X J ord' w"
  using assms by (simp add: compute_state_root_def sort_order_eq)

text \<open>The root covers the accounts that happen to be cached, not the accounts: after an account was
  merely read the same commit hashes that account too, at its place in the order of the addresses.\<close>

lemma root_input_append:
  "root_input J (us @ vs) = (case root_input J us of Inl e \<Rightarrow> Inl e
     | Inr bs \<Rightarrow> (case root_input J vs of Inl e \<Rightarrow> Inl e | Inr bs' \<Rightarrow> Inr (bs @ bs')))"
  by (induction us) (auto split: sum.splits prod.splits)

lemma update_absent: "map_of m a = None \<Longrightarrow> AList.update a x m = m @ [(a, x)]"
  by (induction m) (auto split: if_splits)

lemma insort_split: "\<exists>us vs. xs = us @ vs \<and> insort_key f x xs = us @ x # vs"
proof (induction xs)
  case (Cons y ys)
  then obtain us vs where "ys = us @ vs" "insort_key f x ys = us @ x # vs" by blast
  then show ?case
    by (cases "f x \<le> f y") (auto intro: exI[of _ "[]"] exI[of _ "y # us"] simp: Cons_eq_append_conv)
qed simp

lemma root_of_reads:
  assumes w: "hm_wf (ws_account_cache w)" and o: "iter_order ord"
    and a: "map_of (ws_account_cache w) a = None" "map_of (ws_dirty_accounts w) a = None"
    and d: "db_account R J (ws_db w) a = Inr (Some acc)" and ser: "aj_ser J acc = Inr bs"
    and c: "ws_commit X R J ord w = (Inr root, w1)"
  shows "\<exists>xs ys w2. root_input J (sort_key fst (ws_account_cache w)) = Inr (xs @ ys) \<and> root = x_keccak X (xs @ ys)
    \<and> ws_commit X R J ord (snd (ws_get_account R J a w)) = (Inr (x_keccak X (xs @ address_bytes a @ bs @ ys)), w2)
    \<and> ws_db w2 = ws_db w1"
proof -
  let ?c = "ws_account_cache w"
  obtain data where "get_game_state R (ws_db w) (address_bytes a) = Inr (Some data)" and "aj_de J data = Inr acc"
    using d by (auto simp: db_account_eq split: sum.splits option.splits)
  then have r: "snd (ws_get_account R J a w) = w\<lparr>ws_account_cache := AList.update a acc ?c\<rparr>"
    using a by (simp add: ws_get_account_def)
  have u: "AList.update a acc ?c = ?c @ [(a, acc)]" by (rule update_absent[OF a(1)])
  have wf: "hm_wf ((a, acc) # ?c)" using w a(1) by (simp add: map_of_eq_None_iff)
  then have "hm_wf (?c @ [(a, acc)])" by auto
  then have "sort_key fst (ord (?c @ [(a, acc)])) = sort_key fst (?c @ [(a, acc)])" by (rule sort_order_eq[OF o])
  also have "\<dots> = sort_key fst ((a, acc) # ?c)"
  proof -
    have "mset (rotate1 xs) = mset xs" for xs :: "(address \<times> account) list" by (cases xs) simp_all
    then show ?thesis using sort_order_eq[OF _ wf, of rotate1] by (simp add: iter_order_def)
  qed
  also have "\<dots> = insort_key fst (a, acc) (sort_key fst ?c)" by simp
  finally have s: "sort_key fst (ord (?c @ [(a, acc)])) = insort_key fst (a, acc) (sort_key fst ?c)" .
  obtain us vs where uv: "sort_key fst ?c = us @ vs" "insort_key fst (a, acc) (sort_key fst ?c) = us @ (a, acc) # vs"
    using insort_split by metis
  obtain db' where db: "commit_accounts R J (ord (ws_dirty_accounts w)) (ws_db w) = (Inr (), db')"
    and root: "compute_state_root X J ord (w\<lparr>ws_dirty_accounts := [], ws_db := db'\<rparr>) = Inr root" and w1: "ws_db w1 = db'"
    using c by (auto simp: ws_commit_def Let_def split: sum.splits prod.splits)
  obtain xs ys where x: "root_input J us = Inr xs" "root_input J vs = Inr ys" "root = x_keccak X (xs @ ys)"
    using root by (auto simp: compute_state_root_def sort_order_eq[OF o w] uv(1) root_input_append split: sum.splits)
  let ?K = "x_keccak X (xs @ address_bytes a @ bs @ ys)"
  have k: "compute_state_root X J ord v = Inr ?K" if "ws_account_cache v = ?c @ [(a, acc)]" for v :: "'a world_state"
    using x by (simp add: compute_state_root_def that s uv(2) root_input_append ser)
  have "fst (ws_commit X R J ord (w\<lparr>ws_account_cache := ?c @ [(a, acc)]\<rparr>)) = Inr ?K
    \<and> ws_db (snd (ws_commit X R J ord (w\<lparr>ws_account_cache := ?c @ [(a, acc)]\<rparr>))) = ws_db w1"
    by (simp add: ws_commit_def Let_def db k w1)
  then obtain w2 where "ws_commit X R J ord (w\<lparr>ws_account_cache := ?c @ [(a, acc)]\<rparr>) = (Inr ?K, w2)" "ws_db w2 = ws_db w1"
    by (metis prod.collapse)
  moreover have "root_input J (sort_key fst ?c) = Inr (xs @ ys)" using x by (simp add: uv(1) root_input_append)
  ultimately show ?thesis using x(3) unfolding r u by blast
qed

section \<open>A concrete instance\<close>

definition demo_json :: account_json where
  "demo_json = \<lparr>
     aj_ser = (\<lambda>a. Inr (to_be_bytes 8 (ac_nonce a) @ to_be_bytes 32 (ac_balance a)
       @ to_be_bytes 32 (ac_code_hash a) @ to_be_bytes 32 (ac_storage_root a))),
     aj_de = (\<lambda>bs. Inr \<lparr> ac_nonce = from_be_bytes (take 8 bs), ac_balance = from_be_bytes (take 32 (drop 8 bs)),
       ac_code_hash = from_be_bytes (take 32 (drop 40 bs)), ac_storage_root = from_be_bytes (drop 72 bs) \<rparr>) \<rparr>"

lemma demo_json_ok: "json_ok demo_json"
  by (auto simp: json_ok_def demo_json_def from_to_be_bytes)

abbreviation empty_db :: contents where
  "empty_db \<equiv> (\<lambda>_ _. Inr None)"

lemma demo_commit_accounts: "\<exists>db'. commit_accounts demo_rocks demo_json m db = (Inr (), db')"
proof (induction m arbitrary: db)
  case (Cons kv m)
  obtain a acc where kv: "kv = (a, acc)" by (cases kv)
  obtain bs where "aj_ser demo_json acc = Inr bs" by (simp add: demo_json_def)
  with Cons show ?case
    unfolding kv by (simp add: put_game_state_def demo_put_cf del: batch_step.simps)
qed simp

lemma demo_root_input: "\<exists>bs. root_input demo_json m = Inr bs"
  by (induction demo_json m rule: root_input.induct) (auto, auto simp: demo_json_def)

lemma demo_commit_exec: "\<not> isl (fst (ws_exec X demo_rocks demo_json ord WS_Commit w))"
proof -
  obtain db' where "commit_accounts demo_rocks demo_json (ord (ws_dirty_accounts w)) (ws_db w) = (Inr (), db')"
    using demo_commit_accounts by blast
  moreover obtain bs where "root_input demo_json (sort_key fst (ord (ws_account_cache w))) = Inr bs"
    using demo_root_input by blast
  ultimately show ?thesis
    by (simp add: ws_commit_def Let_def compute_state_root_def discard_def)
qed

lemma demo_commits:
  "\<forall>(x, r) \<in> set (zip xs (fst (run_results (ws_exec X demo_rocks demo_json ord) xs w))). x = WS_Commit \<longrightarrow> \<not> isl r"
proof (induction xs arbitrary: w)
  case (Cons x xs)
  have "x = WS_Commit \<longrightarrow> \<not> isl (fst (ws_exec X demo_rocks demo_json ord x w))"
    using demo_commit_exec by blast
  with Cons[of "snd (ws_exec X demo_rocks demo_json ord x w)"] show ?case
    by (simp add: Let_def case_prod_beta del: ws_exec.simps)
qed simp

lemma demo_empty_accounts: "db_account demo_rocks demo_json empty_db a = Inr None"
  by (simp add: db_account_eq get_game_state_def get_cf_def demo_rocks_def)

theorem ws_refines_spec_witness:
  "fst (run_results (ws_exec demo_externs demo_rocks demo_json rev)
     [WS_Add 1 100, WS_Increment 2, WS_Commit, WS_Sub 1 40, WS_Sub 1 100, WS_Clear, WS_Get 1, WS_Get 3] (ws_new empty_db))
   = [Inr None, Inr None, Inr None, Inr None, Inl (SE_InsufficientBalance 60 100), Inr None,
      Inr (Some (with_balance 100)), Inr None]"
proof -
  let ?xs = "[WS_Add 1 100, WS_Increment 2, WS_Commit, WS_Sub 1 40, WS_Sub 1 100, WS_Clear, WS_Get 1, WS_Get 3]"
  let ?run = "run_results (ws_exec demo_externs demo_rocks demo_json rev) ?xs (ws_new empty_db)"
  have "\<exists>s. run_results sp_exec ?xs \<lparr> sp_live = \<lambda>_. None, sp_stored = \<lambda>_. None \<rparr> = (fst ?run, s)"
    using ws_refines_spec[OF demo_rocks_ok demo_json_ok iter_order_rev _ prod.collapse[symmetric] demo_commits,
      of empty_db "\<lambda>_. None" ?xs demo_externs] demo_empty_accounts by blast
  then show ?thesis
    by (auto simp del: ws_exec.simps simp: Let_def sp_write_def sp_account_def account_default_def with_balance_def)
qed

end
