(* ===== verification/Evm_Executor.thy ===== *)
theory Evm_Executor
  imports World_State
begin

text \<open>
  The EVM executor, \<open>crates/evm/src/executor.rs\<close>. \<open>revm\<close> is third-party: the
  record \<open>revm\<close> has its database (\<open>CacheDB\<close>), with insertion, the accounts it
  holds in iteration order, and a transaction run with or without commit. What the executor adds
  to it - what it sends, how it reads the result, how accounts move between the EVM and the
  world state - is modelled here.
\<close>

section \<open>Data\<close>

datatype evm_error =
    EE_Revert string
  | EE_Halt string
  | EE_OutOfGas u64 u64
  | EE_InvalidTransaction string
  | EE_State string
  | EE_Internal string

record account_info =
  ai_balance :: u256
  ai_nonce :: u64
  ai_code_hash :: b256
  ai_code :: "bytes option"

record evm_log =
  el_address :: address
  el_topics :: "b256 list"
  el_data :: bytes

record execution_outcome =
  eo_success :: bool
  eo_gas_used :: u64
  eo_output :: bytes
  eo_logs :: "evm_log list"
  eo_contract_address :: "address option"

datatype tx_target = TT_Call address | TT_Create

record tx_env =
  te_caller :: address
  te_transact_to :: tx_target
  te_amount :: u256
  te_data :: bytes
  te_gas_limit :: u64
  te_gas_price :: u256
  te_nonce :: "u64 option"
  te_chain_id :: "u64 option"

datatype evm_output = EO_Call bytes | EO_Create bytes "address option"

datatype exec_result =
    ER_Success u64 evm_output "evm_log list"
  | ER_Revert u64 bytes
  | ER_Halt u64

text \<open>The first argument of a run is the chain id of the configuration.\<close>

record 'e revm =
  rv_empty :: 'e
  rv_insert :: "address \<Rightarrow> account_info \<Rightarrow> 'e \<Rightarrow> 'e"
  rv_accounts :: "'e \<Rightarrow> (address \<times> account_info) list"
  rv_transact_commit :: "u64 \<Rightarrow> tx_env \<Rightarrow> 'e \<Rightarrow> (string + exec_result) \<times> 'e"
  rv_transact :: "u64 \<Rightarrow> tx_env \<Rightarrow> 'e \<Rightarrow> string + exec_result"

text \<open>A run that returns an error changes no balance or nonce of an account it held (it may come to
  hold accounts it looked up); an inserted account is the one held, on its address only, with the
  nonce and the balance it was given; an address is held once.\<close>

definition revm_ok :: "'e revm \<Rightarrow> bool" where
  "revm_ok V \<longleftrightarrow>
     (\<forall>c t db e db' a i. rv_transact_commit V c t db = (Inl e, db') \<longrightarrow> map_of (rv_accounts V db) a = Some i \<longrightarrow>
        (\<exists>j. map_of (rv_accounts V db') a = Some j \<and> (ai_balance j, ai_nonce j) = (ai_balance i, ai_nonce i))) \<and>
     (\<forall>db. hm_wf (rv_accounts V db)) \<and>
     rv_accounts V (rv_empty V) = [] \<and>
     (\<forall>a i db b. map_option (\<lambda>x. (ai_balance x, ai_nonce x)) (map_of (rv_accounts V (rv_insert V a i db)) b)
        = (if b = a then Some (ai_balance i, ai_nonce i)
           else map_option (\<lambda>x. (ai_balance x, ai_nonce x)) (map_of (rv_accounts V db) b)))"

record 'e evm_executor =
  ex_chain_id :: u64
  ex_db :: 'e

section \<open>Operations\<close>

definition evm_new :: "'e revm \<Rightarrow> u64 \<Rightarrow> 'e evm_executor" where
  "evm_new V chain_id = \<lparr> ex_chain_id = chain_id, ex_db = rv_empty V \<rparr>"

definition evm_set_balance :: "'e revm \<Rightarrow> address \<Rightarrow> u256 \<Rightarrow> 'e evm_executor \<Rightarrow> 'e evm_executor" where
  "evm_set_balance V a b e =
     e\<lparr>ex_db := rv_insert V a \<lparr> ai_balance = b, ai_nonce = 0, ai_code_hash = 0, ai_code = None \<rparr> (ex_db e)\<rparr>"

definition evm_set_code :: "externs \<Rightarrow> 'e revm \<Rightarrow> address \<Rightarrow> bytes \<Rightarrow> 'e evm_executor \<Rightarrow> 'e evm_executor" where
  "evm_set_code X V a code e =
     e\<lparr>ex_db := rv_insert V a \<lparr> ai_balance = 0, ai_nonce = 1, ai_code_hash = x_keccak X code,
                               ai_code = Some code \<rparr> (ex_db e)\<rparr>"

definition outcome_of :: "exec_result \<Rightarrow> evm_error + execution_outcome" where
  "outcome_of r =
     (case r of
        ER_Success gas out logs \<Rightarrow>
          let (data, addr) = (case out of EO_Call d \<Rightarrow> (d, None) | EO_Create d a \<Rightarrow> (d, a)) in
          Inr \<lparr> eo_success = True, eo_gas_used = gas, eo_output = data, eo_logs = logs,
                eo_contract_address = addr \<rparr>
      | ER_Revert gas data \<Rightarrow>
          Inr \<lparr> eo_success = False, eo_gas_used = gas, eo_output = data, eo_logs = [],
                eo_contract_address = None \<rparr>
      | ER_Halt gas \<Rightarrow> Inl (EE_Halt ''halted''))"

definition target_of :: "address option \<Rightarrow> tx_target" where
  "target_of to = (case to of Some a \<Rightarrow> TT_Call a | None \<Rightarrow> TT_Create)"

definition execute_tx ::
  "externs \<Rightarrow> 'e revm \<Rightarrow> signed_transaction \<Rightarrow> 'e evm_executor
     \<Rightarrow> (evm_error + execution_outcome) \<times> 'e evm_executor" where
  "execute_tx X V st e =
     (if is_game_action st
      then (Inl (EE_InvalidTransaction ''Game actions are not executed through EVM''), e)
      else case tx_sender X st of
        Inl err \<Rightarrow> (Inl (EE_InvalidTransaction ''Failed to recover sender''), e)
      | Inr sender \<Rightarrow>
          let tx = st_transaction st;
              env = \<lparr> te_caller = sender, te_transact_to = target_of (tx_to tx), te_amount = tx_amount tx,
                      te_data = tx_input tx, te_gas_limit = tx_gas_limit tx,
                      te_gas_price = (case tx_gas_price tx of Some p \<Rightarrow> ucast p | None \<Rightarrow> 0),
                      te_nonce = Some (tx_nonce tx), te_chain_id = Some (tx_chain_id tx) \<rparr>
          in (case rv_transact_commit V (ex_chain_id e) env (ex_db e) of
                (Inl err, db') \<Rightarrow> (Inl (EE_Internal err), e\<lparr>ex_db := db'\<rparr>)
              | (Inr r, db') \<Rightarrow> (outcome_of r, e\<lparr>ex_db := db'\<rparr>)))"

definition load_account ::
  "'db rocks \<Rightarrow> account_json \<Rightarrow> 'e revm \<Rightarrow> address \<Rightarrow> 'e evm_executor \<times> 'db world_state
     \<Rightarrow> 'e evm_executor \<times> 'db world_state" where
  "load_account R J V a ew =
     (case ew of (e, w) \<Rightarrow>
       (case ws_get_account R J a w of
          (Inr (Some acc), w') \<Rightarrow>
            (e\<lparr>ex_db := rv_insert V a \<lparr> ai_balance = ac_balance acc, ai_nonce = ac_nonce acc,
                                       ai_code_hash = 0, ai_code = None \<rparr> (ex_db e)\<rparr>, w')
        | (_, w') \<Rightarrow> (e, w')))"

fun flush_accounts ::
  "'db rocks \<Rightarrow> account_json \<Rightarrow> (address \<times> account_info) list \<Rightarrow> 'db world_state
     \<Rightarrow> (evm_error + unit) \<times> 'db world_state" where
  "flush_accounts R J [] w = (Inr (), w)"
| "flush_accounts R J ((a, i) # rest) w =
     (case ws_get_or_create R J a w of
        (Inl e, w') \<Rightarrow> (Inl (EE_Internal ''State read error''), w')
      | (Inr acc, w') \<Rightarrow>
          flush_accounts R J rest
            (ws_put_account a (acc\<lparr>ac_balance := ai_balance i, ac_nonce := ai_nonce i\<rparr>) w'))"

definition flush_to_state ::
  "'db rocks \<Rightarrow> account_json \<Rightarrow> 'e revm \<Rightarrow> 'e evm_executor \<Rightarrow> 'db world_state
     \<Rightarrow> (evm_error + unit) \<times> 'db world_state" where
  "flush_to_state R J V e w = flush_accounts R J (rv_accounts V (ex_db e)) w"

definition evm_reset :: "'e revm \<Rightarrow> 'e evm_executor \<Rightarrow> 'e evm_executor" where
  "evm_reset V e = e\<lparr>ex_db := rv_empty V\<rparr>"

definition evm_get_balance :: "'e revm \<Rightarrow> 'e evm_executor \<Rightarrow> address \<Rightarrow> u256" where
  "evm_get_balance V e a = (case map_of (rv_accounts V (ex_db e)) a of Some i \<Rightarrow> ai_balance i | None \<Rightarrow> 0)"

definition evm_get_nonce :: "'e revm \<Rightarrow> 'e evm_executor \<Rightarrow> address \<Rightarrow> u64" where
  "evm_get_nonce V e a = (case map_of (rv_accounts V (ex_db e)) a of Some i \<Rightarrow> ai_nonce i | None \<Rightarrow> 0)"

definition evm_get_code :: "'e revm \<Rightarrow> 'e evm_executor \<Rightarrow> address \<Rightarrow> bytes" where
  "evm_get_code V e a =
     (case map_of (rv_accounts V (ex_db e)) a of
        Some i \<Rightarrow> (case ai_code i of Some c \<Rightarrow> c | None \<Rightarrow> [])
      | None \<Rightarrow> [])"

definition simulate_call ::
  "'e revm \<Rightarrow> 'e evm_executor \<Rightarrow> address \<Rightarrow> address option \<Rightarrow> u256 \<Rightarrow> bytes \<Rightarrow> u64 \<Rightarrow> evm_error + execution_outcome" where
  "simulate_call V e from to amount data gas_limit =
     (let env = \<lparr> te_caller = from, te_transact_to = target_of to, te_amount = amount, te_data = data,
                  te_gas_limit = gas_limit, te_gas_price = 0, te_nonce = None,
                  te_chain_id = Some (ex_chain_id e) \<rparr>
      in case rv_transact V (ex_chain_id e) env (ex_db e) of
           Inl err \<Rightarrow> Inl (EE_Internal err)
         | Inr r \<Rightarrow> outcome_of r)"

definition estimate_gas ::
  "'e revm \<Rightarrow> 'e evm_executor \<Rightarrow> address \<Rightarrow> address option \<Rightarrow> u256 \<Rightarrow> bytes \<Rightarrow> evm_error + u64" where
  "estimate_gas V e from to amount data =
     (case simulate_call V e from to amount data 30000000 of
        Inl err \<Rightarrow> Inl err
      | Inr r \<Rightarrow> Inr (max (eo_gas_used r + eo_gas_used r div 5) 21000))"

section \<open>Flushing overwrites balance and nonce\<close>

definition info_pair :: "account_info \<Rightarrow> u256 \<times> u64" where
  "info_pair i = (ai_balance i, ai_nonce i)"

definition account_pair :: "account option \<Rightarrow> u256 \<times> u64" where
  "account_pair a = (case a of None \<Rightarrow> (0, 0) | Some acc \<Rightarrow> (ac_balance acc, ac_nonce acc))"

definition ws_readable :: "'db rocks \<Rightarrow> account_json \<Rightarrow> 'db world_state \<Rightarrow> bool" where
  "ws_readable R J w \<longleftrightarrow> (\<exists>s. ws_sim R J w s)"

lemma ws_readable_iff:
  "ws_readable R J w \<longleftrightarrow> ws_inv R J w \<and> (\<forall>a. \<not> isl (db_account R J (ws_db w) a))"
proof
  assume "ws_readable R J w"
  then show "ws_inv R J w \<and> (\<forall>a. \<not> isl (db_account R J (ws_db w) a))"
    unfolding ws_readable_def by (auto simp: ws_simD)
next
  assume a: "ws_inv R J w \<and> (\<forall>a. \<not> isl (db_account R J (ws_db w) a))"
  then have d: "db_account R J (ws_db w) a = Inr (projr (db_account R J (ws_db w) a))" for a
    by (simp add: sum.collapse(2))
  then have "ws_read R J w a = Inr (projr (ws_read R J w a))" for a
    using a by (simp add: ws_read_eq split: option.split)
  with d a have "ws_sim R J w \<lparr> sp_live = \<lambda>a. projr (ws_read R J w a), sp_stored = \<lambda>a. projr (db_account R J (ws_db w) a) \<rparr>"
    unfolding ws_sim_def by simp
  then show "ws_readable R J w" unfolding ws_readable_def by blast
qed

lemma flush_accounts_sim:
  "hm_wf m \<Longrightarrow> ws_sim R J w s \<Longrightarrow>
   \<exists>w' s'. flush_accounts R J m w = (Inr (), w') \<and> ws_sim R J w' s' \<and> sp_stored s' = sp_stored s \<and>
     (\<forall>a. case map_of m a of
            Some i \<Rightarrow> account_pair (sp_live s' a) = info_pair i
          | None \<Rightarrow> sp_live s' a = sp_live s a)"
proof (induction m arbitrary: w s)
  case (Cons ai m)
  obtain a i where ai: "ai = (a, i)" by (cases ai)
  obtain w1 where w1: "ws_get_or_create R J a w = (Inr (sp_account s a), w1)" "ws_sim R J w1 s"
    using sim_get_or_create[OF Cons.prems(2)] .
  let ?acc = "(sp_account s a)\<lparr>ac_balance := ai_balance i, ac_nonce := ai_nonce i\<rparr>"
  have sim: "ws_sim R J (ws_put_account a ?acc w1) (sp_write a ?acc s)" by (rule sim_put[OF w1(2)])
  have a: "map_of m a = None" and wf: "hm_wf m"
    using Cons.prems(1) ai by (simp_all add: map_of_eq_None_iff)
  from Cons.IH[OF wf sim] obtain w' s' where
    1: "flush_accounts R J m (ws_put_account a ?acc w1) = (Inr (), w')" "ws_sim R J w' s'"
       "sp_stored s' = sp_stored (sp_write a ?acc s)" and
    2: "\<forall>b. case map_of m b of Some i \<Rightarrow> account_pair (sp_live s' b) = info_pair i
         | None \<Rightarrow> sp_live s' b = sp_live (sp_write a ?acc s) b" by blast
  have "sp_live s' a = Some ?acc" using 2[rule_format, of a] a by (simp add: sp_write_def)
  moreover have "case map_of m b of Some i \<Rightarrow> account_pair (sp_live s' b) = info_pair i
       | None \<Rightarrow> sp_live s' b = sp_live s b" if "b \<noteq> a" for b
    using 2[rule_format, of b] that by (simp add: sp_write_def split: option.splits)
  ultimately show ?case
    using 1 w1(1) ai by (auto simp: sp_write_def account_pair_def info_pair_def)
qed auto

end
