(* ===== verification/Tx_Pool.thy ===== *)
theory Tx_Pool
  imports Primitives
begin

text \<open>
  The transaction pool, \<open>crates/txpool/src/pool.rs\<close>: an index by hash and an index by
  sender whose queues are sorted by nonce. Two parts: the operations; the invariant that ties
  the two indexes together, and what \<open>get_pending\<close> hands to the block producer.
\<close>

section \<open>Data\<close>

datatype txpool_error =
    TE_AlreadyExists b256
  | TE_PoolFull nat nat
  | TE_InvalidTransaction string
  | TE_NonceTooLow u64 u64
  | TE_InsufficientFunds

type_synonym sender_queue = "(u64 \<times> signed_transaction) list"

record txpool =
  tp_by_hash :: "(b256 \<times> signed_transaction) list"
  tp_by_sender :: "(address \<times> sender_queue) list"
  tp_max_size :: nat

abbreviation st_nonce :: "signed_transaction \<Rightarrow> u64" where
  "st_nonce t \<equiv> tx_nonce (st_transaction t)"

definition st_price :: "signed_transaction \<Rightarrow> u128" where
  "st_price t = (case tx_gas_price (st_transaction t) of None \<Rightarrow> 0 | Some p \<Rightarrow> p)"

text \<open>The order of \<open>get_pending\<close>: gas price descending, then nonce ascending.\<close>

datatype pool_rank = Pool_Rank (rank_price: u128) (rank_nonce: u64)

definition rank_before :: "pool_rank \<Rightarrow> pool_rank \<Rightarrow> bool" where
  "rank_before a b \<longleftrightarrow>
     rank_price b < rank_price a \<or> rank_price a = rank_price b \<and> rank_nonce a \<le> rank_nonce b"

instantiation pool_rank :: linorder
begin

definition less_eq_pool_rank :: "pool_rank \<Rightarrow> pool_rank \<Rightarrow> bool" where
  "less_eq_pool_rank a b \<longleftrightarrow> rank_before a b"

definition less_pool_rank :: "pool_rank \<Rightarrow> pool_rank \<Rightarrow> bool" where
  "less_pool_rank a b \<longleftrightarrow>
     rank_price b < rank_price a \<or> rank_price a = rank_price b \<and> rank_nonce a < rank_nonce b"

instance
proof
  fix a b :: pool_rank
  show "a = b" if "a \<le> b" "b \<le> a"
    using that by (auto simp: less_eq_pool_rank_def rank_before_def intro: pool_rank.expand)
qed (auto simp: less_eq_pool_rank_def rank_before_def less_pool_rank_def)

end

definition pool_rank_of :: "signed_transaction \<Rightarrow> pool_rank" where
  "pool_rank_of t = Pool_Rank (st_price t) (st_nonce t)"

section \<open>Operations\<close>

definition tp_with_max_size :: "nat \<Rightarrow> txpool" where
  "tp_with_max_size n = \<lparr> tp_by_hash = [], tp_by_sender = [], tp_max_size = n \<rparr>"

definition tp_new :: txpool where
  "tp_new = tp_with_max_size 10000"

definition tp_queue :: "txpool \<Rightarrow> address \<Rightarrow> sender_queue" where
  "tp_queue p s = (case map_of (tp_by_sender p) s of None \<Rightarrow> [] | Some q \<Rightarrow> q)"

definition add_transaction ::
  "externs \<Rightarrow> signed_transaction \<Rightarrow> txpool \<Rightarrow> (txpool_error + b256) \<times> txpool" where
  "add_transaction X tx p =
     (let h = st_hash tx in
      if map_of (tp_by_hash p) h \<noteq> None then (Inl (TE_AlreadyExists h), p)
      else if tp_max_size p \<le> length (tp_by_hash p)
           then (Inl (TE_PoolFull (tp_max_size p) (length (tp_by_hash p))), p)
      else case tx_sender X tx of
        Inl e \<Rightarrow> (Inl (TE_InvalidTransaction ''Invalid signature''), p)
      | Inr sender \<Rightarrow>
          let nonce = st_nonce tx in
          if map_of (tp_queue p sender) nonce \<noteq> None
          then (Inl (TE_InvalidTransaction ''Nonce already used by sender''), p)
          else (Inr h, p\<lparr>tp_by_hash := AList.update h tx (tp_by_hash p),
                         tp_by_sender := AList.update sender
                           (bt_insert nonce tx (tp_queue p sender)) (tp_by_sender p)\<rparr>))"

definition remove_transaction ::
  "externs \<Rightarrow> b256 \<Rightarrow> txpool \<Rightarrow> signed_transaction option \<times> txpool" where
  "remove_transaction X h p =
     (case map_of (tp_by_hash p) h of
        None \<Rightarrow> (None, p)
      | Some tx \<Rightarrow>
          let p1 = p\<lparr>tp_by_hash := AList.delete h (tp_by_hash p)\<rparr> in
          (Some tx,
           case tx_sender X tx of
             Inl e \<Rightarrow> p1
           | Inr sender \<Rightarrow>
          (case map_of (tp_by_sender p1) sender of
             None \<Rightarrow> p1
           | Some q \<Rightarrow>
               let q' = AList.delete (st_nonce tx) q in
               p1\<lparr>tp_by_sender :=
                    (if q' = [] then AList.delete sender (tp_by_sender p1)
                     else AList.update sender q' (tp_by_sender p1))\<rparr>)))"

text \<open>The inner loop of \<open>get_pending\<close>; \<open>nonce + 1\<close> wraps.\<close>

fun contiguous :: "u64 option \<Rightarrow> sender_queue \<Rightarrow> signed_transaction list" where
  "contiguous expected [] = []"
| "contiguous expected ((nonce, tx) # q) =
     (case expected of
        Some e \<Rightarrow> if nonce \<noteq> e then [] else tx # contiguous (Some (nonce + 1)) q
      | None \<Rightarrow> tx # contiguous (Some (nonce + 1)) q)"

definition collect_pending ::
  "((address \<times> sender_queue) list \<Rightarrow> (address \<times> sender_queue) list) \<Rightarrow> txpool
     \<Rightarrow> signed_transaction list" where
  "collect_pending ord p = concat (map (\<lambda>(s, q). contiguous None q) (ord (tp_by_sender p)))"

definition get_pending ::
  "((address \<times> sender_queue) list \<Rightarrow> (address \<times> sender_queue) list) \<Rightarrow> nat \<Rightarrow> txpool
     \<Rightarrow> signed_transaction list" where
  "get_pending ord max_count p = take max_count (sort_key pool_rank_of (collect_pending ord p))"

definition get_game_actions ::
  "((b256 \<times> signed_transaction) list \<Rightarrow> (b256 \<times> signed_transaction) list) \<Rightarrow> txpool
     \<Rightarrow> signed_transaction list" where
  "get_game_actions ord p = filter is_game_action (map snd (ord (tp_by_hash p)))"

definition remove_included :: "externs \<Rightarrow> b256 list \<Rightarrow> txpool \<Rightarrow> txpool" where
  "remove_included X hs p = fold (\<lambda>h p. snd (remove_transaction X h p)) hs p"

definition pending_count :: "txpool \<Rightarrow> nat" where
  "pending_count p = length (tp_by_hash p)"

definition queued_count :: "txpool \<Rightarrow> nat" where
  "queued_count p = 0"

definition total_count :: "txpool \<Rightarrow> nat" where
  "total_count p = length (tp_by_hash p)"

definition tp_clear :: "txpool \<Rightarrow> txpool" where
  "tp_clear p = p\<lparr>tp_by_hash := [], tp_by_sender := []\<rparr>"

definition tp_contains :: "txpool \<Rightarrow> b256 \<Rightarrow> bool" where
  "tp_contains p h \<longleftrightarrow> map_of (tp_by_hash p) h \<noteq> None"

definition pending_nonce :: "txpool \<Rightarrow> address \<Rightarrow> u64 option" where
  "pending_nonce p s =
     (case map_of (tp_by_sender p) s of
        None \<Rightarrow> None
      | Some q \<Rightarrow> map_option (\<lambda>last_nonce. last_nonce + 1) (bt_last_key q))"

definition get_sender_txs :: "txpool \<Rightarrow> address \<Rightarrow> signed_transaction list" where
  "get_sender_txs p s = hm_vals (tp_queue p s)"

section \<open>The two indexes agree\<close>

definition queue_ok :: "externs \<Rightarrow> (b256 \<times> signed_transaction) list \<Rightarrow> address \<Rightarrow> sender_queue \<Rightarrow> bool" where
  "queue_ok X m s q \<longleftrightarrow> q \<noteq> [] \<and> bt_wf q \<and>
     (\<forall>(n, t) \<in> set q. st_nonce t = n \<and> tx_sender X t = Inr s \<and> map_of m (st_hash t) = Some t)"

definition hash_ok :: "externs \<Rightarrow> txpool \<Rightarrow> b256 \<Rightarrow> signed_transaction \<Rightarrow> bool" where
  "hash_ok X p h t \<longleftrightarrow> st_hash t = h \<and>
     (\<exists>s. tx_sender X t = Inr s \<and> map_of (tp_queue p s) (st_nonce t) = Some t)"

definition tp_inv :: "externs \<Rightarrow> txpool \<Rightarrow> bool" where
  "tp_inv X p \<longleftrightarrow> hm_wf (tp_by_hash p) \<and> hm_wf (tp_by_sender p) \<and>
     length (tp_by_hash p) \<le> tp_max_size p \<and>
     (\<forall>h t. map_of (tp_by_hash p) h = Some t \<longrightarrow> hash_ok X p h t) \<and>
     (\<forall>s q. map_of (tp_by_sender p) s = Some q \<longrightarrow> queue_ok X (tp_by_hash p) s q)"

datatype tp_op = TP_Add signed_transaction | TP_Remove b256 | TP_Included "b256 list" | TP_Clear

fun tp_step :: "externs \<Rightarrow> tp_op \<Rightarrow> txpool \<Rightarrow> txpool" where
  "tp_step X (TP_Add tx) p = snd (add_transaction X tx p)"
| "tp_step X (TP_Remove h) p = snd (remove_transaction X h p)"
| "tp_step X (TP_Included hs) p = remove_included X hs p"
| "tp_step X TP_Clear p = tp_clear p"

lemma tp_inv_hash: "tp_inv X p \<Longrightarrow> map_of (tp_by_hash p) h = Some t \<Longrightarrow> hash_ok X p h t"
  unfolding tp_inv_def by blast

lemma tp_inv_queue:
  "tp_inv X p \<Longrightarrow> map_of (tp_by_sender p) s = Some q \<Longrightarrow> queue_ok X (tp_by_hash p) s q"
  unfolding tp_inv_def by blast

lemma tp_queue_wf: "tp_inv X p \<Longrightarrow> bt_wf (tp_queue p s)"
  using tp_inv_queue[of X p s] unfolding tp_queue_def queue_ok_def
  by (cases "map_of (tp_by_sender p) s") simp_all

lemma tp_queue_mem:
  assumes "tp_inv X p" and "(n, t) \<in> set (tp_queue p s)"
  shows "st_nonce t = n \<and> tx_sender X t = Inr s \<and> map_of (tp_by_hash p) (st_hash t) = Some t"
proof (cases "map_of (tp_by_sender p) s")
  case (Some q)
  then show ?thesis
    using tp_inv_queue[OF assms(1) Some] assms(2) unfolding queue_ok_def tp_queue_def by auto
qed (use assms(2) in \<open>simp add: tp_queue_def\<close>)

lemma tp_queue_get_mem:
  assumes "tp_inv X p" and "map_of (tp_queue p s) n = Some t"
  shows "st_nonce t = n \<and> tx_sender X t = Inr s \<and> map_of (tp_by_hash p) (st_hash t) = Some t"
  using tp_queue_mem[OF assms(1) map_of_SomeD[OF assms(2)]] .

lemma tp_hash_get:
  assumes "tp_inv X p" and "map_of (tp_by_hash p) h = Some t"
  obtains s where "st_hash t = h" "tx_sender X t = Inr s" "map_of (tp_queue p s) (st_nonce t) = Some t"
  using tp_inv_hash[OF assms] unfolding hash_ok_def by blast

lemma tp_queue_update_sender:
  "tp_queue (p\<lparr>tp_by_hash := m, tp_by_sender := AList.update s q (tp_by_sender p)\<rparr>) s' =
     (if s' = s then q else tp_queue p s')"
  by (simp add: tp_queue_def hm_update_get)

lemma tp_queue_set_sender:
  "tp_queue (p\<lparr>tp_by_hash := m, tp_by_sender := b\<rparr>) s' =
     (case map_of b s' of None \<Rightarrow> [] | Some q \<Rightarrow> q)"
  by (simp add: tp_queue_def)

lemma tp_invI:
  assumes "hm_wf m" "hm_wf b" "length m \<le> tp_max_size p"
    and "\<And>h t. map_of m h = Some t \<Longrightarrow> hash_ok X (p\<lparr>tp_by_hash := m, tp_by_sender := b\<rparr>) h t"
    and "\<And>s q. map_of b s = Some q \<Longrightarrow> queue_ok X m s q"
  shows "tp_inv X (p\<lparr>tp_by_hash := m, tp_by_sender := b\<rparr>)"
  using assms by (simp add: tp_inv_def)

lemma add_transaction_inv:
  assumes "tp_inv X p" shows "tp_inv X (snd (add_transaction X tx p))"
proof (cases "snd (add_transaction X tx p) = p")
  case False
  let ?h = "st_hash tx"
  let ?m = "AList.update ?h tx (tp_by_hash p)"
  obtain s where fresh: "map_of (tp_by_hash p) ?h = None"
    and room: "length (tp_by_hash p) < tp_max_size p"
    and s: "tx_sender X tx = Inr s" and slot: "map_of (tp_queue p s) (st_nonce tx) = None"
    and p': "snd (add_transaction X tx p) = p\<lparr>tp_by_hash := ?m,
       tp_by_sender := AList.update s (bt_insert (st_nonce tx) tx (tp_queue p s)) (tp_by_sender p)\<rparr>"
    using False by (auto simp: add_transaction_def Let_def split: if_splits sum.splits)
  let ?q = "bt_insert (st_nonce tx) tx (tp_queue p s)"
  let ?b = "AList.update s ?q (tp_by_sender p)"
  note wf = assms[unfolded tp_inv_def]
  have keep: "map_of ?m (st_hash t) = Some t" if "map_of (tp_by_hash p) (st_hash t) = Some t" for t
    using that fresh by (auto simp: hm_update_get)
  show ?thesis unfolding p'
  proof (rule tp_invI)
    show "length ?m \<le> tp_max_size p" using room by (simp add: hm_update_length)
    show "hash_ok X (p\<lparr>tp_by_hash := ?m, tp_by_sender := ?b\<rparr>) h t" if "map_of ?m h = Some t" for h t
    proof (cases "h = ?h")
      case True
      with that s show ?thesis
        by (auto simp: hash_ok_def tp_queue_update_sender hm_update_get bt_insert_get)
    next
      case False
      with that have "map_of (tp_by_hash p) h = Some t" by (simp add: hm_update_get)
      then obtain s' where "st_hash t = h" "tx_sender X t = Inr s'"
        "map_of (tp_queue p s') (st_nonce t) = Some t" by (rule tp_hash_get[OF assms])
      then show ?thesis
        using slot by (auto simp: hash_ok_def tp_queue_update_sender bt_insert_get)
    qed
    show "queue_ok X ?m s' q" if "map_of ?b s' = Some q" for s' q
    proof (cases "s' = s")
      case True
      with that have q: "q = ?q" by (simp add: hm_update_get)
      have "bt_wf ?q" using tp_queue_wf[OF assms] by (rule bt_insert_wf)
      moreover have "set ?q = insert (st_nonce tx, tx) {kv \<in> set (tp_queue p s). fst kv \<noteq> st_nonce tx}"
        using tp_queue_wf[OF assms] by (rule bt_insert_set)
      moreover have "map_of ?m (st_hash tx) = Some tx" by (simp add: hm_update_get)
      ultimately show ?thesis
        using q True s keep tp_queue_mem[OF assms, of _ _ s] unfolding queue_ok_def by auto
    next
      case False
      with that have "queue_ok X (tp_by_hash p) s' q" using wf by (simp add: hm_update_get)
      then show ?thesis using keep by (auto simp: queue_ok_def)
    qed
  qed (use wf in \<open>simp_all add: hm_update_wf\<close>)
qed (use assms in simp)

lemma remove_transaction_inv:
  assumes "tp_inv X p" shows "tp_inv X (snd (remove_transaction X h p))"
proof (cases "map_of (tp_by_hash p) h")
  case (Some tx)
  note wf = assms[unfolded tp_inv_def]
  obtain s where hs: "st_hash tx = h" and s: "tx_sender X tx = Inr s"
    and slot: "map_of (tp_queue p s) (st_nonce tx) = Some tx"
    using assms Some by (rule tp_hash_get)
  then obtain q where q: "map_of (tp_by_sender p) s = Some q" and qq: "tp_queue p s = q"
    by (auto simp: tp_queue_def split: option.splits)
  let ?m = "AList.delete h (tp_by_hash p)"
  let ?q = "AList.delete (st_nonce tx) q"
  let ?b = "if ?q = [] then AList.delete s (tp_by_sender p) else AList.update s ?q (tp_by_sender p)"
  have p': "snd (remove_transaction X h p) = p\<lparr>tp_by_hash := ?m, tp_by_sender := ?b\<rparr>"
    using Some s q by (simp add: remove_transaction_def Let_def)
  have queue: "tp_queue (p\<lparr>tp_by_hash := ?m, tp_by_sender := ?b\<rparr>) s' =
      (if s' = s then ?q else tp_queue p s')" for s'
    by (simp add: tp_queue_def hm_update_get hm_delete_get)
  have other: "st_hash t \<noteq> h" if "(n, t) \<in> set (tp_queue p s')" "s' \<noteq> s \<or> n \<noteq> st_nonce tx" for n t s'
    using tp_queue_mem[OF assms that(1)] that(2) Some s by auto
  have keep: "queue_ok X ?m s' q'"
    if "q' \<noteq> []" "bt_wf q'" "set q' \<subseteq> {(n, t) \<in> set (tp_queue p s'). s' \<noteq> s \<or> n \<noteq> st_nonce tx}" for s' q'
    unfolding queue_ok_def
  proof (intro conjI ballI)
    fix nt assume "nt \<in> set q'"
    with that(3) obtain n t where nt: "nt = (n, t)" "(n, t) \<in> set (tp_queue p s')"
      "s' \<noteq> s \<or> n \<noteq> st_nonce tx" by auto
    show "case nt of (n, t) \<Rightarrow> st_nonce t = n \<and> tx_sender X t = Inr s' \<and> map_of ?m (st_hash t) = Some t"
      using other[OF nt(2,3)] tp_queue_mem[OF assms nt(2)] nt(1) by (simp add: hm_delete_get)
  qed (use that in auto)
  show ?thesis unfolding p'
  proof (rule tp_invI)
    show "length ?m \<le> tp_max_size p"
      using wf hm_delete_length_le[of h "tp_by_hash p"] by linarith
    show "hash_ok X (p\<lparr>tp_by_hash := ?m, tp_by_sender := ?b\<rparr>) h' t" if "map_of ?m h' = Some t" for h' t
    proof -
      have h': "map_of (tp_by_hash p) h' = Some t" "h' \<noteq> h"
        using that by (auto simp: hm_delete_get split: if_splits)
      obtain s' where t: "st_hash t = h'" "tx_sender X t = Inr s'"
        "map_of (tp_queue p s') (st_nonce t) = Some t" by (rule tp_hash_get[OF assms h'(1)])
      have "st_nonce t \<noteq> st_nonce tx" if "s' = s"
      proof
        assume "st_nonce t = st_nonce tx"
        with t(3) slot that have "t = tx" by (metis option.inject)
        with t(1) hs h'(2) show False by metis
      qed
      then have "map_of (if s' = s then ?q else tp_queue p s') (st_nonce t) = Some t"
        using t(3) qq by (cases "s' = s") (simp_all add: hm_delete_get)
      then show ?thesis
        using t(1,2) unfolding hash_ok_def queue by blast
    qed
    show "queue_ok X ?m s' q'" if b: "map_of ?b s' = Some q'" for s' q'
    proof (rule keep)
      have q': "q' = (if s' = s then ?q else tp_queue p s')" "s' = s \<Longrightarrow> ?q \<noteq> []"
        using b by (auto simp: tp_queue_def hm_update_get hm_delete_get split: if_splits)
      show "q' \<noteq> []" using q' b wf
        by (cases "s' = s") (auto simp: queue_ok_def hm_update_get hm_delete_get split: if_splits)
      show "bt_wf q'" using q' tp_queue_wf[OF assms] qq bt_delete_wf by (metis (full_types))
      show "set q' \<subseteq> {(n, t) \<in> set (tp_queue p s'). s' \<noteq> s \<or> n \<noteq> st_nonce tx}"
        using q' qq by (auto simp: hm_delete_set split: if_splits)
    qed
  qed (use wf in \<open>auto intro: hm_update_wf hm_delete_wf\<close>)
qed (use assms in \<open>simp add: remove_transaction_def\<close>)

lemma remove_included_inv: "tp_inv X p \<Longrightarrow> tp_inv X (remove_included X hs p)"
  unfolding remove_included_def
  by (induction hs arbitrary: p) (simp_all add: remove_transaction_inv)

interpretation tp_machine: op_machine "tp_step X" "tp_inv X" for X
proof
  fix p x assume "tp_inv X p"
  then show "tp_inv X (tp_step X x p)"
    by (cases x) (simp_all add: add_transaction_inv remove_transaction_inv remove_included_inv,
        simp add: tp_inv_def tp_clear_def)
qed

lemma tp_inv_new: "tp_inv X (tp_with_max_size n)"
  by (simp add: tp_inv_def tp_with_max_size_def)


text \<open>C5. In every state the pool reaches, each transaction of the hash index stands under its
  own hash and in its sender's queue under its nonce, each queue entry is in the hash index, no
  queue is empty, and the pool holds at most \<open>max_size\<close> transactions.\<close>

theorem tp_reachable_indexes_agree:
  "tp_inv X (fold (tp_step X) ops (tp_with_max_size n))"
  by (rule tp_machine.run_inv) (rule tp_inv_new)

section \<open>Adding and removing\<close>

lemma add_transaction_ok:
  assumes "add_transaction X tx p = (Inr h, p')"
  obtains s where "h = st_hash tx" "tx_sender X tx = Inr s" "map_of (tp_by_hash p) h = None"
    "map_of (tp_queue p s) (st_nonce tx) = None" "length (tp_by_hash p) < tp_max_size p"
    "p' = p\<lparr>tp_by_hash := AList.update h tx (tp_by_hash p),
       tp_by_sender := AList.update s (bt_insert (st_nonce tx) tx (tp_queue p s)) (tp_by_sender p)\<rparr>"
  using assms by (auto simp: add_transaction_def Let_def split: if_splits sum.splits)

lemma bt_insert_delete: "map_of q n = None \<Longrightarrow> AList.delete n (bt_insert n t q) = q"
proof (induction n t q rule: bt_insert.induct)
  case (2 k v k' v' m)
  have "AList.delete k m = m" if "map_of m k = None"
    using that by (simp add: delete_idem map_of_eq_None_iff)
  with 2 show ?case by auto
qed simp

lemma hm_update_delete: "map_of m k = None \<Longrightarrow> AList.delete k (AList.update k v m) = m"
  by (induction m) (auto simp: AList.delete_eq split: if_splits)

lemma hm_update_same: "map_of m k = Some v \<Longrightarrow> AList.update k v m = m"
  by (induction m) (auto split: if_splits)

lemma hm_update_twice: "AList.update k v (AList.update k w m) = AList.update k v m"
  by (induction m) auto

text \<open>Removing a transaction that was just added restores the pool, sender index and
  all, and returns the transaction.\<close>

theorem tp_add_remove:
  assumes "tp_inv X p" and "add_transaction X tx p = (Inr h, p')"
  shows "remove_transaction X h p' = (Some tx, p)"
proof -
  obtain s where h: "h = st_hash tx" and s: "tx_sender X tx = Inr s"
    and fresh: "map_of (tp_by_hash p) h = None" and slot: "map_of (tp_queue p s) (st_nonce tx) = None"
    and p': "p' = p\<lparr>tp_by_hash := AList.update h tx (tp_by_hash p),
       tp_by_sender := AList.update s (bt_insert (st_nonce tx) tx (tp_queue p s)) (tp_by_sender p)\<rparr>"
    using assms(2) by (rule add_transaction_ok)
  have del: "AList.delete (st_nonce tx) (bt_insert (st_nonce tx) tx (tp_queue p s)) = tp_queue p s"
    using slot by (rule bt_insert_delete)
  have r1: "AList.delete s (AList.update s q (tp_by_sender p)) = tp_by_sender p"
    if "tp_queue p s = []" for q
  proof (rule hm_update_delete)
    show "map_of (tp_by_sender p) s = None"
      using that tp_inv_queue[OF assms(1), of s]
      by (auto simp: tp_queue_def queue_ok_def simp del: map_of_eq_Some_iff split: option.splits)
  qed
  have r2: "AList.update s (tp_queue p s) (tp_by_sender p) = tp_by_sender p" if "tp_queue p s \<noteq> []"
    using that by (auto simp: tp_queue_def hm_update_same split: option.splits)
  show ?thesis
    using fresh s r1 r2
    by (simp add: remove_transaction_def p' hm_update_get hm_update_delete hm_update_twice Let_def del)
qed

section \<open>What the block producer gets\<close>

lemma word_interval_Suc: "(k::u64) < n \<Longrightarrow> {k..n} = insert k {k + 1..n}"
proof -
  assume kn: "k < n"
  have "k + 1 \<le> x \<longleftrightarrow> k < x" for x
    using unat_Suc_word[OF kn] by (simp add: word_le_nat_alt word_less_nat_alt Suc_le_eq)
  then have "{k + 1..n} = {k<..n}" by (simp add: set_eq_iff)
  moreover have "{k..n} = insert k {k<..n}" using kn by force
  ultimately show ?thesis by simp
qed

lemma contiguous_Some:
  assumes "bt_wf q" "\<forall>n \<in> fst ` set q. e \<le> n"
  shows "t \<in> set (contiguous (Some e) q) \<longleftrightarrow> (\<exists>n. (n, t) \<in> set q \<and> {e..n} \<subseteq> fst ` set q)"
  using assms
proof (induction q arbitrary: e)
  case (Cons ku q)
  obtain k u where ku: "ku = (k, u)" by (cases ku)
  have wf: "bt_wf q" "\<forall>n \<in> fst ` set q. k < n" and ek: "e \<le> k"
    using Cons.prems ku by auto
  show ?case
  proof (cases "k = e")
    case False
    then have "e \<notin> fst ` set (ku # q)" using wf ek ku by auto
    moreover have "e \<in> {e..n}" if "(n, t) \<in> set (ku # q)" for n
      using Cons.prems(2) that by (auto simp: rev_image_eqI)
    ultimately have "\<not> (\<exists>n. (n, t) \<in> set (ku # q) \<and> {e..n} \<subseteq> fst ` set (ku # q))" by blast
    then show ?thesis using False ku by simp
  next
    case True
    have low: "\<forall>n \<in> fst ` set q. k + 1 \<le> n"
      using wf(2) by (simp add: inc_le)
    have iff: "{k..n} \<subseteq> insert k (fst ` set q) \<longleftrightarrow> {k + 1..n} \<subseteq> fst ` set q" if "(n, t) \<in> set q" for n
    proof -
      have kn: "k < n" using wf(2) that by force
      have "k \<notin> fst ` set q" using wf(2) by blast
      moreover have "k < k + 1" using unat_Suc_word[OF kn] by (simp add: word_less_nat_alt)
      then have "k \<notin> {k + 1..n}" by auto
      ultimately show ?thesis unfolding word_interval_Suc[OF kn] by blast
    qed
    have "t \<in> set (contiguous (Some e) (ku # q)) \<longleftrightarrow>
        t = u \<or> (\<exists>n. (n, t) \<in> set q \<and> {k + 1..n} \<subseteq> fst ` set q)"
      using True ku Cons.IH[OF wf(1) low] by simp
    also have "\<dots> \<longleftrightarrow> (\<exists>n. (n, t) \<in> set (ku # q) \<and> {k..n} \<subseteq> fst ` set (ku # q))"
      using iff ku by auto
    finally show ?thesis using True by simp
  qed
qed simp


text \<open>A transaction is executable in the pool when its sender's queue has every nonce from
  the lowest one queued up to its own.\<close>

definition queue_executable :: "sender_queue \<Rightarrow> signed_transaction \<Rightarrow> bool" where
  "queue_executable q t \<longleftrightarrow>
     q \<noteq> [] \<and> t \<in> snd ` set q \<and> {fst (hd q)..st_nonce t} \<subseteq> fst ` set q"

definition pool_executable :: "txpool \<Rightarrow> signed_transaction \<Rightarrow> bool" where
  "pool_executable p t \<longleftrightarrow> (\<exists>(s, q) \<in> set (tp_by_sender p). queue_executable q t)"

lemma contiguous_start: "q \<noteq> [] \<Longrightarrow> contiguous None q = contiguous (Some (fst (hd q))) q"
  by (cases q) auto

lemma contiguous_sub: "set (contiguous e q) \<subseteq> snd ` set q"
  by (induction e q rule: contiguous.induct) (auto split: option.splits)

lemma contiguous_queue:
  assumes "queue_ok X m s q"
  shows "t \<in> set (contiguous None q) \<longleftrightarrow> queue_executable q t"
proof -
  have q: "q \<noteq> []" "bt_wf q" "\<And>n t. (n, t) \<in> set q \<Longrightarrow> st_nonce t = n"
    using assms by (auto simp: queue_ok_def)
  have "\<forall>n \<in> fst ` set q. fst (hd q) \<le> n"
    using q(1,2) by (cases q) auto
  from contiguous_Some[OF q(2) this, of t] show ?thesis
    unfolding contiguous_start[OF q(1)] queue_executable_def using q(1,3) by force
qed

lemma contiguous_distinct:
  assumes "distinct (map f (map snd q))" shows "distinct (map f (contiguous e q))"
  using assms
proof (induction e q rule: contiguous.induct)
  case (2 expected nonce tx q)
  have "f tx \<notin> f ` set (contiguous e q)" for e
    using 2(3) contiguous_sub[of e q] by auto
  with 2 show ?case by (auto split: option.splits)
qed simp

lemma queue_ok_mem:
  assumes "queue_ok X m s q" "t \<in> snd ` set q"
  shows "map_of m (st_hash t) = Some t \<and> tx_sender X t = Inr s"
  using assms by (auto simp: queue_ok_def simp del: map_of_eq_Some_iff)

lemma tp_inv_queue_mem:
  assumes "tp_inv X p" "(s, q) \<in> set (tp_by_sender p)"
  shows "queue_ok X (tp_by_hash p) s q"
proof -
  have "hm_wf (tp_by_sender p)" using assms(1) unfolding tp_inv_def by blast
  then show ?thesis using tp_inv_queue[OF assms(1)] assms(2) by (simp add: hm_get_in)
qed

lemma queue_hashes_distinct:
  assumes "queue_ok X m s q" shows "distinct (map st_hash (map snd q))"
proof -
  have q: "st_nonce t = n \<and> map_of m (st_hash t) = Some t" if "(n, t) \<in> set q" for n t
    using assms that by (auto simp: queue_ok_def simp del: map_of_eq_Some_iff)
  have "x = y" if "x \<in> set q" "y \<in> set q" "st_hash (snd x) = st_hash (snd y)" for x y
    using q[of "fst x" "snd x"] q[of "fst y" "snd y"] that
    by (metis option.inject prod.collapse)
  then have "inj_on (st_hash \<circ> snd) (set q)"
    by (simp add: inj_on_def)
  moreover have "distinct q"
    using assms bt_wf_distinct[of q] by (simp add: queue_ok_def distinct_map)
  ultimately show ?thesis by (simp add: distinct_map)
qed

lemma collect_pending_set:
  assumes "iter_order ord" "tp_inv X p"
  shows "t \<in> set (collect_pending ord p) \<longleftrightarrow> pool_executable p t"
proof -
  note ok = tp_inv_queue_mem[OF assms(2), THEN contiguous_queue, of _ _ t]
  have "t \<in> set (collect_pending ord p) \<longleftrightarrow>
      (\<exists>(s, q) \<in> set (tp_by_sender p). t \<in> set (contiguous None q))"
    using assms(1) by (auto simp: collect_pending_def)
  also have "\<dots> \<longleftrightarrow> pool_executable p t"
    unfolding pool_executable_def by (rule bex_cong) (auto simp: ok)
  finally show ?thesis .
qed

lemma collect_pending_distinct:
  assumes "iter_order ord" "tp_inv X p"
  shows "distinct (map st_hash (collect_pending ord p))"
proof -
  have dis: "distinct (map st_hash (concat (map (\<lambda>(s, q). contiguous None q) xs)))"
    if "hm_wf xs" "\<forall>(s, q) \<in> set xs. queue_ok X (tp_by_hash p) s q" for xs
    using that
  proof (induction xs)
    case (Cons sq xs)
    obtain s q where sq: "sq = (s, q)" by (cases sq)
    have q: "queue_ok X (tp_by_hash p) s q" using Cons.prems sq by simp
    have "st_hash t \<noteq> st_hash u"
      if t: "t \<in> set (contiguous None q)" and u: "(s', q') \<in> set xs" "u \<in> set (contiguous None q')"
      for t u s' q'
    proof
      assume eq: "st_hash t = st_hash u"
      have q': "queue_ok X (tp_by_hash p) s' q'" using Cons.prems u by auto
      have "t \<in> snd ` set q" "u \<in> snd ` set q'" using t u contiguous_sub by blast+
      then have "map_of (tp_by_hash p) (st_hash t) = Some t \<and> tx_sender X t = Inr s"
        "map_of (tp_by_hash p) (st_hash u) = Some u \<and> tx_sender X u = Inr s'"
        using q q' queue_ok_mem by blast+
      then have "s = s'" using eq by (metis option.inject sum.inject(2))
      moreover have "s' \<in> fst ` set xs" using u(1) by force
      ultimately show False using Cons.prems(1) sq by simp
    qed
    then have "st_hash ` set (contiguous None q) \<inter>
        st_hash ` set (concat (map (\<lambda>(s, q). contiguous None q) xs)) = {}" by fastforce
    moreover have "distinct (map st_hash (concat (map (\<lambda>(s, q). contiguous None q) xs)))"
      using Cons by simp
    ultimately show ?case
      using contiguous_distinct[OF queue_hashes_distinct[OF q]] by (simp add: sq)
  qed simp
  have "hm_wf (ord (tp_by_sender p))"
    using assms unfolding tp_inv_def by simp
  moreover have "\<forall>(s, q) \<in> set (ord (tp_by_sender p)). queue_ok X (tp_by_hash p) s q"
    using assms(1) tp_inv_queue_mem[OF assms(2)] by auto
  ultimately show ?thesis
    unfolding collect_pending_def by (rule dis)
qed

text \<open>C17. \<open>get_pending\<close> returns at most the number asked for, no hash twice, in the order
  of descending price, only transactions whose sender's earlier queued nonces are contiguous; it
  leaves an executable transaction out only when it is full of ones that rank no later.\<close>

theorem get_pending_best:
  assumes "iter_order ord" and "tp_inv X p"
  shows "length (get_pending ord n p) \<le> n
    \<and> distinct (map st_hash (get_pending ord n p))
    \<and> sorted (map pool_rank_of (get_pending ord n p))
    \<and> list_all (pool_executable p) (get_pending ord n p)
    \<and> (\<forall>t. pool_executable p t \<longrightarrow> t \<in> set (get_pending ord n p)
          \<or> length (get_pending ord n p) = n
            \<and> list_all (\<lambda>u. pool_rank_of u \<le> pool_rank_of t) (get_pending ord n p))"
proof -
  let ?xs = "sort_key pool_rank_of (collect_pending ord p)"
  have mem: "t \<in> set ?xs \<longleftrightarrow> pool_executable p t" for t
    using collect_pending_set[OF assms] by simp
  have "mset (map st_hash ?xs) = mset (map st_hash (collect_pending ord p))" by simp
  then have "distinct (map st_hash ?xs)"
    using collect_pending_distinct[OF assms] mset_eq_imp_distinct_iff by blast
  then have dis: "distinct (map st_hash (take n ?xs))"
    by (simp add: take_map[symmetric] distinct_take)
  have srt: "sorted (map pool_rank_of (take n ?xs @ drop n ?xs))" by simp
  then have 1: "sorted (map pool_rank_of (take n ?xs))"
    and 2: "\<And>u t. u \<in> set (take n ?xs) \<Longrightarrow> t \<in> set (drop n ?xs) \<Longrightarrow> pool_rank_of u \<le> pool_rank_of t"
    unfolding map_append sorted_append by auto
  have out: "t \<in> set (drop n ?xs)" "length (take n ?xs) = n"
    if "pool_executable p t" "t \<notin> set (take n ?xs)" for t
  proof -
    show d: "t \<in> set (drop n ?xs)"
    proof -
      have "t \<in> set (take n ?xs @ drop n ?xs)" using that(1) mem[of t] by (simp only: append_take_drop_id)
      then show ?thesis using that(2) unfolding set_append by blast
    qed
    then have "drop n ?xs \<noteq> []" by (metis empty_iff list.set(1))
    then have "n \<le> length ?xs" by simp
    then show "length (take n ?xs) = n" by (simp only: length_take min_absorb2)
  qed
  have 3: "list_all (pool_executable p) (take n ?xs)"
    unfolding list_all_iff using mem in_set_takeD[of _ n ?xs] by blast
  show ?thesis
    unfolding get_pending_def list_all_iff
  proof (intro conjI allI impI)
    show "length (take n ?xs) \<le> n" by simp
    show "distinct (map st_hash (take n ?xs))" by (rule dis)
    show "sorted (map pool_rank_of (take n ?xs))" by (rule 1)
    show "\<forall>t \<in> set (take n ?xs). pool_executable p t" using 3 by (simp only: list_all_iff)
  next
    fix t assume t: "pool_executable p t"
    show "t \<in> set (take n ?xs) \<or> length (take n ?xs) = n
      \<and> (\<forall>u \<in> set (take n ?xs). pool_rank_of u \<le> pool_rank_of t)"
      using out[OF t] 2 by blast
  qed
qed

section \<open>Price goes before nonce\<close>

lemma sorted_rank_before:
  assumes "sorted (map f xs)" "i < length xs" "j < length xs" "f (xs ! i) < (f (xs ! j) :: 'a::linorder)"
  shows "i < j"
proof (rule ccontr)
  assume "\<not> i < j"
  then have "map f xs ! j \<le> map f xs ! i" using assms by (intro sorted_nth_mono) auto
  with assms show False by simp
qed

text \<open>Of two transactions that \<open>get_pending\<close> returns the one with the higher price comes
  first, whoever sent them, and only at one price the lower nonce comes first. So a sender whose
  later transaction pays more has it handed out before the earlier one, although the comment of
  \<open>get_pending\<close> promises ascending nonces for each sender.\<close>

theorem pending_price_before_nonce:
  assumes "i < length (get_pending ord n p)" and "j < length (get_pending ord n p)"
  shows "(st_price (get_pending ord n p ! j) < st_price (get_pending ord n p ! i) \<longrightarrow> i < j)
    \<and> (st_price (get_pending ord n p ! j) = st_price (get_pending ord n p ! i)
        \<and> st_nonce (get_pending ord n p ! i) < st_nonce (get_pending ord n p ! j) \<longrightarrow> i < j)"
proof -
  have "sorted (map pool_rank_of (get_pending ord n p))"
    by (simp add: get_pending_def take_map[symmetric] sorted_wrt_take)
  from sorted_rank_before[OF this assms] show ?thesis
    by (auto simp: pool_rank_of_def less_pool_rank_def)
qed

definition demo_tx :: "u64 \<Rightarrow> u128 \<Rightarrow> signed_transaction" where
  "demo_tx n price = demo_signed demo_secret
     ((new_game_action 27181 n GA_Respawn)\<lparr>tx_gas_price := Some price\<rparr>)"

definition demo_pool :: txpool where
  "demo_pool = fold (tp_step demo_externs) [TP_Add (demo_tx 0 1), TP_Add (demo_tx 1 2)] tp_new"

lemma demo_tx_fields [simp]:
  "st_nonce (demo_tx n price) = n" "st_price (demo_tx n price) = price"
  "tx_sender demo_externs (demo_tx n price)
     = Inr (public_key_to_address demo_externs (4 # demo_secret))"
  by (simp_all add: demo_tx_def st_price_def demo_sender demo_secret_length)
    (simp_all add: demo_signed_def signed_new_def new_game_action_def)

lemma demo_tx_hash: "st_hash (demo_tx 0 x) \<noteq> st_hash (demo_tx 1 y)"
proof -
  have eight: "(8::nat) = Suc (Suc (Suc (Suc (Suc (Suc (Suc (Suc 0)))))))" by simp
  have seven: "(7::nat) = Suc (Suc (Suc (Suc (Suc (Suc (Suc 0))))))" by simp
  have "to_be_bytes 8 (0 :: u64) = replicate 8 0" "to_be_bytes 8 (1 :: u64) = replicate 7 0 @ [1]"
    by (simp_all add: to_be_bytes_def eight seven)
  then have h: "st_hash (demo_tx 0 x) = from_be_bytes (replicate 8 0 @ replicate 7 0 @ [1])"
    "st_hash (demo_tx 1 y) = from_be_bytes (replicate 7 0 @ [1] @ replicate 7 0 @ [1])"
    by (simp_all add: demo_tx_def demo_hash new_game_action_def replicate_add[symmetric])
  have l: "replicate 8 (0 :: u8) = [0, 0, 0, 0, 0, 0, 0, 0]" "replicate 7 (0 :: u8) = [0, 0, 0, 0, 0, 0, 0]"
    by (simp_all add: eight seven)
  show ?thesis unfolding h l
    by (simp add: from_be_bytes_def)
qed

lemma demo_pool_pending: "get_pending (\<lambda>m. m) 10 demo_pool = [demo_tx 1 2, demo_tx 0 1]"
proof -
  let ?a = "public_key_to_address demo_externs (4 # demo_secret)"
  have pool: "demo_pool = tp_new\<lparr>
      tp_by_hash := [(st_hash (demo_tx 0 1), demo_tx 0 1), (st_hash (demo_tx 1 2), demo_tx 1 2)],
      tp_by_sender := [(?a, [(0, demo_tx 0 1), (1, demo_tx 1 2)])]\<rparr>"
    using demo_tx_hash[of 1 2]
    by (simp add: demo_pool_def add_transaction_def Let_def tp_new_def tp_with_max_size_def
        tp_queue_def eq_commute)
  have "collect_pending (\<lambda>m. m) demo_pool = [demo_tx 0 1, demo_tx 1 2]"
    unfolding collect_pending_def pool by simp
  then show ?thesis
    by (simp add: get_pending_def pool_rank_of_def less_eq_pool_rank_def rank_before_def)
qed

theorem pending_price_before_nonce_witness:
  "st_nonce (get_pending (\<lambda>m. m) 10 demo_pool ! 0) = 1 \<and>
   st_nonce (get_pending (\<lambda>m. m) 10 demo_pool ! 1) = 0 \<and> (0::nat) < 1"
  using pending_price_before_nonce[of 0 "\<lambda>m. m" 10 demo_pool 1]
  by (simp add: demo_pool_pending)

lemma demo_pool_inv: "tp_inv demo_externs demo_pool"
  unfolding demo_pool_def tp_new_def by (rule tp_machine.run_inv) (rule tp_inv_new)

theorem get_pending_best_witness:
  "list_all (pool_executable demo_pool) [demo_tx 1 2, demo_tx 0 1]"
  using get_pending_best[OF iter_order_id demo_pool_inv, of 10] by (simp only: demo_pool_pending)

theorem tp_add_remove_witness:
  "remove_transaction demo_externs (st_hash (demo_tx 0 1))
     (snd (add_transaction demo_externs (demo_tx 0 1) tp_new)) = (Some (demo_tx 0 1), tp_new)"
proof -
  have "fst (add_transaction demo_externs (demo_tx 0 1) tp_new) = Inr (st_hash (demo_tx 0 1))"
    by (simp add: add_transaction_def Let_def tp_new_def tp_with_max_size_def tp_queue_def)
  then show ?thesis
    by (intro tp_add_remove) (simp_all add: tp_new_def tp_inv_new prod_eq_iff)
qed

end
