(* ===== verification/Consensus_Interface.thy ===== *)
theory Consensus_Interface
  imports Primitives
begin

text \<open>
  The trait \<open>ConsensusEngine\<close> of \<open>crates/consensus/src/lib.rs\<close>, as far as the
  chain relies on it: what a block that the engine accepted looks like, and what sealing may
  change. The chain's lemmas are proved once here, from those laws.
\<close>

datatype consensus_error =
    CE_InvalidBlock string
  | CE_InvalidHeader string
  | CE_UnknownValidator address
  | CE_NotValidator
  | CE_FutureBlock u64 u64
  | CE_InvalidSignature string
  | CE_WrongTurn string string
  | CE_DuplicateBlock u64
  | CE_SealError string

definition header_links :: "(block_header \<Rightarrow> b256) \<Rightarrow> block_header \<Rightarrow> block_header \<Rightarrow> bool" where
  "header_links hash h par \<longleftrightarrow>
     bh_number h = bh_number par + 1 \<and> bh_parent_hash h = hash par
     \<and> bh_timestamp par < bh_timestamp h \<and> bh_game_tick h = bh_game_tick par + 1"

locale consensus_engine =
  fixes verify_header :: "'e \<Rightarrow> block_header \<Rightarrow> block_header \<Rightarrow> consensus_error + unit"
    and verify_block :: "'e \<Rightarrow> block \<Rightarrow> block_header \<Rightarrow> consensus_error + unit"
    and seal_block :: "'e \<Rightarrow> block \<Rightarrow> consensus_error + block"
    and hash :: "block_header \<Rightarrow> b256"
  assumes header_law: "verify_header e h par = Inr () \<Longrightarrow> header_links hash h par"
    and block_law: "verify_block e b par = Inr () \<Longrightarrow> verify_header e (bl_header b) par = Inr ()"
    and seal_law: "seal_block e b = Inr b' \<Longrightarrow> bl_transactions b' = bl_transactions b
      \<and> (\<exists>x. bl_header b' = (bl_header b)\<lparr>bh_extra_data := x\<rparr>)"
begin

fun accepts_chain :: "'e \<Rightarrow> block_header \<Rightarrow> block list \<Rightarrow> bool" where
  "accepts_chain e par [] \<longleftrightarrow> True"
| "accepts_chain e par (b # bs) \<longleftrightarrow>
     verify_block e b par = Inr () \<and> accepts_chain e (bl_header b) bs"

lemma accepted_links: "verify_block e b par = Inr () \<Longrightarrow> header_links hash (bl_header b) par"
  using header_law block_law by blast

lemma accepted_numbers:
  "accepts_chain e par bs \<Longrightarrow> i < length bs \<Longrightarrow>
   block_number (bs ! i) = bh_number par + of_nat (Suc i)"
proof (induction bs arbitrary: par i)
  case (Cons b bs)
  have b: "bh_number (bl_header b) = bh_number par + 1"
    using Cons.prems(1) accepted_links[of e b par] by (simp add: header_links_def)
  then show ?case
    using Cons.IH[of "bl_header b" "i - 1"] Cons.prems
    by (cases i) (simp_all add: block_number_def algebra_simps)
qed simp

lemma accepted_hashes:
  "accepts_chain e par bs \<Longrightarrow> i < length bs \<Longrightarrow>
   bh_parent_hash (bl_header (bs ! i)) = hash (if i = 0 then par else bl_header (bs ! (i - 1)))"
proof (induction bs arbitrary: par i)
  case (Cons b bs)
  have "bh_parent_hash (bl_header b) = hash par"
    using Cons.prems(1) accepted_links[of e b par] by (simp add: header_links_def)
  then show ?case
    using Cons.IH[of "bl_header b" "i - 1"] Cons.prems by (cases i) auto
qed simp

lemma accepted_times: "accepts_chain e par bs \<Longrightarrow>
   sorted_wrt (<) (map bh_timestamp (par # map bl_header bs))"
proof (induction bs arbitrary: par)
  case (Cons b bs)
  have "bh_timestamp par < bh_timestamp (bl_header b)"
    using Cons.prems(1) accepted_links[of e b par] by (simp add: header_links_def)
  then show ?case
    using Cons.IH[of "bl_header b"] Cons.prems by (auto intro: order_less_trans)
qed simp

end

end
