(* ===== verification/Poa.thy ===== *)
theory Poa
  imports Proposer_Schedule Consensus_Interface
begin

text \<open>
  The proof-of-authority engine, \<open>crates/consensus/src/poa.rs\<close>. The clock that
  \<open>prepare_header\<close> reads is the parameter \<open>now\<close> (seconds). Besides the soundness of
  the seal and its round trip, the last sections state what the engine does not check.
\<close>

section \<open>State\<close>

record poa_config =
  poac_period :: u64
  poac_epoch :: u64
  poac_chain_id :: u64

definition poac_default :: poa_config where
  "poac_default = \<lparr> poac_period = 1, poac_epoch = 30000, poac_chain_id = 27181 \<rparr>"

record poa_consensus =
  poa_keypair :: "keypair option"
  poa_local_address :: "address option"
  poa_validators :: "address list"
  poa_config :: poa_config
  poa_game_tick :: u64

definition new_with_keypair :: "keypair \<Rightarrow> address list \<Rightarrow> poa_config \<Rightarrow> poa_consensus" where
  "new_with_keypair kp vs cfg =
     \<lparr> poa_keypair = Some kp, poa_local_address = Some (kp_address kp), poa_validators = vs,
       poa_config = cfg, poa_game_tick = 0 \<rparr>"

definition new_readonly :: "address list \<Rightarrow> poa_config \<Rightarrow> poa_consensus" where
  "new_readonly vs cfg =
     \<lparr> poa_keypair = None, poa_local_address = None, poa_validators = vs,
       poa_config = cfg, poa_game_tick = 0 \<rparr>"

section \<open>Operations\<close>

definition poa_proposer_for_height :: "poa_consensus \<Rightarrow> u64 \<Rightarrow> address option" where
  "poa_proposer_for_height e h =
     (if poa_validators e = [] then None
      else Some (poa_validators e ! (unat h mod length (poa_validators e))))"

definition is_our_turn :: "poa_consensus \<Rightarrow> u64 \<Rightarrow> bool" where
  "is_our_turn e h =
     (case (poa_local_address e, poa_proposer_for_height e h) of
        (Some l, Some p) \<Rightarrow> l = p
      | _ \<Rightarrow> False)"

definition advance_tick :: "poa_consensus \<Rightarrow> u64 \<times> poa_consensus" where
  "advance_tick e = (let t = poa_game_tick e + 1 in (t, e\<lparr>poa_game_tick := t\<rparr>))"

definition unsealed :: "block_header \<Rightarrow> block_header" where
  "unsealed h = h\<lparr>bh_extra_data := []\<rparr>"

definition recover_block_signer :: "externs \<Rightarrow> block \<Rightarrow> consensus_error + address" where
  "recover_block_signer X b =
     (let extra = bh_extra_data (bl_header b) in
      if length extra \<noteq> 65
      then Inl (CE_InvalidSignature ''extra_data must be 65 bytes for a sealed block'')
      else let r = take 32 extra; s = take 32 (drop 32 extra); v = (ucast (extra ! 64) :: u64);
               unsigned_hash = header_hash X (unsealed (bl_header b))
           in case recover_signer X unsigned_hash v r s of
                Inl e \<Rightarrow> Inl (CE_InvalidSignature ''Recovery failed'')
              | Inr a \<Rightarrow> Inr a)"

definition poa_verify_header ::
  "externs \<Rightarrow> poa_consensus \<Rightarrow> block_header \<Rightarrow> block_header \<Rightarrow> consensus_error + unit" where
  "poa_verify_header X e h par =
     (if bh_number h \<noteq> bh_number par + 1 then Inl (CE_InvalidHeader ''Block number mismatch'')
      else if bh_parent_hash h \<noteq> header_hash X par then Inl (CE_InvalidHeader ''Parent hash mismatch'')
      else if bh_timestamp h \<le> bh_timestamp par
           then Inl (CE_InvalidHeader ''Timestamp must be after parent'')
      else if bh_game_tick h \<noteq> bh_game_tick par + 1 then Inl (CE_InvalidHeader ''Game tick mismatch'')
      else if bh_difficulty h \<noteq> 1 then Inl (CE_InvalidHeader ''PoA difficulty must be 1'')
      else Inr ())"

definition poa_verify_block ::
  "externs \<Rightarrow> poa_consensus \<Rightarrow> block \<Rightarrow> block_header \<Rightarrow> consensus_error + unit" where
  "poa_verify_block X e b par =
     (case poa_verify_header X e (bl_header b) par of
        Inl err \<Rightarrow> Inl err
      | Inr _ \<Rightarrow>
          if bh_number (bl_header b) = 0 then Inr ()
          else if bh_extra_data (bl_header b) \<noteq> [] then
            (case recover_block_signer X b of
               Inl err \<Rightarrow> Inl err
             | Inr signer \<Rightarrow>
                 if signer \<notin> set (poa_validators e) then Inl (CE_UnknownValidator signer)
                 else if signer \<noteq> bh_beneficiary (bl_header b)
                      then Inl (CE_InvalidSignature ''Signer does not match beneficiary'')
                 else Inr ())
          else Inr ())"

definition poa_is_validator :: "poa_consensus \<Rightarrow> bool" where
  "poa_is_validator e =
     (case poa_local_address e of Some a \<Rightarrow> a \<in> set (poa_validators e) | None \<Rightarrow> False)"

definition prepare_header ::
  "externs \<Rightarrow> u64 \<Rightarrow> poa_consensus \<Rightarrow> block_header
     \<Rightarrow> (consensus_error + block_header) \<times> poa_consensus" where
  "prepare_header X now e par =
     (case poa_local_address e of
        None \<Rightarrow> (Inl CE_NotValidator, e)
      | Some a \<Rightarrow>
          if \<not> poa_is_validator e then (Inl CE_NotValidator, e)
          else let next_number = bh_number par + 1;
                   (next_tick, e1) = advance_tick e;
                   ts = max now (bh_timestamp par + poac_period (poa_config e))
               in (Inr \<lparr> bh_parent_hash = header_hash X par, bh_ommers_hash = 0, bh_beneficiary = a,
                     bh_state_root = 0, bh_transactions_root = 0, bh_receipts_root = 0,
                     bh_game_state_root = 0, bh_logs_bloom = 0, bh_difficulty = 1,
                     bh_number = next_number, bh_gas_limit = DEFAULT_BLOCK_GAS_LIMIT,
                     bh_gas_used = 0, bh_timestamp = ts, bh_game_tick = next_tick,
                     bh_extra_data = [], bh_mix_hash = 0, bh_nonce = 0,
                     bh_base_fee_per_gas = bh_base_fee_per_gas par \<rparr>, e1))"

definition poa_seal_block :: "externs \<Rightarrow> poa_consensus \<Rightarrow> block \<Rightarrow> consensus_error + block" where
  "poa_seal_block X e b =
     (case poa_keypair e of
        None \<Rightarrow> Inl CE_NotValidator
      | Some kp \<Rightarrow>
     (case sign_hash X kp (block_hash X b) of
        Inl err \<Rightarrow> Inl (CE_SealError ''Signing failed'')
      | Inr (sig, recid) \<Rightarrow>
          Inr (b\<lparr>bl_header := (bl_header b)\<lparr>bh_extra_data := sig @ [recid]\<rparr>\<rparr>)))"

section \<open>The interfaces it provides\<close>

interpretation poa_schedule: proposer_schedule poa_validators poa_proposer_for_height
  by unfold_locales (simp add: poa_proposer_for_height_def)

lemma poa_verify_header_ok:
  "poa_verify_header X e h par = Inr () \<longleftrightarrow>
     header_links (header_hash X) h par \<and> bh_difficulty h = 1"
  by (auto simp: poa_verify_header_def header_links_def)

lemma poa_verify_block_ok:
  "poa_verify_block X e b par = Inr () \<longleftrightarrow>
     poa_verify_header X e (bl_header b) par = Inr () \<and>
     (bh_number (bl_header b) = 0 \<or> bh_extra_data (bl_header b) = [] \<or>
      recover_block_signer X b = Inr (bh_beneficiary (bl_header b)) \<and>
      bh_beneficiary (bl_header b) \<in> set (poa_validators e))"
  by (auto simp: poa_verify_block_def split: sum.splits)

interpretation poa_engine: consensus_engine
  "poa_verify_header X" "poa_verify_block X" "poa_seal_block X" "header_hash X" for X
proof
  fix e h par assume "poa_verify_header X e h par = Inr ()"
  then show "header_links (header_hash X) h par" by (simp add: poa_verify_header_ok)
next
  fix e b par assume "poa_verify_block X e b par = Inr ()"
  then show "poa_verify_header X e (bl_header b) par = Inr ()" by (simp add: poa_verify_block_ok)
next
  fix e b b' assume "poa_seal_block X e b = Inr b'"
  then show "bl_transactions b' = bl_transactions b
      \<and> (\<exists>x. bl_header b' = (bl_header b)\<lparr>bh_extra_data := x\<rparr>)"
    by (auto simp: poa_seal_block_def split: option.splits sum.splits)
qed

section \<open>What an accepted block guarantees\<close>

text \<open>C16. A sequence of blocks that the engine accepts, each against the one before, numbers
  its blocks consecutively, links each to the hash of its predecessor and has strictly rising
  time stamps.\<close>

theorem poa_accepted_chain:
  assumes "poa_engine.accepts_chain X e par bs" and "i < length bs"
  shows "block_number (bs ! i) = bh_number par + of_nat (Suc i)
    \<and> bh_parent_hash (bl_header (bs ! i)) =
        header_hash X (if i = 0 then par else bl_header (bs ! (i - 1)))
    \<and> sorted_wrt (<) (map bh_timestamp (par # map bl_header bs))"
  using assms poa_engine.accepted_numbers poa_engine.accepted_hashes poa_engine.accepted_times
  by blast

text \<open>C6. A block with a seal is accepted only if the seal is a signature, by a current
  validator that is also the beneficiary, of the header without the seal.\<close>

theorem poa_sealed_sound:
  assumes "poa_verify_block X e b par = Inr ()"
    and "bh_extra_data (bl_header b) \<noteq> []" and "bh_number (bl_header b) \<noteq> 0"
  shows "length (bh_extra_data (bl_header b)) = 65
    \<and> recover_signer X (header_hash X (unsealed (bl_header b)))
        (ucast (bh_extra_data (bl_header b) ! 64))
        (take 32 (bh_extra_data (bl_header b))) (take 32 (drop 32 (bh_extra_data (bl_header b))))
      = Inr (bh_beneficiary (bl_header b))
    \<and> bh_beneficiary (bl_header b) \<in> set (poa_validators e)
    \<and> header_links (header_hash X) (bl_header b) par"
proof -
  have "recover_block_signer X b = Inr (bh_beneficiary (bl_header b))"
    and *: "bh_beneficiary (bl_header b) \<in> set (poa_validators e)"
      "header_links (header_hash X) (bl_header b) par"
    using assms by (auto simp: poa_verify_block_ok poa_verify_header_ok)
  then show ?thesis
    by (auto simp: recover_block_signer_def Let_def split: if_splits sum.splits)
qed

lemma seal_recovers:
  assumes X: "crypto_ok X" and kp: "from_secret_key X s = Inr kp" "poa_keypair e = Some kp"
    and b: "bh_extra_data (bl_header b) = []" and sealed: "poa_seal_block X e b = Inr b'"
  shows "recover_block_signer X b' = Inr (kp_address kp)"
    and "\<exists>x. bl_header b' = (bl_header b)\<lparr>bh_extra_data := x\<rparr> \<and> x \<noteq> []"
proof -
  obtain sig recid where sg: "sign_hash X kp (block_hash X b) = Inr (sig, recid)"
    and b': "b' = b\<lparr>bl_header := (bl_header b)\<lparr>bh_extra_data := sig @ [recid]\<rparr>\<rparr>"
    using sealed kp(2) by (auto simp: poa_seal_block_def split: sum.splits)
  have len: "length sig = 64" using sign_hash_recovers(1)[OF X kp(1) sg] .
  have un: "unsealed (bl_header b') = bl_header b"
    using b b' by (simp add: unsealed_def)
  have "take 32 sig @ take 32 (drop 32 sig) = sig"
    using len by (metis append_take_drop_id take_all length_drop diff_le_self numeral_Bit0
        add_diff_cancel_right' order_refl)
  then have "take 32 (drop 32 sig) = drop 32 sig" by (metis append_take_drop_id same_append_eq)
  then show "recover_block_signer X b' = Inr (kp_address kp)"
    using sign_hash_recovers(2)[OF X kp(1) sg] len un
    by (simp add: recover_block_signer_def Let_def b' block_hash_def nth_append)
  show "\<exists>x. bl_header b' = (bl_header b)\<lparr>bh_extra_data := x\<rparr> \<and> x \<noteq> []"
    using b' by auto
qed

text \<open>A block that an engine seals with its key is accepted by every engine whose validator
  set has that key's address, when the header passed \<open>verify_header\<close> and names the address
  as beneficiary.\<close>

theorem poa_seal_verifies:
  assumes "crypto_ok X" and "from_secret_key X s = Inr kp" and "poa_keypair e = Some kp"
    and "bh_extra_data (bl_header b) = []" and "bh_beneficiary (bl_header b) = kp_address kp"
    and "poa_verify_header X e (bl_header b) par = Inr ()"
    and "kp_address kp \<in> set (poa_validators e')" and "poa_seal_block X e b = Inr b'"
  shows "poa_verify_block X e' b' par = Inr ()"
proof -
  obtain x where "bl_header b' = (bl_header b)\<lparr>bh_extra_data := x\<rparr>"
    using seal_recovers(2)[OF assms(1-4,8)] by blast
  then show ?thesis
    using assms(5-7) seal_recovers(1)[OF assms(1-4,8)]
    by (simp add: poa_verify_block_ok poa_verify_header_ok header_links_def)
qed

section \<open>What the engine leaves unchecked\<close>

text \<open>A block with an empty \<open>extra_data\<close> is accepted on its header alone, whoever is
  named as beneficiary and whatever the validator set is.\<close>

theorem poa_unsealed_accepted:
  assumes "poa_verify_header X e (bl_header b) par = Inr ()"
  shows "poa_verify_block X (e\<lparr>poa_validators := vs\<rparr>)
    (b\<lparr>bl_header := (bl_header b)\<lparr>bh_extra_data := [], bh_beneficiary := anyone\<rparr>\<rparr>) par = Inr ()"
  using assms by (simp add: poa_verify_block_ok poa_verify_header_ok header_links_def)

lemma prepare_header_built:
  assumes "prepare_header X now e par = (Inr h, e')"
  shows "bh_number h = bh_number par + 1 \<and> bh_parent_hash h = header_hash X par
    \<and> bh_difficulty h = 1 \<and> bh_game_tick h = poa_game_tick e + 1
    \<and> bh_timestamp h = max now (bh_timestamp par + poac_period (poa_config e))
    \<and> poa_game_tick e' = poa_game_tick e + 1"
  using assms by (auto simp: prepare_header_def advance_tick_def Let_def split: option.splits if_splits)

text \<open>The header that \<open>prepare_header\<close> builds passes \<open>verify_header\<close> exactly when
  the engine's private tick counter equals the parent's tick, the time not having wrapped; and
  every call that builds one advances the counter by one, whether or not the block is ever
  adopted.\<close>

theorem poa_prepare_needs_synced_tick:
  assumes "prepare_header X now e par = (Inr h, e')"
    and "bh_timestamp par < bh_timestamp par + poac_period (poa_config e)"
  shows "(poa_verify_header X e h par = Inr () \<longleftrightarrow> poa_game_tick e = bh_game_tick par)
    \<and> poa_game_tick e' = poa_game_tick e + 1"
proof -
  note h = prepare_header_built[OF assms(1)]
  show ?thesis
    using assms(2) h by (auto simp: poa_verify_header_ok header_links_def max_def)
qed

section \<open>Concrete runs\<close>

definition demo_engine :: poa_consensus where
  "demo_engine = new_with_keypair demo_keypair [kp_address demo_keypair] poac_default"

definition demo_header :: "u64 \<Rightarrow> block_header" where
  "demo_header tick = (header_genesis 0)\<lparr>bh_parent_hash := header_hash demo_externs (header_genesis 0),
     bh_number := 1, bh_timestamp := 1, bh_game_tick := tick,
     bh_beneficiary := kp_address demo_keypair\<rparr>"

lemma demo_header_ok: "poa_verify_header demo_externs e (demo_header 1) (header_genesis 0) = Inr ()"
  by (simp add: poa_verify_header_def demo_header_def header_genesis_def)

theorem poa_accepted_chain_witness:
  "bh_parent_hash (bl_header (block_new (demo_header 1) []))
     = header_hash demo_externs (header_genesis 0)"
proof -
  have "poa_engine.accepts_chain demo_externs demo_engine (header_genesis 0) [block_new (demo_header 1) []]"
    using demo_header_ok by (simp add: poa_verify_block_ok block_new_def)
      (simp add: demo_header_def header_genesis_def)
  from poa_accepted_chain[OF this, of 0] show ?thesis by simp
qed

lemma demo_seal:
  obtains b' where "poa_seal_block demo_externs demo_engine (block_new (demo_header 1) []) = Inr b'"
proof -
  have "x_sign_prehash demo_externs k h = Some (k @ to_be_bytes 32 h, 1)" for k h
    by (simp add: demo_externs_def)
  then have "isl (poa_seal_block demo_externs demo_engine (block_new (demo_header 1) [])) = False"
    by (simp add: poa_seal_block_def sign_hash_def demo_engine_def new_with_keypair_def)
  then show ?thesis using that by (metis sum.collapse(2))
qed

theorem poa_seal_verifies_witness:
  "\<exists>b'. poa_seal_block demo_externs demo_engine (block_new (demo_header 1) []) = Inr b'
     \<and> poa_verify_block demo_externs demo_engine b' (header_genesis 0) = Inr ()"
proof -
  obtain b' where b': "poa_seal_block demo_externs demo_engine (block_new (demo_header 1) []) = Inr b'"
    using demo_seal by blast
  have "poa_verify_block demo_externs demo_engine b' (header_genesis 0) = Inr ()"
  proof (rule poa_seal_verifies[OF demo_crypto_ok demo_keypair_ok _ _ _ _ _ b'])
    show "poa_verify_header demo_externs demo_engine (bl_header (block_new (demo_header 1) []))
        (header_genesis 0) = Inr ()"
      using demo_header_ok by (simp add: block_new_def)
  qed (simp_all add: demo_engine_def new_with_keypair_def block_new_def demo_header_def header_genesis_def)
  with b' show ?thesis by blast
qed

lemma demo_sealed_accepted:
  obtains b' where "poa_verify_block demo_externs demo_engine b' (header_genesis 0) = Inr ()"
    "bh_extra_data (bl_header b') \<noteq> []" "bh_number (bl_header b') \<noteq> 0"
proof -
  let ?b = "block_new (demo_header 1) []"
  obtain b' where b': "poa_seal_block demo_externs demo_engine ?b = Inr b'"
    using demo_seal by blast
  have e: "poa_keypair demo_engine = Some demo_keypair" "bh_extra_data (bl_header ?b) = []"
    by (simp_all add: demo_engine_def new_with_keypair_def block_new_def demo_header_def header_genesis_def)
  obtain x where x: "bl_header b' = (demo_header 1)\<lparr>bh_extra_data := x\<rparr>" "x \<noteq> []"
    using seal_recovers(2)[OF demo_crypto_ok demo_keypair_ok e b'] by (auto simp: block_new_def)
  show ?thesis
  proof (rule that[of b'])
    show "poa_verify_block demo_externs demo_engine b' (header_genesis 0) = Inr ()"
      using demo_header_ok[of demo_engine] x seal_recovers(1)[OF demo_crypto_ok demo_keypair_ok e b']
      by (simp add: poa_verify_block_ok poa_verify_header_ok header_links_def)
        (simp add: demo_header_def demo_engine_def new_with_keypair_def)
    show "bh_extra_data (bl_header b') \<noteq> []" using x by simp
    show "bh_number (bl_header b') \<noteq> 0" using x by (simp add: demo_header_def)
  qed
qed

theorem poa_sealed_sound_witness:
  "\<exists>b' :: block. length (bh_extra_data (bl_header b')) = 65
    \<and> header_links (header_hash demo_externs) (bl_header b') (header_genesis 0)"
proof -
  obtain b' where b': "poa_verify_block demo_externs demo_engine b' (header_genesis 0) = Inr ()"
    "bh_extra_data (bl_header b') \<noteq> []" "bh_number (bl_header b') \<noteq> 0"
    by (rule demo_sealed_accepted)
  from poa_sealed_sound[OF this]
  have "length (bh_extra_data (bl_header b')) = 65"
    "header_links (header_hash demo_externs) (bl_header b') (header_genesis 0)" by simp_all
  then show ?thesis by blast
qed

theorem poa_unsealed_accepted_witness:
  "poa_verify_block demo_externs (demo_engine\<lparr>poa_validators := []\<rparr>)
     (block_new ((demo_header 1)\<lparr>bh_extra_data := [], bh_beneficiary := 5\<rparr>) []) (header_genesis 0) = Inr ()"
  using poa_unsealed_accepted[of demo_externs demo_engine "block_new (demo_header 1) []" "header_genesis 0" "[]" 5]
  by (simp add: block_new_def demo_header_ok)

theorem poa_prepare_needs_synced_tick_witness:
  "poa_verify_header demo_externs demo_engine
     (projr (fst (prepare_header demo_externs 50
        (snd (prepare_header demo_externs 50 demo_engine (header_genesis 0))) (header_genesis 0))))
     (header_genesis 0) \<noteq> Inr ()"
proof -
  let ?e = "snd (prepare_header demo_externs 50 demo_engine (header_genesis 0))"
  have e: "poa_game_tick ?e = 1" "poa_config ?e = poac_default"
    and r: "isl (fst (prepare_header demo_externs 50 ?e (header_genesis 0))) = False"
    by (simp_all add: prepare_header_def demo_engine_def new_with_keypair_def poa_is_validator_def
        advance_tick_def Let_def)
  obtain h e' where h: "prepare_header demo_externs 50 ?e (header_genesis 0) = (Inr h, e')"
    using r by (metis sum.collapse(2) prod.collapse)
  have "bh_timestamp (header_genesis 0) < bh_timestamp (header_genesis 0) + poac_period (poa_config ?e)"
    unfolding e by (simp add: header_genesis_def poac_default_def)
  from poa_prepare_needs_synced_tick[OF h this] show ?thesis
    unfolding h e by (simp add: header_genesis_def poa_verify_header_ok)
qed

end
