(* ===== verification/Chain.thy ===== *)
theory Chain
  imports Game_World Evm_Executor Tx_Pool Poa
begin

text \<open>
  Block application and chain storage, \<open>crates/node/src/chain.rs\<close>: the composition of
  the consensus engine, the EVM, the account state, the game world, the pool and the database.
  The handle \<open>db\<close> of the chain and the one inside the world state are the same database
  (the node clones one \<open>Arc\<close>), so it is the field \<open>ws_db\<close> of \<open>ch_state\<close>.
  Every operation returns its result and the chain: an early return leaves what was done.
\<close>

section \<open>Data\<close>

datatype node_error =
    NE_Storage storage_error
  | NE_State state_error
  | NE_Consensus consensus_error
  | NE_Network string
  | NE_Evm evm_error
  | NE_GameEngine game_engine_error
  | NE_Rpc string
  | NE_TxPool txpool_error
  | NE_Config string
  | NE_AlreadyRunning
  | NE_NotInitialized
  | NE_Internal string

record transaction_receipt =
  rc_tx_hash :: b256
  rc_block_number :: u64
  rc_block_hash :: b256
  rc_index :: u32
  rc_success :: bool
  rc_gas_used :: u64
  rc_cumulative_gas_used :: u64
  rc_contract_address :: "address option"
  rc_logs :: "evm_log list"

record ('db, 'e) chain =
  ch_state :: "'db world_state"
  ch_game :: game_world
  ch_txpool :: txpool
  ch_consensus :: poa_consensus
  ch_evm :: "'e evm_executor"
  ch_head :: "block_header option"
  ch_chain_id :: u64

text \<open>The third-party code a node uses, and the iteration orders of its maps.\<close>

record ('db, 'e) node_ext =
  nx_X :: externs
  nx_R :: "'db rocks"
  nx_J :: account_json
  nx_V :: "'e revm"
  nx_E :: ecs_ext
  nx_ser_receipt :: "transaction_receipt \<Rightarrow> string + bytes"
  nx_de_receipt :: "bytes \<Rightarrow> string + transaction_receipt"
  nx_addr_debug :: "address \<Rightarrow> string"
  nx_account_order :: "account_map \<Rightarrow> account_map"
  nx_entity_order :: entity_order

definition node_ok :: "('db, 'e) node_ext \<Rightarrow> bool" where
  "node_ok N \<longleftrightarrow> rocks_ok (nx_R N) \<and> bincode_ok (nx_R N) \<and> json_ok (nx_J N) \<and> revm_ok (nx_V N) \<and>
     (\<forall>r bs. nx_ser_receipt N r = Inr bs \<longrightarrow> nx_de_receipt N bs = Inr r) \<and>
     iter_order (nx_account_order N) \<and> iter_order (nx_entity_order N)"

type_synonym ('db, 'e, 'a) chain_op = "('db, 'e) chain \<Rightarrow> (node_error + 'a) \<times> ('db, 'e) chain"

text \<open>The \<open>?\<close> operator.\<close>

definition try_then :: "('e1 + 'a) \<times> 's \<Rightarrow> ('a \<Rightarrow> 's \<Rightarrow> ('e1 + 'b) \<times> 's) \<Rightarrow> ('e1 + 'b) \<times> 's" where
  "try_then rs f = (case rs of (Inl e, s) \<Rightarrow> (Inl e, s) | (Inr x, s) \<Rightarrow> f x s)"

definition on_db :: "'db effect \<Rightarrow> ('db, 'e, unit) chain_op" where
  "on_db f ch =
     (case f (ws_db (ch_state ch)) of
        (Inl e, db) \<Rightarrow> (Inl (NE_Storage e), ch\<lparr>ch_state := (ch_state ch)\<lparr>ws_db := db\<rparr>\<rparr>)
      | (Inr _, db) \<Rightarrow> (Inr (), ch\<lparr>ch_state := (ch_state ch)\<lparr>ws_db := db\<rparr>\<rparr>))"

section \<open>Construction and head\<close>

definition chain_new ::
  "('db, 'e) node_ext \<Rightarrow> 'db world_state \<Rightarrow> game_world \<Rightarrow> txpool \<Rightarrow> poa_consensus \<Rightarrow> u64 \<Rightarrow> ('db, 'e) chain" where
  "chain_new N w g p c chain_id =
     \<lparr> ch_state = w, ch_game = g, ch_txpool = p, ch_consensus = c, ch_evm = evm_new (nx_V N) chain_id,
       ch_head = None, ch_chain_id = chain_id \<rparr>"

definition init_genesis :: "('db, 'e) node_ext \<Rightarrow> block_header \<Rightarrow> ('db, 'e, unit) chain_op" where
  "init_genesis N h ch =
     try_then (on_db (put_block (nx_X N) (nx_R N) (block_new h [])) ch) (\<lambda>_ ch.
     try_then (on_db (put_latest_block_number (nx_R N) 0) ch) (\<lambda>_ ch.
     (Inr (), ch\<lparr>ch_head := Some h\<rparr>)))"

definition restore_head :: "('db, 'e) node_ext \<Rightarrow> ('db, 'e, unit) chain_op" where
  "restore_head N ch =
     (let db = ws_db (ch_state ch) in
      case get_latest_block_number (nx_R N) db of
        Inl e \<Rightarrow> (Inl (NE_Storage e), ch)
      | Inr None \<Rightarrow> (Inr (), ch)
      | Inr (Some n) \<Rightarrow>
     (case get_block_hash_by_number (nx_R N) db n of
        Inl e \<Rightarrow> (Inl (NE_Storage e), ch)
      | Inr None \<Rightarrow> (Inr (), ch)
      | Inr (Some hash) \<Rightarrow>
     (case get_header (nx_R N) db hash of
        Inl e \<Rightarrow> (Inl (NE_Storage e), ch)
      | Inr None \<Rightarrow> (Inr (), ch)
      | Inr (Some h) \<Rightarrow> (Inr (), ch\<lparr>ch_head := Some h\<rparr>))))"

definition chain_block_number :: "('db, 'e) chain \<Rightarrow> u64" where
  "chain_block_number ch = (case ch_head ch of Some h \<Rightarrow> bh_number h | None \<Rightarrow> 0)"

definition set_head :: "('db, 'e) node_ext \<Rightarrow> block_header \<Rightarrow> ('db, 'e, unit) chain_op" where
  "set_head N h ch =
     try_then (on_db (put_latest_block_number (nx_R N) (bh_number h)) ch) (\<lambda>_ ch.
     (Inr (), ch\<lparr>ch_head := Some h\<rparr>))"

section \<open>Applying a block: the EVM transactions\<close>

text \<open>Step 2, the sorting of the transactions: the game actions with their senders, the EVM
  transactions, and the gas of the former.\<close>

fun split_txs ::
  "('db, 'e) node_ext \<Rightarrow> signed_transaction list \<Rightarrow>
     node_error + ((string \<times> game_action) list \<times> signed_transaction list \<times> u64)" where
  "split_txs N [] = Inr ([], [], 0)"
| "split_txs N (tx # txs) =
     (if is_game_action tx then
        (case st_game_action tx of
           None \<Rightarrow> split_txs N txs
         | Some a \<Rightarrow>
             (case tx_sender (nx_X N) tx of
                Inl e \<Rightarrow> Inl (NE_Internal ''Failed to recover sender'')
              | Inr sender \<Rightarrow>
                  (case split_txs N txs of
                     Inl e \<Rightarrow> Inl e
                   | Inr (acts, evm, gas) \<Rightarrow> Inr ((nx_addr_debug N sender, a) # acts, evm, gas + 21000))))
      else (case split_txs N txs of
              Inl e \<Rightarrow> Inl e
            | Inr (acts, evm, gas) \<Rightarrow> Inr (acts, tx # evm, gas)))"

record ('db, 'e) exec_state =
  xs_state :: "'db world_state"
  xs_evm :: "'e evm_executor"
  xs_receipts :: "transaction_receipt list"
  xs_gas :: u64

definition load_tx ::
  "('db, 'e) node_ext \<Rightarrow> signed_transaction \<Rightarrow> 'e evm_executor \<times> 'db world_state
     \<Rightarrow> 'e evm_executor \<times> 'db world_state" where
  "load_tx N tx ew =
     (let ew1 = (case tx_sender (nx_X N) tx of
                   Inr sender \<Rightarrow> load_account (nx_R N) (nx_J N) (nx_V N) sender ew
                 | Inl e \<Rightarrow> ew)
      in case tx_to (st_transaction tx) of
           Some to \<Rightarrow> load_account (nx_R N) (nx_J N) (nx_V N) to ew1
         | None \<Rightarrow> ew1)"

definition failed_receipt :: "signed_transaction \<Rightarrow> block \<Rightarrow> nat \<Rightarrow> u64 \<Rightarrow> transaction_receipt" where
  "failed_receipt tx b i gas =
     \<lparr> rc_tx_hash = st_hash tx, rc_block_number = block_number b, rc_block_hash = 0,
       rc_index = of_nat i, rc_success = False, rc_gas_used = 0, rc_cumulative_gas_used = gas,
       rc_contract_address = None, rc_logs = [] \<rparr>"

definition outcome_receipt ::
  "signed_transaction \<Rightarrow> block \<Rightarrow> nat \<Rightarrow> u64 \<Rightarrow> execution_outcome \<Rightarrow> transaction_receipt" where
  "outcome_receipt tx b i gas r =
     \<lparr> rc_tx_hash = st_hash tx, rc_block_number = block_number b, rc_block_hash = 0,
       rc_index = of_nat i, rc_success = eo_success r, rc_gas_used = eo_gas_used r,
       rc_cumulative_gas_used = gas, rc_contract_address = eo_contract_address r, rc_logs = eo_logs r \<rparr>"

definition push_receipt ::
  "(nat \<Rightarrow> transaction_receipt) \<Rightarrow> ('db, 'e) exec_state \<Rightarrow> ('db, 'e) exec_state" where
  "push_receipt mk s = s\<lparr>xs_receipts := xs_receipts s @ [mk (length (xs_receipts s))]\<rparr>"

definition evm_gas_cost :: "signed_transaction \<Rightarrow> execution_outcome \<Rightarrow> u256" where
  "evm_gas_cost tx r =
     ucast (eo_gas_used r) * ucast (case tx_gas_price (st_transaction tx) of Some p \<Rightarrow> p | None \<Rightarrow> 1)"

definition exec_evm_tx ::
  "('db, 'e) node_ext \<Rightarrow> block \<Rightarrow> signed_transaction \<Rightarrow> ('db, 'e) exec_state
     \<Rightarrow> (node_error + unit) \<times> ('db, 'e) exec_state" where
  "exec_evm_tx N b tx s =
     (let R = nx_R N; J = nx_J N in
      case tx_sender (nx_X N) tx of
        Inl e \<Rightarrow> (Inl (NE_Internal ''Sender recovery''), s)
      | Inr sender \<Rightarrow>
     (case ws_get_nonce R J sender (xs_state s) of
        (Inl e, w) \<Rightarrow> (Inl (NE_Internal ''Nonce read''), s\<lparr>xs_state := w\<rparr>)
      | (Inr expected, w) \<Rightarrow>
          let s1 = s\<lparr>xs_state := w\<rparr> in
          if tx_nonce (st_transaction tx) \<noteq> expected
          then (Inr (), push_receipt (\<lambda>i. failed_receipt tx b i (xs_gas s1)) s1)
          else (case execute_tx (nx_X N) (nx_V N) tx (xs_evm s1) of
              (Inr r, ev) \<Rightarrow>
                let gas = xs_gas s1 + eo_gas_used r;
                    w1 = snd (ws_sub_balance R J sender (evm_gas_cost tx r) (xs_state s1));
                    w2 = snd (ws_increment_nonce R J sender w1)
                in (Inr (), push_receipt (\<lambda>i. outcome_receipt tx b i gas r)
                              (s1\<lparr>xs_state := w2, xs_evm := ev, xs_gas := gas\<rparr>))
            | (Inl e, ev) \<Rightarrow>
                let w1 = snd (ws_increment_nonce R J sender (xs_state s1))
                in (Inr (), push_receipt (\<lambda>i. failed_receipt tx b i (xs_gas s1))
                              (s1\<lparr>xs_state := w1, xs_evm := ev\<rparr>)))))"

fun exec_evm_txs ::
  "('db, 'e) node_ext \<Rightarrow> block \<Rightarrow> signed_transaction list \<Rightarrow> ('db, 'e) exec_state
     \<Rightarrow> (node_error + unit) \<times> ('db, 'e) exec_state" where
  "exec_evm_txs N b [] s = (Inr (), s)"
| "exec_evm_txs N b (tx # txs) s = try_then (exec_evm_tx N b tx s) (\<lambda>_ s. exec_evm_txs N b txs s)"

text \<open>The whole EVM phase: reset, load, execute, flush; the result of the flush is ignored.\<close>

definition evm_phase ::
  "('db, 'e) node_ext \<Rightarrow> block \<Rightarrow> signed_transaction list \<Rightarrow> ('db, 'e) exec_state
     \<Rightarrow> (node_error + unit) \<times> ('db, 'e) exec_state" where
  "evm_phase N b txs s =
     (let (ev, w) = fold (load_tx N) txs (evm_reset (nx_V N) (xs_evm s), xs_state s) in
      try_then (exec_evm_txs N b txs (s\<lparr>xs_state := w, xs_evm := ev\<rparr>)) (\<lambda>_ s1.
        (Inr (), s1\<lparr>xs_state := snd (flush_to_state (nx_R N) (nx_J N) (nx_V N) (xs_evm s1) (xs_state s1))\<rparr>)))"

section \<open>Applying a block: the game actions\<close>

definition exec_game_tx ::
  "('db, 'e) node_ext \<Rightarrow> block \<Rightarrow> signed_transaction \<Rightarrow> ('db, 'e) exec_state
     \<Rightarrow> (node_error + unit) \<times> ('db, 'e) exec_state" where
  "exec_game_tx N b tx s =
     (let R = nx_R N; J = nx_J N in
      case tx_sender (nx_X N) tx of
        Inl e \<Rightarrow> (Inl (NE_Internal ''Sender recovery''), s)
      | Inr sender \<Rightarrow>
     (case ws_get_nonce R J sender (xs_state s) of
        (Inl e, w) \<Rightarrow> (Inl (NE_Internal ''Nonce read''), s\<lparr>xs_state := w\<rparr>)
      | (Inr expected, w) \<Rightarrow>
          let nonce_ok = (tx_nonce (st_transaction tx) = expected);
              w2 = (if nonce_ok
                    then snd (ws_sub_balance R J sender 21000 (snd (ws_increment_nonce R J sender w)))
                    else w);
              gas = xs_gas s + 21000
          in (Inr (), push_receipt
                (\<lambda>i. \<lparr> rc_tx_hash = st_hash tx, rc_block_number = block_number b, rc_block_hash = 0,
                       rc_index = of_nat i, rc_success = nonce_ok, rc_gas_used = 21000,
                       rc_cumulative_gas_used = gas, rc_contract_address = None, rc_logs = [] \<rparr>)
                (s\<lparr>xs_state := w2, xs_gas := gas\<rparr>))))"

fun exec_game_txs ::
  "('db, 'e) node_ext \<Rightarrow> block \<Rightarrow> signed_transaction list \<Rightarrow> ('db, 'e) exec_state
     \<Rightarrow> (node_error + unit) \<times> ('db, 'e) exec_state" where
  "exec_game_txs N b [] s = (Inr (), s)"
| "exec_game_txs N b (tx # txs) s =
     (if is_game_action tx
      then try_then (exec_game_tx N b tx s) (\<lambda>_ s. exec_game_txs N b txs s)
      else exec_game_txs N b txs s)"

section \<open>Applying a block: the whole\<close>

fun store_receipts :: "('db, 'e) node_ext \<Rightarrow> transaction_receipt list \<Rightarrow> ('db, 'e, unit) chain_op" where
  "store_receipts N [] ch = (Inr (), ch)"
| "store_receipts N (r # rs) ch =
     (case nx_ser_receipt N r of
        Inl e \<Rightarrow> (Inl (NE_Internal ''Receipt serialization''), ch)
      | Inr data \<Rightarrow>
          try_then (on_db (put_receipt (nx_R N) (rc_tx_hash r) data) ch) (\<lambda>_ ch. store_receipts N rs ch))"

text \<open>Steps 2 and 3: execution, up to the game tick.\<close>

definition execute_block ::
  "('db, 'e) node_ext \<Rightarrow> block \<Rightarrow> ('db, 'e) chain \<Rightarrow>
     (node_error + transaction_receipt list) \<times> ('db, 'e) chain" where
  "execute_block N b ch =
     (case split_txs N (bl_transactions b) of
        Inl e \<Rightarrow> (Inl e, ch)
      | Inr (acts, evm_txs, gas) \<Rightarrow>
          let s = \<lparr> xs_state = ch_state ch, xs_evm = ch_evm ch, xs_receipts = [], xs_gas = gas \<rparr>;
              (r, s2) = try_then (evm_phase N b evm_txs s) (\<lambda>_ s. exec_game_txs N b (bl_transactions b) s);
              ch2 = ch\<lparr>ch_state := xs_state s2, ch_evm := xs_evm s2\<rparr>
          in case r of
               Inl e \<Rightarrow> (Inl e, ch2)
             | Inr _ \<Rightarrow>
                 (case gw_tick (nx_X N) (nx_E N) (nx_entity_order N) acts (ch_game ch2) of
                    (Inl e, g) \<Rightarrow> (Inl (NE_GameEngine e), ch2\<lparr>ch_game := g\<rparr>)
                  | (Inr root, g) \<Rightarrow> (Inr (xs_receipts s2), ch2\<lparr>ch_game := g\<rparr>)))"

text \<open>Step 4: the world is stored if it serialises; the result of the write is ignored.\<close>

definition persist_world :: "('db, 'e) node_ext \<Rightarrow> ('db, 'e) chain \<Rightarrow> ('db, 'e) chain" where
  "persist_world N ch =
     (case gw_serialize_state (nx_E N) (nx_entity_order N) (ch_game ch) of
        Inl e \<Rightarrow> ch
      | Inr data \<Rightarrow> snd (on_db (put_game_state (nx_R N) (str_bytes ''world'') data) ch))"

definition commit_state :: "('db, 'e) node_ext \<Rightarrow> ('db, 'e, b256) chain_op" where
  "commit_state N ch =
     (case ws_commit (nx_X N) (nx_R N) (nx_J N) (nx_account_order N) (ch_state ch) of
        (Inl e, w) \<Rightarrow> (Inl (NE_State e), ch\<lparr>ch_state := w\<rparr>)
      | (Inr root, w) \<Rightarrow> (Inr root, ch\<lparr>ch_state := w\<rparr>))"

text \<open>Step 6: the block, its number, the receipts with the block's hash.\<close>

definition store_block :: "('db, 'e) node_ext \<Rightarrow> block \<Rightarrow> transaction_receipt list \<Rightarrow> ('db, 'e, unit) chain_op" where
  "store_block N b receipts ch =
     try_then (on_db (put_block (nx_X N) (nx_R N) b) ch) (\<lambda>_ ch.
     try_then (on_db (put_latest_block_number (nx_R N) (block_number b)) ch) (\<lambda>_ ch.
     store_receipts N (map (\<lambda>r. r\<lparr>rc_block_hash := block_hash (nx_X N) b\<rparr>) receipts) ch))"

definition block_steps :: "('db, 'e) node_ext \<Rightarrow> block \<Rightarrow> ('db, 'e, unit) chain_op" where
  "block_steps N b ch =
     try_then (execute_block N b ch) (\<lambda>receipts ch.
     try_then (commit_state N (persist_world N ch)) (\<lambda>_ ch.
     store_block N b receipts ch))"

definition apply_block :: "('db, 'e) node_ext \<Rightarrow> block \<Rightarrow> ('db, 'e, unit) chain_op" where
  "apply_block N b ch =
     (case ch_head ch of
        None \<Rightarrow> (Inl NE_NotInitialized, ch)
      | Some par \<Rightarrow>
     (case poa_verify_block (nx_X N) (ch_consensus ch) b par of
        Inl e \<Rightarrow> (Inl (NE_Consensus e), ch)
      | Inr _ \<Rightarrow>
          try_then (block_steps N b ch) (\<lambda>_ ch.
          (Inr (), ch\<lparr>ch_txpool := remove_included (nx_X N) (map st_hash (bl_transactions b)) (ch_txpool ch),
                      ch_head := Some (bl_header b)\<rparr>))))"

section \<open>Queries\<close>

definition chain_get_receipt ::
  "('db, 'e) node_ext \<Rightarrow> ('db, 'e) chain \<Rightarrow> b256 \<Rightarrow> node_error + transaction_receipt option" where
  "chain_get_receipt N ch h =
     (case get_receipt (nx_R N) (ws_db (ch_state ch)) h of
        Inl e \<Rightarrow> Inl (NE_Storage e)
      | Inr None \<Rightarrow> Inr None
      | Inr (Some data) \<Rightarrow>
          (case nx_de_receipt N data of
             Inl e \<Rightarrow> Inl (NE_Internal ''Receipt deserialization'')
           | Inr r \<Rightarrow> Inr (Some r)))"

definition get_block_by_hash :: "('db, 'e) node_ext \<Rightarrow> ('db, 'e) chain \<Rightarrow> b256 \<Rightarrow> node_error + block option" where
  "get_block_by_hash N ch hash =
     (let db = ws_db (ch_state ch) in
      case get_header (nx_R N) db hash of
        Inl e \<Rightarrow> Inl (NE_Storage e)
      | Inr None \<Rightarrow> Inr None
      | Inr (Some h) \<Rightarrow>
     (case get_body (nx_R N) db hash of
        Inl e \<Rightarrow> Inl (NE_Storage e)
      | Inr None \<Rightarrow> Inr None
      | Inr (Some txs) \<Rightarrow> Inr (Some \<lparr> bl_header = h, bl_transactions = txs \<rparr>)))"

definition get_block_by_number :: "('db, 'e) node_ext \<Rightarrow> ('db, 'e) chain \<Rightarrow> u64 \<Rightarrow> node_error + block option" where
  "get_block_by_number N ch n =
     (case get_block_hash_by_number (nx_R N) (ws_db (ch_state ch)) n of
        Inl e \<Rightarrow> Inl (NE_Storage e)
      | Inr None \<Rightarrow> Inr None
      | Inr (Some hash) \<Rightarrow> get_block_by_hash N ch hash)"

section \<open>What the steps keep\<close>

lemma try_then_ok:
  "try_then rs f = (Inr y, s') \<longleftrightarrow> (\<exists>x s. rs = (Inr x, s) \<and> f x s = (Inr y, s'))"
  by (auto simp: try_then_def split: prod.splits sum.splits)

lemma on_db_ok:
  "on_db f ch = (Inr u, ch') \<longleftrightarrow>
     (\<exists>db. f (ws_db (ch_state ch)) = (Inr (), db) \<and> ch' = ch\<lparr>ch_state := (ch_state ch)\<lparr>ws_db := db\<rparr>\<rparr>)"
  by (auto simp: on_db_def split: prod.splits sum.splits)

text \<open>Everything but the last step leaves the head, the pool and the consensus engine.\<close>

definition same_head :: "('db, 'e) chain \<Rightarrow> ('db, 'e) chain \<Rightarrow> bool" where
  "same_head ch ch' \<longleftrightarrow> ch_head ch' = ch_head ch \<and> ch_txpool ch' = ch_txpool ch
     \<and> ch_consensus ch' = ch_consensus ch \<and> ch_chain_id ch' = ch_chain_id ch"

lemma same_head_refl [simp]: "same_head ch ch"
  by (simp add: same_head_def)

lemma same_head_trans: "same_head a b \<Longrightarrow> same_head b c \<Longrightarrow> same_head a c"
  by (simp add: same_head_def)

lemma same_head_updates [simp]:
  "same_head ch (ch\<lparr>ch_state := w\<rparr>) " "same_head ch (ch\<lparr>ch_state := w, ch_evm := e\<rparr>)"
  "same_head ch (ch\<lparr>ch_state := w, ch_evm := e, ch_game := g\<rparr>)"
  by (simp_all add: same_head_def)

lemma on_db_head: "same_head ch (snd (on_db f ch))"
  by (simp add: on_db_def split: prod.split sum.split)

lemma execute_block_head: "same_head ch (snd (execute_block N b ch))"
  by (simp add: execute_block_def Let_def split: prod.split sum.split)

lemma persist_world_head: "same_head ch (persist_world N ch)"
  by (simp add: persist_world_def on_db_head split: sum.split)

lemma commit_state_head: "same_head ch (snd (commit_state N ch))"
  by (simp add: commit_state_def split: prod.split sum.split)

lemma store_receipts_head: "same_head ch (snd (store_receipts N rs ch))"
proof (induction rs arbitrary: ch)
  case (Cons r rs)
  show ?case
  proof (cases "nx_ser_receipt N r")
    case (Inr data)
    obtain x ch1 where o: "on_db (put_receipt (nx_R N) (rc_tx_hash r) data) ch = (x, ch1)"
      by (cases "on_db (put_receipt (nx_R N) (rc_tx_hash r) data) ch")
    then have "same_head ch ch1" using on_db_head[of ch] by (metis snd_conv)
    then show ?thesis
      using Inr o Cons[of ch1] by (auto simp: try_then_def split: sum.splits intro: same_head_trans)
  qed simp
qed simp

lemma try_then_head:
  assumes "same_head ch (snd rs)" and "\<And>x s. same_head s (snd (f x s))"
  shows "same_head ch (snd (try_then rs f))"
  using assms by (cases rs; cases "fst rs") (auto simp: try_then_def intro: same_head_trans)

lemma block_steps_head: "same_head ch (snd (block_steps N b ch))"
  unfolding block_steps_def store_block_def
  by (intro try_then_head execute_block_head on_db_head store_receipts_head
      same_head_trans[OF persist_world_head commit_state_head])

lemma apply_block_fails:
  assumes "apply_block N b ch = (Inl e, ch')"
  shows "same_head ch ch'"
  using assms block_steps_head[of ch N b]
  by (auto simp: apply_block_def try_then_def split: option.splits sum.splits prod.splits)

lemma apply_block_ok:
  assumes "apply_block N b ch = (Inr u, ch')"
  obtains par receipts ch1 root ch2 ch3 where "ch_head ch = Some par"
    and "poa_verify_block (nx_X N) (ch_consensus ch) b par = Inr ()"
    and "execute_block N b ch = (Inr receipts, ch1)"
    and "commit_state N (persist_world N ch1) = (Inr root, ch2)"
    and "store_block N b receipts ch2 = (Inr (), ch3)"
    and "ch' = ch3\<lparr>ch_txpool := remove_included (nx_X N) (map st_hash (bl_transactions b)) (ch_txpool ch3),
                   ch_head := Some (bl_header b)\<rparr>"
proof (cases "ch_head ch")
  case (Some par)
  show thesis
  proof (cases "poa_verify_block (nx_X N) (ch_consensus ch) b par")
    case (Inr v)
    obtain ch3 where steps: "block_steps N b ch = (Inr (), ch3)"
      and ch': "ch' = ch3\<lparr>ch_txpool := remove_included (nx_X N) (map st_hash (bl_transactions b)) (ch_txpool ch3),
                   ch_head := Some (bl_header b)\<rparr>"
      using assms Some Inr by (auto simp: apply_block_def try_then_ok)
    obtain receipts ch1 where 1: "execute_block N b ch = (Inr receipts, ch1)"
      and 2: "try_then (commit_state N (persist_world N ch1)) (\<lambda>_ ch. store_block N b receipts ch) = (Inr (), ch3)"
      using steps unfolding block_steps_def try_then_ok by blast
    obtain root ch2 where 3: "commit_state N (persist_world N ch1) = (Inr root, ch2)"
      and 4: "store_block N b receipts ch2 = (Inr (), ch3)"
      using 2 unfolding try_then_ok by blast
    show thesis by (rule that[OF Some _ 1 3 4 ch']) (simp add: Inr)
  qed (use assms Some in \<open>simp add: apply_block_def\<close>)
qed (use assms in \<open>simp add: apply_block_def\<close>)

section \<open>A block that was applied is stored\<close>

lemma cf_neq_more:
  "CF_HEADERS \<noteq> CF_RECEIPTS" "CF_BODIES \<noteq> CF_RECEIPTS" "CF_NUMBER \<noteq> CF_RECEIPTS" "CF_META \<noteq> CF_RECEIPTS"
  "CF_HEADERS \<noteq> CF_META" "CF_BODIES \<noteq> CF_META" "CF_NUMBER \<noteq> CF_META"
  using cf_distinct by (auto simp: ALL_COLUMN_FAMILIES_def)

lemma store_receipts_tables:
  assumes "rocks_ok (nx_R N)" and "cf \<noteq> CF_RECEIPTS"
  shows "store_receipts N rs ch = (Inr (), ch') \<Longrightarrow>
    same_table (nx_R N) cf (ws_db (ch_state ch)) (ws_db (ch_state ch'))"
proof (induction rs arbitrary: ch)
  case (Cons r rs)
  obtain data db where d: "put_receipt (nx_R N) (rc_tx_hash r) data (ws_db (ch_state ch)) = (Inr (), db)"
    and r: "store_receipts N rs (ch\<lparr>ch_state := (ch_state ch)\<lparr>ws_db := db\<rparr>\<rparr>) = (Inr (), ch')"
    using Cons.prems by (auto simp: try_then_ok on_db_ok split: sum.splits)
  have "same_table (nx_R N) cf (ws_db (ch_state ch)) db"
    using other_tables(1)[OF assms(1,2), of "ws_db (ch_state ch)" "rc_tx_hash r" data] d by simp
  with Cons.IH[OF r] show ?case by (auto intro: same_table_trans)
qed simp

lemma store_block_reads:
  assumes N: "node_ok N" and s: "store_block N b rs ch = (Inr (), ch')"
  shows "get_header (nx_R N) (ws_db (ch_state ch')) (block_hash (nx_X N) b) = Inr (Some (bl_header b))"
    and "get_body (nx_R N) (ws_db (ch_state ch')) (block_hash (nx_X N) b) = Inr (Some (bl_transactions b))"
    and "get_block_hash_by_number (nx_R N) (ws_db (ch_state ch')) (block_number b) = Inr (Some (block_hash (nx_X N) b))"
    and "get_latest_block_number (nx_R N) (ws_db (ch_state ch')) = Inr (Some (block_number b))"
proof -
  let ?R = "nx_R N" and ?db = "\<lambda>ch. ws_db (ch_state ch)"
  have R: "rocks_ok ?R" and B: "bincode_ok ?R" using N by (simp_all add: node_ok_def)
  obtain db1 db2 where 1: "put_block (nx_X N) ?R b (?db ch) = (Inr (), db1)"
    and 2: "put_latest_block_number ?R (block_number b) db1 = (Inr (), db2)"
    and 3: "store_receipts N (map (\<lambda>r. r\<lparr>rc_block_hash := block_hash (nx_X N) b\<rparr>) rs)
        (ch\<lparr>ch_state := (ch_state ch)\<lparr>ws_db := db2\<rparr>\<rparr>) = (Inr (), ch')"
    using s unfolding store_block_def try_then_ok on_db_ok by auto
  have t: "cf \<noteq> CF_RECEIPTS \<Longrightarrow> same_table ?R cf db2 (?db ch')" for cf
    using store_receipts_tables[OF R _ 3] by simp
  have m: "cf \<noteq> CF_META \<Longrightarrow> same_table ?R cf db1 db2" for cf
    using other_tables(2)[OF R, of cf db1 "block_number b"] 2 by simp
  have h: "same_table ?R CF_HEADERS db1 (?db ch')" and bo: "same_table ?R CF_BODIES db1 (?db ch')"
    and nu: "same_table ?R CF_NUMBER db1 (?db ch')" and me: "same_table ?R CF_META db2 (?db ch')"
    by (rule same_table_trans[OF m t] t; simp add: cf_neq_more)+
  note reads = put_block_reads[OF R B 1]
  show "get_header ?R (?db ch') (block_hash (nx_X N) b) = Inr (Some (bl_header b))"
    "get_body ?R (?db ch') (block_hash (nx_X N) b) = Inr (Some (bl_transactions b))"
    "get_block_hash_by_number ?R (?db ch') (block_number b) = Inr (Some (block_hash (nx_X N) b))"
    using reads by (simp_all add: get_header_table[OF h] get_body_table[OF bo] get_number_table[OF nu])
  show "get_latest_block_number ?R (?db ch') = Inr (Some (block_number b))"
    using put_latest_get[OF R 2] by (simp add: get_latest_table[OF me])
qed

lemma remove_transaction_hash:
  "map_of (tp_by_hash (snd (remove_transaction X h p))) k = (if k = h then None else map_of (tp_by_hash p) k)"
proof (cases "map_of (tp_by_hash p) h")
  case (Some tx)
  then have "tp_by_hash (snd (remove_transaction X h p)) = AList.delete h (tp_by_hash p)"
    by (simp add: remove_transaction_def Let_def split: sum.split option.split)
  then show ?thesis by (simp add: hm_delete_get)
qed (auto simp: remove_transaction_def)

lemma remove_included_hash:
  "map_of (tp_by_hash (remove_included X hs p)) k = (if k \<in> set hs then None else map_of (tp_by_hash p) k)"
  by (induction hs arbitrary: p) (auto simp: remove_included_def remove_transaction_hash)

text \<open>C1. A block that was applied extended the head and passed the consensus rules, is the new
  head, is read back by hash and by number, is the head a restarted node restores from the same
  database, and none of its transactions is left in the pool.\<close>

theorem applied_block_is_head:
  assumes "node_ok N" and "apply_block N b ch = (Inr (), ch')" and "ws_db (ch_state fresh) = ws_db (ch_state ch')"
  shows "(\<exists>par. ch_head ch = Some par \<and> poa_verify_block (nx_X N) (ch_consensus ch) b par = Inr ())
    \<and> ch_head ch' = Some (bl_header b)
    \<and> get_block_by_hash N ch' (block_hash (nx_X N) b) = Inr (Some b)
    \<and> get_block_by_number N ch' (block_number b) = Inr (Some b)
    \<and> ch_head (snd (restore_head N fresh)) = Some (bl_header b)
    \<and> list_all (\<lambda>tx. \<not> tp_contains (ch_txpool ch') (st_hash tx)) (bl_transactions b)"
proof -
  from assms(2) obtain par receipts ch1 root ch2 ch3
    where par: "ch_head ch = Some par" "poa_verify_block (nx_X N) (ch_consensus ch) b par = Inr ()"
      and st: "store_block N b receipts ch2 = (Inr (), ch3)"
      and ch': "ch' = ch3\<lparr>ch_txpool := remove_included (nx_X N) (map st_hash (bl_transactions b)) (ch_txpool ch3),
                   ch_head := Some (bl_header b)\<rparr>"
    by (rule apply_block_ok)
  have db: "ch_state ch' = ch_state ch3" by (simp add: ch')
  note reads = store_block_reads[OF assms(1) st, folded db]
  have by_hash: "get_block_by_hash N ch' (block_hash (nx_X N) b) = Inr (Some b)"
    using reads by (simp add: get_block_by_hash_def)
  moreover have "get_block_by_number N ch' (block_number b) = Inr (Some b)"
    using reads by_hash by (simp add: get_block_by_number_def)
  moreover have "ch_head (snd (restore_head N fresh)) = Some (bl_header b)"
    using reads assms(3) by (simp add: restore_head_def)
  moreover have "list_all (\<lambda>tx. \<not> tp_contains (ch_txpool ch') (st_hash tx)) (bl_transactions b)"
    by (simp add: ch' list_all_iff tp_contains_def remove_included_hash)
  ultimately show ?thesis using par by (simp add: ch')
qed

section \<open>A concrete node\<close>

text \<open>An EVM that keeps the accounts it is given and refuses every transaction.\<close>

definition demo_revm :: "(address \<times> account_info) list revm" where
  "demo_revm = \<lparr> rv_empty = [], rv_insert = AList.update, rv_accounts = AList.clearjunk,
     rv_transact_commit = (\<lambda>c env db. (Inl ''refused'', db)), rv_transact = (\<lambda>c env db. Inl ''refused'') \<rparr>"

lemma demo_revm_ok: "revm_ok demo_revm"
  by (simp add: revm_ok_def demo_revm_def map_of_clearjunk update_conv')

text \<open>Receipts with fields of fixed width, without logs or contract.\<close>

definition demo_receipt_bytes :: "transaction_receipt \<Rightarrow> string + bytes" where
  "demo_receipt_bytes r =
     (if rc_contract_address r = None \<and> rc_logs r = []
      then Inr (to_be_bytes 32 (rc_tx_hash r) @ to_be_bytes 8 (rc_block_number r) @ to_be_bytes 32 (rc_block_hash r)
        @ to_be_bytes 4 (rc_index r) @ to_be_bytes 8 (rc_gas_used r) @ to_be_bytes 8 (rc_cumulative_gas_used r)
        @ (if rc_success r then [1] else []))
      else Inl ''unsupported'')"

definition demo_receipt_of :: "bytes \<Rightarrow> transaction_receipt" where
  "demo_receipt_of bs =
     \<lparr> rc_tx_hash = field_at 0 32 bs, rc_block_number = field_at 32 8 bs, rc_block_hash = field_at 40 32 bs,
       rc_index = field_at 72 4 bs, rc_success = (drop 92 bs \<noteq> []), rc_gas_used = field_at 76 8 bs,
       rc_cumulative_gas_used = field_at 84 8 bs, rc_contract_address = None, rc_logs = [] \<rparr>"

definition demo_node :: "(contents, (address \<times> account_info) list) node_ext" where
  "demo_node = \<lparr> nx_X = demo_externs, nx_R = demo_rocks, nx_J = demo_json, nx_V = demo_revm, nx_E = demo_ext,
     nx_ser_receipt = demo_receipt_bytes, nx_de_receipt = (\<lambda>bs. Inr (demo_receipt_of bs)),
     nx_addr_debug = (\<lambda>a. ''0x''), nx_account_order = rev, nx_entity_order = rev \<rparr>"

lemma demo_node_simps [simp]:
  "nx_X demo_node = demo_externs" "nx_R demo_node = demo_rocks" "nx_J demo_node = demo_json"
  "nx_V demo_node = demo_revm" "nx_E demo_node = demo_ext" "nx_account_order demo_node = rev"
  "nx_entity_order demo_node = rev" "nx_ser_receipt demo_node = demo_receipt_bytes"
  by (simp_all add: demo_node_def)

lemma demo_receipt_roundtrip: "demo_receipt_bytes r = Inr bs \<Longrightarrow> demo_receipt_of bs = r"
  by (cases "rc_success r")
    (auto simp: demo_receipt_bytes_def demo_receipt_of_def field_at_def from_to_be_bytes split: if_splits)

lemma demo_node_ok: "node_ok demo_node"
  by (simp add: node_ok_def demo_rocks_ok demo_bincode_ok demo_json_ok demo_revm_ok)
    (simp add: demo_node_def demo_receipt_roundtrip)

text \<open>A chain at genesis, and a block on it with one game action.\<close>

definition demo_chain :: "(contents, (address \<times> account_info) list) chain" where
  "demo_chain = (chain_new demo_node (ws_new empty_db) (gw_new demo_externs demo_ext 42) tp_new demo_engine 27181)
     \<lparr>ch_head := Some (header_genesis 0)\<rparr>"

abbreviation demo_next :: block where
  "demo_next \<equiv> block_new (demo_header 1) [Storage.demo_tx]"

lemma demo_next_tx [simp]:
  "is_game_action Storage.demo_tx" "st_game_action Storage.demo_tx = Some GA_Respawn"
  "tx_sender demo_externs Storage.demo_tx = Inr (public_key_to_address demo_externs (4 # demo_secret))"
  "tx_nonce (st_transaction Storage.demo_tx) = 0"
  by (simp_all add: Storage.demo_tx_def demo_sender demo_secret_length)
    (simp_all add: demo_signed_def signed_new_def is_game_action_def st_game_action_def new_game_action_def)

lemma demo_executes:
  "\<exists>r s'. execute_block demo_node demo_next demo_chain = (Inr [r], s')
     \<and> rc_contract_address r = None \<and> rc_logs r = []"
proof -
  have "ws_get_account demo_rocks demo_json a (ws_new empty_db) = (Inr None, ws_new empty_db)" for a
    using demo_empty_accounts[of a]
    by (simp add: ws_get_account_def ws_new_def db_account_eq split: sum.splits option.splits)
  then have "ws_get_nonce demo_rocks demo_json a (ws_new empty_db) = (Inr 0, ws_new empty_db)" for a
    by (simp add: ws_get_nonce_def)
  then show ?thesis
    by (simp add: execute_block_def block_new_def Let_def try_then_def evm_phase_def flush_to_state_def
        demo_chain_def chain_new_def evm_reset_def demo_revm_def exec_game_tx_def push_receipt_def
        gw_tick_def case_prod_beta process_action_def split: option.split)
qed

lemma demo_stores:
  "rc_contract_address r = None \<Longrightarrow> rc_logs r = [] \<Longrightarrow>
   \<exists>ch'. store_block demo_node demo_next [r] ch = (Inr (), ch')"
proof -
  assume r: "rc_contract_address r = None" "rc_logs r = []"
  obtain db1 where "put_block demo_externs demo_rocks demo_next (ws_db (ch_state ch)) = (Inr (), db1)"
    using demo_put_block_of by blast
  then show ?thesis
    using r by (simp add: store_block_def try_then_def on_db_def put_latest_block_number_def put_meta_def
        put_receipt_def demo_put_cf demo_receipt_bytes_def del: batch_step.simps)
qed

lemma demo_commits_state: "\<exists>root ch'. commit_state demo_node ch = (Inr root, ch')"
proof -
  have "\<not> isl (fst (ws_commit demo_externs demo_rocks demo_json rev w))" for w
    using demo_commit_exec[of demo_externs rev w] by (auto simp: discard_def split: sum.splits prod.splits)
  then show ?thesis
    by (cases "ws_commit demo_externs demo_rocks demo_json rev (ch_state ch)"; cases "fst (ws_commit demo_externs demo_rocks demo_json rev (ch_state ch))")
      (simp_all add: commit_state_def, metis fst_conv isl_def)
qed

lemma demo_applies: "\<exists>ch'. apply_block demo_node demo_next demo_chain = (Inr (), ch')"
proof -
  obtain r ch1 where 1: "execute_block demo_node demo_next demo_chain = (Inr [r], ch1)"
    "rc_contract_address r = None" "rc_logs r = []" using demo_executes by blast
  obtain root ch2 where 2: "commit_state demo_node (persist_world demo_node ch1) = (Inr root, ch2)"
    using demo_commits_state by blast
  obtain ch3 where 3: "store_block demo_node demo_next [r] ch2 = (Inr (), ch3)"
    using demo_stores[OF 1(2,3)] by blast
  have "poa_verify_block demo_externs demo_engine demo_next (header_genesis 0) = Inr ()"
    using demo_header_ok by (simp add: poa_verify_block_ok block_new_def)
      (simp add: demo_header_def header_genesis_def)
  moreover have "ch_head demo_chain = Some (header_genesis 0)" "ch_consensus demo_chain = demo_engine"
    by (simp_all add: demo_chain_def chain_new_def)
  moreover have "block_steps demo_node demo_next demo_chain = (Inr (), ch3)"
    using 1 2 3 by (simp add: block_steps_def try_then_def)
  ultimately show ?thesis by (simp add: apply_block_def try_then_def)
qed

theorem applied_block_is_head_witness:
  "\<exists>ch'. apply_block demo_node demo_next demo_chain = (Inr (), ch') \<and> ch_head ch' = Some (demo_header 1)
     \<and> get_block_by_number demo_node ch' 1 = Inr (Some demo_next)"
proof -
  obtain ch' where ch': "apply_block demo_node demo_next demo_chain = (Inr (), ch')"
    using demo_applies by blast
  have "block_number demo_next = 1"
    by (simp add: block_number_def block_new_def demo_header_def header_genesis_def)
  then show ?thesis
    using applied_block_is_head[OF demo_node_ok ch' refl] ch' by (simp add: block_new_def)
qed

end
