(* ===== verification/Net_Handler.thy ===== *)
theory Net_Handler
  imports Chain
begin

text \<open>
  The network event handler of a running node, the task spawned in \<open>cmd_run\<close> of
  \<open>crates/node-cli/src/main.rs\<close>: blocks that arrive out of order wait in a buffer, missing ones are
  requested once, requests of peers are answered and transactions go to the pool. What is handed to
  the network is the list of outputs; whether the network fails is only logged by the code.
\<close>

section \<open>Data\<close>

datatype network_event =
    NW_BlockReceived block
  | NW_TransactionReceived signed_transaction
  | NW_HeadersReceived "block_header list"
  | NW_BodiesReceived "signed_transaction list list"
  | NW_BlockRequested u64
  | NW_BlockResponseReceived block
  | NW_PeerStatus string u64 u64 bytes bytes
  | NW_PeerConnected string
  | NW_PeerDisconnected string

record ('db, 'e) net_state =
  ns_chain :: "('db, 'e) chain"
  ns_block_buffer :: "(u64 \<times> block) list"
  ns_requested_blocks :: "u64 set"

definition net_start :: "('db, 'e) chain \<Rightarrow> ('db, 'e) net_state" where
  "net_start ch = \<lparr> ns_chain = ch, ns_block_buffer = [], ns_requested_blocks = {} \<rparr>"

datatype net_output = NO_RequestBlock u64 | NO_SendBlock block

section \<open>Blocks\<close>

text \<open>The loop that applies what the buffer holds next; it removes the block before it tries.\<close>

definition next_block :: "('db, 'e) net_state \<Rightarrow> u64" where
  "next_block s = chain_block_number (ns_chain s) + 1"

lemma delete_shorter: "map_of m k = Some v \<Longrightarrow> length (AList.delete k m) < length m"
  by (auto simp: AList.delete_eq dest!: map_of_SomeD intro!: length_filter_less)

function drain_buffer :: "('db, 'e) node_ext \<Rightarrow> ('db, 'e) net_state \<Rightarrow> ('db, 'e) net_state" where
  "drain_buffer N s =
     (case map_of (ns_block_buffer s) (next_block s) of
        None \<Rightarrow> s
      | Some b \<Rightarrow>
          let s1 = s\<lparr>ns_block_buffer := AList.delete (next_block s) (ns_block_buffer s)\<rparr> in
          (case apply_block N b (ns_chain s) of
             (Inl e, ch) \<Rightarrow> s1\<lparr>ns_chain := ch\<rparr>
           | (Inr _, ch) \<Rightarrow>
               drain_buffer N (s1\<lparr>ns_chain := ch, ns_requested_blocks := ns_requested_blocks s - {next_block s}\<rparr>)))"
  by pat_completeness auto
termination
  by (relation "measure (\<lambda>(N, s). length (ns_block_buffer s))") (auto simp: delete_shorter)

declare drain_buffer.simps [simp del]

text \<open>The requests for \<open>expected..n\<close>; a number that was requested before is not requested again.\<close>

fun request_missing :: "u64 list \<Rightarrow> ('db, 'e) net_state \<Rightarrow> net_output list \<times> ('db, 'e) net_state" where
  "request_missing [] s = ([], s)"
| "request_missing (n # ns) s =
     (if n \<notin> ns_requested_blocks s \<and> map_of (ns_block_buffer s) n = None
      then (let (out, s') = request_missing ns (s\<lparr>ns_requested_blocks := insert n (ns_requested_blocks s)\<rparr>)
            in (NO_RequestBlock n # out, s'))
      else request_missing ns s)"

definition u64_range :: "u64 \<Rightarrow> u64 \<Rightarrow> u64 list" where
  "u64_range a b = map of_nat [unat a..<unat b]"

text \<open>The limit of the buffer: the lowest number goes first.\<close>

fun pop_excess :: "(u64 \<times> block) list \<Rightarrow> (u64 \<times> block) list" where
  "pop_excess [] = []"
| "pop_excess (x # m) = (if 1000 < length (x # m) then pop_excess m else x # m)"

definition receive_block ::
  "('db, 'e) node_ext \<Rightarrow> block \<Rightarrow> ('db, 'e) net_state \<Rightarrow> net_output list \<times> ('db, 'e) net_state" where
  "receive_block N b s =
     (let n = block_number b; expected = next_block s in
      if n < expected then ([], s)
      else
        let (out, s1) =
          (if n = expected then
             (case apply_block N b (ns_chain s) of
                (Inr _, ch) \<Rightarrow>
                  ([], drain_buffer N (s\<lparr>ns_chain := ch, ns_requested_blocks := ns_requested_blocks s - {n}\<rparr>))
              | (Inl e, ch) \<Rightarrow> ([], s\<lparr>ns_chain := ch\<rparr>))
           else request_missing (u64_range expected n)
                  (s\<lparr>ns_block_buffer := bt_insert n b (ns_block_buffer s)\<rparr>))
        in (out, s1\<lparr>ns_block_buffer := pop_excess (ns_block_buffer s1)\<rparr>))"

section \<open>Events\<close>

definition handle_network_event ::
  "('db, 'e) node_ext \<Rightarrow> network_event \<Rightarrow> ('db, 'e) net_state \<Rightarrow> net_output list \<times> ('db, 'e) net_state" where
  "handle_network_event N ev s =
     (case ev of
        NW_BlockReceived b \<Rightarrow> receive_block N b s
      | NW_BlockResponseReceived b \<Rightarrow> receive_block N b s
      | NW_BlockRequested n \<Rightarrow>
          (case get_block_by_number N (ns_chain s) n of
             Inr (Some b) \<Rightarrow> ([NO_SendBlock b], s)
           | _ \<Rightarrow> ([], s))
      | NW_TransactionReceived tx \<Rightarrow>
          (let ch = ns_chain s in
           ([], s\<lparr>ns_chain := ch\<lparr>ch_txpool := snd (add_transaction (nx_X N) tx (ch_txpool ch))\<rparr>\<rparr>))
      | NW_HeadersReceived _ \<Rightarrow> ([], s) | NW_BodiesReceived _ \<Rightarrow> ([], s) | NW_PeerStatus _ _ _ _ _ \<Rightarrow> ([], s)
      | NW_PeerConnected _ \<Rightarrow> ([], s) | NW_PeerDisconnected _ \<Rightarrow> ([], s))"

text \<open>A run of the handler: what it gave to the network, and the state.\<close>

fun run_handler ::
  "('db, 'e) node_ext \<Rightarrow> network_event list \<Rightarrow> ('db, 'e) net_state \<Rightarrow> net_output list \<times> ('db, 'e) net_state" where
  "run_handler N [] s = ([], s)"
| "run_handler N (ev # evs) s =
     (let (out, s1) = handle_network_event N ev s; (outs, s2) = run_handler N evs s1 in (out @ outs, s2))"

section \<open>Buffers\<close>

lemma pop_excess_small: "length m \<le> 1000 \<Longrightarrow> pop_excess m = m"
  by (cases m) auto

lemma pop_excess_length: "length (pop_excess m) \<le> 1000"
  by (induction m) auto

lemma pop_excess_suffix: "\<exists>k. pop_excess m = drop k m"
proof (induction m)
  case (Cons x m)
  then obtain k where "pop_excess m = drop k m" by blast
  then have "pop_excess (x # m) = drop (if 1000 < length (x # m) then Suc k else 0) (x # m)" by simp
  then show ?case by blast
qed simp

lemma pop_excess_lookup: "bt_wf m \<Longrightarrow> map_of (pop_excess m) n = Some b \<Longrightarrow> map_of m n = Some b"
proof -
  assume w: "bt_wf m" and n: "map_of (pop_excess m) n = Some b"
  have "set (pop_excess m) \<subseteq> set m" using pop_excess_suffix[of m] by (auto dest: in_set_dropD)
  then show ?thesis using map_of_SomeD[OF n] bt_wf_distinct[OF w] by (auto intro: map_of_is_SomeI)
qed

lemma pop_excess_wf: "bt_wf m \<Longrightarrow> bt_wf (pop_excess m)"
  by (induction m) auto

lemma request_missing_frame:
  "ns_chain (snd (request_missing ns s)) = ns_chain s
   \<and> ns_block_buffer (snd (request_missing ns s)) = ns_block_buffer s
   \<and> ns_requested_blocks (snd (request_missing ns s))
     = ns_requested_blocks s \<union> {n \<in> set ns. map_of (ns_block_buffer s) n = None}"
  by (induction ns arbitrary: s) (auto simp: Let_def case_prod_beta)

text \<open>Each missing number that was not requested before is requested once, in order.\<close>

lemma request_missing_out:
  "distinct ns \<Longrightarrow> fst (request_missing ns s)
     = map NO_RequestBlock (filter (\<lambda>n. n \<notin> ns_requested_blocks s \<and> map_of (ns_block_buffer s) n = None) ns)"
proof (induction ns arbitrary: s)
  case (Cons n ns)
  let ?s = "s\<lparr>ns_requested_blocks := insert n (ns_requested_blocks s)\<rparr>"
  have "filter (\<lambda>k. k \<notin> ns_requested_blocks ?s \<and> map_of (ns_block_buffer ?s) k = None) ns
      = filter (\<lambda>k. k \<notin> ns_requested_blocks s \<and> map_of (ns_block_buffer s) k = None) ns"
    using Cons.prems by (intro filter_cong) auto
  then show ?case using Cons.IH[of s] Cons.IH[of ?s] Cons.prems by (simp add: Let_def case_prod_beta)
qed simp

lemma unat_of_nat_below:
  assumes "m < unat (b :: u64)" shows "unat (of_nat m :: u64) = m"
proof -
  have "m < 2 ^ 64" using assms unsigned_less[where ?'a = nat and w = b] by simp
  then show ?thesis by (simp add: unat_of_nat take_bit_nat_eq_self)
qed

lemma u64_range_set: "set (u64_range a b) = {a..<b}"
proof
  show "set (u64_range a b) \<subseteq> {a..<b}"
    by (auto simp: u64_range_def word_le_nat_alt word_less_nat_alt unat_of_nat_below)
  show "{a..<b} \<subseteq> set (u64_range a b)"
  proof
    fix n assume "n \<in> {a..<b}"
    then have "unat n \<in> {unat a..<unat b}" by (simp add: word_le_nat_alt word_less_nat_alt)
    then show "n \<in> set (u64_range a b)"
      unfolding u64_range_def set_map by (intro image_eqI[where x = "unat n"]) simp_all
  qed
qed

lemma u64_range_distinct: "distinct (u64_range a b)"
proof -
  have "inj_on (of_nat :: nat \<Rightarrow> u64) {unat a..<unat b}"
    by (rule inj_on_inverseI[where g = unat]) (use unat_of_nat_below[of _ b] in auto)
  then show ?thesis by (simp add: u64_range_def distinct_map)
qed

lemma u64_range_length: "length (u64_range a b) = unat b - unat a"
  by (simp add: u64_range_def)


section \<open>What an applied block does to the head\<close>

lemma apply_block_number:
  assumes "apply_block N b ch = (Inr u, ch')"
  shows "block_number b = chain_block_number ch + 1" and "chain_block_number ch' = block_number b"
proof -
  obtain par where "ch_head ch = Some par" "poa_verify_block (nx_X N) (ch_consensus ch) b par = Inr ()"
    "ch_head ch' = Some (bl_header b)"
    by (rule apply_block_ok[OF assms]) simp
  then show "block_number b = chain_block_number ch + 1" "chain_block_number ch' = block_number b"
    by (simp_all add: chain_block_number_def block_number_def poa_verify_block_ok poa_verify_header_ok header_links_def)
qed

lemma apply_block_number_fails:
  "apply_block N b ch = (Inl e, ch') \<Longrightarrow> chain_block_number ch' = chain_block_number ch"
  using apply_block_fails[of N b ch e ch'] by (simp add: chain_block_number_def same_head_def)

section \<open>A lost request is never repeated\<close>

text \<open>The number was requested and is neither buffered nor applied.\<close>

definition awaiting :: "u64 \<Rightarrow> ('db, 'e) net_state \<Rightarrow> bool" where
  "awaiting m s \<longleftrightarrow> m \<in> ns_requested_blocks s \<and> map_of (ns_block_buffer s) m = None
     \<and> chain_block_number (ns_chain s) < m \<and> bt_wf (ns_block_buffer s)"

definition delivers :: "u64 \<Rightarrow> network_event \<Rightarrow> bool" where
  "delivers m ev = (case ev of
     NW_BlockReceived b \<Rightarrow> block_number b = m | NW_BlockResponseReceived b \<Rightarrow> block_number b = m | _ \<Rightarrow> False)"

lemma next_below: "(n :: u64) < m \<Longrightarrow> n + 1 \<noteq> m \<Longrightarrow> n + 1 < m"
  by (metis inc_le less_le)

lemma above_one: "n \<noteq> - 1 \<Longrightarrow> (n :: u64) < n + 1"
  by (simp add: word_less_nat_alt unatSuc add.commute[of n] add_eq_0_iff)

lemma drain_awaiting: "awaiting m s \<Longrightarrow> awaiting m (drain_buffer N s)"
proof (induction N s rule: drain_buffer.induct)
  case (1 N s)
  show ?case
  proof (cases "map_of (ns_block_buffer s) (next_block s)")
    case None
    then show ?thesis using 1(2) by (simp add: drain_buffer.simps)
  next
    case (Some b)
    let ?s = "s\<lparr>ns_block_buffer := AList.delete (next_block s) (ns_block_buffer s)\<rparr>"
    obtain r ch where a: "apply_block N b (ns_chain s) = (r, ch)" by fastforce
    have n: "next_block s \<noteq> m" using 1(2) Some by (auto simp: awaiting_def)
    show ?thesis
    proof (cases r)
      case (Inl e)
      then show ?thesis using Some a 1(2) apply_block_number_fails[of N b "ns_chain s" e ch]
        by (simp add: drain_buffer.simps[of N s] Let_def awaiting_def bt_delete_wf hm_delete_get)
    next
      case (Inr u)
      have "chain_block_number ch < m"
        using apply_block_number[of N b "ns_chain s" u ch] a Inr n 1(2)
        by (simp add: next_block_def awaiting_def next_below)
      then have "awaiting m (?s\<lparr>ns_chain := ch, ns_requested_blocks := ns_requested_blocks s - {next_block s}\<rparr>)"
        using 1(2) n by (simp add: awaiting_def bt_delete_wf hm_delete_get)
      with 1(1)[OF Some refl a[symmetric] Inr] show ?thesis
        using Some a Inr by (simp add: drain_buffer.simps[of N s] Let_def)
    qed
  qed
qed

lemma receive_awaiting:
  assumes "awaiting m s" and "block_number b \<noteq> m"
  shows "awaiting m (snd (receive_block N b s)) \<and> NO_RequestBlock m \<notin> set (fst (receive_block N b s))"
proof -
  have pop: "awaiting m (t\<lparr>ns_block_buffer := pop_excess (ns_block_buffer t)\<rparr>)" if "awaiting m t" for t :: "('a, 'b) net_state"
    using that pop_excess_lookup[of "ns_block_buffer t" m]
    by (cases "map_of (pop_excess (ns_block_buffer t)) m") (auto simp: awaiting_def pop_excess_wf)
  consider (old) "block_number b < next_block s" | (succ) "block_number b = next_block s"
    | (ahead) "\<not> block_number b < next_block s" "block_number b \<noteq> next_block s" by blast
  then show ?thesis
  proof cases
    case old
    then show ?thesis using assms by (simp add: receive_block_def)
  next
    case succ
    obtain r ch where a: "apply_block N b (ns_chain s) = (r, ch)" by fastforce
    show ?thesis
    proof (cases r)
      case (Inl e)
      then have "awaiting m (s\<lparr>ns_chain := ch\<rparr>)"
        using assms a apply_block_number_fails[of N b "ns_chain s" e ch] by (simp add: awaiting_def)
      from pop[OF this] show ?thesis using succ a Inl by (simp add: receive_block_def Let_def)
    next
      case (Inr u)
      have "chain_block_number ch < m"
        using apply_block_number[of N b "ns_chain s" u ch] a Inr assms
        by (simp add: awaiting_def next_below)
      then have "awaiting m (s\<lparr>ns_chain := ch, ns_requested_blocks := ns_requested_blocks s - {block_number b}\<rparr>)"
        using assms by (simp add: awaiting_def)
      from pop[OF drain_awaiting[OF this, of N]] show ?thesis
        using succ a Inr by (simp add: receive_block_def Let_def)
    qed
  next
    case ahead
    let ?t = "s\<lparr>ns_block_buffer := bt_insert (block_number b) b (ns_block_buffer s)\<rparr>"
    let ?q = "request_missing (u64_range (next_block s) (block_number b)) ?t"
    have "awaiting m (snd ?q)"
      using assms request_missing_frame[of _ ?t] by (simp add: awaiting_def bt_insert_wf bt_insert_get)
    moreover have "NO_RequestBlock m \<notin> set (fst ?q)"
      using assms by (auto simp: request_missing_out[OF u64_range_distinct] awaiting_def)
    ultimately show ?thesis using pop[of "snd ?q"] ahead
      by (simp add: receive_block_def Let_def case_prod_beta)
  qed
qed

lemma handle_awaiting:
  assumes "awaiting m s" and "\<not> delivers m ev"
  shows "awaiting m (snd (handle_network_event N ev s)) \<and> NO_RequestBlock m \<notin> set (fst (handle_network_event N ev s))"
proof (cases ev)
  case (NW_TransactionReceived tx)
  then show ?thesis using assms by (simp add: handle_network_event_def Let_def awaiting_def chain_block_number_def)
next
  case (NW_BlockRequested n)
  then show ?thesis using assms by (simp add: handle_network_event_def split: sum.split option.split)
qed (use assms receive_awaiting[of m s _ N] in \<open>auto simp: handle_network_event_def delivers_def\<close>)

lemma run_awaiting:
  "awaiting m s \<Longrightarrow> \<forall>ev \<in> set evs. \<not> delivers m ev \<Longrightarrow>
   awaiting m (snd (run_handler N evs s)) \<and> NO_RequestBlock m \<notin> set (fst (run_handler N evs s))"
proof (induction evs arbitrary: s)
  case (Cons ev evs)
  note h = handle_awaiting[OF Cons.prems(1), of ev N]
  have "awaiting m (snd (handle_network_event N ev s))" "NO_RequestBlock m \<notin> set (fst (handle_network_event N ev s))"
    using h Cons.prems by auto
  then show ?case using Cons.IH[of "snd (handle_network_event N ev s)"] Cons.prems
    by (simp add: Let_def case_prod_beta)
qed simp


text \<open>The buffer is sorted in every state the handler reaches.\<close>

lemma drain_wf: "bt_wf (ns_block_buffer s) \<Longrightarrow> bt_wf (ns_block_buffer (drain_buffer N s))"
proof (induction N s rule: drain_buffer.induct)
  case (1 N s)
  note IH = 1(1) and w = 1(2)
  have d: "bt_wf (AList.delete (next_block s) (ns_block_buffer s))" using w by (rule bt_delete_wf)
  show ?case
  proof (cases "map_of (ns_block_buffer s) (next_block s)")
    case None
    then show ?thesis using w by (simp add: drain_buffer.simps)
  next
    case (Some b)
    obtain r ch where a: "apply_block N b (ns_chain s) = (r, ch)" by fastforce
    show ?thesis
      using IH[OF Some refl a[symmetric]] Some a d
      by (cases r) (simp_all add: drain_buffer.simps[of N s] Let_def)
  qed
qed

lemma receive_wf:
  assumes "bt_wf (ns_block_buffer s)"
  shows "bt_wf (ns_block_buffer (snd (receive_block N b s)))"
proof -
  have "bt_wf (bt_insert (block_number b) b (ns_block_buffer s))" using assms by (rule bt_insert_wf)
  moreover have "bt_wf (ns_block_buffer (drain_buffer N
      (s\<lparr>ns_chain := ch, ns_requested_blocks := q\<rparr>)))" for ch q
    using assms by (intro drain_wf) simp
  ultimately show ?thesis
    using assms request_missing_frame[of _ "s\<lparr>ns_block_buffer := bt_insert (block_number b) b (ns_block_buffer s)\<rparr>"]
    by (auto simp: receive_block_def Let_def case_prod_beta pop_excess_wf split: prod.split sum.split)
qed

lemma run_wf: "bt_wf (ns_block_buffer s) \<Longrightarrow> bt_wf (ns_block_buffer (snd (run_handler N evs s)))"
proof (induction evs arbitrary: s)
  case (Cons ev evs)
  have "bt_wf (ns_block_buffer (snd (handle_network_event N ev s)))"
    using Cons.prems receive_wf[of s N]
    by (auto simp: handle_network_event_def Let_def split: network_event.split sum.split option.split)
  then show ?case using Cons.IH by (simp add: Let_def case_prod_beta)
qed simp

lemma requested_awaits:
  assumes "NO_RequestBlock m \<in> set (fst (handle_network_event N ev s))" and "bt_wf (ns_block_buffer s)"
    and "chain_block_number (ns_chain s) \<noteq> - 1"
  shows "awaiting m (snd (handle_network_event N ev s))"
proof -
  obtain b where ev: "handle_network_event N ev s = receive_block N b s"
    using assms(1) by (auto simp: handle_network_event_def Let_def split: network_event.splits sum.splits option.splits)
  let ?t = "s\<lparr>ns_block_buffer := bt_insert (block_number b) b (ns_block_buffer s)\<rparr>"
  let ?q = "request_missing (u64_range (next_block s) (block_number b)) ?t"
  have n: "\<not> block_number b < next_block s" "block_number b \<noteq> next_block s"
    using assms(1) ev by (auto simp: receive_block_def Let_def split: prod.splits sum.splits if_splits)
  then have r: "fst (receive_block N b s) = fst ?q"
    "snd (receive_block N b s) = (snd ?q)\<lparr>ns_block_buffer := pop_excess (ns_block_buffer (snd ?q))\<rparr>"
    by (simp_all add: receive_block_def Let_def case_prod_beta)
  have m: "next_block s \<le> m" "map_of (ns_block_buffer ?t) m = None"
    using assms(1) ev r by (auto simp: request_missing_out[OF u64_range_distinct] u64_range_set)
  have "chain_block_number (ns_chain s) < next_block s"
    using assms(3) by (simp add: next_block_def above_one)
  then have "chain_block_number (ns_chain s) < m" using m(1) by (rule less_le_trans)
  moreover have "map_of (pop_excess (ns_block_buffer ?t)) m = None"
    using pop_excess_lookup[of "ns_block_buffer ?t" m] m(2) bt_insert_wf[OF assms(2), of "block_number b" b]
    by (cases "map_of (pop_excess (ns_block_buffer ?t)) m") auto
  moreover have "m \<in> ns_requested_blocks (snd ?q)"
    using assms(1) ev r request_missing_frame[of "u64_range (next_block s) (block_number b)" ?t]
    by (auto simp: request_missing_out[OF u64_range_distinct])
  ultimately show ?thesis
    using ev r(2) request_missing_frame[of "u64_range (next_block s) (block_number b)" ?t] assms(2)
    by (simp add: awaiting_def pop_excess_wf bt_insert_wf)
qed

text \<open>C21. After the handler has asked the network for a block it does not ask again: whatever other
  events follow, as long as no peer delivers that block, there is no second request for it, and the
  head of the chain stays below it.\<close>

theorem lost_request_never_repeated:
  fixes ch :: "('db, 'e) chain"
  assumes "snd (run_handler N evs (net_start ch)) = s" and "chain_block_number (ns_chain s) \<noteq> - 1"
    and "handle_network_event N ev s = (out, s1)" and "NO_RequestBlock m \<in> set out"
    and "\<forall>e \<in> set rest. \<not> delivers m e"
  shows "NO_RequestBlock m \<notin> set (fst (run_handler N rest s1))
    \<and> chain_block_number (ns_chain (snd (run_handler N rest s1))) < m"
proof -
  have "bt_wf (ns_block_buffer s)" using run_wf[of "net_start ch" N evs] assms(1) by (simp add: net_start_def)
  then have "awaiting m s1" using requested_awaits[of m N ev s] assms(2-4) by simp
  from run_awaiting[OF this assms(5), of N] show ?thesis by (simp add: awaiting_def)
qed


section \<open>The order of delivery does not matter\<close>

fun apply_seq :: "('db, 'e) node_ext \<Rightarrow> block list \<Rightarrow> ('db, 'e) chain \<Rightarrow> ('db, 'e) chain option" where
  "apply_seq N [] ch = Some ch"
| "apply_seq N (b # bs) ch =
     (case apply_block N b ch of (Inl e, _) \<Rightarrow> None | (Inr _, ch') \<Rightarrow> apply_seq N bs ch')"

lemma apply_seq_append:
  "apply_seq N (xs @ ys) ch = Option.bind (apply_seq N xs ch) (apply_seq N ys)"
  by (induction xs arbitrary: ch) (auto split: prod.split sum.split)

lemma apply_seq_take:
  assumes "apply_seq N bs ch = Some ch'" and "k < length bs"
  obtains c c' where "apply_seq N (take k bs) ch = Some c" and "apply_block N (bs ! k) c = (Inr (), c')"
    and "apply_seq N (take (Suc k) bs) ch = Some c'"
proof -
  have "bs = take k bs @ bs ! k # drop (Suc k) bs" using assms(2) by (simp add: id_take_nth_drop)
  then have "apply_seq N (take k bs @ bs ! k # drop (Suc k) bs) ch = Some ch'" using assms(1) by simp
  then obtain c where c: "apply_seq N (take k bs) ch = Some c"
    and r: "apply_seq N (bs ! k # drop (Suc k) bs) c = Some ch'"
    by (auto simp: apply_seq_append bind_eq_Some_conv)
  obtain x c' where x: "apply_block N (bs ! k) c = (Inr x, c')"
    using r by (auto split: prod.splits sum.splits)
  have "apply_seq N (take (Suc k) bs) ch = Some c'"
    using c x assms(2) by (simp add: take_Suc_conv_app_nth apply_seq_append)
  with c x show thesis by (intro that[of c c']) simp_all
qed

lemma apply_seq_number:
  "apply_seq N bs ch = Some ch' \<Longrightarrow> chain_block_number ch' = chain_block_number ch + of_nat (length bs)
   \<and> (\<forall>i < length bs. block_number (bs ! i) = chain_block_number ch + of_nat (Suc i))"
proof (induction bs arbitrary: ch)
  case (Cons b bs)
  then obtain c where a: "apply_block N b ch = (Inr (), c)" and r: "apply_seq N bs c = Some ch'"
    by (auto split: prod.splits sum.splits)
  note n = apply_block_number[OF a]
  show ?case
    using Cons.IH[OF r] n by (auto simp: nth_Cons split: nat.split)
qed simp

text \<open>The state after the blocks of \<open>D\<close> arrived: \<open>k\<close> blocks are applied, the others of \<open>D\<close> wait.\<close>

definition progress ::
  "('db, 'e) node_ext \<Rightarrow> block list \<Rightarrow> ('db, 'e) chain \<Rightarrow> block set \<Rightarrow> nat \<Rightarrow> ('db, 'e) net_state \<Rightarrow> bool" where
  "progress N bs ch D k s \<longleftrightarrow> k \<le> length bs \<and> apply_seq N (take k bs) ch = Some (ns_chain s)
     \<and> set (take k bs) \<subseteq> D \<and> bt_wf (ns_block_buffer s)
     \<and> set (ns_block_buffer s) = (\<lambda>b. (block_number b, b)) ` (set (drop k bs) \<inter> D)"

definition caught_up :: "block list \<Rightarrow> block set \<Rightarrow> nat \<Rightarrow> bool" where
  "caught_up bs D k \<longleftrightarrow> (k < length bs \<longrightarrow> bs ! k \<notin> D)"

lemma map_of_progress:
  "progress N bs ch D k s \<Longrightarrow>
   map_of (ns_block_buffer s) n = Some b \<longleftrightarrow> b \<in> set (drop k bs) \<inter> D \<and> block_number b = n"
proof -
  assume p: "progress N bs ch D k s"
  have "hm_wf (ns_block_buffer s)" using p by (simp add: progress_def bt_wf_distinct)
  then have "map_of (ns_block_buffer s) n = Some b \<longleftrightarrow> (n, b) \<in> set (ns_block_buffer s)"
    by (rule map_of_eq_Some_iff)
  then show ?thesis using p by (auto simp: progress_def simp del: map_of_eq_Some_iff)
qed

lemma progress_length:
  assumes "progress N bs ch D k s" shows "length (ns_block_buffer s) \<le> length bs"
proof -
  have "distinct (ns_block_buffer s)"
    using assms bt_wf_distinct[of "ns_block_buffer s"] by (auto simp: progress_def distinct_map)
  then have "length (ns_block_buffer s) = card (set (ns_block_buffer s))" by (simp add: distinct_card)
  also have "\<dots> \<le> card (set (drop k bs) \<inter> D)" using assms by (simp add: progress_def card_image_le)
  also have "\<dots> \<le> card (set bs)" by (intro card_mono) (auto dest: in_set_dropD)
  also have "\<dots> \<le> length bs" by (rule card_length)
  finally show ?thesis .
qed


text \<open>Numbers: block \<open>i\<close> is old, next or ahead as \<open>i\<close> is below, at or above \<open>k\<close>.\<close>

lemma progress_numbers:
  assumes ok: "apply_seq N bs ch = Some ch'" and small: "unat (chain_block_number ch) + length bs + 1 < 2 ^ 64"
    and p: "progress N bs ch D k s" and i: "i < length bs"
  shows "block_number (bs ! i) < next_block s \<longleftrightarrow> i < k" and "block_number (bs ! i) = next_block s \<longleftrightarrow> i = k"
proof -
  let ?n = "chain_block_number ch"
  have u: "unat (?n + of_nat j) = unat ?n + j" if "j \<le> Suc (length bs)" for j
    using that small by (simp add: unat_word_ariths unat_of_nat take_bit_nat_eq_self)
  have k: "k \<le> length bs" using p by (simp add: progress_def)
  have "apply_seq N (take k bs) ch = Some (ns_chain s)" using p by (simp add: progress_def)
  from apply_seq_number[OF this] k have "next_block s = ?n + of_nat (Suc k)"
    by (simp add: next_block_def)
  then have nx: "unat (next_block s) = unat ?n + Suc k" using u[of "Suc k"] k by simp
  have "block_number (bs ! i) = ?n + of_nat (Suc i)" using apply_seq_number[OF ok] i by blast
  then have bn: "unat (block_number (bs ! i)) = unat ?n + Suc i" using u[of "Suc i"] i by simp
  show "block_number (bs ! i) < next_block s \<longleftrightarrow> i < k" using nx bn by (simp add: word_less_nat_alt)
  show "block_number (bs ! i) = next_block s \<longleftrightarrow> i = k"
    using nx bn by (metis Suc_inject add_left_cancel word_unat_eq_iff)
qed

lemma set_drop_nth: "b \<in> set (drop k xs) \<longleftrightarrow> (\<exists>i. k \<le> i \<and> i < length xs \<and> xs ! i = b)"
proof
  assume "b \<in> set (drop k xs)"
  then obtain j where "j < length xs - k" "xs ! (k + j) = b" by (auto simp: in_set_conv_nth)
  then show "\<exists>i. k \<le> i \<and> i < length xs \<and> xs ! i = b" by (intro exI[of _ "k + j"]) simp
next
  assume "\<exists>i. k \<le> i \<and> i < length xs \<and> xs ! i = b"
  then obtain i where "k \<le> i" "i < length xs" "xs ! i = b" by blast
  then have "i - k < length (drop k xs)" "drop k xs ! (i - k) = b" by simp_all
  then show "b \<in> set (drop k xs)" by (metis nth_mem)
qed

lemma progress_next:
  assumes "apply_seq N bs ch = Some ch'" and "unat (chain_block_number ch) + length bs + 1 < 2 ^ 64"
    and p: "progress N bs ch D k s"
  shows "map_of (ns_block_buffer s) (next_block s) = (if k < length bs \<and> bs ! k \<in> D then Some (bs ! k) else None)"
proof -
  have "map_of (ns_block_buffer s) (next_block s) = Some b \<longleftrightarrow> k < length bs \<and> bs ! k \<in> D \<and> b = bs ! k" for b
    using progress_numbers(2)[OF assms] by (auto simp: map_of_progress[OF p] set_drop_nth)
  then show ?thesis by (cases "map_of (ns_block_buffer s) (next_block s)") auto
qed

lemma progress_apply:
  assumes ok: "apply_seq N bs ch = Some ch'" and small: "unat (chain_block_number ch) + length bs + 1 < 2 ^ 64"
    and p: "progress N bs ch D k s" and k: "k < length bs" and D: "bs ! k \<in> D'" "D \<subseteq> D'" "D' \<subseteq> insert (bs ! k) D"
  obtains c where "apply_block N (bs ! k) (ns_chain s) = (Inr (), c)"
    and "\<And>t. ns_chain t = c \<Longrightarrow> ns_block_buffer t = AList.delete (next_block s) (ns_block_buffer s) \<Longrightarrow>
           progress N bs ch D' (Suc k) t"
proof -
  obtain c where a: "apply_block N (bs ! k) (ns_chain s) = (Inr (), c)"
    and t: "apply_seq N (take (Suc k) bs) ch = Some c"
    using apply_seq_take[OF ok k] p unfolding progress_def by (metis option.inject)
  have other: "\<forall>b \<in> set (drop (Suc k) bs). block_number b \<noteq> next_block s"
    using progress_numbers(2)[OF ok small p] by (auto simp: set_drop_nth)
  have "set (drop k bs) = insert (bs ! k) (set (drop (Suc k) bs))"
    using k by (simp add: Cons_nth_drop_Suc[symmetric])
  moreover have "block_number (bs ! k) = next_block s" using progress_numbers(2)[OF ok small p k] by simp
  ultimately have "set (AList.delete (next_block s) (ns_block_buffer s))
      = (\<lambda>b. (block_number b, b)) ` (set (drop (Suc k) bs) \<inter> D')"
    using p other D(2,3) by (auto simp: progress_def AList.delete_eq)
  moreover have "set (take (Suc k) bs) \<subseteq> D'" using p D k by (auto simp: progress_def take_Suc_conv_app_nth)
  ultimately show thesis using that a t p k by (simp add: progress_def bt_delete_wf)
qed

lemma drain_progress:
  assumes ok: "apply_seq N bs ch = Some ch'" and small: "unat (chain_block_number ch) + length bs + 1 < 2 ^ 64"
  shows "progress N bs ch D k s \<Longrightarrow> \<exists>k'. progress N bs ch D k' (drain_buffer N s) \<and> caught_up bs D k'"
proof (induction "length bs - k" arbitrary: k s)
  case 0
  then have "\<not> k < length bs" by simp
  then show ?case using progress_next[OF ok small 0(2)] 0(2)
    by (auto simp: drain_buffer.simps[of N s] caught_up_def)
next
  case (Suc m)
  have k: "k < length bs" using Suc(2) by simp
  show ?case
  proof (cases "bs ! k \<in> D")
    case False
    then show ?thesis using progress_next[OF ok small Suc(3)] Suc(3)
      by (auto simp: drain_buffer.simps[of N s] caught_up_def)
  next
    case True
    obtain c where a: "apply_block N (bs ! k) (ns_chain s) = (Inr (), c)"
      and p: "\<And>t. ns_chain t = c \<Longrightarrow> ns_block_buffer t = AList.delete (next_block s) (ns_block_buffer s) \<Longrightarrow>
           progress N bs ch D (Suc k) t"
      by (rule progress_apply[OF ok small Suc(3) k True subset_refl]) auto
    let ?t = "s\<lparr>ns_block_buffer := AList.delete (next_block s) (ns_block_buffer s), ns_chain := c,
        ns_requested_blocks := ns_requested_blocks s - {next_block s}\<rparr>"
    have "drain_buffer N s = drain_buffer N ?t"
      using progress_next[OF ok small Suc(3)] k True a by (simp add: drain_buffer.simps[of N s] Let_def)
    then show ?thesis using Suc(1)[OF _ p, of ?t] Suc(2) by simp
  qed
qed

lemma numbers_inj:
  assumes ok: "apply_seq N bs ch = Some ch'" and small: "unat (chain_block_number ch) + length bs + 1 < 2 ^ 64"
    and i: "i < length bs" and j: "j < length bs" and eq: "block_number (bs ! i) = block_number (bs ! j)"
  shows "i = j"
proof -
  have u: "unat (of_nat l :: u64) = l" if "l \<le> length bs" for l
    using that small by (simp add: unat_of_nat take_bit_nat_eq_self)
  have "(of_nat (Suc i) :: u64) = of_nat (Suc j)"
    using apply_seq_number[OF ok] i j eq add_left_cancel by metis
  then have "unat (of_nat (Suc i) :: u64) = unat (of_nat (Suc j) :: u64)" by (rule arg_cong)
  then show "i = j" using u[of "Suc i"] u[of "Suc j"] i j by (simp del: of_nat_Suc)
qed

lemma receive_progress:
  assumes ok: "apply_seq N bs ch = Some ch'" and small: "unat (chain_block_number ch) + length bs + 1 < 2 ^ 64"
    and few: "length bs \<le> 1000"
    and p: "progress N bs ch D k s" "caught_up bs D k" and b: "b \<in> set bs"
  shows "\<exists>k'. progress N bs ch (insert b D) k' (snd (receive_block N b s)) \<and> caught_up bs (insert b D) k'"
proof -
  obtain i where i: "i < length bs" "bs ! i = b" using b by (auto simp: in_set_conv_nth)
  note num = progress_numbers[OF ok small p(1) i(1), unfolded i(2)]
  have kD: "b \<in> D" if "i < k"
  proof -
    have "take k bs ! i = b" "i < length (take k bs)" using that i by simp_all
    then have "b \<in> set (take k bs)" by (metis nth_mem)
    then show ?thesis using p(1) by (auto simp: progress_def)
  qed
  have pop: "\<exists>k'. progress N bs ch (insert b D) k' (t\<lparr>ns_block_buffer := pop_excess (ns_block_buffer t)\<rparr>)
      \<and> caught_up bs (insert b D) k'"
    if ex: "\<exists>k'. progress N bs ch (insert b D) k' t \<and> caught_up bs (insert b D) k'" for t
  proof -
    obtain k' where k': "progress N bs ch (insert b D) k' t" "caught_up bs (insert b D) k'" using ex by blast
    then have "pop_excess (ns_block_buffer t) = ns_block_buffer t"
      using progress_length[OF k'(1)] few by (intro pop_excess_small) simp
    then show ?thesis using k' by (intro exI[of _ k']) (simp add: progress_def)
  qed
  consider (old) "i < k" | (succ) "i = k" | (ahead) "k < i" by (rule linorder_cases)
  then show ?thesis
  proof cases
    case old
    then have "insert b D = D" using kD by auto
    then show ?thesis using old num p by (auto simp: receive_block_def)
  next
    case succ
    then have k: "k < length bs" "bs ! k = b" using i by auto
    obtain c where a: "apply_block N (bs ! k) (ns_chain s) = (Inr (), c)"
      and q: "\<And>t. ns_chain t = c \<Longrightarrow> ns_block_buffer t = AList.delete (next_block s) (ns_block_buffer s) \<Longrightarrow>
           progress N bs ch (insert b D) (Suc k) t"
      by (rule progress_apply[OF ok small p(1) k(1), of "insert b D"]) (use k in auto)
    have "map_of (ns_block_buffer s) (next_block s) = None"
      using progress_next[OF ok small p(1)] p(2) by (simp add: caught_up_def)
    then have "AList.delete (next_block s) (ns_block_buffer s) = ns_block_buffer s"
      unfolding AList.delete_eq by (intro filter_True) (auto simp: map_of_eq_None_iff image_iff)
    then have "progress N bs ch (insert b D) (Suc k)
        (s\<lparr>ns_chain := c, ns_requested_blocks := ns_requested_blocks s - {block_number b}\<rparr>)"
      by (intro q) simp_all
    from pop[OF drain_progress[OF ok small this]] show ?thesis
      using succ num a k by (simp add: receive_block_def Let_def)
  next
    case ahead
    let ?t = "s\<lparr>ns_block_buffer := bt_insert (block_number b) b (ns_block_buffer s)\<rparr>"
    let ?q = "request_missing (u64_range (next_block s) (block_number b)) ?t"
    have w: "bt_wf (ns_block_buffer s)" using p(1) by (simp add: progress_def)
    have bd: "b \<in> set (drop k bs)" using ahead i by (auto simp: set_drop_nth intro: less_imp_le)
    have same: "c = b" if c: "c \<in> set (drop k bs)" "block_number c = block_number b" for c
    proof -
      obtain j where "j < length bs" "bs ! j = c" using c(1) unfolding set_drop_nth by blast
      then show "c = b" using numbers_inj[OF ok small i(1), of j] i c(2) by simp
    qed
    have "set (ns_block_buffer ?t) = (\<lambda>b. (block_number b, b)) ` (set (drop k bs) \<inter> insert b D)"
      using p(1) bd same by (auto simp: bt_insert_set[OF w] progress_def)
    then have "progress N bs ch (insert b D) k ?t"
      using p(1) w by (auto simp: progress_def bt_insert_wf)
    then have "progress N bs ch (insert b D) k (snd ?q)"
      using request_missing_frame[of _ ?t] by (simp add: progress_def)
    moreover have "caught_up bs (insert b D) k"
    proof -
      have "bs ! k \<noteq> b" if "k < length bs"
        using progress_numbers(2)[OF ok small p(1) that] num(2) ahead by auto
      then show ?thesis using p(2) by (auto simp: caught_up_def)
    qed
    ultimately have q: "\<exists>k'. progress N bs ch (insert b D) k' (snd ?q) \<and> caught_up bs (insert b D) k'" by blast
    have n: "\<not> block_number b < next_block s" "block_number b \<noteq> next_block s" using ahead num by simp_all
    from pop[OF q] show ?thesis by (simp add: receive_block_def Let_def case_prod_beta n)
  qed
qed

text \<open>The events that only bring blocks.\<close>

definition block_event :: "network_event \<Rightarrow> block option" where
  "block_event ev = (case ev of
     NW_BlockReceived b \<Rightarrow> Some b | NW_BlockResponseReceived b \<Rightarrow> Some b | _ \<Rightarrow> None)"

lemma run_progress:
  assumes "apply_seq N bs ch = Some ch'" and "unat (chain_block_number ch) + length bs + 1 < 2 ^ 64"
    and "length bs \<le> 1000"
  shows "progress N bs ch D k s \<Longrightarrow> caught_up bs D k \<Longrightarrow> \<forall>ev \<in> set evs. \<exists>b \<in> set bs. block_event ev = Some b \<Longrightarrow>
    \<exists>k'. progress N bs ch (D \<union> {b. \<exists>ev \<in> set evs. block_event ev = Some b}) k' (snd (run_handler N evs s))
      \<and> caught_up bs (D \<union> {b. \<exists>ev \<in> set evs. block_event ev = Some b}) k'"
proof (induction evs arbitrary: D k s)
  case (Cons ev evs)
  obtain b where b: "b \<in> set bs" "block_event ev = Some b" using Cons.prems(3) by auto
  then have h: "handle_network_event N ev s = receive_block N b s"
    by (auto simp: block_event_def handle_network_event_def split: network_event.splits)
  obtain k' where k': "progress N bs ch (insert b D) k' (snd (receive_block N b s))" "caught_up bs (insert b D) k'"
    using receive_progress[OF assms Cons.prems(1,2) b(1)] by blast
  have "insert b D \<union> {b. \<exists>ev \<in> set evs. block_event ev = Some b}
      = D \<union> {b. \<exists>ev \<in> set (ev # evs). block_event ev = Some b}"
    using b(2) by auto
  then show ?case using Cons.IH[OF k'] Cons.prems(3) h by (simp add: Let_def case_prod_beta)
qed auto

lemma delivered_in_any_order:
  assumes "apply_seq N bs ch = Some ch'" and "length bs \<le> 1000"
    and "unat (chain_block_number ch) + length bs + 1 < 2 ^ 64"
    and "{b. \<exists>ev \<in> set evs. block_event ev = Some b} = set bs" and "\<forall>ev \<in> set evs. block_event ev \<noteq> None"
  shows "ns_chain (snd (run_handler N evs (net_start ch))) = ch'
    \<and> ns_block_buffer (snd (run_handler N evs (net_start ch))) = []"
proof -
  have "progress N bs ch {} 0 (net_start ch)" "caught_up bs {} 0"
    by (simp_all add: progress_def net_start_def caught_up_def)
  moreover have "\<forall>ev \<in> set evs. \<exists>b \<in> set bs. block_event ev = Some b"
  proof
    fix ev assume ev: "ev \<in> set evs"
    then obtain b where "block_event ev = Some b" using assms(5) by fastforce
    moreover from this ev have "b \<in> set bs" unfolding assms(4)[symmetric] by blast
    ultimately show "\<exists>b \<in> set bs. block_event ev = Some b" by blast
  qed
  ultimately obtain k where k: "progress N bs ch (set bs) k (snd (run_handler N evs (net_start ch)))"
      "caught_up bs (set bs) k"
    using run_progress[OF assms(1,3,2), of "{}" 0 "net_start ch" evs] assms(4) by auto
  then have "k = length bs" by (auto simp: progress_def caught_up_def)
  then show ?thesis using k(1) assms(1) by (auto simp: progress_def)
qed

text \<open>The handler is insensitive to the order of the network: if up to 1000 blocks extend the
  chain one after the other, then whatever order they arrive in, gossiped or as responses, repeated
  or not, once all have arrived the chain is the one that applying them in sequence gives, and the
  buffer is empty.\<close>

theorem delivery_order_irrelevant:
  assumes "apply_seq N bs ch = Some ch'" and "length bs \<le> 1000"
    and "unat (chain_block_number ch) + length bs + 1 < 2 ^ 64"
    and "{b. \<exists>ev \<in> set evs. block_event ev = Some b} = set bs" and "\<forall>ev \<in> set evs. block_event ev \<noteq> None"
  shows "ns_chain (snd (run_handler N evs (net_start ch))) = ch'
    \<and> ns_block_buffer (snd (run_handler N evs (net_start ch))) = []"
  using assms by (rule delivered_in_any_order)


section \<open>Concrete runs\<close>

text \<open>Empty blocks on the demonstration node: any header the rules accept applies.\<close>

lemma demo_gw_idle: "\<exists>root g'. gw_tick X E ord [] g = (Inr root, g')"
  by (simp add: gw_tick_def Let_def case_prod_beta)

lemma demo_executes_empty: "\<exists>ch'. execute_block demo_node (block_new h []) ch = (Inr [], ch')"
  using demo_gw_idle[of demo_externs demo_ext rev]
  by (auto simp: execute_block_def block_new_def Let_def try_then_def evm_phase_def case_prod_beta split: sum.split)
    (metis Inl_Inr_False fst_conv)+

lemma demo_put_empty_block: "\<exists>db'. put_block X demo_rocks (block_new h []) db = (Inr (), db')"
proof -
  have "rk_ser_body demo_rocks [] = Inr []" by (simp add: demo_rocks_def)
  then show ?thesis
    by (simp add: put_block_def Let_def put_header_def put_body_def and_then_def
        block_new_def demo_ser demo_put_cf del: batch_step.simps)
qed

lemma demo_stores_empty: "\<exists>ch'. store_block demo_node (block_new h []) [] ch = (Inr (), ch')"
proof -
  obtain db1 where "put_block demo_externs demo_rocks (block_new h []) (ws_db (ch_state ch)) = (Inr (), db1)"
    using demo_put_empty_block by blast
  then show ?thesis
    by (simp add: store_block_def try_then_def on_db_def put_latest_block_number_def put_meta_def
        demo_put_cf del: batch_step.simps)
qed

lemma demo_applies_empty:
  assumes "ch_head ch = Some par" and "header_links (header_hash demo_externs) h par" and "bh_difficulty h = 1"
    and "bh_extra_data h = []"
  obtains ch' where "apply_block demo_node (block_new h []) ch = (Inr (), ch')" and "ch_head ch' = Some h"
proof -
  obtain ch1 where 1: "execute_block demo_node (block_new h []) ch = (Inr [], ch1)"
    using demo_executes_empty by blast
  obtain root ch2 where 2: "commit_state demo_node (persist_world demo_node ch1) = (Inr root, ch2)"
    using demo_commits_state by blast
  obtain ch3 where 3: "store_block demo_node (block_new h []) [] ch2 = (Inr (), ch3)"
    using demo_stores_empty by blast
  have "poa_verify_block demo_externs (ch_consensus ch) (block_new h []) par = Inr ()"
    using assms by (simp add: poa_verify_block_ok poa_verify_header_ok block_new_def)
  moreover have "block_steps demo_node (block_new h []) ch = (Inr (), ch3)"
    using 1 2 3 by (simp add: block_steps_def try_then_def)
  ultimately show thesis using that assms(1) by (simp add: apply_block_def try_then_def block_new_def)
qed

definition demo_child :: "block_header \<Rightarrow> block_header" where
  "demo_child par = (header_genesis 0)\<lparr>bh_parent_hash := header_hash demo_externs par,
     bh_number := bh_number par + 1, bh_timestamp := 2 * bh_number par + 1, bh_game_tick := bh_game_tick par + 1\<rparr>"

abbreviation demo_one :: block_header where "demo_one \<equiv> demo_child (header_genesis 0)"
abbreviation demo_two :: block_header where "demo_two \<equiv> demo_child demo_one"

lemma demo_children:
  "header_links (header_hash demo_externs) demo_one (header_genesis 0)"
  "header_links (header_hash demo_externs) demo_two demo_one" "bh_number demo_one = 1" "bh_number demo_two = 2"
  by (simp_all add: demo_child_def header_links_def header_genesis_def)

lemma demo_head: "ch_head demo_chain = Some (header_genesis 0)" "chain_block_number demo_chain = 0"
  by (simp_all add: demo_chain_def chain_block_number_def header_genesis_def)

lemma demo_sequence:
  obtains c where "apply_seq demo_node [block_new demo_one [], block_new demo_two []] demo_chain = Some c"
    and "chain_block_number c = 2"
proof -
  have h: "bh_difficulty (demo_child p) = 1" "bh_extra_data (demo_child p) = []" for p
    by (simp_all add: demo_child_def header_genesis_def)
  obtain c1 where 1: "apply_block demo_node (block_new demo_one []) demo_chain = (Inr (), c1)" "ch_head c1 = Some demo_one"
    by (rule demo_applies_empty[OF demo_head(1) demo_children(1) h])
  obtain c2 where 2: "apply_block demo_node (block_new demo_two []) c1 = (Inr (), c2)" "ch_head c2 = Some demo_two"
    by (rule demo_applies_empty[OF 1(2) demo_children(2) h])
  show thesis using that 1 2 by (simp add: chain_block_number_def demo_children)
qed

theorem delivery_order_irrelevant_witness:
  "\<exists>c. ns_chain (snd (run_handler demo_node
       [NW_BlockReceived (block_new demo_two []), NW_BlockReceived (block_new demo_two []),
        NW_BlockResponseReceived (block_new demo_one [])] (net_start demo_chain))) = c
     \<and> chain_block_number c = 2"
proof -
  obtain c where c: "apply_seq demo_node [block_new demo_one [], block_new demo_two []] demo_chain = Some c"
    "chain_block_number c = 2" by (rule demo_sequence)
  show ?thesis
    using delivery_order_irrelevant[OF c(1), of "[NW_BlockReceived (block_new demo_two []),
        NW_BlockReceived (block_new demo_two []), NW_BlockResponseReceived (block_new demo_one [])]"] c(2)
    by (auto simp: demo_head block_event_def)
qed

theorem lost_request_never_repeated_witness:
  "let s1 = snd (handle_network_event demo_node (NW_BlockReceived (block_new demo_two [])) (net_start demo_chain));
       rest = [NW_BlockReceived (block_new demo_two []), NW_PeerConnected ''peer'']
   in NO_RequestBlock 1 \<notin> set (fst (run_handler demo_node rest s1))
     \<and> chain_block_number (ns_chain (snd (run_handler demo_node rest s1))) < 1"
proof -
  let ?e = "NW_BlockReceived (block_new demo_two [])"
  have n: "block_number (block_new demo_two []) = 2" by (simp add: block_new_def block_number_def demo_children)
  have x: "next_block (net_start demo_chain) = 1" by (simp add: next_block_def net_start_def demo_head)
  have "u64_range 1 2 = [1]" by (simp add: u64_range_def upt_conv_Cons)
  then have out: "NO_RequestBlock 1 \<in> set (fst (handle_network_event demo_node ?e (net_start demo_chain)))"
    by (simp add: handle_network_event_def receive_block_def x n Let_def case_prod_beta) (simp add: net_start_def)
  obtain out s1 where h: "handle_network_event demo_node ?e (net_start demo_chain) = (out, s1)" by fastforce
  have r: "snd (run_handler demo_node [] (net_start demo_chain)) = net_start demo_chain" by simp
  have "NO_RequestBlock 1 \<notin> set (fst (run_handler demo_node [?e, NW_PeerConnected ''peer''] s1))
      \<and> chain_block_number (ns_chain (snd (run_handler demo_node [?e, NW_PeerConnected ''peer''] s1))) < 1"
    by (rule lost_request_never_repeated[OF r _ h])
      (use out h n in \<open>simp_all add: net_start_def demo_head delivers_def\<close>)
  then show ?thesis unfolding Let_def h snd_conv .
qed

end
