(* ===== verification/Block_Execution.thy ===== *)
theory Block_Execution
  imports Chain
begin

text \<open>
  What the execution of a block does: the receipts it writes, the nonces and the gas it leaves
  in the account state.
\<close>

section \<open>Receipts\<close>

text \<open>The receipts so far are numbered from zero.\<close>

definition numbered :: "transaction_receipt list \<Rightarrow> bool" where
  "numbered rs \<longleftrightarrow> map rc_index rs = map of_nat [0..<length rs]"

lemma numbered_push:
  assumes "numbered (xs_receipts s)" and "\<And>i. rc_index (mk i) = of_nat i"
  shows "numbered (xs_receipts (push_receipt mk s))"
  using assms by (simp add: numbered_def push_receipt_def)

definition adds_receipts :: "b256 list \<Rightarrow> ('db, 'e) exec_state \<Rightarrow> ('db, 'e) exec_state \<Rightarrow> bool" where
  "adds_receipts hs s s' \<longleftrightarrow> map rc_tx_hash (xs_receipts s') = map rc_tx_hash (xs_receipts s) @ hs
     \<and> (numbered (xs_receipts s) \<longrightarrow> numbered (xs_receipts s'))"

lemma adds_receipts_nil: "xs_receipts s' = xs_receipts s \<Longrightarrow> adds_receipts [] s s'"
  by (simp add: adds_receipts_def)

lemma adds_receipts_trans:
  "adds_receipts a s s1 \<Longrightarrow> adds_receipts b s1 s2 \<Longrightarrow> adds_receipts (a @ b) s s2"
  by (simp add: adds_receipts_def)

lemma adds_receipts_push:
  "xs_receipts s1 = xs_receipts s \<Longrightarrow> (\<And>i. rc_tx_hash (mk i) = h) \<Longrightarrow> (\<And>i. rc_index (mk i) = of_nat i) \<Longrightarrow>
   adds_receipts [h] s (push_receipt mk s1)"
  using numbered_push[of s1 mk] by (simp add: adds_receipts_def) (simp add: push_receipt_def)

lemma receipt_fields [simp]:
  "rc_tx_hash (failed_receipt tx b i gas) = st_hash tx" "rc_index (failed_receipt tx b i gas) = of_nat i"
  "rc_tx_hash (outcome_receipt tx b i gas r) = st_hash tx" "rc_index (outcome_receipt tx b i gas r) = of_nat i"
  by (simp_all add: failed_receipt_def outcome_receipt_def)

lemma exec_evm_tx_receipt:
  "exec_evm_tx N b tx s = (Inr (), s') \<Longrightarrow> adds_receipts [st_hash tx] s s'"
  by (auto simp: exec_evm_tx_def Let_def split: sum.splits prod.splits if_splits intro!: adds_receipts_push)

lemma exec_evm_txs_receipts:
  "exec_evm_txs N b txs s = (Inr (), s') \<Longrightarrow> adds_receipts (map st_hash txs) s s'"
proof (induction txs arbitrary: s)
  case (Cons tx txs)
  obtain s1 where "exec_evm_tx N b tx s = (Inr (), s1)" "exec_evm_txs N b txs s1 = (Inr (), s')"
    using Cons.prems by (auto simp: try_then_ok)
  then show ?case using adds_receipts_trans[OF exec_evm_tx_receipt Cons.IH] by simp
qed (simp add: adds_receipts_nil)

lemma exec_game_tx_receipt:
  "exec_game_tx N b tx s = (Inr (), s') \<Longrightarrow> adds_receipts [st_hash tx] s s'"
  by (auto simp: exec_game_tx_def Let_def split: sum.splits prod.splits intro!: adds_receipts_push)

lemma exec_game_txs_receipts:
  "exec_game_txs N b txs s = (Inr (), s') \<Longrightarrow> adds_receipts (map st_hash (filter is_game_action txs)) s s'"
proof (induction txs arbitrary: s)
  case (Cons tx txs)
  show ?case
  proof (cases "is_game_action tx")
    case True
    obtain s1 where "exec_game_tx N b tx s = (Inr (), s1)" "exec_game_txs N b txs s1 = (Inr (), s')"
      using Cons.prems True by (auto simp: try_then_ok)
    then show ?thesis using adds_receipts_trans[OF exec_game_tx_receipt Cons.IH] True by simp
  qed (use Cons in simp)
qed (simp add: adds_receipts_nil)

lemma split_txs_evm:
  "split_txs N txs = Inr (acts, evm, gas) \<Longrightarrow> evm = filter (\<lambda>tx. \<not> is_game_action tx) txs"
proof (induction txs arbitrary: acts evm gas)
  case (Cons tx txs)
  then show ?case
    by (cases "split_txs N txs") (auto split: if_splits option.splits sum.splits prod.splits)
qed simp

lemma execute_block_ok:
  assumes "execute_block N b ch = (Inr rs, ch')"
  obtains acts evm gas s1 s2 root g where "split_txs N (bl_transactions b) = Inr (acts, evm, gas)"
    and "evm_phase N b evm \<lparr> xs_state = ch_state ch, xs_evm = ch_evm ch, xs_receipts = [], xs_gas = gas \<rparr> = (Inr (), s1)"
    and "exec_game_txs N b (bl_transactions b) s1 = (Inr (), s2)"
    and "gw_tick (nx_X N) (nx_E N) (nx_entity_order N) acts (ch_game ch) = (Inr root, g)"
    and "rs = xs_receipts s2" and "ch' = ch\<lparr>ch_state := xs_state s2, ch_evm := xs_evm s2, ch_game := g\<rparr>"
proof -
  obtain acts evm gas where sp: "split_txs N (bl_transactions b) = Inr (acts, evm, gas)"
    using assms by (auto simp: execute_block_def split: sum.splits)
  let ?s = "\<lparr> xs_state = ch_state ch, xs_evm = ch_evm ch, xs_receipts = [], xs_gas = gas \<rparr>"
  let ?t = "try_then (evm_phase N b evm ?s) (\<lambda>_ s. exec_game_txs N b (bl_transactions b) s)"
  obtain s2 where t: "?t = (Inr (), s2)"
    using assms sp by (cases ?t; cases "fst ?t") (auto simp: execute_block_def Let_def)
  obtain s1 where e: "evm_phase N b evm ?s = (Inr (), s1)" "exec_game_txs N b (bl_transactions b) s1 = (Inr (), s2)"
    using t unfolding try_then_ok by auto
  obtain root g where g: "gw_tick (nx_X N) (nx_E N) (nx_entity_order N) acts (ch_game ch) = (Inr root, g)"
    "rs = xs_receipts s2" "ch' = ch\<lparr>ch_state := xs_state s2, ch_evm := xs_evm s2, ch_game := g\<rparr>"
    using assms sp t by (auto simp: execute_block_def Let_def split: sum.splits prod.splits)
  show thesis by (rule that[OF sp e g])
qed

text \<open>C9. Every transaction of an executed block has exactly one receipt; the EVM transactions
  come first, then the game actions, each kind in the block's order, and the index a receipt
  records is its place in that list, not the place of its transaction in the block.\<close>

theorem receipts_of_block:
  assumes "execute_block N b ch = (Inr rs, ch')"
  shows "map rc_tx_hash rs = map st_hash (filter (\<lambda>tx. \<not> is_game_action tx) (bl_transactions b)
        @ filter is_game_action (bl_transactions b))
    \<and> map rc_index rs = map of_nat [0..<length (bl_transactions b)]"
proof -
  from assms obtain acts evm gas s1 s2 where sp: "split_txs N (bl_transactions b) = Inr (acts, evm, gas)"
    and e: "evm_phase N b evm \<lparr> xs_state = ch_state ch, xs_evm = ch_evm ch, xs_receipts = [], xs_gas = gas \<rparr> = (Inr (), s1)"
    and g: "exec_game_txs N b (bl_transactions b) s1 = (Inr (), s2)" and rs: "rs = xs_receipts s2"
    by (rule execute_block_ok)
  let ?s = "\<lparr> xs_state = ch_state ch, xs_evm = ch_evm ch, xs_receipts = [], xs_gas = gas \<rparr>"
  obtain w ev s0 where "exec_evm_txs N b evm (?s\<lparr>xs_state := w, xs_evm := ev\<rparr>) = (Inr (), s0)"
    "xs_receipts s1 = xs_receipts s0"
    using e by (auto simp: evm_phase_def try_then_ok case_prod_beta)
  then have "adds_receipts (map st_hash evm) ?s s1"
    using exec_evm_txs_receipts[of N b evm] by (fastforce simp: adds_receipts_def)
  from adds_receipts_trans[OF this exec_game_txs_receipts[OF g]]
  have "map rc_tx_hash rs = map st_hash (evm @ filter is_game_action (bl_transactions b))" "numbered rs"
    by (simp_all add: adds_receipts_def rs numbered_def)
  moreover have "length rs = length (bl_transactions b)"
    using arg_cong[OF calculation(1), of length] split_txs_evm[OF sp]
      sum_length_filter_compl[of is_game_action "bl_transactions b"] by simp
  ultimately show ?thesis using split_txs_evm[OF sp] by (simp add: numbered_def)
qed

section \<open>The actions a block runs\<close>

text \<open>The game actions of the transactions, in order, with the address text of their senders.\<close>

fun queued_actions :: "('db, 'e) node_ext \<Rightarrow> signed_transaction list \<Rightarrow> (string \<times> game_action) list" where
  "queued_actions N [] = []"
| "queued_actions N (tx # txs) =
     (case (if is_game_action tx then st_game_action tx else None, tx_sender (nx_X N) tx) of
        (Some a, Inr sender) \<Rightarrow> (nx_addr_debug N sender, a) # queued_actions N txs
      | _ \<Rightarrow> queued_actions N txs)"

lemma split_txs_actions: "split_txs N txs = Inr (acts, evm, gas) \<Longrightarrow> acts = queued_actions N txs"
proof (induction txs arbitrary: acts evm gas)
  case (Cons tx txs)
  then show ?case
    by (cases "split_txs N txs"; cases "tx_sender (nx_X N) tx")
      (auto split: if_splits option.splits sum.splits prod.splits)
qed simp

text \<open>C12. The effect of an executed block on the game world is one tick with every game action of
  the block in order. The account state has no part in it: an action whose transaction has the
  wrong nonce, so that its receipt reports a failure, runs all the same.\<close>

theorem all_actions_run:
  assumes "execute_block N b ch = (Inr rs, ch')"
  shows "\<exists>root. gw_tick (nx_X N) (nx_E N) (nx_entity_order N) (queued_actions N (bl_transactions b)) (ch_game ch)
    = (Inr root, ch_game ch')"
proof -
  from assms obtain acts evm gas s1 s2 root g where sp: "split_txs N (bl_transactions b) = Inr (acts, evm, gas)"
    and e: "exec_game_txs N b (bl_transactions b) s1 = (Inr (), s2)"
    and g: "gw_tick (nx_X N) (nx_E N) (nx_entity_order N) acts (ch_game ch) = (Inr root, g)"
    and ch': "ch' = ch\<lparr>ch_state := xs_state s2, ch_evm := xs_evm s2, ch_game := g\<rparr>"
    by (rule execute_block_ok)
  then show ?thesis using split_txs_actions[OF sp] by auto
qed

section \<open>The gas of game actions is counted twice\<close>

lemma exec_game_tx_gas:
  "exec_game_tx N b tx s = (Inr (), s') \<Longrightarrow> xs_gas s' = xs_gas s + 21000
   \<and> (\<exists>r. xs_receipts s' = xs_receipts s @ [r] \<and> rc_cumulative_gas_used r = xs_gas s')"
  by (auto simp: exec_game_tx_def Let_def push_receipt_def split: sum.splits prod.splits)

lemma exec_game_txs_gas:
  "exec_game_txs N b txs s = (Inr (), s') \<Longrightarrow>
   xs_gas s' = xs_gas s + 21000 * of_nat (length (filter is_game_action txs)) \<and>
   (filter is_game_action txs \<noteq> [] \<longrightarrow> rc_cumulative_gas_used (last (xs_receipts s')) = xs_gas s')"
proof (induction txs arbitrary: s)
  case (Cons tx txs)
  show ?case
  proof (cases "is_game_action tx")
    case True
    obtain s1 where 1: "exec_game_tx N b tx s = (Inr (), s1)" and 2: "exec_game_txs N b txs s1 = (Inr (), s')"
      using Cons.prems True by (auto simp: try_then_ok)
    have "xs_gas s1 = xs_gas s + 21000" "rc_cumulative_gas_used (last (xs_receipts s1)) = xs_gas s1"
      using exec_game_tx_gas[OF 1] by auto
    moreover have "filter is_game_action txs = [] \<Longrightarrow> s' = s1"
      using 2 by (induction txs) (auto split: if_splits)
    ultimately show ?thesis
      using Cons.IH[OF 2] True by (cases "filter is_game_action txs = []") (auto simp: algebra_simps)
  qed (use Cons in simp)
qed simp

lemma split_txs_gas:
  "split_txs N txs = Inr (acts, evm, gas) \<Longrightarrow> list_all (\<lambda>tx. is_game_action tx \<and> st_game_action tx \<noteq> None) txs \<Longrightarrow>
   gas = 21000 * of_nat (length txs) \<and> evm = []"
proof (induction txs arbitrary: acts evm gas)
  case (Cons tx txs)
  then show ?case
    by (cases "split_txs N txs") (auto simp: algebra_simps split: if_splits option.splits sum.splits prod.splits)
qed simp

text \<open>In a block of game actions the cumulative gas of the last receipt is twice the gas of
  the receipts together: the first loop has added 21000 per action before the third adds it
  again.\<close>

theorem game_gas_counted_twice:
  assumes "execute_block N b ch = (Inr rs, ch')" and "bl_transactions b \<noteq> []"
    and "list_all (\<lambda>tx. is_game_action tx \<and> st_game_action tx \<noteq> None) (bl_transactions b)"
  shows "rc_cumulative_gas_used (last rs) = 2 * (21000 * of_nat (length (bl_transactions b)))"
proof -
  from assms(1) obtain acts evm gas s1 s2 where sp: "split_txs N (bl_transactions b) = Inr (acts, evm, gas)"
    and e: "evm_phase N b evm \<lparr> xs_state = ch_state ch, xs_evm = ch_evm ch, xs_receipts = [], xs_gas = gas \<rparr> = (Inr (), s1)"
    and g: "exec_game_txs N b (bl_transactions b) s1 = (Inr (), s2)" and rs: "rs = xs_receipts s2"
    by (rule execute_block_ok)
  have "gas = 21000 * of_nat (length (bl_transactions b))" "evm = []"
    using split_txs_gas[OF sp assms(3)] by auto
  moreover from this have "xs_gas s1 = gas"
    using e by (auto simp: evm_phase_def try_then_def)
  moreover have "filter is_game_action (bl_transactions b) = bl_transactions b"
    using assms(3) by (simp add: list_all_iff)
  ultimately show ?thesis
    using exec_game_txs_gas[OF g] assms(2) by (simp add: rs)
qed

section \<open>The nonce of a transaction the EVM refuses\<close>

lemma sim_get_nonce:
  assumes "ws_sim R J w s"
  obtains w' where "ws_get_nonce R J a w = (Inr (snd (account_pair (sp_live s a))), w')" "ws_sim R J w' s"
proof -
  obtain r w' where g: "ws_get_account R J a w = (r, w')" by (cases "ws_get_account R J a w")
  have "r = Inr (sp_live s a)" "ws_sim R J w' s" using sim_get[OF assms, of a] g by simp_all
  then show thesis
    using that g by (cases "sp_live s a") (simp_all add: ws_get_nonce_def account_pair_def)
qed

lemma load_account_sim:
  assumes "ws_sim R J w s"
  obtains w' where "ws_sim R J w' s"
    and "load_account R J V a (e, w) = (case sp_live s a of
       None \<Rightarrow> (e, w')
     | Some acc \<Rightarrow> (e\<lparr>ex_db := rv_insert V a \<lparr> ai_balance = ac_balance acc, ai_nonce = ac_nonce acc,
         ai_code_hash = 0, ai_code = None \<rparr> (ex_db e)\<rparr>, w'))"
proof -
  obtain r w' where g: "ws_get_account R J a w = (r, w')" by (cases "ws_get_account R J a w")
  have "r = Inr (sp_live s a)" "ws_sim R J w' s" using sim_get[OF assms, of a] g by simp_all
  then show thesis using that g by (simp add: load_account_def split: option.split)
qed

text \<open>After the loading loop the EVM holds, for every account it holds, what the state holds.\<close>

definition evm_matches :: "'e revm \<Rightarrow> 'e evm_executor \<Rightarrow> acct_spec \<Rightarrow> bool" where
  "evm_matches V e s \<longleftrightarrow> (\<forall>a. map_option info_pair (map_of (rv_accounts V (ex_db e)) a)
     \<in> {None, Some (account_pair (sp_live s a))})"

lemma insert_matches:
  assumes "revm_ok V" and "evm_matches V e s" and "account_pair (sp_live s a) = (ai_balance i, ai_nonce i)"
  shows "evm_matches V (e\<lparr>ex_db := rv_insert V a i (ex_db e)\<rparr>) s"
    and "map_option info_pair (map_of (rv_accounts V (rv_insert V a i (ex_db e))) a) = Some (account_pair (sp_live s a))"
proof -
  have "map_option info_pair (map_of (rv_accounts V (rv_insert V a i db)) b)
      = (if b = a then Some (ai_balance i, ai_nonce i) else map_option info_pair (map_of (rv_accounts V db) b))" for b db
    using assms(1) by (simp add: revm_ok_def info_pair_def[abs_def])
  then show "evm_matches V (e\<lparr>ex_db := rv_insert V a i (ex_db e)\<rparr>) s"
    "map_option info_pair (map_of (rv_accounts V (rv_insert V a i (ex_db e))) a) = Some (account_pair (sp_live s a))"
    using assms(2,3) by (simp_all add: evm_matches_def)
qed

lemma load_account_matches:
  assumes V: "revm_ok V" and w: "ws_sim R J w s" and e: "evm_matches V e s"
  obtains e' w' where "load_account R J V a (e, w) = (e', w')" and "ws_sim R J w' s" and "evm_matches V e' s"
    and "ex_chain_id e' = ex_chain_id e"
    and "map_of (rv_accounts V (ex_db e)) b \<noteq> None \<or> b = a \<and> sp_live s a \<noteq> None \<Longrightarrow>
      map_of (rv_accounts V (ex_db e')) b \<noteq> None"
proof -
  obtain w' where w': "ws_sim R J w' s"
    and l: "load_account R J V a (e, w) = (case sp_live s a of
       None \<Rightarrow> (e, w')
     | Some acc \<Rightarrow> (e\<lparr>ex_db := rv_insert V a \<lparr> ai_balance = ac_balance acc, ai_nonce = ac_nonce acc,
         ai_code_hash = 0, ai_code = None \<rparr> (ex_db e)\<rparr>, w'))"
    by (rule load_account_sim[OF w])
  show thesis
  proof (cases "sp_live s a")
    case None
    then show thesis using that[of e w'] l w' e by auto
  next
    case (Some acc)
    let ?i = "\<lparr> ai_balance = ac_balance acc, ai_nonce = ac_nonce acc, ai_code_hash = 0, ai_code = None \<rparr>"
    have m: "evm_matches V (e\<lparr>ex_db := rv_insert V a ?i (ex_db e)\<rparr>) s"
      by (rule insert_matches(1)[OF V e]) (simp add: Some account_pair_def)
    have "map_option (\<lambda>x. (ai_balance x, ai_nonce x)) (map_of (rv_accounts V (rv_insert V a ?i (ex_db e))) b)
       = (if b = a then Some (ac_balance acc, ac_nonce acc)
          else map_option (\<lambda>x. (ai_balance x, ai_nonce x)) (map_of (rv_accounts V (ex_db e)) b))"
      using V by (simp add: revm_ok_def)
    then have "map_of (rv_accounts V (ex_db e)) b \<noteq> None \<or> b = a \<Longrightarrow>
        map_of (rv_accounts V (rv_insert V a ?i (ex_db e))) b \<noteq> None"
      by (auto split: if_splits)
    then show thesis
      using that[of "e\<lparr>ex_db := rv_insert V a ?i (ex_db e)\<rparr>" w'] l w' m Some by auto
  qed
qed

lemma reset_matches: "revm_ok V \<Longrightarrow> evm_matches V (evm_reset V e) s"
  by (simp add: revm_ok_def evm_matches_def evm_reset_def)

lemma load_tx_matches:
  assumes V: "revm_ok (nx_V N)" and w: "ws_sim (nx_R N) (nx_J N) w s" and e: "evm_matches (nx_V N) e s"
  obtains e' w' where "load_tx N tx (e, w) = (e', w')" and "ws_sim (nx_R N) (nx_J N) w' s" and "evm_matches (nx_V N) e' s"
    and "map_of (rv_accounts (nx_V N) (ex_db e)) a \<noteq> None \<or> tx_sender (nx_X N) tx = Inr a \<and> sp_live s a \<noteq> None \<Longrightarrow>
      map_of (rv_accounts (nx_V N) (ex_db e')) a \<noteq> None"
proof -
  let ?held = "\<lambda>e. map_of (rv_accounts (nx_V N) (ex_db e)) a \<noteq> None"
  obtain e1 w1 where 1: "(case tx_sender (nx_X N) tx of Inr sender \<Rightarrow> load_account (nx_R N) (nx_J N) (nx_V N) sender (e, w)
      | Inl _ \<Rightarrow> (e, w)) = (e1, w1)" "ws_sim (nx_R N) (nx_J N) w1 s" "evm_matches (nx_V N) e1 s"
      "?held e \<or> tx_sender (nx_X N) tx = Inr a \<and> sp_live s a \<noteq> None \<Longrightarrow> ?held e1"
  proof (cases "tx_sender (nx_X N) tx")
    case (Inr sender)
    obtain e1 w1 where "load_account (nx_R N) (nx_J N) (nx_V N) sender (e, w) = (e1, w1)"
      "ws_sim (nx_R N) (nx_J N) w1 s" "evm_matches (nx_V N) e1 s" "?held e \<or> a = sender \<and> sp_live s sender \<noteq> None \<Longrightarrow> ?held e1"
      using load_account_matches[OF V w e, where a = sender and b = a] by metis
    then show thesis using that[of e1 w1] Inr by auto
  qed (use that[of e w] w e in simp)
  show thesis
  proof (cases "tx_to (st_transaction tx)")
    case None
    then show thesis using that[of e1 w1] 1 by (simp add: load_tx_def)
  next
    case (Some to)
    obtain e2 w2 where "load_account (nx_R N) (nx_J N) (nx_V N) to (e1, w1) = (e2, w2)"
      "ws_sim (nx_R N) (nx_J N) w2 s" "evm_matches (nx_V N) e2 s" "?held e1 \<Longrightarrow> ?held e2"
      using load_account_matches[OF V 1(2,3), where a = to and b = a] by metis
    then show thesis using that[of e2 w2] 1 Some by (auto simp: load_tx_def)
  qed
qed

text \<open>The whole loading loop: it holds the senders that exist, as the state has them.\<close>

lemma load_txs_match:
  assumes V: "revm_ok (nx_V N)"
  shows "ws_sim (nx_R N) (nx_J N) w s \<Longrightarrow> evm_matches (nx_V N) e s \<Longrightarrow>
    \<exists>e' w'. fold (load_tx N) txs (e, w) = (e', w') \<and> ws_sim (nx_R N) (nx_J N) w' s \<and> evm_matches (nx_V N) e' s
      \<and> (map_of (rv_accounts (nx_V N) (ex_db e)) a \<noteq> None
          \<or> (\<exists>tx \<in> set txs. tx_sender (nx_X N) tx = Inr a) \<and> sp_live s a \<noteq> None
         \<longrightarrow> map_of (rv_accounts (nx_V N) (ex_db e')) a \<noteq> None)"
proof (induction txs arbitrary: e w)
  case (Cons tx txs)
  obtain e1 w1 where 1: "load_tx N tx (e, w) = (e1, w1)" "ws_sim (nx_R N) (nx_J N) w1 s" "evm_matches (nx_V N) e1 s"
    "map_of (rv_accounts (nx_V N) (ex_db e)) a \<noteq> None \<or> tx_sender (nx_X N) tx = Inr a \<and> sp_live s a \<noteq> None \<Longrightarrow>
      map_of (rv_accounts (nx_V N) (ex_db e1)) a \<noteq> None"
    using load_tx_matches[OF V Cons.prems, where a = a and tx = tx] by metis
  from Cons.IH[OF 1(2,3)] obtain e' w' where
    2: "fold (load_tx N) txs (e1, w1) = (e', w')" "ws_sim (nx_R N) (nx_J N) w' s" "evm_matches (nx_V N) e' s"
    "map_of (rv_accounts (nx_V N) (ex_db e1)) a \<noteq> None
        \<or> (\<exists>tx \<in> set txs. tx_sender (nx_X N) tx = Inr a) \<and> sp_live s a \<noteq> None
       \<longrightarrow> map_of (rv_accounts (nx_V N) (ex_db e')) a \<noteq> None"
    by blast
  have "fold (load_tx N) (tx # txs) (e, w) = (e', w')" using 1(1) 2(1) by simp
  moreover have "map_of (rv_accounts (nx_V N) (ex_db e)) a \<noteq> None
      \<or> (\<exists>t \<in> set (tx # txs). tx_sender (nx_X N) t = Inr a) \<and> sp_live s a \<noteq> None
     \<longrightarrow> map_of (rv_accounts (nx_V N) (ex_db e')) a \<noteq> None"
    using 1(4) 2(4) by (metis set_ConsD)
  ultimately show ?case using 2(2,3) by blast
qed simp

lemma increment_nonce_sim:
  assumes "ws_sim R J w s"
  obtains w' where "ws_increment_nonce R J a w = (Inr (), w')"
    and "ws_sim R J w' (sp_write a ((sp_account s a)\<lparr>ac_nonce := ac_nonce (sp_account s a) + 1\<rparr>) s)"
proof -
  obtain w1 where 1: "ws_get_or_create R J a w = (Inr (sp_account s a), w1)" "ws_sim R J w1 s"
    using sim_get_or_create[OF assms] .
  show thesis by (rule that[OF _ sim_put[OF 1(2)]]) (simp add: ws_increment_nonce_def 1(1))
qed

lemma refused_keeps_account:
  assumes V: "revm_ok V" and x: "execute_tx X V tx e = (Inl (EE_Internal err), e')"
    and i: "map_of (rv_accounts V (ex_db e)) a = Some i"
  obtains j where "map_of (rv_accounts V (ex_db e')) a = Some j" and "info_pair j = info_pair i"
proof -
  have "e' = e \<or> (\<exists>c t m db. rv_transact_commit V c t (ex_db e) = (Inl m, db) \<and> ex_db e' = db)"
    using x unfolding execute_tx_def
    by (auto simp: Let_def outcome_of_def split: if_splits prod.splits sum.splits exec_result.splits)
  then show thesis
  proof
    assume "\<exists>c t m db. rv_transact_commit V c t (ex_db e) = (Inl m, db) \<and> ex_db e' = db"
    then obtain c t m where "rv_transact_commit V c t (ex_db e) = (Inl m, ex_db e')" by blast
    with i V have "\<exists>j. map_of (rv_accounts V (ex_db e')) a = Some j \<and> (ai_balance j, ai_nonce j) = (ai_balance i, ai_nonce i)"
      unfolding revm_ok_def by blast
    then show thesis using that by (auto simp: info_pair_def)
  qed (use that i in simp)
qed

lemma sub_balance_sim: "ws_sim R J w s \<Longrightarrow> \<exists>s'. ws_sim R J (snd (ws_sub_balance R J a y w)) s'"
proof -
  assume w: "ws_sim R J w s"
  obtain w1 where "ws_get_or_create R J a w = (Inr (sp_account s a), w1)" "ws_sim R J w1 s"
    using sim_get_or_create[OF w] .
  then show ?thesis using sim_put by (fastforce simp: ws_sub_balance_def)
qed

definition refused :: "evm_error + execution_outcome \<Rightarrow> bool" where
  "refused r \<longleftrightarrow> (\<exists>err. r = Inl (EE_Internal err))"

text \<open>The account \<open>a\<close> is spared when \<open>revm\<close> refuses every transaction of \<open>a\<close> that is given to it, and a
  transaction of another sender that it executes leaves the balance and the nonce of \<open>a\<close> alone. A
  transaction whose nonce is not the one in the state is not given to \<open>revm\<close>.\<close>

definition evm_entry :: "'e revm \<Rightarrow> 'e evm_executor \<Rightarrow> address \<Rightarrow> (u256 \<times> u64) option" where
  "evm_entry V e a = map_option info_pair (map_of (rv_accounts V (ex_db e)) a)"

fun evm_spares :: "('db, 'e) node_ext \<Rightarrow> address \<Rightarrow> block \<Rightarrow> signed_transaction list \<Rightarrow> ('db, 'e) exec_state \<Rightarrow> bool" where
  "evm_spares N a b [] s = True"
| "evm_spares N a b (tx # txs) s \<longleftrightarrow>
     (let sender = projr (tx_sender (nx_X N) tx); r = execute_tx (nx_X N) (nx_V N) tx (xs_evm s) in
      (fst (ws_get_nonce (nx_R N) (nx_J N) sender (xs_state s)) = Inr (tx_nonce (st_transaction tx)) \<longrightarrow>
         refused (fst r) \<or> (sender \<noteq> a \<and> evm_entry (nx_V N) (snd r) a = evm_entry (nx_V N) (xs_evm s) a)))
     \<and> evm_spares N a b txs (snd (exec_evm_tx N b tx s))"

lemma spared_step:
  assumes V: "revm_ok (nx_V N)" and w: "ws_sim (nx_R N) (nx_J N) (xs_state s) sp"
    and entry: "evm_entry (nx_V N) (xs_evm s) a = Some p"
    and x: "exec_evm_tx N b tx s = (Inr (), s1)" and sp: "evm_spares N a b (tx # txs) s"
  shows "\<exists>sp1. ws_sim (nx_R N) (nx_J N) (xs_state s1) sp1 \<and> evm_entry (nx_V N) (xs_evm s1) a = Some p"
proof -
  let ?R = "nx_R N" and ?J = "nx_J N" and ?V = "nx_V N"
  obtain sender where sender: "tx_sender (nx_X N) tx = Inr sender"
    using x by (auto simp: exec_evm_tx_def Let_def split: sum.splits)
  obtain w1 where n: "ws_get_nonce ?R ?J sender (xs_state s) = (Inr (snd (account_pair (sp_live sp sender))), w1)"
    and w1: "ws_sim ?R ?J w1 sp" by (rule sim_get_nonce[OF w])
  show ?thesis
  proof (cases "tx_nonce (st_transaction tx) = snd (account_pair (sp_live sp sender))")
    case False
    then have "xs_state s1 = w1" "xs_evm s1 = xs_evm s"
      using x sender n by (auto simp: exec_evm_tx_def Let_def push_receipt_def)
    then show ?thesis using w1 entry by auto
  next
    case True
    obtain r e2 where r: "execute_tx (nx_X N) ?V tx (xs_evm s) = (r, e2)" by (cases "execute_tx (nx_X N) ?V tx (xs_evm s)")
    have e2: "evm_entry ?V e2 a = Some p"
    proof (cases "refused r")
      case True
      then obtain err where "r = Inl (EE_Internal err)" by (auto simp: refused_def)
      moreover obtain i where "map_of (rv_accounts ?V (ex_db (xs_evm s))) a = Some i" "info_pair i = p"
        using entry by (auto simp: evm_entry_def)
      ultimately show ?thesis using refused_keeps_account[OF V, of "nx_X N" tx "xs_evm s" err e2 a i] r
        by (metis evm_entry_def option.simps(9))
    next
      case False
      then show ?thesis using sp sender n r True entry by (simp add: Let_def)
    qed
    have "xs_evm s1 = e2 \<and> (\<exists>w2. (w2 = w1 \<or> (\<exists>y. w2 = snd (ws_sub_balance ?R ?J sender y w1)))
        \<and> xs_state s1 = snd (ws_increment_nonce ?R ?J sender w2))"
      using x sender n True r by (cases r) (auto simp: exec_evm_tx_def Let_def push_receipt_def)
    then obtain w2 where "xs_evm s1 = e2" "xs_state s1 = snd (ws_increment_nonce ?R ?J sender w2)"
      and "w2 = w1 \<or> (\<exists>y. w2 = snd (ws_sub_balance ?R ?J sender y w1))" by blast
    moreover from this obtain sp2 where "ws_sim ?R ?J w2 sp2" using w1 sub_balance_sim[OF w1] by blast
    ultimately show ?thesis using e2 increment_nonce_sim by (metis snd_conv)
  qed
qed

lemma spared_run:
  assumes V: "revm_ok (nx_V N)"
  shows "ws_sim (nx_R N) (nx_J N) (xs_state s) sp \<Longrightarrow> evm_entry (nx_V N) (xs_evm s) a = Some p \<Longrightarrow>
    evm_spares N a b txs s \<Longrightarrow> exec_evm_txs N b txs s = (Inr (), s1) \<Longrightarrow>
    \<exists>sp1. ws_sim (nx_R N) (nx_J N) (xs_state s1) sp1 \<and> evm_entry (nx_V N) (xs_evm s1) a = Some p"
proof (induction txs arbitrary: s sp)
  case (Cons tx txs)
  obtain s2 where 2: "exec_evm_tx N b tx s = (Inr (), s2)" "exec_evm_txs N b txs s2 = (Inr (), s1)"
    using Cons.prems(4) by (auto simp: try_then_ok)
  obtain sp2 where "ws_sim (nx_R N) (nx_J N) (xs_state s2) sp2" "evm_entry (nx_V N) (xs_evm s2) a = Some p"
    using spared_step[OF V Cons.prems(1,2) 2(1) Cons.prems(3)] by blast
  then show ?case using Cons.IH[OF _ _ _ 2(2)] Cons.prems(3) 2(1) by simp
qed auto

text \<open>The failure branch does increment the nonce in the state.\<close>

lemma refusal_increments:
  assumes "tx_sender (nx_X N) tx = Inr a"
    and "ws_get_nonce (nx_R N) (nx_J N) a (xs_state s) = (Inr (tx_nonce (st_transaction tx)), w)"
    and "execute_tx (nx_X N) (nx_V N) tx (xs_evm s) = (Inl err, e)"
  shows "xs_state (snd (exec_evm_tx N b tx s)) = snd (ws_increment_nonce (nx_R N) (nx_J N) a w)"
  using assms by (simp add: exec_evm_tx_def push_receipt_def)

lemma exec_evm_tx_total:
  assumes "ws_sim (nx_R N) (nx_J N) (xs_state s) sp" and "tx_sender (nx_X N) tx = Inr a"
  shows "fst (exec_evm_tx N b tx s) = Inr ()"
proof -
  obtain w where "ws_get_nonce (nx_R N) (nx_J N) a (xs_state s) = (Inr (snd (account_pair (sp_live sp a))), w)"
    by (rule sim_get_nonce[OF assms(1)])
  then show ?thesis using assms(2) by (auto simp: exec_evm_tx_def Let_def split: prod.split sum.split)
qed

text \<open>C39. Let \<open>revm\<close> refuse every transaction of an existing account that an EVM phase gives to it, and let the
  transactions of other senders, of which there may be any number, executed or refused, leave that
  account alone in the EVM. Then the account ends the phase with the nonce and the balance it had
  before: the increments that the failure branch makes are overwritten by the flush of the EVM
  accounts, so that the refused transactions do not consume a nonce.\<close>

theorem refused_tx_keeps_nonce:
  assumes "node_ok N" and "ws_readable (nx_R N) (nx_J N) (xs_state s)"
    and "tx \<in> set txs" and "tx_sender (nx_X N) tx = Inr a"
    and "ws_read (nx_R N) (nx_J N) (xs_state s) a = Inr (Some acc)"
    and "fold (load_tx N) txs (evm_reset (nx_V N) (xs_evm s), xs_state s) = (e, w)"
    and "evm_spares N a b txs (s\<lparr>xs_state := w, xs_evm := e\<rparr>)"
    and "evm_phase N b txs s = (Inr (), s')"
  shows "fst (ws_get_nonce (nx_R N) (nx_J N) a (xs_state s')) = Inr (ac_nonce acc)
    \<and> fst (ws_get_balance (nx_R N) (nx_J N) a (xs_state s')) = Inr (ac_balance acc)"
proof -
  let ?R = "nx_R N" and ?J = "nx_J N" and ?V = "nx_V N"
  have V: "revm_ok ?V" using assms(1) by (simp add: node_ok_def)
  obtain sp where sim: "ws_sim ?R ?J (xs_state s) sp" using assms(2) by (auto simp: ws_readable_def)
  have live: "sp_live sp a = Some acc" using assms(5) ws_simD(2)[OF sim] by simp
  have ld: "ws_sim ?R ?J w sp" "evm_matches ?V e sp" "map_of (rv_accounts ?V (ex_db e)) a \<noteq> None"
    using load_txs_match[OF V sim reset_matches[OF V, of "xs_evm s"], where txs = txs and a = a] assms(3,4,6) live by auto
  then have entry: "evm_entry ?V e a = Some (ac_balance acc, ac_nonce acc)"
    unfolding evm_matches_def by (auto simp: evm_entry_def live account_pair_def dest: spec[of _ a])
  obtain s1 where s1: "exec_evm_txs N b txs (s\<lparr>xs_state := w, xs_evm := e\<rparr>) = (Inr (), s1)"
    "xs_state s' = snd (flush_to_state ?R ?J ?V (xs_evm s1) (xs_state s1))"
    using assms(6,8) by (auto simp: evm_phase_def try_then_ok)
  obtain sp1 where sp1: "ws_sim ?R ?J (xs_state s1) sp1" "evm_entry ?V (xs_evm s1) a = Some (ac_balance acc, ac_nonce acc)"
    using spared_run[OF V _ _ assms(7) s1(1), where sp = sp and p = "(ac_balance acc, ac_nonce acc)"] ld(1) entry by auto
  have "hm_wf (rv_accounts ?V (ex_db (xs_evm s1)))" using V by (simp add: revm_ok_def)
  from flush_accounts_sim[OF this sp1(1)] obtain w4 sp4 where
    f: "flush_accounts ?R ?J (rv_accounts ?V (ex_db (xs_evm s1))) (xs_state s1) = (Inr (), w4)" "ws_sim ?R ?J w4 sp4"
    and after: "case map_of (rv_accounts ?V (ex_db (xs_evm s1))) a of
        Some i \<Rightarrow> account_pair (sp_live sp4 a) = info_pair i | None \<Rightarrow> sp_live sp4 a = sp_live sp1 a"
    by blast
  have p: "account_pair (sp_live sp4 a) = (ac_balance acc, ac_nonce acc)"
    using after sp1(2) by (auto simp: evm_entry_def)
  have "xs_state s' = w4" using s1(2) f(1) by (simp add: flush_to_state_def)
  then show ?thesis using sim_get(1)[OF f(2), of a] p
    by (cases "ws_get_account ?R ?J a w4"; cases "sp_live sp4 a")
      (simp_all add: ws_get_nonce_def ws_get_balance_def account_pair_def)
qed

section \<open>Witnesses\<close>

theorem receipts_of_block_witness:
  "\<exists>r ch'. execute_block demo_node demo_next demo_chain = (Inr [r], ch') \<and> rc_tx_hash r = st_hash Storage.demo_tx
     \<and> rc_index r = 0"
proof -
  obtain r ch' where "execute_block demo_node demo_next demo_chain = (Inr [r], ch')"
    using demo_executes by blast
  from receipts_of_block[OF this] this show ?thesis by (simp add: block_new_def)
qed

theorem all_actions_run_witness:
  "\<exists>rs ch' root. execute_block demo_node demo_next demo_chain = (Inr rs, ch')
     \<and> gw_tick demo_externs demo_ext rev [(''0x'', GA_Respawn)] (ch_game demo_chain) = (Inr root, ch_game ch')"
proof -
  obtain r ch' where e: "execute_block demo_node demo_next demo_chain = (Inr [r], ch')"
    using demo_executes by blast
  have "queued_actions demo_node (bl_transactions demo_next) = [(''0x'', GA_Respawn)]"
    by (simp add: block_new_def) (simp add: demo_node_def)
  with all_actions_run[OF e] e show ?thesis by auto
qed

theorem game_gas_counted_twice_witness:
  "\<exists>r ch'. execute_block demo_node demo_next demo_chain = (Inr [r], ch') \<and> rc_cumulative_gas_used r = 42000"
proof -
  obtain r ch' where "execute_block demo_node demo_next demo_chain = (Inr [r], ch')"
    using demo_executes by blast
  from game_gas_counted_twice[OF this] this show ?thesis by (simp add: block_new_def)
qed

definition demo_transfer :: signed_transaction where
  "demo_transfer = demo_signed demo_secret ((new_game_action 27181 5 GA_Respawn)
     \<lparr>tx_type := TX_Legacy, tx_game_action := None, tx_amount := 7, tx_to := Some 1\<rparr>)"

lemma demo_transfer_fields:
  "\<not> is_game_action demo_transfer" "tx_nonce (st_transaction demo_transfer) = 5"
  "tx_sender demo_externs demo_transfer = Inr (public_key_to_address demo_externs (4 # demo_secret))"
  by (simp_all add: demo_transfer_def demo_sender demo_secret_length)
    (simp_all add: demo_signed_def signed_new_def is_game_action_def new_game_action_def)

theorem refused_tx_keeps_nonce_witness:
  "\<exists>(s :: (contents, (address \<times> account_info) list) exec_state) s' a.
     tx_sender demo_externs demo_transfer = Inr a \<and> ws_read demo_rocks demo_json (xs_state s) a \<noteq> Inr None \<and>
     evm_phase demo_node demo_next [demo_transfer] s = (Inr (), s')
     \<and> fst (ws_get_nonce demo_rocks demo_json a (xs_state s')) = Inr 5"
proof -
  let ?a = "public_key_to_address demo_externs (4 # demo_secret)"
  let ?acc = "(with_balance 100)\<lparr>ac_nonce := 5\<rparr>"
  let ?s = "\<lparr> xs_state = ws_put_account ?a ?acc (ws_new empty_db), xs_evm = evm_new demo_revm 27181,
    xs_receipts = [], xs_gas = 0 \<rparr>"
  have "ws_sim demo_rocks demo_json (ws_new empty_db) \<lparr> sp_live = \<lambda>_. None, sp_stored = \<lambda>_. None \<rparr>"
    using demo_empty_accounts ws_inv_new[of demo_rocks demo_json empty_db]
    by (simp add: ws_sim_def ws_read_eq) (simp add: ws_new_def)
  note sim = sim_put[OF this, where a = ?a and acc = ?acc]
  have rd: "ws_readable (nx_R demo_node) (nx_J demo_node) (xs_state ?s)"
    using sim by (auto simp: ws_readable_def)
  have read: "ws_read demo_rocks demo_json (xs_state ?s) ?a = Inr (Some ?acc)"
    using ws_simD(2)[OF sim, of ?a] by (simp add: sp_write_def)
  have ref: "fst (execute_tx (nx_X demo_node) (nx_V demo_node) demo_transfer e) = Inl (EE_Internal ''refused'')" for e
    by (simp add: execute_tx_def demo_transfer_fields Let_def demo_revm_def)
  obtain e w where l: "fold (load_tx demo_node) [demo_transfer] (evm_reset (nx_V demo_node) (xs_evm ?s), xs_state ?s) = (e, w)"
    by (rule prod.exhaust)
  have spares: "evm_spares demo_node ?a demo_next [demo_transfer] (?s\<lparr>xs_state := w, xs_evm := e\<rparr>)"
    using ref by (simp add: refused_def)
  have V: "revm_ok (nx_V demo_node)" using demo_node_ok by (simp add: node_ok_def)
  obtain sp where sp: "ws_sim (nx_R demo_node) (nx_J demo_node) w sp"
    using load_txs_match[OF V, of "xs_state ?s" _ "evm_reset (nx_V demo_node) (xs_evm ?s)" "[demo_transfer]"] sim
      reset_matches[OF V] l by fastforce
  obtain s' where ph: "evm_phase demo_node demo_next [demo_transfer] ?s = (Inr (), s')"
    using exec_evm_tx_total[of demo_node "?s\<lparr>xs_state := w, xs_evm := e\<rparr>" sp demo_transfer ?a demo_next] sp l
      demo_transfer_fields(3)
    by (cases "exec_evm_tx demo_node demo_next demo_transfer (?s\<lparr>xs_state := w, xs_evm := e\<rparr>)")
      (simp add: evm_phase_def try_then_def)
  have "fst (ws_get_nonce (nx_R demo_node) (nx_J demo_node) ?a (xs_state s')) = Inr (ac_nonce ?acc)"
    using refused_tx_keeps_nonce[OF demo_node_ok rd, of demo_transfer "[demo_transfer]" ?a ?acc e w demo_next s']
      read l spares ph demo_transfer_fields(3) by simp
  then show ?thesis using ph read demo_transfer_fields(3)
    by (intro exI[of _ ?s] exI[of _ s'] exI[of _ ?a]) simp
qed

end
