(* ===== verification/Block_Producer.thy ===== *)
theory Block_Producer
  imports Block_Execution
begin

text \<open>
  The block producer, \<open>crates/node/src/block_producer.rs\<close>. The loop of \<open>start\<close> is a
  sequence of attempts: the clock reading and the iteration order of the pool's map at an attempt
  are its arguments, and a failed attempt leaves the chain it returns. The broadcast to the
  network is modelled in \<open>Net_Service\<close>.
\<close>

section \<open>One attempt\<close>

definition selection_gas :: "signed_transaction \<Rightarrow> u64" where
  "selection_gas tx = (if is_game_action tx then 21000 else tx_gas_limit (st_transaction tx))"

fun select_txs :: "u64 \<Rightarrow> u64 \<Rightarrow> signed_transaction list \<Rightarrow> signed_transaction list \<times> u64" where
  "select_txs limit gas [] = ([], gas)"
| "select_txs limit gas (tx # txs) =
     (if limit < gas + selection_gas tx then ([], gas)
      else let (sel, g) = select_txs limit (gas + selection_gas tx) txs in (tx # sel, g))"

type_synonym pool_order = "(address \<times> sender_queue) list \<Rightarrow> (address \<times> sender_queue) list"

definition build_block :: "externs \<Rightarrow> block_header \<Rightarrow> signed_transaction list \<Rightarrow> block" where
  "build_block X h pending =
     (let (sel, gas) = select_txs (bh_gas_limit h) 0 pending; b = block_new h sel in
      b\<lparr>bl_header := h\<lparr>bh_transactions_root := compute_transactions_root X b, bh_gas_used := gas\<rparr>\<rparr>)"

definition produce_block :: "('db, 'e) node_ext \<Rightarrow> pool_order \<Rightarrow> u64 \<Rightarrow> ('db, 'e, block) chain_op" where
  "produce_block N pord now ch =
     (case ch_head ch of
        None \<Rightarrow> (Inl NE_NotInitialized, ch)
      | Some par \<Rightarrow>
     (case prepare_header (nx_X N) now (ch_consensus ch) par of
        (Inl e, c) \<Rightarrow> (Inl (NE_Consensus e), ch\<lparr>ch_consensus := c\<rparr>)
      | (Inr h, c) \<Rightarrow>
     (case poa_seal_block (nx_X N) c (build_block (nx_X N) h (get_pending pord 1000 (ch_txpool ch))) of
        Inl e \<Rightarrow> (Inl (NE_Consensus e), ch\<lparr>ch_consensus := c\<rparr>)
      | Inr b \<Rightarrow> try_then (apply_block N b (ch\<lparr>ch_consensus := c\<rparr>)) (\<lambda>_ ch. (Inr b, ch)))))"

text \<open>The attempts of the production loop.\<close>

definition produce_run ::
  "('db, 'e) node_ext \<Rightarrow> (pool_order \<times> u64) list \<Rightarrow> ('db, 'e) chain
     \<Rightarrow> (node_error + block) list \<times> ('db, 'e) chain" where
  "produce_run N = run_results (\<lambda>(pord, now). produce_block N pord now)"

lemma produce_run_simps [simp]:
  "produce_run N [] ch = ([], ch)"
  "produce_run N (x # xs) ch =
     (let (r, ch1) = produce_block N (fst x) (snd x) ch; (rs, ch2) = produce_run N xs ch1 in (r # rs, ch2))"
  by (simp_all add: produce_run_def case_prod_beta)

section \<open>The gas of the selected transactions\<close>

definition total_gas :: "signed_transaction list \<Rightarrow> nat" where
  "total_gas txs = sum_list (map (unat \<circ> selection_gas) txs)"

lemma total_gas_simps [simp]:
  "total_gas [] = 0" "total_gas (tx # txs) = unat (selection_gas tx) + total_gas txs"
  by (simp_all add: total_gas_def)

lemma gas_sum_exact:
  assumes "unat (gas :: u64) + unat limit < 2 ^ 64" and "selection_gas tx \<le> limit"
  shows "unat (gas + selection_gas tx) = unat gas + unat (selection_gas tx)"
  using assms by (intro unat_add_lem[THEN iffD1]) (simp add: word_le_nat_alt)

lemma select_txs_exact:
  assumes "select_txs limit gas txs = (sel, used)" and "list_all (\<lambda>tx. selection_gas tx \<le> limit) txs"
    and "gas \<le> limit" and "unat limit < 2 ^ 63"
  shows "(\<exists>rest. txs = sel @ rest \<and> (rest = [] \<or> unat limit < unat used + unat (selection_gas (hd rest))))
    \<and> unat used = unat gas + total_gas sel \<and> used \<le> limit"
  using assms
proof (induction txs arbitrary: gas sel used)
  case (Cons tx txs)
  have exact: "unat (gas + selection_gas tx) = unat gas + unat (selection_gas tx)"
    by (rule gas_sum_exact[of _ limit]) (use Cons.prems in \<open>simp_all add: word_le_nat_alt\<close>)
  show ?case
  proof (cases "limit < gas + selection_gas tx")
    case True
    then show ?thesis using Cons.prems exact by (auto simp: word_less_nat_alt)
  next
    case False
    then obtain sel' where sel: "sel = tx # sel'" "select_txs limit (gas + selection_gas tx) txs = (sel', used)"
      using Cons.prems(1) by (auto split: prod.splits)
    with Cons.IH[OF sel(2)] Cons.prems False exact show ?thesis by (auto simp: not_less)
  qed
qed auto

lemma select_txs_prefix:
  "select_txs limit gas txs = (sel, used) \<Longrightarrow>
     (\<exists>rest. txs = sel @ rest \<and> (rest = [] \<or> limit < used + selection_gas (hd rest))) \<and> used = gas + of_nat (total_gas sel)"
proof (induction txs arbitrary: gas sel used)
  case (Cons tx txs)
  show ?case
  proof (cases "limit < gas + selection_gas tx")
    case False
    then obtain sel' where "sel = tx # sel'" "select_txs limit (gas + selection_gas tx) txs = (sel', used)"
      using Cons.prems by (auto split: prod.splits)
    with Cons.IH[OF this(2)] show ?thesis by (auto simp: algebra_simps)
  qed (use Cons.prems in auto)
qed auto

text \<open>C15. The block that is built holds a prefix of the pending transactions, the header declares their gas
  modulo \<open>2 ^ 64\<close>, and the transaction after the prefix would bring that sum above the limit. When every
  pending transaction fits a block by itself and the limit is below \<open>2 ^ 63\<close>, nothing wraps: the prefix
  is the longest one whose gas fits the limit, and the header declares exactly its gas.\<close>

theorem built_block_fits:
  "\<exists>rest. pending = bl_transactions (build_block X h pending) @ rest
    \<and> bh_gas_used (bl_header (build_block X h pending)) = of_nat (total_gas (bl_transactions (build_block X h pending)))
    \<and> (rest = [] \<or> bh_gas_limit h < bh_gas_used (bl_header (build_block X h pending)) + selection_gas (hd rest))
    \<and> (list_all (\<lambda>tx. selection_gas tx \<le> bh_gas_limit h) pending \<and> unat (bh_gas_limit h) < 2 ^ 63 \<longrightarrow>
        unat (bh_gas_used (bl_header (build_block X h pending))) = total_gas (bl_transactions (build_block X h pending))
        \<and> total_gas (bl_transactions (build_block X h pending)) \<le> unat (bh_gas_limit h)
        \<and> (rest = [] \<or> unat (bh_gas_limit h) < total_gas (bl_transactions (build_block X h pending) @ [hd rest])))"
proof -
  obtain sel used where s: "select_txs (bh_gas_limit h) 0 pending = (sel, used)"
    by (cases "select_txs (bh_gas_limit h) 0 pending")
  have b: "bl_transactions (build_block X h pending) = sel"
    "bh_gas_used (bl_header (build_block X h pending)) = used"
    by (simp_all add: build_block_def s block_new_def)
  obtain rest where p: "pending = sel @ rest" "rest = [] \<or> bh_gas_limit h < used + selection_gas (hd rest)"
    "used = of_nat (total_gas sel)"
    using select_txs_prefix[OF s] by auto
  have "unat used = total_gas sel \<and> total_gas sel \<le> unat (bh_gas_limit h)
      \<and> (rest = [] \<or> unat (bh_gas_limit h) < total_gas (sel @ [hd rest]))"
    if "list_all (\<lambda>tx. selection_gas tx \<le> bh_gas_limit h) pending" "unat (bh_gas_limit h) < 2 ^ 63"
    using select_txs_exact[OF s that(1) _ that(2)] p(1) by (auto simp: word_le_nat_alt total_gas_def)
  then show ?thesis using p unfolding b by blast
qed

text \<open>The sum of the gas limits is taken modulo \<open>2 ^ 64\<close>, and no gas limit is refused before:
  after transactions of some gas, one whose limit brings the sum to exactly \<open>2 ^ 64\<close> is
  selected, and the header declares that the block uses no gas at all.\<close>

theorem selected_gas_wraps:
  assumes "\<not> is_game_action tx" and "unat (selection_gas first) + unat (tx_gas_limit (st_transaction tx)) = 2 ^ 64"
    and "selection_gas first \<le> bh_gas_limit h"
  shows "bl_transactions (build_block X h [first, tx]) = [first, tx]
    \<and> bh_gas_used (bl_header (build_block X h [first, tx])) = 0
    \<and> total_gas [first, tx] = 2 ^ 64"
proof -
  have "selection_gas first + tx_gas_limit (st_transaction tx)
      = of_nat (unat (selection_gas first) + unat (tx_gas_limit (st_transaction tx)))" by simp
  also have "\<dots> = 0" unfolding assms(2) by simp
  finally have "selection_gas first + selection_gas tx = 0"
    using assms(1) by (simp add: selection_gas_def)
  then show ?thesis
    using assms by (simp add: build_block_def block_new_def Let_def not_less) (simp add: selection_gas_def)
qed

section \<open>When production fails\<close>

lemma produce_block_cases:
  assumes "ch_head ch = Some par" and "produce_block N pord now ch = (r, ch')"
  obtains (not_validator) "isl r" "ch' = ch" "\<And>now. \<exists>e. prepare_header (nx_X N) now (ch_consensus ch) par = (Inl e, ch_consensus ch)"
    | (prepared) h c where "prepare_header (nx_X N) now (ch_consensus ch) par = (Inr h, c)"
      "c = snd (advance_tick (ch_consensus ch))"
      "isl r \<and> same_head (ch\<lparr>ch_consensus := c\<rparr>) ch' \<or> (\<exists>b. r = Inr b
        \<and> poa_seal_block (nx_X N) c (build_block (nx_X N) h (get_pending pord 1000 (ch_txpool ch))) = Inr b
        \<and> apply_block N b (ch\<lparr>ch_consensus := c\<rparr>) = (Inr (), ch'))"
proof (cases "prepare_header (nx_X N) now (ch_consensus ch) par")
  case (Pair q c)
  show thesis
  proof (cases q)
    case (Inl e)
    have "prepare_header (nx_X N) now' (ch_consensus ch) par = (Inl e, ch_consensus ch)" for now'
      using Pair Inl by (auto simp: prepare_header_def Let_def split: option.splits if_splits prod.splits)
    moreover from this have "ch' = ch" "isl r" using assms by (auto simp: produce_block_def)
    ultimately show thesis using not_validator by blast
  next
    case (Inr h)
    have c: "c = snd (advance_tick (ch_consensus ch))"
      using Pair Inr by (auto simp: prepare_header_def Let_def split: option.splits if_splits prod.splits)
    let ?b = "build_block (nx_X N) h (get_pending pord 1000 (ch_txpool ch))"
    show thesis
    proof (cases "poa_seal_block (nx_X N) c ?b")
      case (Inl e)
      then have "isl r" "ch' = ch\<lparr>ch_consensus := c\<rparr>" using assms Pair Inr by (auto simp: produce_block_def)
      then show thesis using prepared[OF _ c] Pair Inr by simp
    next
      case (Inr b)
      then have r: "(r, ch') = try_then (apply_block N b (ch\<lparr>ch_consensus := c\<rparr>)) (\<lambda>_ ch. (Inr b, ch))"
        using assms Pair \<open>q = Inr h\<close> by (simp add: produce_block_def)
      obtain q1 ch1 where a: "apply_block N b (ch\<lparr>ch_consensus := c\<rparr>) = (q1, ch1)"
        by (cases "apply_block N b (ch\<lparr>ch_consensus := c\<rparr>)")
      show thesis
      proof (cases q1)
        case (Inl e)
        then have "same_head (ch\<lparr>ch_consensus := c\<rparr>) ch'" "isl r"
          using a r apply_block_fails by (auto simp: try_then_def)
        then show thesis using prepared[OF _ c] Pair \<open>q = Inr h\<close> by simp
      next
        case (Inr u)
        then have "r = Inr b" "apply_block N b (ch\<lparr>ch_consensus := c\<rparr>) = (Inr (), ch')"
          using a r by (simp_all add: try_then_def)
        then show thesis using prepared[OF _ c] Pair \<open>q = Inr h\<close> \<open>poa_seal_block (nx_X N) c ?b = Inr b\<close> by simp
      qed
    qed
  qed
qed

lemma sealed_tick:
  "poa_seal_block X e b = Inr b' \<Longrightarrow> bh_game_tick (bl_header b') = bh_game_tick (bl_header b)"
  "poa_seal_block X e b = Inr b' \<Longrightarrow> bl_transactions b' = bl_transactions b"
  by (auto simp: poa_seal_block_def split: option.splits sum.splits)

lemma built_tick: "bh_game_tick (bl_header (build_block X h txs)) = bh_game_tick h"
  by (simp add: build_block_def Let_def case_prod_beta)

lemma attempt_fails:
  assumes head: "ch_head ch = Some par" and tick: "poa_game_tick (ch_consensus ch) \<noteq> bh_game_tick par"
    and p: "produce_block N pord now ch = (r, ch')"
  shows "isl r \<and> ch_head ch' = Some par \<and> ch_txpool ch' = ch_txpool ch
    \<and> poa_game_tick (ch_consensus ch') \<in> {poa_game_tick (ch_consensus ch), poa_game_tick (ch_consensus ch) + 1}"
  using head p
proof (cases rule: produce_block_cases)
  case not_validator
  then show ?thesis using head by simp
next
  case (prepared h c)
  have "\<not> isl r \<Longrightarrow> False"
  proof -
    assume "\<not> isl r"
    then obtain b where s: "poa_seal_block (nx_X N) c (build_block (nx_X N) h (get_pending pord 1000 (ch_txpool ch))) = Inr b"
      and a: "apply_block N b (ch\<lparr>ch_consensus := c\<rparr>) = (Inr (), ch')"
      using prepared(3) by blast
    obtain par' where "ch_head (ch\<lparr>ch_consensus := c\<rparr>) = Some par'"
      "poa_verify_block (nx_X N) (ch_consensus (ch\<lparr>ch_consensus := c\<rparr>)) b par' = Inr ()"
      by (rule apply_block_ok[OF a])
    then have "bh_game_tick (bl_header b) = bh_game_tick par + 1"
      using head by (auto simp: poa_verify_block_ok poa_verify_header_ok header_links_def)
    moreover have "bh_game_tick h = poa_game_tick (ch_consensus ch) + 1"
      using prepare_header_built[OF prepared(1)] by simp
    ultimately show False using tick sealed_tick(1)[OF s] by (simp add: built_tick)
  qed
  then show ?thesis
    using prepared(2,3) head by (auto simp: same_head_def advance_tick_def Let_def)
qed

text \<open>The number of ticks that the counter is behind, modulo \<open>2 ^ 64\<close>.\<close>

definition tick_gap :: "('db, 'e) chain \<Rightarrow> block_header \<Rightarrow> nat" where
  "tick_gap ch par = unat (bh_game_tick par - poa_game_tick (ch_consensus ch))"

lemma attempts_fail:
  "ch_head ch = Some par \<Longrightarrow> length ts \<le> tick_gap ch par \<Longrightarrow> produce_run N ts ch = (rs, ch') \<Longrightarrow>
   list_all isl rs \<and> ch_head ch' = Some par \<and> ch_txpool ch' = ch_txpool ch"
proof (induction ts arbitrary: ch rs)
  case (Cons t ts)
  obtain r ch1 where 1: "produce_block N (fst t) (snd t) ch = (r, ch1)"
    by (cases "produce_block N (fst t) (snd t) ch")
  obtain rs1 where 2: "produce_run N ts ch1 = (rs1, ch')" "rs = r # rs1"
    using Cons.prems(3) 1 by (auto split: prod.splits)
  have tick: "poa_game_tick (ch_consensus ch) \<noteq> bh_game_tick par"
    using Cons.prems(2) by (auto simp: tick_gap_def)
  note f = attempt_fails[OF Cons.prems(1) tick 1]
  let ?d = "bh_game_tick par - poa_game_tick (ch_consensus ch)"
  have "?d \<noteq> 0" using tick by simp
  then have "unat (?d - 1) = unat ?d - 1" by (simp add: unat_minus_one)
  moreover have "poa_game_tick (ch_consensus ch1) = poa_game_tick (ch_consensus ch) + 1 \<Longrightarrow>
      bh_game_tick par - poa_game_tick (ch_consensus ch1) = ?d - 1" by (simp only: diff_diff_eq)
  ultimately have "tick_gap ch1 par \<in> {unat ?d, unat ?d - 1}"
    using f unfolding tick_gap_def by (metis insertE insertI1 insertI2 singletonD)
  then have "length ts \<le> tick_gap ch1 par"
    using Cons.prems(2) by (auto simp: tick_gap_def)
  with Cons.IH[OF _ this 2(1)] f 2(2) show ?case by auto
qed simp

text \<open>A node whose tick counter is not the tick of its head produces nothing until enough
  attempts have failed: with the counter at zero after a restart and the head at tick \<open>t\<close>, the
  next \<open>t\<close> attempts fail and leave the head and the pool as they are.\<close>

theorem restart_delays_production:
  assumes "ch_head ch = Some par" and "poa_game_tick (ch_consensus ch) = 0"
    and "length ts \<le> unat (bh_game_tick par)" and "produce_run N ts ch = (rs, ch')"
  shows "list_all isl rs \<and> ch_head ch' = Some par \<and> ch_txpool ch' = ch_txpool ch"
  using attempts_fail[OF assms(1) _ assms(4)] assms(2,3) by (simp add: tick_gap_def)

section \<open>An attack on a missing entity\<close>

text \<open>The EVM transactions of a block do not act on the world.\<close>

lemma first_action:
  assumes "split_txs N txs = Inr (acts, evm, gas)" and "find is_game_action txs = Some tx"
    and "st_game_action tx = Some act"
  shows "\<exists>a acts'. acts = (a, act) # acts'"
  using assms by (induction txs arbitrary: acts evm gas) (auto split: sum.splits prod.splits if_splits)

lemma attack_missing_fails:
  assumes "find is_game_action (bl_transactions b) = Some tx" and "st_game_action tx = Some (GA_Attack t)"
    and "get_components (gw_ecs (ch_game ch)) t = None"
  shows "execute_block N b ch \<noteq> (Inr rs, ch')"
proof
  assume "execute_block N b ch = (Inr rs, ch')"
  then obtain acts evm gas s1 s2 root g where sp: "split_txs N (bl_transactions b) = Inr (acts, evm, gas)"
    and g: "gw_tick (nx_X N) (nx_E N) (nx_entity_order N) acts (ch_game ch) = (Inr root, g)"
    by (rule execute_block_ok)
  obtain a acts' where "acts = (a, GA_Attack t) # acts'"
    using first_action[OF sp assms(1,2)] by blast
  then show False
    using g assms(3) by (simp add: gw_tick_def Let_def process_action_def)
qed

lemma built_selected: "bl_transactions (build_block X h pending) = fst (select_txs (bh_gas_limit h) 0 pending)"
  by (simp add: build_block_def block_new_def case_prod_beta)

lemma poisoned_attempt:
  assumes head: "ch_head ch = Some par" and prep: "prepare_header (nx_X N) now (ch_consensus ch) par = (Inr h, c)"
    and first: "find is_game_action (fst (select_txs DEFAULT_BLOCK_GAS_LIMIT 0 (get_pending pord 1000 (ch_txpool ch)))) = Some tx"
    and act: "st_game_action tx = Some (GA_Attack t)"
    and gone: "get_components (gw_ecs (ch_game ch)) t = None"
    and p: "produce_block N pord now ch = (r, ch')"
  shows "isl r \<and> same_head (ch\<lparr>ch_consensus := c\<rparr>) ch' \<and> c = snd (advance_tick (ch_consensus ch))"
  using head p
proof (cases rule: produce_block_cases)
  case not_validator
  then show ?thesis using prep by (metis Inl_Inr_False prod.inject)
next
  case (prepared h' c')
  have eq: "h' = h" "c' = c" using prepared(1) prep by simp_all
  let ?b = "build_block (nx_X N) h (get_pending pord 1000 (ch_txpool ch))"
  have "bh_gas_limit h = DEFAULT_BLOCK_GAS_LIMIT"
    using prep by (auto simp: prepare_header_def Let_def split: option.splits if_splits prod.splits)
  then have sel: "find is_game_action (bl_transactions ?b) = Some tx" using first by (simp add: built_selected)
  have "poa_seal_block (nx_X N) c ?b = Inr b \<Longrightarrow> apply_block N b (ch\<lparr>ch_consensus := c\<rparr>) \<noteq> (Inr (), ch')" for b
  proof
    assume s: "poa_seal_block (nx_X N) c ?b = Inr b"
      and a: "apply_block N b (ch\<lparr>ch_consensus := c\<rparr>) = (Inr (), ch')"
    obtain receipts ch1 where "execute_block N b (ch\<lparr>ch_consensus := c\<rparr>) = (Inr receipts, ch1)"
      by (rule apply_block_ok[OF a])
    then show False
      using attack_missing_fails[OF _ act, of b "ch\<lparr>ch_consensus := c\<rparr>"] gone sealed_tick(2)[OF s] sel by simp
  qed
  then show ?thesis using prepared eq by (metis same_head_refl)
qed

text \<open>C22. An attack on an entity that does not exist stops a validator whose tick counter is in step with its
  head: the attempt in which that attack is the first game action among the transactions selected for
  the block fails and leaves it in the pool, whatever EVM transactions are selected with it, and so do the following
  attempts, fewer than \<open>2 ^ 64\<close> of them, whatever the pool's order is then, because the failure
  has put the tick counter ahead of the head.\<close>

theorem missing_target_halts:
  assumes "ch_head ch = Some par" and "poa_game_tick (ch_consensus ch) = bh_game_tick par"
    and "prepare_header (nx_X N) now (ch_consensus ch) par = (Inr h, c)"
    and "find is_game_action (fst (select_txs DEFAULT_BLOCK_GAS_LIMIT 0 (get_pending pord 1000 (ch_txpool ch)))) = Some tx"
    and "st_game_action tx = Some (GA_Attack t)"
    and "get_components (gw_ecs (ch_game ch)) t = None"
    and "produce_run N ((pord, now) # ts) ch = (rs, ch')" and "length ts < 2 ^ 64"
  shows "list_all isl rs \<and> ch_head ch' = Some par \<and> ch_txpool ch' = ch_txpool ch"
proof -
  obtain r ch1 where 1: "produce_block N pord now ch = (r, ch1)" by (cases "produce_block N pord now ch")
  obtain rs1 where 2: "produce_run N ts ch1 = (rs1, ch')" "rs = r # rs1"
    using assms(7) 1 by (auto split: prod.splits)
  note f = poisoned_attempt[OF assms(1,3-6) 1]
  have "poa_game_tick (ch_consensus ch1) = bh_game_tick par + 1"
    using f assms(2) by (simp add: same_head_def advance_tick_def Let_def)
  then have "tick_gap ch1 par = 2 ^ 64 - 1"
    by (simp add: tick_gap_def unsigned_minus_1_eq_mask mask_eq_exp_minus_1)
  then have "list_all isl rs1 \<and> ch_head ch' = Some par \<and> ch_txpool ch' = ch_txpool ch1"
    using attempts_fail[OF _ _ 2(1), of par] f assms(1,8) by (simp add: same_head_def)
  then show ?thesis using f 2(2) by (simp add: same_head_def)
qed

section \<open>Witnesses\<close>

lemma demo_gas: "selection_gas Storage.demo_tx = 21000" "bh_gas_limit (demo_header 1) = 30000000"
  by (simp_all add: selection_gas_def demo_header_def header_genesis_def DEFAULT_BLOCK_GAS_LIMIT_def)

theorem built_block_fits_witness:
  "\<exists>rest. [Storage.demo_tx] = bl_transactions (build_block demo_externs (demo_header 1) [Storage.demo_tx]) @ rest
     \<and> total_gas (bl_transactions (build_block demo_externs (demo_header 1) [Storage.demo_tx])) \<le> 30000000"
  using built_block_fits[of "[Storage.demo_tx]" demo_externs "demo_header 1"] by (auto simp: demo_gas)

theorem selected_gas_wraps_witness:
  "bh_gas_used (bl_header (build_block demo_externs (demo_header 1) [Storage.demo_tx,
     demo_transfer\<lparr>st_transaction := (st_transaction demo_transfer)\<lparr>tx_gas_limit := - 21000\<rparr>\<rparr>])) = 0"
  using selected_gas_wraps[of "demo_transfer\<lparr>st_transaction := (st_transaction demo_transfer)\<lparr>tx_gas_limit := - 21000\<rparr>\<rparr>"
      Storage.demo_tx "demo_header 1" demo_externs] demo_transfer_fields(1)
  by (simp add: demo_gas is_game_action_def)

theorem restart_delays_production_witness:
  "\<exists>rs ch'. produce_run demo_node [(rev, 10), (rev, 20), (\<lambda>q. q, 30)]
       (demo_chain\<lparr>ch_head := Some ((header_genesis 0)\<lparr>bh_game_tick := 3\<rparr>)\<rparr>) = (rs, ch')
     \<and> list_all isl rs \<and> ch_head ch' = Some ((header_genesis 0)\<lparr>bh_game_tick := 3\<rparr>)"
proof -
  let ?ch = "demo_chain\<lparr>ch_head := Some ((header_genesis 0)\<lparr>bh_game_tick := 3\<rparr>)\<rparr>"
  obtain rs ch' where r: "produce_run demo_node [(rev, 10), (rev, 20), (\<lambda>q. q, 30)] ?ch = (rs, ch')"
    by (metis surj_pair)
  have "poa_game_tick (ch_consensus ?ch) = 0"
    by (simp add: demo_chain_def chain_new_def demo_engine_def new_with_keypair_def)
  from restart_delays_production[OF _ this _ r] r show ?thesis by simp
qed

definition demo_attack :: signed_transaction where
  "demo_attack = demo_signed demo_secret (new_game_action 27181 0 (GA_Attack 99))"

lemma demo_attack_fields:
  "is_game_action demo_attack" "st_game_action demo_attack = Some (GA_Attack 99)"
  "tx_sender demo_externs demo_attack = Inr (public_key_to_address demo_externs (4 # demo_secret))"
  by (simp_all add: demo_attack_def demo_sender demo_secret_length)
    (simp_all add: demo_signed_def signed_new_def is_game_action_def st_game_action_def new_game_action_def)

definition demo_target_chain :: "(contents, (address \<times> account_info) list) chain" where
  "demo_target_chain = demo_chain\<lparr>ch_txpool := snd (add_transaction demo_externs demo_attack tp_new),
     ch_game := (ch_game demo_chain)\<lparr>gw_ecs := ecs_new\<rparr>\<rparr>"

lemma demo_attack_pending: "get_pending (\<lambda>q. q) 1000 (ch_txpool demo_target_chain) = [demo_attack]"
  by (simp add: demo_target_chain_def add_transaction_def Let_def tp_new_def tp_with_max_size_def
      demo_attack_fields tp_queue_def get_pending_def collect_pending_def)

theorem missing_target_halts_witness:
  "\<exists>rs ch'. produce_run demo_node [(\<lambda>q. q, 10), (rev, 20), (\<lambda>q. q, 30)] demo_target_chain = (rs, ch')
     \<and> list_all isl rs \<and> ch_head ch' = Some (header_genesis 0) \<and> ch_txpool ch' = ch_txpool demo_target_chain"
proof -
  let ?ch = demo_target_chain
  obtain rs ch' where r: "produce_run demo_node [(\<lambda>q. q, 10), (rev, 20), (\<lambda>q. q, 30)] ?ch = (rs, ch')"
    by (metis surj_pair)
  have eng: "ch_head ?ch = Some (header_genesis 0)" "ch_consensus ?ch = demo_engine"
    by (simp_all add: demo_target_chain_def demo_chain_def chain_new_def)
  have "isl (fst (prepare_header demo_externs 10 demo_engine (header_genesis 0))) = False"
    by (simp add: prepare_header_def demo_engine_def new_with_keypair_def poa_is_validator_def Let_def case_prod_beta)
  then obtain h c where p: "prepare_header (nx_X demo_node) 10 (ch_consensus ?ch) (header_genesis 0) = (Inr h, c)"
    unfolding eng by (metis demo_node_simps(1) isl_def prod.collapse sum.exhaust)
  have tick: "poa_game_tick (ch_consensus ?ch) = bh_game_tick (header_genesis 0)"
    by (simp add: eng demo_engine_def new_with_keypair_def header_genesis_def)
  have gone: "get_components (gw_ecs (ch_game ?ch)) 99 = None"
    by (simp add: demo_target_chain_def get_components_def ecs_new_def)
  have "find is_game_action (fst (select_txs DEFAULT_BLOCK_GAS_LIMIT 0 (get_pending (\<lambda>q. q) 1000 (ch_txpool ?ch))))
      = Some demo_attack"
    unfolding demo_attack_pending
    by (simp add: selection_gas_def demo_attack_fields(1) DEFAULT_BLOCK_GAS_LIMIT_def)
  from missing_target_halts[OF eng(1) tick p this demo_attack_fields(2) gone r] r
  show ?thesis by simp
qed

end
