(* ===== verification/Reorg.thy ===== *)
theory Reorg
  imports Block_Producer
begin

text \<open>
  Forks and reorganisations, \<open>crates/node/src/reorg.rs\<close>. The walk of
  \<open>find_common_ancestor\<close> makes at most \<open>current_height\<close> steps, which is the
  recursion on that number; the loop over the reverted numbers is the list of them.
\<close>

section \<open>Data and operations\<close>

record reorg_outcome =
  ro_common_ancestor :: u64
  ro_blocks_reverted :: nat
  ro_blocks_applied :: nat
  ro_new_head :: u64

fun find_common_ancestor :: "'db rocks \<Rightarrow> 'db \<Rightarrow> nat \<Rightarrow> b256 \<Rightarrow> node_error + u64" where
  "find_common_ancestor R db 0 hash = Inr 0"
| "find_common_ancestor R db (Suc n) hash =
     (case get_header R db hash of
        Inl e \<Rightarrow> Inl (NE_Storage e)
      | Inr None \<Rightarrow> Inr 0
      | Inr (Some h) \<Rightarrow>
     (case get_block_hash_by_number R db (bh_number h) of
        Inl e \<Rightarrow> Inl (NE_Storage e)
      | Inr c \<Rightarrow> if c = Some hash then Inr (bh_number h) else find_common_ancestor R db n (bh_parent_hash h)))"

definition detect_fork ::
  "externs \<Rightarrow> 'db rocks \<Rightarrow> 'db \<Rightarrow> block_header \<Rightarrow> block_header \<Rightarrow> node_error + u64 option" where
  "detect_fork X R db current incoming =
     (if bh_parent_hash incoming = header_hash X current then Inr None
      else if bh_number incoming \<le> bh_number current then Inr None
      else case get_header R db (bh_parent_hash incoming) of
        Inl e \<Rightarrow> Inl (NE_Storage e)
      | Inr None \<Rightarrow> Inr None
      | Inr (Some p) \<Rightarrow>
     (case get_block_hash_by_number R db (bh_number p) of
        Inl e \<Rightarrow> Inl (NE_Storage e)
      | Inr c \<Rightarrow>
          if c = Some (bh_parent_hash incoming) then Inr None
          else (case find_common_ancestor R db (unat (bh_number current)) (bh_parent_hash incoming) of
                  Inl e \<Rightarrow> Inl e
                | Inr n \<Rightarrow> Inr (Some n))))"

text \<open>A reverted transaction that the pool refuses is dropped.\<close>

definition return_txs :: "('db, 'e) node_ext \<Rightarrow> signed_transaction list \<Rightarrow> ('db, 'e) chain \<Rightarrow> ('db, 'e) chain" where
  "return_txs N txs ch =
     ch\<lparr>ch_txpool := fold (\<lambda>tx p. snd (add_transaction (nx_X N) tx p)) txs (ch_txpool ch)\<rparr>"

fun revert_blocks :: "('db, 'e) node_ext \<Rightarrow> u64 list \<Rightarrow> ('db, 'e, unit) chain_op" where
  "revert_blocks N [] ch = (Inr (), ch)"
| "revert_blocks N (n # ns) ch =
     (case get_block_by_number N ch n of
        Inl e \<Rightarrow> (Inl e, ch)
      | Inr None \<Rightarrow> revert_blocks N ns ch
      | Inr (Some b) \<Rightarrow> revert_blocks N ns (return_txs N (bl_transactions b) ch))"

text \<open>\<open>(fork_point + 1..=current).rev()\<close>.\<close>

definition reverted_numbers :: "u64 \<Rightarrow> u64 \<Rightarrow> u64 list" where
  "reverted_numbers fork current = map of_nat (rev [unat (fork + 1)..<Suc (unat current)])"

fun apply_blocks :: "('db, 'e) node_ext \<Rightarrow> block list \<Rightarrow> ('db, 'e) chain \<Rightarrow> nat \<times> ('db, 'e) chain" where
  "apply_blocks N [] ch = (0, ch)"
| "apply_blocks N (b # bs) ch =
     (case apply_block N b ch of
        (Inl e, ch1) \<Rightarrow> (0, ch1)
      | (Inr _, ch1) \<Rightarrow> let (n, ch2) = apply_blocks N bs ch1 in (Suc n, ch2))"

definition reset_head :: "('db, 'e) node_ext \<Rightarrow> u64 \<Rightarrow> ('db, 'e, unit) chain_op" where
  "reset_head N n ch =
     (case get_block_by_number N ch n of
        Inl e \<Rightarrow> (Inl e, ch)
      | Inr None \<Rightarrow> (Inr (), ch)
      | Inr (Some b) \<Rightarrow> set_head N (bl_header b) ch)"

definition execute_reorg ::
  "('db, 'e) node_ext \<Rightarrow> u64 \<Rightarrow> block list \<Rightarrow> ('db, 'e, reorg_outcome) chain_op" where
  "execute_reorg N fork new_blocks ch =
     (let current = chain_block_number ch in
      if current < fork then (Inl (NE_Internal ''Fork point is ahead of current head''), ch)
      else
        try_then (revert_blocks N (reverted_numbers fork current) ch) (\<lambda>_ ch.
        try_then (reset_head N fork ch) (\<lambda>_ ch.
        (let (applied, ch1) = apply_blocks N new_blocks ch in
         (Inr \<lparr> ro_common_ancestor = fork, ro_blocks_reverted = unat (current - fork),
                ro_blocks_applied = applied, ro_new_head = chain_block_number ch1 \<rparr>, ch1)))))"

section \<open>The common ancestor\<close>

text \<open>The header \<open>i\<close> steps behind a hash, with its own hash, along the parent hashes.\<close>

fun ancestor :: "'db rocks \<Rightarrow> 'db \<Rightarrow> nat \<Rightarrow> b256 \<Rightarrow> (b256 \<times> block_header) option" where
  "ancestor R db i hash =
     (case get_header R db hash of
        Inr (Some h) \<Rightarrow> (case i of 0 \<Rightarrow> Some (hash, h) | Suc j \<Rightarrow> ancestor R db j (bh_parent_hash h))
      | _ \<Rightarrow> None)"

declare ancestor.simps [simp del]

definition canonical :: "'db rocks \<Rightarrow> 'db \<Rightarrow> b256 \<times> block_header \<Rightarrow> bool" where
  "canonical R db a \<longleftrightarrow> get_block_hash_by_number R db (bh_number (snd a)) = Inr (Some (fst a))"

text \<open>C25. The number that \<open>find_common_ancestor\<close> returns is that of the nearest canonical ancestor
  of the given hash, the hash itself included, within the steps it may make; zero is also its
  answer when there is none.\<close>

theorem common_ancestor_nearest:
  assumes "find_common_ancestor R db k hash = Inr n"
  shows "(\<exists>i a. i < k \<and> ancestor R db i hash = Some a \<and> canonical R db a \<and> bh_number (snd a) = n
      \<and> (\<forall>j. j < i \<longrightarrow> (\<exists>b. ancestor R db j hash = Some b \<and> \<not> canonical R db b)))
    \<or> n = 0 \<and> (\<forall>i a. i < k \<longrightarrow> ancestor R db i hash = Some a \<longrightarrow> \<not> canonical R db a)"
  using assms
proof (induction k arbitrary: hash)
  case (Suc k)
  show ?case
  proof (cases "get_header R db hash")
    case (Inr oh)
    show ?thesis
    proof (cases oh)
      case None
      then have "ancestor R db i hash = None" for i using Inr by (simp add: ancestor.simps)
      then show ?thesis using Suc.prems Inr None by simp
    next
      case (Some h)
      have anc: "ancestor R db 0 hash = Some (hash, h)"
        "ancestor R db (Suc j) hash = ancestor R db j (bh_parent_hash h)" for j
        using Inr Some by (simp_all add: ancestor.simps[of R db _ hash])
      obtain c where c: "get_block_hash_by_number R db (bh_number h) = Inr c"
        using Suc.prems Inr Some by (auto split: sum.splits)
      show ?thesis
      proof (cases "c = Some hash")
        case True
        then have "canonical R db (hash, h)" "n = bh_number h"
          using Suc.prems Inr Some c by (simp_all add: canonical_def)
        then show ?thesis using anc(1) by (intro disjI1 exI[of _ 0] exI[of _ "(hash, h)"]) simp
      next
        case False
        then have no: "\<not> canonical R db (hash, h)" using c by (auto simp: canonical_def)
        have "find_common_ancestor R db k (bh_parent_hash h) = Inr n"
          using Suc.prems Inr Some c False by simp
        from Suc.IH[OF this] show ?thesis
        proof (elim disjE exE conjE)
          fix i a
          assume i: "i < k" "ancestor R db i (bh_parent_hash h) = Some a" "canonical R db a" "bh_number (snd a) = n"
            and before: "\<forall>j. j < i \<longrightarrow> (\<exists>b. ancestor R db j (bh_parent_hash h) = Some b \<and> \<not> canonical R db b)"
          have "\<exists>b. ancestor R db j hash = Some b \<and> \<not> canonical R db b" if "j < Suc i" for j
            using that before no anc by (cases j) auto
          then show ?thesis using i anc(2) by (intro disjI1 exI[of _ "Suc i"] exI[of _ a]) simp
        next
          assume n: "n = 0" "\<forall>i a. i < k \<longrightarrow> ancestor R db i (bh_parent_hash h) = Some a \<longrightarrow> \<not> canonical R db a"
          have "\<not> canonical R db a" if "i < Suc k" "ancestor R db i hash = Some a" for i a
          proof (cases i)
            case 0
            then show ?thesis using that(2) no anc(1) by simp
          next
            case (Suc j)
            then have "j < k" "ancestor R db j (bh_parent_hash h) = Some a" using that anc(2) by simp_all
            with n(2) show ?thesis by blast
          qed
          then show ?thesis using n(1) by blast
        qed
      qed
    qed
  qed (use Suc.prems in simp)
qed simp

section \<open>A reorganisation\<close>

text \<open>What the first two steps leave alone: everything but the pool, the head and the database.\<close>

definition same_ledger :: "('db, 'e) chain \<Rightarrow> ('db, 'e) chain \<Rightarrow> bool" where
  "same_ledger ch ch' \<longleftrightarrow> ch_game ch' = ch_game ch \<and> ch_evm ch' = ch_evm ch \<and> ch_consensus ch' = ch_consensus ch
     \<and> ws_account_cache (ch_state ch') = ws_account_cache (ch_state ch)
     \<and> ws_dirty_accounts (ch_state ch') = ws_dirty_accounts (ch_state ch)"

lemma try_then_okE:
  assumes "try_then rs f = (Inr y, s')"
  obtains x s where "rs = (Inr x, s)" and "f x s = (Inr y, s')"
  using assms unfolding try_then_ok by blast

lemma revert_blocks_keeps:
  "revert_blocks N ns ch = (r, ch') \<Longrightarrow>
   same_ledger ch ch' \<and> ch_state ch' = ch_state ch \<and> ch_head ch' = ch_head ch"
proof (induction ns arbitrary: ch)
  case (Cons n ns)
  show ?case
  proof (cases "get_block_by_number N ch n")
    case (Inr ob)
    show ?thesis
    proof (cases ob)
      case (Some b)
      have "revert_blocks N ns (return_txs N (bl_transactions b) ch) = (r, ch')"
        using Cons.prems Inr Some by simp
      from Cons.IH[OF this] show ?thesis by (simp add: same_ledger_def return_txs_def)
    qed (use Cons Inr in simp)
  qed (use Cons.prems in \<open>simp add: same_ledger_def\<close>)
qed (simp add: same_ledger_def)

lemma reset_head_ok:
  assumes "reset_head N n ch = (Inr u, ch')"
  shows "same_ledger ch ch' \<and> ch_txpool ch' = ch_txpool ch \<and>
    (case get_block_by_number N ch n of
       Inr (Some b) \<Rightarrow> ch_head ch' = Some (bl_header b)
     | _ \<Rightarrow> ch' = ch)"
  using assms
  by (auto simp: reset_head_def set_head_def try_then_ok on_db_ok same_ledger_def split: sum.splits option.splits)

lemma apply_blocks_head:
  "apply_blocks N bs ch = (k, ch') \<Longrightarrow> k \<le> length bs \<and>
   ch_head ch' = (if k = 0 then ch_head ch else Some (bl_header (bs ! (k - 1))))"
proof (induction bs arbitrary: ch k ch')
  case (Cons b bs)
  obtain r ch1 where a: "apply_block N b ch = (r, ch1)" by (cases "apply_block N b ch")
  show ?case
  proof (cases r)
    case (Inl e)
    then show ?thesis using Cons.prems a apply_block_fails[of N b ch e ch1] by (simp add: same_head_def)
  next
    case (Inr u)
    obtain m ch2 where m: "apply_blocks N bs ch1 = (m, ch2)" by (cases "apply_blocks N bs ch1")
    have "ch_head ch1 = Some (bl_header b)" using a Inr by (auto elim: apply_block_ok)
    then show ?thesis
      using Cons.IH[OF m] Cons.prems a Inr m by (auto simp: nth_Cons' split: if_splits)
  qed
qed simp

lemma execute_reorg_ok:
  assumes "execute_reorg N fork bs ch = (Inr out, ch')"
  obtains ch1 ch2 k where "fork \<le> chain_block_number ch"
    and "revert_blocks N (reverted_numbers fork (chain_block_number ch)) ch = (Inr (), ch1)"
    and "reset_head N fork ch1 = (Inr (), ch2)" and "apply_blocks N bs ch2 = (k, ch')"
    and "out = \<lparr> ro_common_ancestor = fork, ro_blocks_reverted = unat (chain_block_number ch - fork),
           ro_blocks_applied = k, ro_new_head = chain_block_number ch' \<rparr>"
proof -
  have le: "\<not> chain_block_number ch < fork" using assms by (auto simp: execute_reorg_def Let_def)
  let ?rest = "\<lambda>ch2. let (applied, ch3) = apply_blocks N bs ch2 in
     (Inr \<lparr> ro_common_ancestor = fork, ro_blocks_reverted = unat (chain_block_number ch - fork),
            ro_blocks_applied = applied, ro_new_head = chain_block_number ch3 \<rparr> :: node_error + reorg_outcome, ch3)"
  have t: "try_then (revert_blocks N (reverted_numbers fork (chain_block_number ch)) ch)
      (\<lambda>_ ch1. try_then (reset_head N fork ch1) (\<lambda>_. ?rest)) = (Inr out, ch')"
    using assms le by (simp add: execute_reorg_def Let_def)
  obtain u ch1 where 1: "revert_blocks N (reverted_numbers fork (chain_block_number ch)) ch = (Inr u, ch1)"
    and r: "try_then (reset_head N fork ch1) (\<lambda>_. ?rest) = (Inr out, ch')"
    by (rule try_then_okE[OF t])
  obtain v ch2 where 2: "reset_head N fork ch1 = (Inr v, ch2)" and 3: "?rest ch2 = (Inr out, ch')"
    by (rule try_then_okE[OF r])
  obtain k where "apply_blocks N bs ch2 = (k, ch')" "out = \<lparr> ro_common_ancestor = fork,
      ro_blocks_reverted = unat (chain_block_number ch - fork), ro_blocks_applied = k, ro_new_head = chain_block_number ch' \<rparr>"
    using 3 by (auto simp: Let_def split: prod.splits)
  then show thesis using that[of ch1 ch2 k] 1 2 le by simp
qed

text \<open>A reorganisation that returns has as its head the last of the new blocks it reports as
  applied, or the block at the fork point when none was; it reports the number of blocks between
  the two, but undoes none of them: without new blocks, the game world, the EVM and the cached and
  dirty accounts after it are those of the abandoned head.\<close>

theorem reorg_head_not_state:
  assumes "execute_reorg N fork bs ch = (Inr out, ch')"
    and "get_block_by_number N ch fork = Inr (Some b)"
  shows "fork \<le> chain_block_number ch \<and> ro_blocks_applied out \<le> length bs
    \<and> ro_blocks_reverted out = unat (chain_block_number ch - fork)
    \<and> ch_head ch' = Some (if ro_blocks_applied out = 0 then bl_header b
        else bl_header (bs ! (ro_blocks_applied out - 1)))
    \<and> (bs = [] \<longrightarrow> same_ledger ch ch')"
proof -
  from assms(1) obtain ch1 ch2 k where le: "fork \<le> chain_block_number ch"
    and 1: "revert_blocks N (reverted_numbers fork (chain_block_number ch)) ch = (Inr (), ch1)"
    and 2: "reset_head N fork ch1 = (Inr (), ch2)" and 3: "apply_blocks N bs ch2 = (k, ch')"
    and out: "out = \<lparr> ro_common_ancestor = fork, ro_blocks_reverted = unat (chain_block_number ch - fork),
           ro_blocks_applied = k, ro_new_head = chain_block_number ch' \<rparr>"
    by (rule execute_reorg_ok)
  note k1 = revert_blocks_keeps[OF 1]
  have "get_block_by_hash N ch1 = get_block_by_hash N ch"
    using k1 by (simp add: fun_eq_iff get_block_by_hash_def)
  then have "get_block_by_number N ch1 fork = Inr (Some b)"
    using assms(2) k1 by (simp add: get_block_by_number_def cong: sum.case_cong option.case_cong)
  then have 4: "same_ledger ch1 ch2" "ch_head ch2 = Some (bl_header b)"
    using reset_head_ok[OF 2] by simp_all
  have "bs = [] \<Longrightarrow> same_ledger ch ch'"
    using 3 4(1) k1 by (simp add: same_ledger_def)
  then show ?thesis using apply_blocks_head[OF 3] 4(2) le out by auto
qed

section \<open>Witnesses\<close>

lemma demo_stored:
  obtains db where "get_header demo_rocks db (block_hash demo_externs demo_next) = Inr (Some (demo_header 1))"
    and "get_body demo_rocks db (block_hash demo_externs demo_next) = Inr (Some [Storage.demo_tx])"
    and "get_block_hash_by_number demo_rocks db 1 = Inr (Some (block_hash demo_externs demo_next))"
    and "get_block_hash_by_number demo_rocks db 2 = Inr None"
proof -
  obtain db where p: "put_block demo_externs demo_rocks demo_next empty_db = (Inr (), db)"
    using demo_put_block_of by blast
  have n: "block_number demo_next = 1"
    by (simp add: block_new_def block_number_def demo_header_def header_genesis_def)
  have "get_block_hash_by_number demo_rocks db 2 = get_block_hash_by_number demo_rocks empty_db 2"
    by (rule put_block_other_number[OF demo_rocks_ok p]) (simp add: n)
  also have "\<dots> = Inr None"
    by (simp add: get_block_hash_by_number_def get_cf_def demo_rocks_def)
  finally show thesis
    using put_block_reads[OF demo_rocks_ok demo_bincode_ok p] n
    by (intro that[of db]) (simp_all add: block_new_def)
qed

lemma demo_number: "bh_number (demo_header 1) = 1"
  by (simp add: demo_header_def header_genesis_def)

theorem common_ancestor_nearest_witness:
  "\<exists>(db :: contents) a. find_common_ancestor demo_rocks db 1 (block_hash demo_externs demo_next) = Inr 1
     \<and> ancestor demo_rocks db 0 (block_hash demo_externs demo_next) = Some a \<and> canonical demo_rocks db a"
proof -
  obtain db where db: "get_header demo_rocks db (block_hash demo_externs demo_next) = Inr (Some (demo_header 1))"
    "get_block_hash_by_number demo_rocks db 1 = Inr (Some (block_hash demo_externs demo_next))"
    by (rule demo_stored)
  then have f: "find_common_ancestor demo_rocks db 1 (block_hash demo_externs demo_next) = Inr 1"
    by (simp add: One_nat_def demo_number)
  from common_ancestor_nearest[OF this] f show ?thesis by auto
qed

theorem reorg_head_not_state_witness:
  "\<exists>ch out ch'. execute_reorg demo_node 1 [] ch = (Inr out, ch') \<and> ro_blocks_reverted out = 1
     \<and> ch_head ch = Some ((demo_header 1)\<lparr>bh_number := 2\<rparr>) \<and> ch_head ch' = Some (demo_header 1) \<and> same_ledger ch ch'"
proof -
  obtain db where db: "get_header demo_rocks db (block_hash demo_externs demo_next) = Inr (Some (demo_header 1))"
    "get_body demo_rocks db (block_hash demo_externs demo_next) = Inr (Some [Storage.demo_tx])"
    "get_block_hash_by_number demo_rocks db 1 = Inr (Some (block_hash demo_externs demo_next))"
    and two: "get_block_hash_by_number demo_rocks db 2 = Inr None"
    by (rule demo_stored)
  let ?ch = "demo_chain\<lparr>ch_state := ws_new db, ch_head := Some ((demo_header 1)\<lparr>bh_number := 2\<rparr>)\<rparr>"
  have b: "get_block_by_number demo_node ?ch 1 = Inr (Some demo_next)" "get_block_by_number demo_node ?ch 2 = Inr None"
    using db two by (simp_all add: get_block_by_number_def get_block_by_hash_def ws_new_def block_new_def)
  have cur: "chain_block_number ?ch = 2" by (simp add: chain_block_number_def)
  have nums: "reverted_numbers 1 2 = [2]" by (simp add: reverted_numbers_def upt_rec)
  obtain ch1 where "set_head demo_node (demo_header 1) ?ch = (Inr (), ch1)"
    by (simp add: set_head_def try_then_def on_db_def put_latest_block_number_def put_meta_def demo_put_cf
        del: batch_step.simps)
  then have "\<exists>out ch'. execute_reorg demo_node 1 [] ?ch = (Inr out, ch')"
    using b by (simp add: execute_reorg_def cur nums try_then_def reset_head_def block_new_def)
  then obtain out ch' where r: "execute_reorg demo_node 1 [] ?ch = (Inr out, ch')" by blast
  from reorg_head_not_state[OF r b(1)] have "ro_blocks_reverted out = 1" "ch_head ch' = Some (demo_header 1)"
    "same_ledger ?ch ch'" by (simp_all add: cur block_new_def)
  with r show ?thesis by (intro exI[of _ ?ch] exI[of _ out] exI[of _ ch']) simp
qed

end
