(* ===== verification/Snapshot.thy ===== *)
theory Snapshot
  imports Reorg
begin

text \<open>
  Export and import of snapshots, \<open>crates/node/src/snapshot.rs\<close>. A file is its bytes. JSON of the
  metadata and bincode of the blocks are third-party (\<open>snap_ext\<close>); errors of the file system other
  than an end of file are not modelled. A buffer of $2^{63}$ bytes or more panics (\<open>None\<close>).
\<close>

section \<open>Data\<close>

definition SNAPSHOT_MAGIC :: bytes where
  "SNAPSHOT_MAGIC = str_bytes ''VLCSNAP'' @ [1]"

definition SNAPSHOT_VERSION :: u32 where
  "SNAPSHOT_VERSION = 1"

record snapshot_meta =
  snm_version :: u32
  snm_chain_id :: u64
  snm_block_number :: u64
  snm_block_hash :: string
  snm_game_tick :: u64
  snm_block_count :: u64
  snm_created_at :: u64

record snapshot_block =
  snb_header :: block_header
  snb_body :: "signed_transaction list"

record snap_ext =
  sx_ser_meta :: "snapshot_meta \<Rightarrow> string + bytes"
  sx_de_meta :: "bytes \<Rightarrow> string + snapshot_meta"
  sx_ser_blocks :: "snapshot_block list \<Rightarrow> string + bytes"
  sx_de_blocks :: "bytes \<Rightarrow> string + snapshot_block list"

definition snap_ok :: "snap_ext \<Rightarrow> bool" where
  "snap_ok S \<longleftrightarrow>
     (\<forall>m bs. sx_ser_meta S m = Inr bs \<longrightarrow> sx_de_meta S bs = Inr m) \<and>
     (\<forall>xs bs. sx_ser_blocks S xs = Inr bs \<longrightarrow> sx_de_blocks S bs = Inr xs)"

section \<open>Export\<close>

text \<open>The loop over the block numbers; the accumulators are the blocks, the hash and the tick of the head.\<close>

fun collect_blocks ::
  "externs \<Rightarrow> 'db rocks \<Rightarrow> 'db \<Rightarrow> u64 \<Rightarrow> u64 list \<Rightarrow> snapshot_block list \<times> string \<times> u64
     \<Rightarrow> node_error + (snapshot_block list \<times> string \<times> u64)" where
  "collect_blocks X R db latest [] acc = Inr acc"
| "collect_blocks X R db latest (num # nums) (blocks, head_hash, head_tick) =
     (case get_block_hash_by_number R db num of
        Inl e \<Rightarrow> Inl (NE_Storage e)
      | Inr None \<Rightarrow> Inl (NE_Internal ''Missing block hash'')
      | Inr (Some hash) \<Rightarrow>
     (case get_header R db hash of
        Inl e \<Rightarrow> Inl (NE_Storage e)
      | Inr None \<Rightarrow> Inl (NE_Internal ''Missing header'')
      | Inr (Some h) \<Rightarrow>
     (case get_body R db hash of
        Inl e \<Rightarrow> Inl (NE_Storage e)
      | Inr body \<Rightarrow>
          collect_blocks X R db latest nums
            (blocks @ [\<lparr> snb_header = h, snb_body = (case body of Some txs \<Rightarrow> txs | None \<Rightarrow> []) \<rparr>],
             if num = latest then ''0x'' @ x_hex_encode X (hash_bytes hash) else head_hash,
             if num = latest then bh_game_tick h else head_tick))))"

definition block_numbers :: "u64 \<Rightarrow> u64 list" where
  "block_numbers latest = map of_nat [0..<Suc (unat latest)]"

definition snapshot_file :: "bytes \<Rightarrow> bytes \<Rightarrow> bytes \<Rightarrow> bytes" where
  "snapshot_file meta blocks game =
     SNAPSHOT_MAGIC
     @ to_le_bytes 4 (of_nat (length meta) :: u32) @ meta
     @ to_le_bytes 8 (of_nat (length blocks) :: u64) @ blocks
     @ to_le_bytes 8 (of_nat (length game) :: u64) @ game"

text \<open>The result and the contents of the file, \<open>None\<close> when it was not created. The error branches
  leave what was written by then.\<close>

definition export_snapshot ::
  "('db, 'e) node_ext \<Rightarrow> snap_ext \<Rightarrow> 'db \<Rightarrow> game_world \<Rightarrow> u64 \<Rightarrow> u64 \<Rightarrow> (node_error + snapshot_meta) \<times> bytes option" where
  "export_snapshot N S db g chain_id now =
     (case get_latest_block_number (nx_R N) db of
        Inl e \<Rightarrow> (Inl (NE_Storage e), None)
      | Inr None \<Rightarrow> (Inl NE_NotInitialized, None)
      | Inr (Some latest) \<Rightarrow>
     (case collect_blocks (nx_X N) (nx_R N) db latest (block_numbers latest) ([], [], 0) of
        Inl e \<Rightarrow> (Inl e, Some SNAPSHOT_MAGIC)
      | Inr (blocks, head_hash, head_tick) \<Rightarrow>
     (case gw_serialize_state (nx_E N) (nx_entity_order N) g of
        Inl e \<Rightarrow> (Inl (NE_Internal ''Game world serialization''), Some SNAPSHOT_MAGIC)
      | Inr game \<Rightarrow>
     (let meta = \<lparr> snm_version = SNAPSHOT_VERSION, snm_chain_id = chain_id, snm_block_number = latest,
                   snm_block_hash = head_hash, snm_game_tick = head_tick,
                   snm_block_count = of_nat (length blocks), snm_created_at = now \<rparr> in
      case sx_ser_meta S meta of
        Inl e \<Rightarrow> (Inl (NE_Internal ''Meta serialization''), Some SNAPSHOT_MAGIC)
      | Inr mb \<Rightarrow>
     (case sx_ser_blocks S blocks of
        Inl e \<Rightarrow> (Inl (NE_Internal ''Block serialization''),
                   Some (SNAPSHOT_MAGIC @ to_le_bytes 4 (of_nat (length mb) :: u32) @ mb))
      | Inr bb \<Rightarrow> (Inr meta, Some (snapshot_file mb bb game)))))))"

section \<open>Import\<close>

definition read_exact :: "nat \<Rightarrow> bytes \<Rightarrow> node_error + (bytes \<times> bytes)" where
  "read_exact n bs = (if length bs < n then Inl (NE_Internal ''Read error'') else Inr (take n bs, drop n bs))"

text \<open>A section behind its length; \<open>None\<close> when the buffer cannot be allocated.\<close>

definition read_section :: "nat \<Rightarrow> bytes \<Rightarrow> (node_error + (bytes \<times> bytes)) option" where
  "read_section w bs =
     (case read_exact w bs of
        Inl e \<Rightarrow> Some (Inl e)
      | Inr (len_bytes, rest) \<Rightarrow>
          let len = unat (from_le_bytes len_bytes :: u64) in
          if 2 ^ 63 \<le> len then None else Some (read_exact len rest))"

text \<open>The magic and the metadata, and what follows.\<close>

definition read_meta :: "snap_ext \<Rightarrow> bytes \<Rightarrow> (node_error + (snapshot_meta \<times> bytes)) option" where
  "read_meta S bs =
     (case read_exact 8 bs of
        Inl e \<Rightarrow> Some (Inl e)
      | Inr (magic, bs1) \<Rightarrow>
          if magic \<noteq> SNAPSHOT_MAGIC then Some (Inl (NE_Internal ''Invalid snapshot file format''))
          else (case read_section 4 bs1 of
                  None \<Rightarrow> None
                | Some (Inl e) \<Rightarrow> Some (Inl e)
                | Some (Inr (mb, rest)) \<Rightarrow>
                    (case sx_de_meta S mb of
                       Inl e \<Rightarrow> Some (Inl (NE_Internal ''Meta deserialization''))
                     | Inr meta \<Rightarrow> Some (Inr (meta, rest)))))"

definition read_snapshot_meta :: "snap_ext \<Rightarrow> bytes \<Rightarrow> (node_error + snapshot_meta) option" where
  "read_snapshot_meta S bs = map_option (map_sum id fst) (read_meta S bs)"

text \<open>The three sections of a file, all read before anything is written.\<close>

definition read_snapshot ::
  "snap_ext \<Rightarrow> bytes \<Rightarrow> (node_error + (snapshot_meta \<times> snapshot_block list \<times> bytes)) option" where
  "read_snapshot S bs =
     (case read_meta S bs of
        None \<Rightarrow> None
      | Some (Inl e) \<Rightarrow> Some (Inl e)
      | Some (Inr (meta, bs1)) \<Rightarrow>
     (case read_section 8 bs1 of
        None \<Rightarrow> None
      | Some (Inl e) \<Rightarrow> Some (Inl e)
      | Some (Inr (bb, bs2)) \<Rightarrow>
     (case sx_de_blocks S bb of
        Inl e \<Rightarrow> Some (Inl (NE_Internal ''Block deserialization''))
      | Inr blocks \<Rightarrow>
     (case read_section 8 bs2 of
        None \<Rightarrow> None
      | Some (Inl e) \<Rightarrow> Some (Inl e)
      | Some (Inr (game, bs3)) \<Rightarrow> Some (Inr (meta, blocks, game))))))"

fun put_blocks :: "externs \<Rightarrow> 'db rocks \<Rightarrow> snapshot_block list \<Rightarrow> 'db effect" where
  "put_blocks X R [] db = (Inr (), db)"
| "put_blocks X R (b # bs) db =
     and_then (put_block X R (block_new (snb_header b) (snb_body b))) (put_blocks X R bs) db"

definition put_last_number :: "'db rocks \<Rightarrow> snapshot_block list \<Rightarrow> 'db effect" where
  "put_last_number R blocks db =
     (if blocks = [] then (Inr (), db) else put_latest_block_number R (bh_number (snb_header (last blocks))) db)"

definition import_snapshot ::
  "('db, 'e) node_ext \<Rightarrow> snap_ext \<Rightarrow> bytes \<Rightarrow> u64 \<Rightarrow> 'db world_state
     \<Rightarrow> ((node_error + (snapshot_meta \<times> game_world)) \<times> 'db world_state) option" where
  "import_snapshot N S bs seed w =
     (case read_snapshot S bs of
        None \<Rightarrow> None
      | Some (Inl e) \<Rightarrow> Some (Inl e, w)
      | Some (Inr (meta, blocks, game)) \<Rightarrow>
     (case and_then (put_blocks (nx_X N) (nx_R N) blocks)
             (and_then (put_last_number (nx_R N) blocks) (put_game_state (nx_R N) (str_bytes ''world'') game))
             (ws_db w) of
        (Inl e, db) \<Rightarrow> Some (Inl (NE_Storage e), w\<lparr>ws_db := db\<rparr>)
      | (Inr _, db) \<Rightarrow>
     (case ws_commit (nx_X N) (nx_R N) (nx_J N) (nx_account_order N) (w\<lparr>ws_db := db\<rparr>) of
        (Inl e, w2) \<Rightarrow> Some (Inl (NE_State e), w2)
      | (Inr _, w2) \<Rightarrow>
     (case gw_from_state (nx_X N) (nx_E N) game seed of
        Inl e \<Rightarrow> Some (Inl (NE_Internal ''Game world restore''), w2)
      | Inr g \<Rightarrow> Some (Inr (meta, g), w2)))))"

section \<open>Reading back what was written\<close>

lemma read_exact_append: "length a = n \<Longrightarrow> read_exact n (a @ b) = Inr (a, b)"
  by (simp add: read_exact_def)

lemma read_section_append:
  fixes len :: "'a::len word"
  assumes "LENGTH('a) = 8 * w" and "LENGTH('a) \<le> 64" and "unat len = length v" and "length v < 2 ^ 63"
  shows "read_section w (to_le_bytes w len @ v @ rest) = Some (Inr (v, rest))"
proof -
  have "(from_le_bytes (to_le_bytes w len) :: u64) = of_nat (length v)"
    using from_to_be_bytes_wide[of w len] assms(1,3) by (simp add: from_le_bytes_def to_le_bytes_def del: of_nat_unat)
  moreover have "unat (of_nat (length v) :: u64) = length v"
    using assms(4) by (simp add: unat_of_nat)
  ultimately show ?thesis
    using assms(4) by (simp add: read_section_def read_exact_append Let_def)
qed

lemma magic_length: "length SNAPSHOT_MAGIC = 8"
  by (simp add: SNAPSHOT_MAGIC_def str_bytes_def)

lemma read_meta_file:
  assumes "sx_de_meta S mb = Inr meta" and "length mb < 2 ^ 32"
  shows "read_meta S (snapshot_file mb bb game) = Some (Inr (meta,
    to_le_bytes 8 (of_nat (length bb) :: u64) @ bb @ to_le_bytes 8 (of_nat (length game) :: u64) @ game))"
proof -
  have "unat (of_nat (length mb) :: u32) = length mb" "length mb < 2 ^ 63"
    using assms(2) by (simp_all add: unat_of_nat)
  then show ?thesis
    using assms(1) by (simp add: read_meta_def snapshot_file_def read_exact_append magic_length read_section_append)
qed

lemma read_snapshot_file:
  assumes "sx_de_meta S mb = Inr meta" and "sx_de_blocks S bb = Inr blocks"
    and "length mb < 2 ^ 32" and "length bb < 2 ^ 63" and "length game < 2 ^ 63"
  shows "read_snapshot S (snapshot_file mb bb game) = Some (Inr (meta, blocks, game))"
proof -
  have l: "unat (of_nat (length bb) :: u64) = length bb" "unat (of_nat (length game) :: u64) = length game"
    using assms(4,5) by (simp_all add: unat_of_nat)
  have g: "read_section 8 (to_le_bytes 8 (of_nat (length game) :: u64) @ game) = Some (Inr (game, []))"
    using read_section_append[of 8 "of_nat (length game) :: u64" game "[]"] l assms(5) by simp
  show ?thesis
    using l assms(2,4) by (simp add: read_snapshot_def read_meta_file[OF assms(1,3)] read_section_append g)
qed

section \<open>What is collected\<close>

definition exported :: "'db rocks \<Rightarrow> 'db \<Rightarrow> u64 \<Rightarrow> snapshot_block \<Rightarrow> bool" where
  "exported R db n b \<longleftrightarrow> (\<exists>hash. get_block_hash_by_number R db n = Inr (Some hash)
     \<and> get_header R db hash = Inr (Some (snb_header b))
     \<and> (get_body R db hash = Inr (Some (snb_body b)) \<or> get_body R db hash = Inr None \<and> snb_body b = []))"

lemma collect_blocks_exported:
  "collect_blocks X R db latest nums (bs, hh, ht) = Inr (bs', hh', ht') \<Longrightarrow>
   \<exists>new. bs' = bs @ new \<and> list_all2 (exported R db) nums new"
proof (induction nums arbitrary: bs hh ht)
  case (Cons n nums)
  obtain hash where 1: "get_block_hash_by_number R db n = Inr (Some hash)"
    using Cons.prems by (auto split: sum.splits option.splits)
  obtain h where 2: "get_header R db hash = Inr (Some h)"
    using Cons.prems 1 by (auto split: sum.splits option.splits)
  obtain body where 3: "get_body R db hash = Inr body"
    using Cons.prems 1 2 by (auto split: sum.splits)
  let ?b = "\<lparr> snb_header = h, snb_body = (case body of Some txs \<Rightarrow> txs | None \<Rightarrow> []) \<rparr>"
  from Cons.prems 1 2 3 obtain hh1 ht1
    where "collect_blocks X R db latest nums (bs @ [?b], hh1, ht1) = Inr (bs', hh', ht')" by auto
  then obtain new where "bs' = (bs @ [?b]) @ new" "list_all2 (exported R db) nums new"
    using Cons.IH by blast
  moreover have "exported R db n ?b"
    using 1 2 3 by (cases body) (auto simp: exported_def)
  ultimately show ?case by (intro exI[of _ "?b # new"]) simp
qed simp

section \<open>Storing many blocks\<close>

lemma hash_bytes_inject: "hash_bytes a = hash_bytes b \<longleftrightarrow> a = b"
proof
  assume "hash_bytes a = hash_bytes b"
  then have "from_be_bytes (hash_bytes a) = (from_be_bytes (hash_bytes b) :: b256)" by simp
  then show "a = b" by (simp add: hash_bytes_def from_to_be_bytes)
qed simp

lemma put_block_tables:
  assumes "rocks_ok R" and "put_block X R b db = (Inr (), db')"
    and "cf \<noteq> CF_HEADERS" "cf \<noteq> CF_NUMBER" "cf \<noteq> CF_BODIES" "cf \<noteq> CF_TRANSACTIONS"
  shows "same_table R cf db db'"
  using writesD[OF put_block_writes[OF assms(1)] assms(2)] assms(3-)
  by (simp add: same_table_def block_ops_def header_ops_def Let_def batch_get_append index_ops_other fun_eq_iff)

definition has_block :: "externs \<Rightarrow> 'db rocks \<Rightarrow> 'db \<Rightarrow> snapshot_block \<Rightarrow> bool" where
  "has_block X R db b \<longleftrightarrow>
     get_header R db (header_hash X (snb_header b)) = Inr (Some (snb_header b))
     \<and> get_body R db (header_hash X (snb_header b)) = Inr (Some (snb_body b))
     \<and> get_block_hash_by_number R db (bh_number (snb_header b)) = Inr (Some (header_hash X (snb_header b)))"

lemma snap_block_parts:
  "block_hash X (block_new h txs) = header_hash X h" "block_number (block_new h txs) = bh_number h"
  "bl_header (block_new h txs) = h" "bl_transactions (block_new h txs) = txs"
  by (simp_all add: block_hash_def block_new_def block_number_def)

lemma put_block_has:
  "rocks_ok R \<Longrightarrow> bincode_ok R \<Longrightarrow> put_block X R (block_new (snb_header b) (snb_body b)) db = (Inr (), db')
   \<Longrightarrow> has_block X R db' b"
  by (frule (2) put_block_reads) (simp add: has_block_def snap_block_parts)

lemma put_block_keeps:
  assumes R: "rocks_ok R" and p: "put_block X R (block_new (snb_header c) (snb_body c)) db = (Inr (), db')"
    and ne: "header_hash X (snb_header b) \<noteq> header_hash X (snb_header c)" "bh_number (snb_header b) \<noteq> bh_number (snb_header c)"
    and b: "has_block X R db b"
  shows "has_block X R db' b"
proof -
  note g = writesD[OF put_block_writes[OF R] p]
  let ?k = "hash_bytes (header_hash X (snb_header b))"
  have same: "get_cf R db' CF_HEADERS ?k = get_cf R db CF_HEADERS ?k" "get_cf R db' CF_BODIES ?k = get_cf R db CF_BODIES ?k"
    using g cf_neq ne(1) unfolding get_cf_def
    by (simp_all add: block_ops_def header_ops_def Let_def batch_get_append index_ops_other snap_block_parts hash_bytes_inject)
  have "get_block_hash_by_number R db' (bh_number (snb_header b)) = get_block_hash_by_number R db (bh_number (snb_header b))"
    by (rule put_block_other_number[OF R p]) (simp add: ne(2) snap_block_parts)
  moreover have "get_header R db' (header_hash X (snb_header b)) = get_header R db (header_hash X (snb_header b))"
    "get_body R db' (header_hash X (snb_header b)) = get_body R db (header_hash X (snb_header b))"
    by (simp_all only: get_header_def get_body_def same)
  ultimately show ?thesis using b by (simp add: has_block_def)
qed

lemma put_blocks_has:
  assumes R: "rocks_ok R" and B: "bincode_ok R"
  shows "put_blocks X R bs db = (Inr (), db') \<Longrightarrow>
    distinct (map (\<lambda>b. header_hash X (snb_header b)) bs) \<Longrightarrow> distinct (map (\<lambda>b. bh_number (snb_header b)) bs) \<Longrightarrow>
    (\<forall>b. (b \<in> set bs \<or> has_block X R db b \<and> header_hash X (snb_header b) \<notin> (\<lambda>b. header_hash X (snb_header b)) ` set bs
       \<and> bh_number (snb_header b) \<notin> (\<lambda>b. bh_number (snb_header b)) ` set bs) \<longrightarrow> has_block X R db' b)"
proof (induction bs arbitrary: db)
  case (Cons c bs)
  obtain db1 where 1: "put_block X R (block_new (snb_header c) (snb_body c)) db = (Inr (), db1)"
    and 2: "put_blocks X R bs db1 = (Inr (), db')"
    using Cons.prems(1) by (auto simp: and_then_ok)
  have all: "\<forall>b. (b \<in> set bs \<or> has_block X R db1 b \<and> header_hash X (snb_header b) \<notin> (\<lambda>b. header_hash X (snb_header b)) ` set bs
       \<and> bh_number (snb_header b) \<notin> (\<lambda>b. bh_number (snb_header b)) ` set bs) \<longrightarrow> has_block X R db' b"
    by (rule Cons.IH[OF 2]) (use Cons.prems(2,3) in simp_all)
  have ih: "b \<in> set bs \<or> has_block X R db1 b \<and> header_hash X (snb_header b) \<notin> (\<lambda>b. header_hash X (snb_header b)) ` set bs
       \<and> bh_number (snb_header b) \<notin> (\<lambda>b. bh_number (snb_header b)) ` set bs \<Longrightarrow> has_block X R db' b" for b
    using all by blast
  have c: "has_block X R db' c"
    by (rule ih) (use put_block_has[OF R B 1] Cons.prems(2,3) in simp)
  show ?case
  proof (intro allI impI)
    fix b
    assume b: "b \<in> set (c # bs) \<or> has_block X R db b \<and> header_hash X (snb_header b) \<notin> (\<lambda>b. header_hash X (snb_header b)) ` set (c # bs)
       \<and> bh_number (snb_header b) \<notin> (\<lambda>b. bh_number (snb_header b)) ` set (c # bs)"
    show "has_block X R db' b"
    proof (cases "b = c \<or> b \<in> set bs")
      case True
      then show ?thesis using c ih by blast
    next
      case False
      then have "has_block X R db1 b" using b put_block_keeps[OF R 1] by simp
      then show ?thesis using b False by (intro ih) simp
    qed
  qed
qed simp

lemma put_blocks_tables:
  assumes R: "rocks_ok R" and cf: "cf \<noteq> CF_HEADERS" "cf \<noteq> CF_NUMBER" "cf \<noteq> CF_BODIES" "cf \<noteq> CF_TRANSACTIONS"
  shows "put_blocks X R bs db = (Inr (), db') \<Longrightarrow> same_table R cf db db'"
proof (induction bs arbitrary: db)
  case (Cons c bs)
  then obtain db1 where "put_block X R (block_new (snb_header c) (snb_body c)) db = (Inr (), db1)"
    and "put_blocks X R bs db1 = (Inr (), db')" by (auto simp: and_then_ok)
  then show ?case using put_block_tables[OF R _ cf] Cons.IH by (blast intro: same_table_trans)
qed simp

section \<open>Import after export\<close>

text \<open>The database a chain wrote: under a number the header with that number, under its own hash.\<close>

definition db_consistent :: "externs \<Rightarrow> 'db rocks \<Rightarrow> 'db \<Rightarrow> u64 \<Rightarrow> bool" where
  "db_consistent X R db latest \<longleftrightarrow> (\<forall>n hash h. n \<le> latest \<longrightarrow>
     get_block_hash_by_number R db n = Inr (Some hash) \<longrightarrow> get_header R db hash = Inr (Some h) \<longrightarrow>
     bh_number h = n \<and> header_hash X h = hash)"

lemma block_number_unat: "i < Suc (unat (latest :: u64)) \<Longrightarrow> unat (of_nat i :: u64) = i"
  using unsigned_less[where ?'a = nat and w = latest] by (simp add: unat_of_nat)

lemma block_numbers_set: "set (block_numbers latest) = {n. n \<le> latest}"
proof (intro set_eqI iffI)
  fix n :: u64 assume "n \<in> {n. n \<le> latest}"
  then have "unat n \<in> {0..<Suc (unat latest)}" by (simp add: word_le_nat_alt)
  then have "of_nat (unat n) \<in> set (block_numbers latest)"
    unfolding block_numbers_def set_map set_upt by (rule imageI)
  then show "n \<in> set (block_numbers latest)" by simp
next
  fix n assume "n \<in> set (block_numbers latest)"
  then obtain i where "i \<in> {0..<Suc (unat latest)}" "n = of_nat i"
    unfolding block_numbers_def set_map set_upt by blast
  then show "n \<in> {n. n \<le> latest}" using block_number_unat[of i latest] by (simp add: word_le_nat_alt)
qed

lemma block_numbers_distinct: "distinct (block_numbers latest)"
proof -
  have "inj_on (of_nat :: nat \<Rightarrow> u64) {0..<Suc (unat latest)}"
    by (rule inj_on_inverseI[where g = unat]) (simp add: block_number_unat[of _ latest])
  then show ?thesis by (simp only: block_numbers_def distinct_map set_upt distinct_upt simp_thms)
qed

lemma block_numbers_last: "block_numbers latest \<noteq> []" "last (block_numbers latest) = latest"
  by (simp_all add: block_numbers_def)

lemma exported_numbers:
  assumes "db_consistent X R db latest"
  shows "list_all2 (exported R db) nums bs \<Longrightarrow> set nums \<subseteq> {n. n \<le> latest} \<Longrightarrow>
    map (\<lambda>b. bh_number (snb_header b)) bs = nums
    \<and> (\<forall>b \<in> set bs. get_header R db (header_hash X (snb_header b)) = Inr (Some (snb_header b)))"
proof (induction rule: list_all2_induct)
  case (Cons n nums b bs)
  then show ?case using assms unfolding db_consistent_def exported_def by auto
qed simp

lemma exported_distinct:
  assumes c: "db_consistent X R db latest" and e: "list_all2 (exported R db) (block_numbers latest) bs"
  shows "map (\<lambda>b. bh_number (snb_header b)) bs = block_numbers latest"
    and "distinct (map (\<lambda>b. bh_number (snb_header b)) bs)"
    and "distinct (map (\<lambda>b. header_hash X (snb_header b)) bs)"
    and "bs \<noteq> []" and "bh_number (snb_header (last bs)) = latest"
proof -
  have n: "map (\<lambda>b. bh_number (snb_header b)) bs = block_numbers latest"
    and h: "\<forall>b \<in> set bs. get_header R db (header_hash X (snb_header b)) = Inr (Some (snb_header b))"
    using exported_numbers[OF c e] by (simp_all add: block_numbers_set)
  then show 1: "map (\<lambda>b. bh_number (snb_header b)) bs = block_numbers latest"
    and d: "distinct (map (\<lambda>b. bh_number (snb_header b)) bs)"
    by (simp_all add: block_numbers_distinct)
  show "bs \<noteq> []" using 1 block_numbers_last(1)[of latest] by auto
  then show "bh_number (snb_header (last bs)) = latest"
    using arg_cong[OF 1, of last] by (simp add: last_map block_numbers_last)
  have "inj_on (\<lambda>b. header_hash X (snb_header b)) (set bs)"
  proof (rule inj_onI)
    fix a b assume ab: "a \<in> set bs" "b \<in> set bs" "header_hash X (snb_header a) = header_hash X (snb_header b)"
    then have "snb_header a = snb_header b" using h by (metis Inr_inject option.inject)
    then show "a = b" using d ab by (simp add: distinct_map inj_on_def)
  qed
  then show "distinct (map (\<lambda>b. header_hash X (snb_header b)) bs)" using d by (simp add: distinct_map)
qed

lemma export_ok:
  assumes "export_snapshot N S src g chain_id now = (Inr meta, Some file)"
  obtains blocks mb bb game where
    "list_all2 (exported (nx_R N) src) (block_numbers (snm_block_number meta)) blocks"
    "gw_serialize_state (nx_E N) (nx_entity_order N) g = Inr game"
    "sx_ser_meta S meta = Inr mb" "sx_ser_blocks S blocks = Inr bb" "file = snapshot_file mb bb game"
proof -
  obtain latest where l: "get_latest_block_number (nx_R N) src = Inr (Some latest)"
    using assms by (auto simp: export_snapshot_def split: sum.splits option.splits)
  obtain blocks hh ht where c: "collect_blocks (nx_X N) (nx_R N) src latest (block_numbers latest) ([], [], 0) = Inr (blocks, hh, ht)"
    using assms l by (cases "collect_blocks (nx_X N) (nx_R N) src latest (block_numbers latest) ([], [], 0)")
      (auto simp: export_snapshot_def)
  obtain game where s: "gw_serialize_state (nx_E N) (nx_entity_order N) g = Inr game"
    using assms l c by (auto simp: export_snapshot_def split: sum.splits)
  let ?m = "\<lparr> snm_version = SNAPSHOT_VERSION, snm_chain_id = chain_id, snm_block_number = latest, snm_block_hash = hh,
    snm_game_tick = ht, snm_block_count = of_nat (length blocks), snm_created_at = now \<rparr>"
  obtain mb where m: "sx_ser_meta S ?m = Inr mb"
    using assms l c s by (auto simp: export_snapshot_def Let_def split: sum.splits)
  obtain bb where b: "sx_ser_blocks S blocks = Inr bb"
    using assms l c s m by (auto simp: export_snapshot_def Let_def split: sum.splits)
  have r: "meta = ?m" "file = snapshot_file mb bb game"
    using assms l c s m b by (simp_all add: export_snapshot_def Let_def)
  moreover have "list_all2 (exported (nx_R N) src) (block_numbers latest) blocks"
    using collect_blocks_exported[OF c] by simp
  ultimately show thesis using that[OF _ s _ b] m by simp
qed

lemma import_ok:
  assumes "import_snapshot N S file seed w = Some (Inr (meta, g), w')"
    and r: "read_snapshot S file = Some (Inr (meta0, blocks, game))"
    and clean: "ws_dirty_accounts w = []" and ord: "iter_order (nx_account_order N)"
  obtains db1 db2 where "meta = meta0" "put_blocks (nx_X N) (nx_R N) blocks (ws_db w) = (Inr (), db1)"
    "put_last_number (nx_R N) blocks db1 = (Inr (), db2)"
    "put_game_state (nx_R N) (str_bytes ''world'') game db2 = (Inr (), ws_db w')"
    "gw_from_state (nx_X N) (nx_E N) game seed = Inr g"
proof -
  let ?put = "and_then (put_blocks (nx_X N) (nx_R N) blocks)
    (and_then (put_last_number (nx_R N) blocks) (put_game_state (nx_R N) (str_bytes ''world'') game))"
  obtain db where p: "?put (ws_db w) = (Inr (), db)"
    using assms(1) r by (cases "?put (ws_db w)"; cases "fst (?put (ws_db w))") (auto simp: import_snapshot_def)
  obtain root w2 where c: "ws_commit (nx_X N) (nx_R N) (nx_J N) (nx_account_order N) (w\<lparr>ws_db := db\<rparr>) = (Inr root, w2)"
    using assms(1) r p
    by (cases "ws_commit (nx_X N) (nx_R N) (nx_J N) (nx_account_order N) (w\<lparr>ws_db := db\<rparr>)";
        cases "fst (ws_commit (nx_X N) (nx_R N) (nx_J N) (nx_account_order N) (w\<lparr>ws_db := db\<rparr>))")
      (auto simp: import_snapshot_def)
  have g: "meta = meta0" "gw_from_state (nx_X N) (nx_E N) game seed = Inr g" "w' = w2"
    using assms(1) r p c by (auto simp: import_snapshot_def split: sum.splits)
  have "nx_account_order N [] = []" using iter_order_length[OF ord, of "[]"] by simp
  then have "ws_db w2 = db" using c clean by (auto simp: ws_commit_def Let_def split: sum.splits)
  then show thesis using p g that by (auto simp: and_then_ok)
qed

lemma cf_neq_game:
  "CF_HEADERS \<noteq> CF_GAME_STATE" "CF_BODIES \<noteq> CF_GAME_STATE" "CF_NUMBER \<noteq> CF_GAME_STATE" "CF_META \<noteq> CF_GAME_STATE"
  "CF_TRANSACTIONS \<noteq> CF_GAME_STATE" "CF_GAME_STATE \<noteq> CF_META"
  using cf_distinct by (auto simp: ALL_COLUMN_FAMILIES_def)

lemma put_last_tables:
  "rocks_ok R \<Longrightarrow> cf \<noteq> CF_META \<Longrightarrow> put_last_number R blocks db = (Inr (), db') \<Longrightarrow> same_table R cf db db'"
  using other_tables(2)[of R cf db "bh_number (snb_header (last blocks))"]
  by (cases "blocks = []") (auto simp: put_last_number_def)

lemma world_not_address: "str_bytes ''world'' \<noteq> address_bytes a"
proof
  assume "str_bytes ''world'' = address_bytes a"
  then have "length (str_bytes ''world'') = length (address_bytes a)" by simp
  then show False by (simp add: str_bytes_def address_bytes_def)
qed

lemma db_account_same:
  "get_game_state R db' (address_bytes a) = get_game_state R db (address_bytes a) \<Longrightarrow> db_account R J db' a = db_account R J db a"
  by (simp add: db_account_eq)

text \<open>C8. Importing the file an export wrote gives its metadata back and restores, in any database, every
  block up to the head by number and by hash with its transactions, the number of the head and the game
  world; it restores no account: the accounts read afterwards are those of the database imported into.\<close>

theorem import_restores_export:
  assumes N: "node_ok N" and S: "snap_ok S"
    and ex: "export_snapshot N S src g chain_id now = (Inr meta, Some file)" and size: "length file < 2 ^ 32"
    and c: "db_consistent (nx_X N) (nx_R N) src (snm_block_number meta)"
    and clean: "ws_dirty_accounts w = []"
    and im: "import_snapshot N S file seed w = Some (Inr (meta', g'), w')"
  shows "meta' = meta
    \<and> get_latest_block_number (nx_R N) (ws_db w') = Inr (Some (snm_block_number meta))
    \<and> (\<forall>n. n \<le> snm_block_number meta \<longrightarrow> (\<exists>hash h txs.
         get_block_hash_by_number (nx_R N) src n = Inr (Some hash) \<and> get_header (nx_R N) src hash = Inr (Some h)
         \<and> (get_body (nx_R N) src hash = Inr (Some txs) \<or> get_body (nx_R N) src hash = Inr None \<and> txs = [])
         \<and> get_block_hash_by_number (nx_R N) (ws_db w') n = Inr (Some hash)
         \<and> get_header (nx_R N) (ws_db w') hash = Inr (Some h) \<and> get_body (nx_R N) (ws_db w') hash = Inr (Some txs)))
    \<and> (\<exists>bs. gw_serialize_state (nx_E N) (nx_entity_order N) g = Inr bs
         \<and> get_game_state (nx_R N) (ws_db w') (str_bytes ''world'') = Inr (Some bs)
         \<and> gw_from_state (nx_X N) (nx_E N) bs seed = Inr g')
    \<and> (\<forall>a. db_account (nx_R N) (nx_J N) (ws_db w') a = db_account (nx_R N) (nx_J N) (ws_db w) a)"
proof -
  let ?X = "nx_X N" and ?R = "nx_R N" and ?db = "ws_db w'"
  have R: "rocks_ok ?R" and B: "bincode_ok ?R" and ord: "iter_order (nx_account_order N)"
    using N by (simp_all add: node_ok_def)
  from ex obtain blocks mb bb game where e: "list_all2 (exported ?R src) (block_numbers (snm_block_number meta)) blocks"
    and game: "gw_serialize_state (nx_E N) (nx_entity_order N) g = Inr game"
    and ser: "sx_ser_meta S meta = Inr mb" "sx_ser_blocks S blocks = Inr bb"
    and fileq: "file = snapshot_file mb bb game" by (rule export_ok)
  have "read_snapshot S file = Some (Inr (meta, blocks, game))"
    unfolding fileq by (rule read_snapshot_file) (use S ser size in \<open>auto simp: snap_ok_def fileq snapshot_file_def\<close>)
  from im this clean ord obtain db1 db2 where m: "meta' = meta"
    and p1: "put_blocks ?X ?R blocks (ws_db w) = (Inr (), db1)" and p2: "put_last_number ?R blocks db1 = (Inr (), db2)"
    and p3: "put_game_state ?R (str_bytes ''world'') game db2 = (Inr (), ?db)"
    and g': "gw_from_state ?X (nx_E N) game seed = Inr g'" by (rule import_ok)
  note d = exported_distinct[OF c e]
  have t3: "cf \<noteq> CF_GAME_STATE \<Longrightarrow> same_table ?R cf db2 ?db" for cf
    using other_tables(3)[OF R, of cf db2 "str_bytes ''world''" game] p3 by simp
  have t: "same_table ?R cf db1 ?db" if "cf \<noteq> CF_META" "cf \<noteq> CF_GAME_STATE" for cf
    by (rule same_table_trans[OF put_last_tables[OF R that(1) p2] t3[OF that(2)]])
  have h: "same_table ?R CF_HEADERS db1 ?db" and bo: "same_table ?R CF_BODIES db1 ?db" and nu: "same_table ?R CF_NUMBER db1 ?db"
    by (rule t; simp add: cf_neq_more cf_neq_game)+
  have has: "has_block ?X ?R ?db b" if "b \<in> set blocks" for b
  proof -
    have "has_block ?X ?R db1 b" using put_blocks_has[OF R B p1 d(3,2)] that by blast
    then show ?thesis by (simp add: has_block_def get_header_table[OF h] get_body_table[OF bo] get_number_table[OF nu])
  qed
  have "put_latest_block_number ?R (snm_block_number meta) db1 = (Inr (), db2)"
    using p2 d(4,5) by (simp add: put_last_number_def)
  then have latest: "get_latest_block_number ?R ?db = Inr (Some (snm_block_number meta))"
    using put_latest_get[OF R] get_latest_table[OF t3[OF cf_neq_game(4)]] by simp
  have blocks: "\<exists>hash h txs.
         get_block_hash_by_number ?R src n = Inr (Some hash) \<and> get_header ?R src hash = Inr (Some h)
         \<and> (get_body ?R src hash = Inr (Some txs) \<or> get_body ?R src hash = Inr None \<and> txs = [])
         \<and> get_block_hash_by_number ?R ?db n = Inr (Some hash)
         \<and> get_header ?R ?db hash = Inr (Some h) \<and> get_body ?R ?db hash = Inr (Some txs)"
    if n: "n \<le> snm_block_number meta" for n
  proof -
    obtain b where b: "b \<in> set blocks" "exported ?R src n b"
      using e n block_numbers_set[of "snm_block_number meta"] by (metis in_set_conv_nth list_all2_conv_all_nth mem_Collect_eq)
    then obtain hash where "get_block_hash_by_number ?R src n = Inr (Some hash)"
      "get_header ?R src hash = Inr (Some (snb_header b))"
      "get_body ?R src hash = Inr (Some (snb_body b)) \<or> get_body ?R src hash = Inr None \<and> snb_body b = []"
      unfolding exported_def by blast
    moreover from this c n have "bh_number (snb_header b) = n" "header_hash ?X (snb_header b) = hash"
      unfolding db_consistent_def by blast+
    ultimately show ?thesis using has[OF b(1)] unfolding has_block_def by blast
  qed
  have "get_game_state ?R ?db (address_bytes a) = get_game_state ?R (ws_db w) (address_bytes a)" for a
    using put_game_state_get[OF R p3, of "address_bytes a"] world_not_address[of a]
      put_last_tables[OF R cf_neq_game(6) p2] put_blocks_tables[OF R _ _ _ _ p1, of CF_GAME_STATE] cf_neq_game
    by (simp add: get_game_state_def same_table_get)
  then have accounts: "db_account ?R (nx_J N) ?db a = db_account ?R (nx_J N) (ws_db w) a" for a
    by (rule db_account_same)
  have world: "get_game_state ?R ?db (str_bytes ''world'') = Inr (Some game)"
    using put_game_state_get[OF R p3] by simp
  show ?thesis using m latest blocks game world g' accounts by simp
qed

section \<open>A concrete snapshot\<close>

text \<open>Serialisers of one metadata record and one list of blocks.\<close>

definition demo_snap :: "snapshot_meta \<Rightarrow> snapshot_block list \<Rightarrow> snap_ext" where
  "demo_snap m bs =
     \<lparr> sx_ser_meta = (\<lambda>x. if x = m then Inr [7] else Inl ''unsupported''), sx_de_meta = (\<lambda>_. Inr m),
       sx_ser_blocks = (\<lambda>x. if x = bs then Inr [8] else Inl ''unsupported''), sx_de_blocks = (\<lambda>_. Inr bs) \<rparr>"

lemma demo_snap_ok: "snap_ok (demo_snap m bs)"
  by (simp add: snap_ok_def demo_snap_def)

lemma demo_source:
  "\<exists>src :: contents. get_latest_block_number demo_rocks src = Inr (Some 0)
     \<and> get_block_hash_by_number demo_rocks src 0 = Inr (Some (block_hash demo_externs demo_block))
     \<and> get_header demo_rocks src (block_hash demo_externs demo_block) = Inr (Some (header_genesis 0))
     \<and> get_body demo_rocks src (block_hash demo_externs demo_block) = Inr (Some [Storage.demo_tx])"
proof -
  obtain db :: contents where p: "put_block demo_externs demo_rocks demo_block empty_db = (Inr (), db)"
    using demo_put_block by blast
  obtain src where q: "put_latest_block_number demo_rocks 0 db = (Inr (), src)"
    by (simp add: put_latest_block_number_def put_meta_def demo_put_cf del: batch_step.simps)
  have t: "cf \<noteq> CF_META \<Longrightarrow> same_table demo_rocks cf db src" for cf
    using other_tables(2)[OF demo_rocks_ok, of cf db 0] q by simp
  note reads = put_block_reads[OF demo_rocks_ok demo_bincode_ok p]
  from reads put_latest_get[OF demo_rocks_ok q] get_header_table[OF t] get_body_table[OF t] get_number_table[OF t] cf_neq_more
  show ?thesis by (auto simp: demo_block_def block_new_def block_number_def header_genesis_def intro!: exI[of _ src])
qed

theorem import_restores_export_witness:
  "\<exists>(src :: contents) S g meta file g' w'.
     export_snapshot demo_node S src g 27181 1000 = (Inr meta, Some file)
     \<and> import_snapshot demo_node S file 42 (ws_new empty_db) = Some (Inr (meta, g'), w')
     \<and> get_latest_block_number demo_rocks (ws_db w') = Inr (Some 0)"
proof -
  let ?h = "block_hash demo_externs demo_block" and ?b = "\<lparr> snb_header = header_genesis 0, snb_body = [Storage.demo_tx] \<rparr>"
  let ?g = "(gw_new demo_externs demo_ext 42)\<lparr>gw_ecs := demo_world\<rparr>"
  let ?m = "\<lparr> snm_version = SNAPSHOT_VERSION, snm_chain_id = 27181, snm_block_number = 0,
    snm_block_hash = ''0x'' @ x_hex_encode demo_externs (hash_bytes ?h), snm_game_tick = bh_game_tick (header_genesis 0),
    snm_block_count = 1, snm_created_at = 1000 \<rparr>"
  let ?S = "demo_snap ?m [?b]" and ?file = "snapshot_file [7] [8] [2]"
  obtain src :: contents where src: "get_latest_block_number demo_rocks src = Inr (Some 0)"
    "get_block_hash_by_number demo_rocks src 0 = Inr (Some ?h)"
    "get_header demo_rocks src ?h = Inr (Some (header_genesis 0))" "get_body demo_rocks src ?h = Inr (Some [Storage.demo_tx])"
    using demo_source by blast
  have game: "gw_serialize_state demo_ext rev ?g = Inr [2]"
    by (simp add: gw_serialize_state_def ecs_serialize_def demo_ext_def demo_entities_def)
  have ex: "export_snapshot demo_node ?S src ?g 27181 1000 = (Inr ?m, Some ?file)"
    using src game by (simp add: export_snapshot_def block_numbers_def demo_snap_def)
  have c: "db_consistent demo_externs demo_rocks src 0"
    using src by (auto simp: db_consistent_def demo_block_def block_new_def block_hash_def header_genesis_def)
  have read: "read_snapshot ?S ?file = Some (Inr (?m, [?b], [2]))"
    by (rule read_snapshot_file) (simp_all add: demo_snap_def)
  obtain db1 :: contents where 1: "put_block demo_externs demo_rocks (block_new (header_genesis 0) [Storage.demo_tx]) empty_db = (Inr (), db1)"
    using demo_put_block_of by blast
  obtain g' where g': "gw_from_state demo_externs demo_ext [2] 42 = Inr g'"
    by (simp add: gw_from_state_def ecs_deserialize_def demo_ext_def)
  obtain w' where im: "import_snapshot demo_node ?S ?file 42 (ws_new empty_db) = Some (Inr (?m, g'), w')"
    using read 1 g' by (simp add: import_snapshot_def and_then_def put_last_number_def put_latest_block_number_def put_meta_def
        put_game_state_def demo_put_cf ws_new_def ws_commit_def compute_state_root_def del: batch_step.simps)
  from import_restores_export[OF demo_node_ok demo_snap_ok ex, of "ws_new empty_db" 42 ?m g' w'] c im ex show ?thesis
    by (intro exI[of _ src] exI[of _ ?S] exI[of _ ?g] exI[of _ ?m] exI[of _ ?file] exI[of _ g'] exI[of _ w'])
      (simp add: ws_new_def snapshot_file_def magic_length)
qed

end
