(* ===== verification/Node_Main.thy ===== *)
theory Node_Main
  imports Net_Handler Genesis Snapshot
begin

text \<open>
  The commands of the node, \<open>crates/node-cli/src/main.rs\<close>: \<open>init\<close>, the start and the end of \<open>run\<close>,
  \<open>status\<close>, \<open>snapshot\<close>, \<open>restore\<close> and the address \<open>peers\<close> connects to. The genesis file and the
  database are arguments; what is printed or logged is not modelled.
\<close>

section \<open>Initialisation\<close>

definition genesis_poa_config :: "genesis \<Rightarrow> poa_config" where
  "genesis_poa_config g =
     (let c = gen_config g in
      \<lparr> poac_period = gcc_period (gch_consensus c), poac_epoch = gcc_epoch (gch_consensus c),
        poac_chain_id = gch_chain_id c \<rparr>)"

definition genesis_seed :: "genesis \<Rightarrow> u64" where
  "genesis_seed g = gwc_seed (gch_world (gen_config g))"

definition genesis_header :: "('db, 'e) node_ext \<Rightarrow> genesis \<Rightarrow> block_header" where
  "genesis_header N g =
     header_genesis (gw_state_root (nx_X N) (nx_E N) (nx_entity_order N) (gw_new (nx_X N) (nx_E N) (genesis_seed g)))"

text \<open>The allocations; of each only the balance is used.\<close>

definition put_allocations :: "(address \<times> genesis_account) list \<Rightarrow> 'db world_state \<Rightarrow> 'db world_state" where
  "put_allocations alloc w = fold (\<lambda>(a, x) w. ws_put_account a (with_balance (gac_balance x)) w) alloc w"

text \<open>The chain, and the database as an early return leaves it.\<close>

definition cmd_init :: "('db, 'e) node_ext \<Rightarrow> genesis \<Rightarrow> 'db \<Rightarrow> (node_error + ('db, 'e) chain) \<times> 'db" where
  "cmd_init N g db =
     (let world = gw_new (nx_X N) (nx_E N) (genesis_seed g);
          w = put_allocations (gen_alloc g) (ws_new db) in
      case ws_commit (nx_X N) (nx_R N) (nx_J N) (nx_account_order N) w of
        (Inl e, w1) \<Rightarrow> (Inl (NE_State e), ws_db w1)
      | (Inr root, w1) \<Rightarrow>
          let ch = chain_new N w1 world tp_new
                (new_readonly (gcc_validators (gch_consensus (gen_config g))) (genesis_poa_config g))
                (gch_chain_id (gen_config g)) in
          (case init_genesis N (genesis_header N g) ch of
             (Inl e, ch1) \<Rightarrow> (Inl e, ws_db (ch_state ch1))
           | (Inr _, ch1) \<Rightarrow> (Inr ch1, ws_db (ch_state ch1))))"

section \<open>Start and end of a run\<close>

text \<open>The world of the database if there is one that can be read, else a new one.\<close>

definition load_world :: "('db, 'e) node_ext \<Rightarrow> genesis \<Rightarrow> 'db \<Rightarrow> game_world" where
  "load_world N g db =
     (case get_game_state (nx_R N) db (str_bytes ''world'') of
        Inr (Some data) \<Rightarrow>
          (case gw_from_state (nx_X N) (nx_E N) data (genesis_seed g) of
             Inr w \<Rightarrow> w
           | Inl e \<Rightarrow> gw_new (nx_X N) (nx_E N) (genesis_seed g))
      | _ \<Rightarrow> gw_new (nx_X N) (nx_E N) (genesis_seed g))"

datatype boot_error = BE_MissingKey | BE_Key primitives_error | BE_Node node_error

text \<open>The engine: with the key of the validator, or read-only; \<open>key\<close> is only looked at by a validator.\<close>

definition boot_consensus :: "externs \<Rightarrow> genesis \<Rightarrow> bool \<Rightarrow> string option \<Rightarrow> boot_error + poa_consensus" where
  "boot_consensus X g validator key =
     (let vs = gcc_validators (gch_consensus (gen_config g)); cfg = genesis_poa_config g in
      if validator then
        (case key of
           None \<Rightarrow> Inl BE_MissingKey
         | Some hex \<Rightarrow>
             (case from_hex X hex of Inl e \<Rightarrow> Inl (BE_Key e) | Inr kp \<Rightarrow> Inr (new_with_keypair kp vs cfg)))
      else Inr (new_readonly vs cfg))"

definition boot :: "('db, 'e) node_ext \<Rightarrow> genesis \<Rightarrow> bool \<Rightarrow> string option \<Rightarrow> 'db \<Rightarrow> boot_error + ('db, 'e) chain" where
  "boot N g validator key db =
     (case boot_consensus (nx_X N) g validator key of
        Inl e \<Rightarrow> Inl e
      | Inr c \<Rightarrow>
          (case restore_head N (chain_new N (ws_new db) (load_world N g db) tp_new c (gch_chain_id (gen_config g))) of
             (Inl e, ch) \<Rightarrow> Inl (BE_Node e)
           | (Inr _, ch) \<Rightarrow> Inr ch))"

text \<open>Shutdown: a failure to serialise ends the command, a failure to write is only logged.\<close>

definition shutdown_node :: "('db, 'e) node_ext \<Rightarrow> ('db, 'e, unit) chain_op" where
  "shutdown_node N ch =
     (case gw_serialize_state (nx_E N) (nx_entity_order N) (ch_game ch) of
        Inl e \<Rightarrow> (Inl (NE_GameEngine e), ch)
      | Inr data \<Rightarrow> (Inr (), snd (on_db (put_game_state (nx_R N) (str_bytes ''world'') data) ch)))"

section \<open>The other commands\<close>

definition cmd_status :: "'db rocks \<Rightarrow> 'db \<Rightarrow> node_error + u64 option" where
  "cmd_status R db = (case get_latest_block_number R db of Inl e \<Rightarrow> Inl (NE_Storage e) | Inr n \<Rightarrow> Inr n)"

definition cmd_snapshot ::
  "('db, 'e) node_ext \<Rightarrow> snap_ext \<Rightarrow> genesis \<Rightarrow> 'db \<Rightarrow> u64 \<Rightarrow> (node_error + snapshot_meta) \<times> bytes option" where
  "cmd_snapshot N S g db now = export_snapshot N S db (load_world N g db) (gch_chain_id (gen_config g)) now"

definition cmd_restore ::
  "('db, 'e) node_ext \<Rightarrow> snap_ext \<Rightarrow> genesis \<Rightarrow> bytes \<Rightarrow> 'db \<Rightarrow> ((node_error + snapshot_meta) \<times> 'db) option" where
  "cmd_restore N S g file db =
     map_option (\<lambda>(r, w). (map_sum id fst r, ws_db w)) (import_snapshot N S file (genesis_seed g) (ws_new db))"

text \<open>The address behind the URL of \<open>peers\<close>.\<close>

definition strip_prefix :: "string \<Rightarrow> string \<Rightarrow> string option" where
  "strip_prefix p s = (if take (length p) s = p then Some (drop (length p) s) else None)"

definition peers_address :: "string \<Rightarrow> string" where
  "peers_address rpc =
     (let stripped = (case strip_prefix ''http://'' rpc of
                        Some s \<Rightarrow> s
                      | None \<Rightarrow> (case strip_prefix ''https://'' rpc of Some s \<Rightarrow> s | None \<Rightarrow> rpc));
          host = takeWhile (\<lambda>c. c \<noteq> CHR ''/'') stripped
      in if CHR '':'' \<in> set stripped then host else host @ '':8545'')"


section \<open>What initialisation leaves in the database\<close>

lemma ws_read_new: "ws_read R J (ws_new db) a = db_account R J db a"
  by (subst ws_read_eq[OF ws_inv_new]) (simp add: ws_new_def)

lemma put_allocations_read:
  assumes "ws_inv R J w" and "hm_wf alloc"
  shows "ws_inv R J (put_allocations alloc w) \<and> ws_db (put_allocations alloc w) = ws_db w
    \<and> ws_read R J (put_allocations alloc w) a =
      (case map_of alloc a of Some x \<Rightarrow> Inr (Some (with_balance (gac_balance x))) | None \<Rightarrow> ws_read R J w a)"
  using assms
proof (induction alloc arbitrary: w)
  case (Cons y alloc)
  obtain b x where y: "y = (b, x)" by fastforce
  note p = ws_put_account_inv[OF Cons.prems(1), of b "with_balance (gac_balance x)"]
  have "map_of alloc b = None" using Cons.prems(2) y by (simp add: map_of_eq_None_iff)
  then show ?case
    using Cons.IH[OF p(1)] Cons.prems(2) p(2,3) y by (auto simp: put_allocations_def split: option.splits)
qed (simp add: put_allocations_def)

lemma commit_accounts_other:
  assumes R: "rocks_ok R" and k: "\<And>a. k \<noteq> address_bytes a"
  shows "commit_accounts R J m db = (Inr (), db') \<Longrightarrow> get_game_state R db' k = get_game_state R db k"
proof (induction m arbitrary: db)
  case (Cons y m)
  then show ?case using put_game_state_get[OF R] k
    by (cases y) (auto split: sum.splits prod.splits)
qed simp

lemma world_is_no_address: "str_bytes ''world'' \<noteq> address_bytes a"
  by (rule notI, drule arg_cong[where f = length]) (simp add: address_bytes_def str_bytes_def)

lemma db_account_table: "same_table R CF_GAME_STATE db db' \<Longrightarrow> db_account R J db' a = db_account R J db a"
  and get_game_state_table: "same_table R CF_GAME_STATE db db' \<Longrightarrow> get_game_state R db' k = get_game_state R db k"
  by (simp_all add: db_account_eq get_game_state_def same_table_get)

lemma load_world_same:
  "get_game_state (nx_R N) db' (str_bytes ''world'') = get_game_state (nx_R N) db (str_bytes ''world'')
   \<Longrightarrow> load_world N g db' = load_world N g db"
  by (simp add: load_world_def)

lemma init_genesis_ok:
  assumes N: "node_ok N" and i: "init_genesis N h ch = (Inr (), ch')" and n: "bh_number h = 0"
  shows "\<And>c. ch_head c = None \<Longrightarrow> ws_db (ch_state c) = ws_db (ch_state ch') \<Longrightarrow>
      restore_head N c = (Inr (), c\<lparr>ch_head := Some h\<rparr>)"
    and "\<And>c. ws_db (ch_state c) = ws_db (ch_state ch') \<Longrightarrow> get_block_by_number N c 0 = Inr (Some (block_new h []))"
    and "same_table (nx_R N) CF_GAME_STATE (ws_db (ch_state ch)) (ws_db (ch_state ch'))"
    and "ch_head ch' = Some h"
proof -
  let ?R = "nx_R N" and ?X = "nx_X N" and ?b = "block_new h []"
  have R: "rocks_ok ?R" and B: "bincode_ok ?R" using N by (simp_all add: node_ok_def)
  obtain db1 db2 where 1: "put_block ?X ?R ?b (ws_db (ch_state ch)) = (Inr (), db1)"
    and 2: "put_latest_block_number ?R 0 db1 = (Inr (), db2)"
    and ch': "ch' = ch\<lparr>ch_state := (ch_state ch)\<lparr>ws_db := db2\<rparr>, ch_head := Some h\<rparr>"
    using i unfolding init_genesis_def try_then_ok on_db_ok by auto
  have t: "cf \<noteq> CF_META \<Longrightarrow> same_table ?R cf db1 db2" for cf using other_tables(2)[OF R, of cf db1 0] 2 by simp
  have b: "block_number ?b = 0" using n by (simp add: block_number_def block_new_def)
  have reads: "get_header ?R db2 (block_hash ?X ?b) = Inr (Some h)" "get_body ?R db2 (block_hash ?X ?b) = Inr (Some [])"
    "get_block_hash_by_number ?R db2 0 = Inr (Some (block_hash ?X ?b))"
    "get_latest_block_number ?R db2 = Inr (Some 0)"
    using put_block_reads[OF R B 1] put_latest_get[OF R 2] b
      get_header_table[OF t[OF cf_neq_more(5)]] get_body_table[OF t[OF cf_neq_more(6)]]
      get_number_table[OF t[OF cf_neq_more(7)]]
    by (simp_all add: block_new_def)
  show "restore_head N c = (Inr (), c\<lparr>ch_head := Some h\<rparr>)"
    if "ch_head c = None" "ws_db (ch_state c) = ws_db (ch_state ch')" for c
    using that reads by (simp add: restore_head_def ch')
  show "get_block_by_number N c 0 = Inr (Some ?b)" if "ws_db (ch_state c) = ws_db (ch_state ch')" for c
    using that reads by (simp add: get_block_by_number_def get_block_by_hash_def ch' block_new_def)
  have "same_table ?R CF_GAME_STATE (ws_db (ch_state ch)) db1"
    by (rule put_block_tables[OF R 1]) (simp_all add: CF_TRANSACTIONS_def CF_GAME_STATE_def
        CF_HEADERS_def CF_NUMBER_def CF_BODIES_def)
  then show "same_table ?R CF_GAME_STATE (ws_db (ch_state ch)) (ws_db (ch_state ch'))"
    unfolding ch' by (simp, rule same_table_trans[OF _ t]) (simp add: CF_GAME_STATE_def CF_META_def)
  show "ch_head ch' = Some h" by (simp add: ch')
qed

lemma cmd_init_ok:
  assumes N: "node_ok N" and a: "hm_wf (gen_alloc g)" and i: "cmd_init N g db = (Inr ch0, db')"
  shows "\<And>c. ch_head c = None \<Longrightarrow> ws_db (ch_state c) = db' \<Longrightarrow>
      restore_head N c = (Inr (), c\<lparr>ch_head := Some (genesis_header N g)\<rparr>)"
    and "\<And>c. ws_db (ch_state c) = db' \<Longrightarrow> get_block_by_number N c 0 = Inr (Some (block_new (genesis_header N g) []))"
    and "load_world N g db' = load_world N g db"
    and "db_account (nx_R N) (nx_J N) db' x = (case map_of (gen_alloc g) x of
        Some y \<Rightarrow> Inr (Some (with_balance (gac_balance y))) | None \<Rightarrow> db_account (nx_R N) (nx_J N) db x)"
proof -
  let ?R = "nx_R N" and ?J = "nx_J N" and ?w = "put_allocations (gen_alloc g) (ws_new db)"
  have R: "rocks_ok ?R" and J: "json_ok ?J" and o: "iter_order (nx_account_order N)"
    using N by (simp_all add: node_ok_def)
  note p = put_allocations_read[OF ws_inv_new a, of ?R ?J db]
  obtain root w1 ch where c: "ws_commit (nx_X N) ?R ?J (nx_account_order N) ?w = (Inr root, w1)"
    and g: "init_genesis N (genesis_header N g) ch = (Inr (), ch0)" and w1: "ch_state ch = w1"
    and db': "db' = ws_db (ch_state ch0)"
    using i by (auto simp: cmd_init_def Let_def chain_new_def split: sum.splits prod.splits)
  have n: "bh_number (genesis_header N g) = 0" by (simp add: genesis_header_def header_genesis_def)
  note ig = init_genesis_ok[OF N g n]
  show "\<And>c. ch_head c = None \<Longrightarrow> ws_db (ch_state c) = db' \<Longrightarrow>
      restore_head N c = (Inr (), c\<lparr>ch_head := Some (genesis_header N g)\<rparr>)"
    "\<And>c. ws_db (ch_state c) = db' \<Longrightarrow> get_block_by_number N c 0 = Inr (Some (block_new (genesis_header N g) []))"
    using ig(1,2) db' by blast+
  have t: "same_table ?R CF_GAME_STATE (ws_db w1) db'" using ig(3) w1 db' by simp
  obtain db1 where s: "commit_accounts ?R ?J (nx_account_order N (ws_dirty_accounts ?w)) (ws_db ?w) = (Inr (), db1)"
    and d: "ws_db w1 = db1" using ws_commit_ok[OF c] by (metis (no_types, lifting) world_state.select_convs(1) world_state.surjective world_state.update_convs(1,3,4))
  have "get_game_state ?R db1 (str_bytes ''world'') = get_game_state ?R db (str_bytes ''world'')"
    using commit_accounts_other[OF R world_is_no_address s] p by (simp add: ws_new_def)
  then show "load_world N g db' = load_world N g db"
    using get_game_state_table[OF t] d by (intro load_world_same) simp
  show "db_account ?R ?J db' x = (case map_of (gen_alloc g) x of
        Some y \<Rightarrow> Inr (Some (with_balance (gac_balance y))) | None \<Rightarrow> db_account ?R ?J db x)"
    using ws_commit_inv(3)[OF R J o _ c] p db_account_table[OF t] by (simp add: ws_read_new split: option.split)
qed


text \<open>C11. A node started on an initialised directory, as a validator or not, has the genesis block of
  the configuration as its head and reads it back as block 0; every address of the allocation has
  exactly the balance it states, with nonce zero and no code. Whatever the directory held before stays:
  the other accounts keep what the database had for them, and the game world is the one that was
  stored, not the fresh one whose root is in the genesis header.\<close>

theorem init_then_run:
  fixes N :: "('db, 'e) node_ext"
  assumes "node_ok N" and "hm_wf (gen_alloc g)" and "cmd_init N g db = (Inr ch0, db')"
    and "boot N g validator key db' = Inr ch"
  shows "ch_head ch = Some (genesis_header N g) \<and> get_block_by_number N ch 0 = Inr (Some (block_new (genesis_header N g) []))
    \<and> ch_game ch = load_world N g db
    \<and> (\<forall>a. ws_read (nx_R N) (nx_J N) (ch_state ch) a = (case map_of (gen_alloc g) a of
         Some x \<Rightarrow> Inr (Some (with_balance (gac_balance x))) | None \<Rightarrow> db_account (nx_R N) (nx_J N) db a))"
proof -
  note i = cmd_init_ok[OF assms(1-3)]
  obtain c where "boot_consensus (nx_X N) g validator key = Inr c"
    using assms(4) by (auto simp: boot_def split: sum.splits)
  moreover have "restore_head N (chain_new N (ws_new db') (load_world N g db') tp_new c (gch_chain_id (gen_config g)))
      = (Inr (), (chain_new N (ws_new db') (load_world N g db') tp_new c (gch_chain_id (gen_config g)))
          \<lparr>ch_head := Some (genesis_header N g)\<rparr>)"
    by (rule i(1)) (simp_all add: chain_new_def ws_new_def)
  ultimately have ch: "ch = (chain_new N (ws_new db') (load_world N g db') tp_new c (gch_chain_id (gen_config g)))
      \<lparr>ch_head := Some (genesis_header N g)\<rparr>"
    using assms(4) by (simp add: boot_def)
  have "get_block_by_number N ch 0 = Inr (Some (block_new (genesis_header N g) []))"
    by (rule i(2)) (simp add: ch chain_new_def ws_new_def)
  then show ?thesis using i(3,4) by (simp add: ch chain_new_def ws_read_new)
qed

lemma demo_init:
  assumes "hm_wf (gen_alloc g)"
  obtains ch db where "cmd_init demo_node g empty_db = (Inr ch, db)"
proof -
  have i: "\<exists>c'. init_genesis demo_node h c = (Inr (), c')" for h c
  proof -
    obtain db1 where "put_block demo_externs demo_rocks (block_new h []) (ws_db (ch_state c)) = (Inr (), db1)"
      using demo_put_empty_block by blast
    then show ?thesis
      by (simp add: init_genesis_def try_then_def on_db_def put_latest_block_number_def put_meta_def demo_put_cf
          del: batch_step.simps)
  qed
  obtain root w1 where "ws_commit demo_externs demo_rocks demo_json rev (put_allocations (gen_alloc g) (ws_new empty_db))
      = (Inr root, w1)"
    using demo_commit_exec[of demo_externs rev "put_allocations (gen_alloc g) (ws_new empty_db)"]
    by (auto simp: discard_def split: sum.splits prod.splits)
  moreover obtain c' where "init_genesis demo_node (genesis_header demo_node g)
      (chain_new demo_node w1 (gw_new demo_externs demo_ext (genesis_seed g)) tp_new
        (new_readonly (gcc_validators (gch_consensus (gen_config g))) (genesis_poa_config g))
        (gch_chain_id (gen_config g))) = (Inr (), c')"
    using i by blast
  ultimately show thesis using that by (simp add: cmd_init_def Let_def)
qed

theorem init_then_run_witness:
  "\<exists>ch. boot demo_node (genesis_devnet 7) False None (snd (cmd_init demo_node (genesis_devnet 7) empty_db)) = Inr ch
     \<and> ws_read demo_rocks demo_json (ch_state ch) 7 = Inr (Some (with_balance 1000000000000000000000000))"
proof -
  let ?g = "genesis_devnet 7"
  have a: "hm_wf (gen_alloc ?g)" "map_of (gen_alloc ?g) 7 = Some (allocation 1000000000000000000000000)"
    by (simp_all add: genesis_devnet_def)
  obtain ch0 db where i: "cmd_init demo_node ?g empty_db = (Inr ch0, db)" by (rule demo_init[OF a(1)])
  let ?c = "new_readonly (gcc_validators (gch_consensus (gen_config ?g))) (genesis_poa_config ?g)"
  have "\<exists>ch. restore_head demo_node (chain_new demo_node (ws_new db) (load_world demo_node ?g db) tp_new ?c
      (gch_chain_id (gen_config ?g))) = (Inr (), ch)"
    by (rule exI, rule cmd_init_ok(1)[OF demo_node_ok a(1) i]) (simp_all add: chain_new_def ws_new_def)
  then have "\<exists>ch. boot demo_node ?g False None db = Inr ch"
    by (auto simp: boot_def boot_consensus_def)
  then obtain ch where b: "boot demo_node ?g False None db = Inr ch" by blast
  then show ?thesis
    using init_then_run[OF demo_node_ok a(1) i b] a(2) i by (simp add: allocation_def)
qed

end
