(* ===== verification/Pruning.thy ===== *)
theory Pruning
  imports Velo_Prelude
begin

text \<open>
  The pruning engine, \<open>crates/storage/src/pruning.rs\<close>: which blocks fall out of the
  retention window, in batches. The engine holds no data of its own; the caller deletes what
  the targets name.
\<close>

section \<open>State\<close>

datatype pruning_mode = PM_Archive | PM_KeepRecent u64 | PM_LightPrune u64

record prune_target =
  pt_block_number :: u64
  pt_block_hash :: b256
  pt_tx_hashes :: "b256 list"
  pt_prune_header :: bool

datatype prune_result =
    PR_Pruned u64 u64
  | PR_NothingToPrune
  | PR_Disabled
  | PR_Error string

record prune_stats =
  ps_total_pruned :: u64
  ps_last_pruned_block :: u64
  ps_lowest_available :: u64
  ps_chain_head :: u64

record pruning_config =
  prc_mode :: pruning_mode
  prc_batch_size :: u64
  prc_interval_blocks :: u64

definition prc_default :: pruning_config where
  "prc_default = \<lparr> prc_mode = PM_KeepRecent 10000, prc_batch_size = 100, prc_interval_blocks = 10 \<rparr>"

record pruning_engine =
  pe_config :: pruning_config
  pe_chain_head :: u64
  pe_lowest_block :: u64
  pe_stats :: prune_stats
  pe_pending_queue :: "(u64 \<times> b256) list"
  pe_last_prune_block :: u64

section \<open>Operations\<close>

definition pe_new :: "pruning_config \<Rightarrow> u64 \<Rightarrow> pruning_engine" where
  "pe_new c lowest =
     \<lparr> pe_config = c, pe_chain_head = lowest, pe_lowest_block = lowest,
       pe_stats = \<lparr> ps_total_pruned = 0, ps_last_pruned_block = 0, ps_lowest_available = lowest,
                    ps_chain_head = 0 \<rparr>,
       pe_pending_queue = [], pe_last_prune_block = 0 \<rparr>"

definition retention_limit :: "pruning_engine \<Rightarrow> u64 option" where
  "retention_limit e =
     (case prc_mode (pe_config e) of
        PM_Archive \<Rightarrow> None
      | PM_KeepRecent n \<Rightarrow> Some n
      | PM_LightPrune n \<Rightarrow> Some n)"

lemma below_Suc: "(a :: 'a::len word) < b \<Longrightarrow> unat (a + 1) = Suc (unat a) \<and> unat (a + 1) \<le> unat b"
  using unat_Suc_word[of a b] by (simp add: word_less_nat_alt)

text \<open>The loop of \<open>generate_prune_targets\<close>, from \<open>count\<close>: the targets, the new lowest block and
  the rest of the queue.\<close>

function prune_loop ::
  "u64 \<Rightarrow> u64 \<Rightarrow> bool \<Rightarrow> u64 \<Rightarrow> u64 \<Rightarrow> (u64 \<times> b256) list
     \<Rightarrow> prune_target list \<times> u64 \<times> (u64 \<times> b256) list" where
  "prune_loop cutoff batch hdr cnt lowest queue =
     (if lowest < cutoff \<and> cnt < batch then
        (case queue of
           (num, hash) # rest \<Rightarrow>
             if num < cutoff then
               let (ts, l, q) = prune_loop cutoff batch hdr (cnt + 1) (num + 1) rest in
               (\<lparr> pt_block_number = num, pt_block_hash = hash, pt_tx_hashes = [], pt_prune_header = hdr \<rparr> # ts, l, q)
             else ([], lowest, queue)
         | [] \<Rightarrow>
             let (ts, l, q) = prune_loop cutoff batch hdr (cnt + 1) (lowest + 1) [] in
             (\<lparr> pt_block_number = lowest, pt_block_hash = 0, pt_tx_hashes = [], pt_prune_header = hdr \<rparr> # ts, l, q))
      else ([], lowest, queue))"
  by pat_completeness auto

termination
  by (relation "measure (\<lambda>(cutoff, batch, hdr, cnt, lowest, queue). unat batch - unat cnt)")
    (auto dest!: below_Suc)

declare prune_loop.simps [simp del]

definition generate_prune_targets :: "pruning_engine \<Rightarrow> prune_target list \<times> pruning_engine" where
  "generate_prune_targets e =
     (case retention_limit e of
        None \<Rightarrow> ([], e)
      | Some keep \<Rightarrow>
          let hdr = (case prc_mode (pe_config e) of PM_KeepRecent _ \<Rightarrow> True | _ \<Rightarrow> False) in
          if pe_chain_head e \<le> keep then ([], e)
          else let cutoff = pe_chain_head e - keep;
                   (ts, l, q) = prune_loop cutoff (prc_batch_size (pe_config e)) hdr 0
                                  (pe_lowest_block e) (pe_pending_queue e)
               in (ts, e\<lparr>pe_lowest_block := l, pe_pending_queue := q\<rparr>))"

definition on_new_block :: "u64 \<Rightarrow> b256 \<Rightarrow> pruning_engine \<Rightarrow> prune_target list \<times> pruning_engine" where
  "on_new_block n hash e =
     (let e1 = e\<lparr>pe_chain_head := n, pe_stats := (pe_stats e)\<lparr>ps_chain_head := n\<rparr>\<rparr> in
      if prc_mode (pe_config e1) = PM_Archive then ([], e1)
      else if n - pe_last_prune_block e1 < prc_interval_blocks (pe_config e1) then ([], e1)
      else generate_prune_targets (e1\<lparr>pe_last_prune_block := n\<rparr>))"

definition on_block_pruned :: "u64 \<Rightarrow> pruning_engine \<Rightarrow> pruning_engine" where
  "on_block_pruned n e =
     e\<lparr>pe_stats := (pe_stats e)\<lparr>ps_total_pruned := ps_total_pruned (pe_stats e) + 1,
                                ps_last_pruned_block := n, ps_lowest_available := pe_lowest_block e\<rparr>\<rparr>"

definition enqueue_block :: "u64 \<Rightarrow> b256 \<Rightarrow> pruning_engine \<Rightarrow> pruning_engine" where
  "enqueue_block n hash e = e\<lparr>pe_pending_queue := pe_pending_queue e @ [(n, hash)]\<rparr>"

definition is_retained :: "pruning_engine \<Rightarrow> u64 \<Rightarrow> bool" where
  "is_retained e n =
     (case retention_limit e of
        None \<Rightarrow> True
      | Some keep \<Rightarrow> if pe_chain_head e < keep then True else pe_chain_head e - keep \<le> n)"

definition prunable_count :: "pruning_engine \<Rightarrow> u64" where
  "prunable_count e =
     (case retention_limit e of
        None \<Rightarrow> 0
      | Some keep \<Rightarrow>
          if pe_chain_head e \<le> keep then 0 else saturating_sub (pe_chain_head e - keep) (pe_lowest_block e))"

section \<open>Only blocks outside the window are pruned\<close>

lemma prune_loop_safe:
  "prune_loop cutoff batch hdr cnt lowest queue = (ts, l, q) \<Longrightarrow>
   list_all (\<lambda>t. pt_block_number t < cutoff) ts \<and> length ts + unat cnt \<le> max (unat batch) (unat cnt)"
proof (induction cutoff batch hdr cnt lowest queue arbitrary: ts l q rule: prune_loop.induct)
  case (1 cutoff batch hdr cnt lowest queue)
  show ?case
  proof (cases "lowest < cutoff \<and> cnt < batch")
    case run: True
    then have c: "unat (cnt + 1) = Suc (unat cnt)" "unat (cnt + 1) \<le> unat batch"
      using below_Suc[of cnt batch] by simp_all
    show ?thesis
    proof (cases queue)
      case Nil
      obtain ts' where "prune_loop cutoff batch hdr (cnt + 1) (lowest + 1) [] = (ts', l, q)"
        "ts = \<lparr> pt_block_number = lowest, pt_block_hash = 0, pt_tx_hashes = [], pt_prune_header = hdr \<rparr> # ts'"
        using "1.prems" run Nil by (subst (asm) prune_loop.simps) (auto split: prod.splits)
      then show ?thesis using "1.IH"(1)[OF run Nil] run c by auto
    next
      case (Cons nh rest)
      obtain num hash where nh: "nh = (num, hash)" by (cases nh)
      show ?thesis
      proof (cases "num < cutoff")
        case True
        obtain ts' where "prune_loop cutoff batch hdr (cnt + 1) (num + 1) rest = (ts', l, q)"
          "ts = \<lparr> pt_block_number = num, pt_block_hash = hash, pt_tx_hashes = [], pt_prune_header = hdr \<rparr> # ts'"
          using "1.prems" run Cons nh True by (subst (asm) prune_loop.simps) (auto split: prod.splits)
        then show ?thesis using "1.IH"(2)[OF run Cons nh[symmetric] True] True c by auto
      qed (use "1.prems" run Cons nh in \<open>subst (asm) prune_loop.simps, auto\<close>)
    qed
  qed (use "1.prems" in \<open>subst (asm) prune_loop.simps, auto\<close>)
qed

lemma generate_safe:
  assumes "generate_prune_targets e = (ts, e')"
  shows "list_all (\<lambda>t. \<not> is_retained e' (pt_block_number t)) ts
    \<and> length ts \<le> unat (prc_batch_size (pe_config e)) \<and> pe_config e' = pe_config e"
proof (cases "retention_limit e")
  case (Some keep)
  show ?thesis
  proof (cases "pe_chain_head e \<le> keep")
    case False
    obtain hdr l q where p: "prune_loop (pe_chain_head e - keep) (prc_batch_size (pe_config e)) hdr 0
        (pe_lowest_block e) (pe_pending_queue e) = (ts, l, q)"
      and e': "e' = e\<lparr>pe_lowest_block := l, pe_pending_queue := q\<rparr>"
      using assms Some False by (auto simp: generate_prune_targets_def Let_def split: prod.splits)
    have "is_retained e' n \<longleftrightarrow> pe_chain_head e - keep \<le> n" for n
      using Some False by (auto simp: is_retained_def retention_limit_def e')
    then show ?thesis using prune_loop_safe[OF p] by (auto simp: list_all_iff e' not_le)
  qed (use assms Some in \<open>auto simp: generate_prune_targets_def\<close>)
qed (use assms in \<open>auto simp: generate_prune_targets_def\<close>)

text \<open>A block that \<open>on_new_block\<close> hands out for pruning is outside the window of the head it
  was told of, whatever was queued; there are at most as many as the batch size.\<close>

theorem pruned_not_retained:
  assumes "on_new_block n hash e = (ts, e')"
  shows "list_all (\<lambda>t. \<not> is_retained e' (pt_block_number t)) ts
    \<and> length ts \<le> unat (prc_batch_size (pe_config e)) \<and> pe_chain_head e' = n"
proof (cases "prc_mode (pe_config e) = PM_Archive \<or> n - pe_last_prune_block e < prc_interval_blocks (pe_config e)")
  case True
  then show ?thesis using assms by (auto simp: on_new_block_def Let_def split: if_splits)
next
  case False
  then have g: "generate_prune_targets (e\<lparr>pe_chain_head := n, pe_stats := (pe_stats e)\<lparr>ps_chain_head := n\<rparr>,
      pe_last_prune_block := n\<rparr>) = (ts, e')"
    using assms by (auto simp: on_new_block_def Let_def)
  moreover have "pe_chain_head e' = n"
    using g by (auto simp: generate_prune_targets_def Let_def split: option.splits if_splits prod.splits)
  ultimately show ?thesis using generate_safe[OF g] by simp
qed

section \<open>Without a queue every block is pruned once, in order\<close>

text \<open>The consecutive numbers from \<open>a\<close> below \<open>b\<close>.\<close>

definition numbers :: "u64 \<Rightarrow> u64 \<Rightarrow> u64 list" where
  "numbers a b = map of_nat [unat a..<unat b]"

lemma numbers_Cons: "a < b \<Longrightarrow> numbers a b = a # numbers (a + 1) b"
  using below_Suc[of a b] by (simp add: numbers_def upt_rec word_less_nat_alt)

lemma numbers_append: "a \<le> b \<Longrightarrow> b \<le> c \<Longrightarrow> numbers a b @ numbers b c = numbers a c"
  unfolding numbers_def word_le_nat_alt
  by (metis map_append upt_add_eq_append le_add_diff_inverse)

lemma prune_loop_numbers:
  "prune_loop cutoff batch hdr cnt lowest [] = (ts, l, q) \<Longrightarrow>
   q = [] \<and> lowest \<le> l \<and> map pt_block_number ts = numbers lowest l
   \<and> unat l = max (unat lowest) (min (unat cutoff) (unat lowest + (unat batch - unat cnt)))"
proof (induction cutoff batch hdr cnt lowest "[] :: (u64 \<times> b256) list" arbitrary: ts l q rule: prune_loop.induct)
  case (1 cutoff batch hdr cnt lowest)
  show ?case
  proof (cases "lowest < cutoff \<and> cnt < batch")
    case run: True
    then have s: "unat (cnt + 1) = Suc (unat cnt)" "unat (lowest + 1) = Suc (unat lowest)"
      "unat (lowest + 1) \<le> unat cutoff" "unat (cnt + 1) \<le> unat batch"
      using below_Suc[of cnt batch] below_Suc[of lowest cutoff] by simp_all
    obtain ts' where p: "prune_loop cutoff batch hdr (cnt + 1) (lowest + 1) [] = (ts', l, q)"
      and ts: "ts = \<lparr> pt_block_number = lowest, pt_block_hash = 0, pt_tx_hashes = [], pt_prune_header = hdr \<rparr> # ts'"
      using "1.prems" run by (subst (asm) prune_loop.simps) (auto split: prod.splits)
    have ih: "q = []" "lowest + 1 \<le> l" "map pt_block_number ts' = numbers (lowest + 1) l"
      "unat l = max (unat (lowest + 1)) (min (unat cutoff) (unat (lowest + 1) + (unat batch - unat (cnt + 1))))"
      using "1.hyps"(1)[OF run refl p] by simp_all
    have "lowest < l" using ih(2) s(2) by (simp add: word_le_nat_alt word_less_nat_alt)
    then show ?thesis
      using ih s ts run numbers_Cons[of lowest l] order_less_imp_le[of lowest l] by (auto simp: word_less_nat_alt)
  next
    case False
    then show ?thesis using "1.prems"
      by (subst (asm) prune_loop.simps) (auto simp: numbers_def word_less_nat_alt)
  qed
qed

lemma on_new_block_numbers:
  assumes "on_new_block n hash e = (ts, e')" and "pe_pending_queue e = []"
  shows "pe_pending_queue e' = [] \<and> pe_lowest_block e \<le> pe_lowest_block e'
    \<and> map pt_block_number ts = numbers (pe_lowest_block e) (pe_lowest_block e')"
proof -
  have none: "numbers a a = []" for a by (simp add: numbers_def)
  have generate: "pe_pending_queue e2 = [] \<and> pe_lowest_block e1 \<le> pe_lowest_block e2
      \<and> map pt_block_number ts = numbers (pe_lowest_block e1) (pe_lowest_block e2)"
    if g: "generate_prune_targets e1 = (ts, e2)" and q: "pe_pending_queue e1 = []" for e1 e2
  proof (cases "\<exists>keep. retention_limit e1 = Some keep \<and> keep < pe_chain_head e1")
    case True
    then obtain cutoff hdr l r where p: "prune_loop cutoff (prc_batch_size (pe_config e1)) hdr 0 (pe_lowest_block e1) [] = (ts, l, r)"
      and "e2 = e1\<lparr>pe_lowest_block := l, pe_pending_queue := r\<rparr>"
      using g q by (auto simp: generate_prune_targets_def Let_def split: prod.splits if_splits)
    with prune_loop_numbers[OF p] show ?thesis by simp
  next
    case False
    then show ?thesis using g q none
      by (auto simp: generate_prune_targets_def Let_def split: option.splits prod.splits if_splits)
  qed
  then show ?thesis using assms none
    by (auto simp: on_new_block_def Let_def split: if_splits dest!: generate)
qed

text \<open>What the engine hands out over a sequence of new heads.\<close>

definition prune_run :: "(u64 \<times> b256) list \<Rightarrow> pruning_engine \<Rightarrow> prune_target list list \<times> pruning_engine" where
  "prune_run = run_results (\<lambda>(n, hash). on_new_block n hash)"

lemma prune_run_numbers:
  "prune_run heads e = (tss, e') \<Longrightarrow> pe_pending_queue e = [] \<Longrightarrow>
   pe_lowest_block e \<le> pe_lowest_block e'
   \<and> map pt_block_number (concat tss) = numbers (pe_lowest_block e) (pe_lowest_block e')"
proof (induction heads arbitrary: e tss)
  case Nil
  then show ?case by (auto simp: prune_run_def numbers_def)
next
  case (Cons nh heads)
  obtain ts e1 where 1: "on_new_block (fst nh) (snd nh) e = (ts, e1)" by (cases "on_new_block (fst nh) (snd nh) e")
  obtain tss' e2 where r: "prune_run heads e1 = (tss', e2)" by (cases "prune_run heads e1")
  then have 2: "prune_run heads e1 = (tss', e')" "tss = ts # tss'"
    using Cons.prems(1) 1 by (simp_all add: prune_run_def case_prod_beta)
  note o = on_new_block_numbers[OF 1 Cons.prems(2)]
  then have "pe_lowest_block e1 \<le> pe_lowest_block e'"
    "map pt_block_number (concat tss') = numbers (pe_lowest_block e1) (pe_lowest_block e')"
    using Cons.IH[OF 2(1)] by simp_all
  moreover from this have "numbers (pe_lowest_block e) (pe_lowest_block e1) @ numbers (pe_lowest_block e1) (pe_lowest_block e')
      = numbers (pe_lowest_block e) (pe_lowest_block e')"
    using o by (intro numbers_append) simp_all
  ultimately show ?case
    using o 2(2) order_trans[of "pe_lowest_block e" "pe_lowest_block e1" "pe_lowest_block e'"] by simp
qed

text \<open>C36. Over any sequence of new heads, falling ones included, an engine in which nothing is
  enqueued hands out every block from its lowest one up exactly once, in ascending order and
  without a gap.\<close>

theorem pruned_once_in_order:
  assumes "prune_run heads (pe_new c lowest) = (tss, e)"
  shows "map pt_block_number (concat tss) = numbers lowest (pe_lowest_block e)
    \<and> distinct (map pt_block_number (concat tss))"
proof -
  have "map pt_block_number (concat tss) = numbers lowest (pe_lowest_block e)"
    using prune_run_numbers[OF assms] by (simp add: pe_new_def)
  moreover have "map unat (numbers a b) = [unat a..<unat b]" for a b
    unfolding numbers_def map_map using unsigned_less[where ?'a = nat and w = b]
    by (intro map_idI) (simp add: unat_of_nat)
  then have "distinct (numbers a b)" for a b by (metis distinct_map distinct_upt)
  ultimately show ?thesis by simp
qed

section \<open>Witnesses\<close>

definition demo_pruning :: pruning_config where
  "demo_pruning = \<lparr> prc_mode = PM_KeepRecent 10, prc_batch_size = 5, prc_interval_blocks = 1 \<rparr>"

theorem pruned_not_retained_witness:
  "map pt_block_number (fst (on_new_block 20 0 (pe_new demo_pruning 0))) = [0, 1, 2, 3, 4]
   \<and> list_all (\<lambda>t. \<not> is_retained (snd (on_new_block 20 0 (pe_new demo_pruning 0))) (pt_block_number t))
       (fst (on_new_block 20 0 (pe_new demo_pruning 0)))"
proof -
  have "map pt_block_number (fst (on_new_block 20 0 (pe_new demo_pruning 0))) = [0, 1, 2, 3, 4]" by code_simp
  with pruned_not_retained[OF surjective_pairing, of 20 0 "pe_new demo_pruning 0"] show ?thesis by blast
qed

theorem pruned_once_in_order_witness:
  "map (map pt_block_number) (fst (prune_run [(20, 0), (15, 0), (14, 0)] (pe_new demo_pruning 0))) = [[0, 1, 2, 3, 4], [], []]
   \<and> distinct (map pt_block_number (concat (fst (prune_run [(20, 0), (15, 0), (14, 0)] (pe_new demo_pruning 0)))))"
proof -
  have "map (map pt_block_number) (fst (prune_run [(20, 0), (15, 0), (14, 0)] (pe_new demo_pruning 0)))
    = [[0, 1, 2, 3, 4], [], []]" by code_simp
  with pruned_once_in_order[OF surjective_pairing, of "[(20, 0), (15, 0), (14, 0)]" demo_pruning 0] show ?thesis by blast
qed

end
