(* ===== verification/Chain_Cache.thy ===== *)
theory Chain_Cache
  imports Primitives
begin

text \<open>
  The in-memory cache, \<open>crates/storage/src/cache.rs\<close>: a bounded map that evicts in insertion
  order, and the cache of headers and block hashes built of two of them. The interface is that of
  a map that may forget: what a lookup returns is what was written last.
\<close>

section \<open>Maps that may forget\<close>

locale lossy_map =
  fixes lookup :: "'m \<Rightarrow> 'k \<Rightarrow> 'v option" and store :: "'k \<Rightarrow> 'v \<Rightarrow> 'm \<Rightarrow> 'm" and erase :: "'k \<Rightarrow> 'm \<Rightarrow> 'm"
    and wf :: "'m \<Rightarrow> bool"
  assumes store_same: "wf m \<Longrightarrow> lookup (store k v m) k = Some v"
    and store_other: "wf m \<Longrightarrow> j \<noteq> k \<Longrightarrow> lookup (store k v m) j \<in> {None, lookup m j}"
    and erase_lookup: "wf m \<Longrightarrow> lookup (erase k m) j = (if j = k then None else lookup m j)"
    and wf_store: "wf m \<Longrightarrow> wf (store k v m)"
    and wf_erase: "wf m \<Longrightarrow> wf (erase k m)"
begin

fun exec :: "'k \<times> 'v option \<Rightarrow> 'm \<Rightarrow> 'm" where
  "exec (k, Some v) m = store k v m"
| "exec (k, None) m = erase k m"

text \<open>The same operations on a map that forgets nothing.\<close>

fun ideal :: "'k \<times> 'v option \<Rightarrow> ('k \<rightharpoonup> 'v) \<Rightarrow> ('k \<rightharpoonup> 'v)" where
  "ideal (k, ov) f = f(k := ov)"

lemma exec_wf: "wf m \<Longrightarrow> wf (exec op m)"
  by (cases op; cases "snd op") (auto simp: wf_store wf_erase)

lemma exec_sound: "wf m \<Longrightarrow> lookup m \<subseteq>\<^sub>m f \<Longrightarrow> lookup (exec op m) \<subseteq>\<^sub>m ideal op f"
proof -
  assume m: "wf m" and f: "lookup m \<subseteq>\<^sub>m f"
  obtain k ov where op: "op = (k, ov)" by (cases op)
  have "lookup (exec op m) j \<in> {None, ideal op f j}" for j
  proof (cases "j = k")
    case True
    then show ?thesis using m op by (cases ov) (simp_all add: store_same erase_lookup)
  next
    case False
    have "lookup (exec op m) j \<in> {None, lookup m j}"
      using m op False store_other[OF m False] by (cases ov) (simp_all add: erase_lookup)
    moreover have "lookup m j \<in> {None, f j}" using f by (cases "lookup m j") (auto simp: map_le_def dom_def)
    ultimately show ?thesis using op False by auto
  qed
  then show ?thesis by (auto simp: map_le_def dom_def) (metis insertE option.distinct(1) singletonD)
qed

lemma run_sound: "wf m \<Longrightarrow> lookup m \<subseteq>\<^sub>m f \<Longrightarrow> lookup (fold exec ops m) \<subseteq>\<^sub>m fold ideal ops f"
proof (induction ops arbitrary: m f)
  case (Cons op ops)
  then show ?case using exec_wf[of m op] exec_sound[of m f op] by simp
qed simp

end

text \<open>A map that forgets nothing is one: the association lists that model \<open>HashMap\<close>.\<close>

locale exact_map =
  fixes lookup :: "'m \<Rightarrow> 'k \<Rightarrow> 'v option" and store :: "'k \<Rightarrow> 'v \<Rightarrow> 'm \<Rightarrow> 'm" and erase :: "'k \<Rightarrow> 'm \<Rightarrow> 'm"
    and wf :: "'m \<Rightarrow> bool"
  assumes exact_store: "wf m \<Longrightarrow> lookup (store k v m) = (lookup m)(k \<mapsto> v)"
    and exact_erase: "wf m \<Longrightarrow> lookup (erase k m) = (lookup m)(k := None)"
    and exact_wf: "wf m \<Longrightarrow> wf (store k v m) \<and> wf (erase k m)"

sublocale exact_map \<subseteq> lossy_map
  by unfold_locales (simp_all add: exact_store exact_erase exact_wf)

interpretation hash_map: exact_map map_of AList.update AList.delete hm_wf
  by unfold_locales (simp_all add: velo_wf update_conv' delete_conv')

section \<open>The bounded cache\<close>

record ('k, 'v) bounded_cache =
  bc_map :: "('k \<times> 'v) list"
  bc_order :: "'k list"
  bc_capacity :: nat

definition bc_new :: "nat \<Rightarrow> ('k, 'v) bounded_cache" where
  "bc_new cap = \<lparr> bc_map = [], bc_order = [], bc_capacity = cap \<rparr>"

definition bc_get :: "('k, 'v) bounded_cache \<Rightarrow> 'k \<Rightarrow> 'v option" where
  "bc_get c k = map_of (bc_map c) k"

definition bc_evict :: "('k, 'v) bounded_cache \<Rightarrow> ('k, 'v) bounded_cache" where
  "bc_evict c =
     (if bc_capacity c \<le> length (bc_order c) then
        (case bc_order c of
           [] \<Rightarrow> c
         | old # rest \<Rightarrow> c\<lparr>bc_map := AList.delete old (bc_map c), bc_order := rest\<rparr>)
      else c)"

definition bc_insert :: "'k \<Rightarrow> 'v \<Rightarrow> ('k, 'v) bounded_cache \<Rightarrow> ('k, 'v) bounded_cache" where
  "bc_insert k v c =
     (if map_of (bc_map c) k \<noteq> None then c\<lparr>bc_map := AList.update k v (bc_map c)\<rparr>
      else let c1 = bc_evict c in
           c1\<lparr>bc_order := bc_order c1 @ [k], bc_map := AList.update k v (bc_map c1)\<rparr>)"

definition bc_remove :: "'k \<Rightarrow> ('k, 'v) bounded_cache \<Rightarrow> ('k, 'v) bounded_cache" where
  "bc_remove k c =
     c\<lparr>bc_map := AList.delete k (bc_map c), bc_order := filter (\<lambda>j. j \<noteq> k) (bc_order c)\<rparr>"

definition bc_len :: "('k, 'v) bounded_cache \<Rightarrow> nat" where
  "bc_len c = length (bc_map c)"

definition bc_clear :: "('k, 'v) bounded_cache \<Rightarrow> ('k, 'v) bounded_cache" where
  "bc_clear c = c\<lparr>bc_map := [], bc_order := []\<rparr>"

text \<open>The map and the order hold the same keys, once; a capacity of zero still keeps one entry.\<close>

definition bc_wf :: "('k, 'v) bounded_cache \<Rightarrow> bool" where
  "bc_wf c \<longleftrightarrow> hm_wf (bc_map c) \<and> distinct (bc_order c) \<and> set (bc_order c) = set (hm_keys (bc_map c))
     \<and> length (bc_order c) \<le> max 1 (bc_capacity c)"

lemma bc_wfD:
  "bc_wf c \<Longrightarrow> hm_wf (bc_map c)" "bc_wf c \<Longrightarrow> distinct (bc_order c)"
  "bc_wf c \<Longrightarrow> set (bc_order c) = set (hm_keys (bc_map c))"
  "bc_wf c \<Longrightarrow> length (bc_order c) \<le> max 1 (bc_capacity c)"
  by (simp_all add: bc_wf_def)

lemma bc_new_wf: "bc_wf (bc_new cap)"
  by (simp add: bc_wf_def bc_new_def)

lemma delete_keys: "hm_keys (AList.delete k m) = filter (\<lambda>j. j \<noteq> k) (hm_keys m)"
  by (induction m) auto

lemma bc_evict_wf:
  assumes c: "bc_wf c"
  shows "bc_wf (bc_evict c)"
proof (cases "bc_capacity c \<le> length (bc_order c) \<and> bc_order c \<noteq> []")
  case True
  then obtain old rest where o: "bc_order c = old # rest" by (cases "bc_order c") simp_all
  then have e: "bc_evict c = c\<lparr>bc_map := AList.delete old (bc_map c), bc_order := rest\<rparr>"
    using True by (simp add: bc_evict_def)
  have "set rest = set (hm_keys (AList.delete old (bc_map c)))"
    using bc_wfD(2,3)[OF c] unfolding o delete_keys by auto
  then show ?thesis
    using bc_wfD[OF c] unfolding e bc_wf_def by (simp add: hm_delete_wf o)
next
  case False
  then have "bc_evict c = c" by (auto simp: bc_evict_def)
  then show ?thesis using c by simp
qed

lemma bc_evict_room: "bc_wf c \<Longrightarrow> Suc (length (bc_order (bc_evict c))) \<le> max 1 (bc_capacity c)"
  by (auto simp: bc_wf_def bc_evict_def split: list.splits)

lemma bc_evict_get: "bc_wf c \<Longrightarrow> bc_get (bc_evict c) j \<in> {None, bc_get c j}"
  by (auto simp: bc_get_def bc_evict_def velo_map split: list.splits)

lemma bc_insert_get:
  "bc_get (bc_insert k v c) j =
     (if j = k then Some v else if map_of (bc_map c) k \<noteq> None then bc_get c j else bc_get (bc_evict c) j)"
  by (simp add: bc_get_def bc_insert_def Let_def velo_map)

lemma bc_insert_wf:
  assumes "bc_wf c"
  shows "bc_wf (bc_insert k v c)"
proof (cases "map_of (bc_map c) k")
  case (Some x)
  then have "k \<in> set (hm_keys (bc_map c))" by (force dest: map_of_SomeD)
  then show ?thesis using assms Some
    by (simp add: bc_wf_def bc_insert_def velo_wf dom_update insert_absorb)
next
  case None
  have "bc_get (bc_evict c) k = None" using None bc_evict_get[OF assms, of k] by (simp only: bc_get_def) simp
  then have new: "k \<notin> set (hm_keys (bc_map (bc_evict c)))" by (simp add: bc_get_def map_of_eq_None_iff)
  have w: "bc_wf (bc_evict c)" by (rule bc_evict_wf[OF assms])
  have cap: "bc_capacity (bc_evict c) = bc_capacity c" by (simp add: bc_evict_def split: list.split)
  show ?thesis
    using None new w bc_evict_room[OF assms] cap
    by (simp add: bc_wf_def bc_insert_def Let_def velo_wf dom_update)
qed

lemma bc_remove_wf: "bc_wf c \<Longrightarrow> bc_wf (bc_remove k c)"
  by (auto simp: bc_wf_def bc_remove_def delete_keys intro: order_trans[OF length_filter_le])

interpretation cache_map: lossy_map bc_get bc_insert bc_remove bc_wf
proof
  fix c :: "('k, 'v) bounded_cache" and j k v
  assume c: "bc_wf c"
  show "bc_get (bc_insert k v c) k = Some v" by (simp add: bc_insert_get)
  show "j \<noteq> k \<Longrightarrow> bc_get (bc_insert k v c) j \<in> {None, bc_get c j}"
    using bc_evict_get[OF c, of j] by (simp add: bc_insert_get)
  show "bc_get (bc_remove k c) j = (if j = k then None else bc_get c j)"
    by (simp add: bc_get_def bc_remove_def velo_map)
qed (simp_all add: bc_insert_wf bc_remove_wf)

section \<open>The chain cache\<close>

record cache_stats =
  cs_header_hits :: u64
  cs_header_misses :: u64
  cs_hash_hits :: u64
  cs_hash_misses :: u64

definition cs_default :: cache_stats where
  "cs_default = \<lparr> cs_header_hits = 0, cs_header_misses = 0, cs_hash_hits = 0, cs_hash_misses = 0 \<rparr>"

record chain_cache =
  cc_headers :: "(b256, block_header) bounded_cache"
  cc_block_hashes :: "(u64, b256) bounded_cache"
  cc_stats :: cache_stats

definition cc_new :: "nat \<Rightarrow> nat \<Rightarrow> chain_cache" where
  "cc_new header_cap hash_cap =
     \<lparr> cc_headers = bc_new header_cap, cc_block_hashes = bc_new hash_cap, cc_stats = cs_default \<rparr>"

definition cc_default :: chain_cache where
  "cc_default = cc_new 1024 1024"

definition cc_get_header :: "b256 \<Rightarrow> chain_cache \<Rightarrow> block_header option \<times> chain_cache" where
  "cc_get_header h c =
     (case bc_get (cc_headers c) h of
        Some x \<Rightarrow> (Some x, c\<lparr>cc_stats := (cc_stats c)\<lparr>cs_header_hits := cs_header_hits (cc_stats c) + 1\<rparr>\<rparr>)
      | None \<Rightarrow> (None, c\<lparr>cc_stats := (cc_stats c)\<lparr>cs_header_misses := cs_header_misses (cc_stats c) + 1\<rparr>\<rparr>))"

definition cc_put_header :: "b256 \<Rightarrow> block_header \<Rightarrow> chain_cache \<Rightarrow> chain_cache" where
  "cc_put_header h x c = c\<lparr>cc_headers := bc_insert h x (cc_headers c)\<rparr>"

definition cc_remove_header :: "b256 \<Rightarrow> chain_cache \<Rightarrow> chain_cache" where
  "cc_remove_header h c = c\<lparr>cc_headers := bc_remove h (cc_headers c)\<rparr>"

definition cc_get_block_hash :: "u64 \<Rightarrow> chain_cache \<Rightarrow> b256 option \<times> chain_cache" where
  "cc_get_block_hash n c =
     (case bc_get (cc_block_hashes c) n of
        Some x \<Rightarrow> (Some x, c\<lparr>cc_stats := (cc_stats c)\<lparr>cs_hash_hits := cs_hash_hits (cc_stats c) + 1\<rparr>\<rparr>)
      | None \<Rightarrow> (None, c\<lparr>cc_stats := (cc_stats c)\<lparr>cs_hash_misses := cs_hash_misses (cc_stats c) + 1\<rparr>\<rparr>))"

definition cc_put_block_hash :: "u64 \<Rightarrow> b256 \<Rightarrow> chain_cache \<Rightarrow> chain_cache" where
  "cc_put_block_hash n h c = c\<lparr>cc_block_hashes := bc_insert n h (cc_block_hashes c)\<rparr>"

definition cc_header_count :: "chain_cache \<Rightarrow> nat" where
  "cc_header_count c = bc_len (cc_headers c)"

definition cc_hash_count :: "chain_cache \<Rightarrow> nat" where
  "cc_hash_count c = bc_len (cc_block_hashes c)"

definition cc_clear :: "chain_cache \<Rightarrow> chain_cache" where
  "cc_clear c =
     c\<lparr>cc_headers := bc_clear (cc_headers c), cc_block_hashes := bc_clear (cc_block_hashes c),
       cc_stats := cs_default\<rparr>"

datatype cache_op =
    CC_GetHeader b256
  | CC_PutHeader b256 block_header
  | CC_RemoveHeader b256
  | CC_GetHash u64
  | CC_PutHash u64 b256
  | CC_Clear

fun cc_step :: "cache_op \<Rightarrow> chain_cache \<Rightarrow> chain_cache" where
  "cc_step (CC_GetHeader h) c = snd (cc_get_header h c)"
| "cc_step (CC_PutHeader h x) c = cc_put_header h x c"
| "cc_step (CC_RemoveHeader h) c = cc_remove_header h c"
| "cc_step (CC_GetHash n) c = snd (cc_get_block_hash n c)"
| "cc_step (CC_PutHash n h) c = cc_put_block_hash n h c"
| "cc_step CC_Clear c = cc_clear c"

section \<open>A hit is what was written last\<close>

text \<open>What was written last and neither removed nor cleared since.\<close>

fun written_header :: "cache_op \<Rightarrow> (b256 \<rightharpoonup> block_header) \<Rightarrow> (b256 \<rightharpoonup> block_header)" where
  "written_header (CC_PutHeader h x) f = f(h \<mapsto> x)"
| "written_header (CC_RemoveHeader h) f = f(h := None)"
| "written_header CC_Clear f = Map.empty"
| "written_header _ f = f"

fun written_hash :: "cache_op \<Rightarrow> (u64 \<rightharpoonup> b256) \<Rightarrow> (u64 \<rightharpoonup> b256)" where
  "written_hash (CC_PutHash n h) f = f(n \<mapsto> h)"
| "written_hash CC_Clear f = Map.empty"
| "written_hash _ f = f"

definition cc_sound :: "(b256 \<rightharpoonup> block_header) \<Rightarrow> (u64 \<rightharpoonup> b256) \<Rightarrow> chain_cache \<Rightarrow> bool" where
  "cc_sound f g c \<longleftrightarrow> bc_wf (cc_headers c) \<and> bc_wf (cc_block_hashes c)
     \<and> bc_get (cc_headers c) \<subseteq>\<^sub>m f \<and> bc_get (cc_block_hashes c) \<subseteq>\<^sub>m g"

lemma cc_gets_frame:
  "cc_headers (snd (cc_get_header h c)) = cc_headers c" "cc_block_hashes (snd (cc_get_header h c)) = cc_block_hashes c"
  "cc_headers (snd (cc_get_block_hash n c)) = cc_headers c"
  "cc_block_hashes (snd (cc_get_block_hash n c)) = cc_block_hashes c"
  by (simp_all add: cc_get_header_def cc_get_block_hash_def split: option.split)

lemma bc_clear_sound: "bc_wf (bc_clear c)" "bc_get (bc_clear c) \<subseteq>\<^sub>m f"
  by (simp_all add: bc_wf_def bc_clear_def bc_get_def[abs_def] map_le_def)

lemma bc_insert_sound: "bc_wf c \<Longrightarrow> bc_get c \<subseteq>\<^sub>m f \<Longrightarrow> bc_get (bc_insert k v c) \<subseteq>\<^sub>m f(k \<mapsto> v)"
  using cache_map.exec_sound[of c f "(k, Some v)"] by simp

lemma bc_remove_sound: "bc_wf c \<Longrightarrow> bc_get c \<subseteq>\<^sub>m f \<Longrightarrow> bc_get (bc_remove k c) \<subseteq>\<^sub>m f(k := None)"
  using cache_map.exec_sound[of c f "(k, None)"] by simp

lemma cc_step_sound: "cc_sound f g c \<Longrightarrow> cc_sound (written_header op f) (written_hash op g) (cc_step op c)"
  by (cases op) (simp_all add: cc_sound_def cc_gets_frame cc_put_header_def cc_remove_header_def
      cc_put_block_hash_def cc_clear_def bc_clear_sound bc_insert_wf bc_remove_wf bc_insert_sound bc_remove_sound)

lemma cc_run_sound:
  "cc_sound f g c \<Longrightarrow> cc_sound (fold written_header ops f) (fold written_hash ops g) (fold cc_step ops c)"
  by (induction ops arbitrary: f g c) (simp_all add: cc_step_sound)

lemma bc_insert_capacity: "bc_capacity (bc_insert k v c) = bc_capacity c"
  by (simp add: bc_insert_def bc_evict_def Let_def split: list.split)

lemma map_le_get: "m \<subseteq>\<^sub>m f \<Longrightarrow> m j \<in> {None, f j}"
  by (cases "m j") (auto simp: map_le_def dom_def)

lemma cc_capacity:
  "bc_capacity (cc_headers (fold cc_step ops c)) = bc_capacity (cc_headers c)
   \<and> bc_capacity (cc_block_hashes (fold cc_step ops c)) = bc_capacity (cc_block_hashes c)"
proof (induction ops arbitrary: c)
  case (Cons op ops)
  have "bc_capacity (cc_headers (cc_step op c)) = bc_capacity (cc_headers c)
     \<and> bc_capacity (cc_block_hashes (cc_step op c)) = bc_capacity (cc_block_hashes c)"
    by (cases op) (simp_all add: cc_gets_frame cc_put_header_def cc_remove_header_def cc_put_block_hash_def
        cc_clear_def bc_clear_def bc_remove_def bc_insert_capacity)
  with Cons show ?case by simp
qed simp

lemma bc_len_bound: "bc_wf c \<Longrightarrow> bc_len c \<le> max 1 (bc_capacity c)"
  using bc_wfD[of c] by (metis bc_len_def distinct_card length_map)

text \<open>In every state a cache comes to, a hit returns what was written last under the hash or the
  number and neither removed nor cleared since, and the number of entries is within the capacity
  (a capacity of zero holds one).\<close>

theorem cache_hit_is_current:
  assumes "c = fold cc_step ops (cc_new header_cap hash_cap)"
  shows "fst (cc_get_header h c) \<in> {None, fold written_header ops Map.empty h}
    \<and> fst (cc_get_block_hash n c) \<in> {None, fold written_hash ops Map.empty n}
    \<and> cc_header_count c \<le> max 1 header_cap \<and> cc_hash_count c \<le> max 1 hash_cap"
proof -
  have "cc_sound Map.empty Map.empty (cc_new header_cap hash_cap)"
    by (simp add: cc_sound_def cc_new_def bc_new_wf) (simp add: bc_get_def bc_new_def map_le_def)
  then have s: "cc_sound (fold written_header ops Map.empty) (fold written_hash ops Map.empty) c"
    unfolding assms by (rule cc_run_sound)
  have "bc_get (cc_headers c) h \<in> {None, fold written_header ops Map.empty h}"
    "bc_get (cc_block_hashes c) n \<in> {None, fold written_hash ops Map.empty n}"
    using s by (simp_all only: cc_sound_def map_le_get)
  moreover have "cc_header_count c \<le> max 1 header_cap" "cc_hash_count c \<le> max 1 hash_cap"
    using s bc_len_bound[of "cc_headers c"] bc_len_bound[of "cc_block_hashes c"]
      cc_capacity[of ops "cc_new header_cap hash_cap"]
    by (simp_all add: cc_sound_def cc_header_count_def cc_hash_count_def assms) (simp_all add: cc_new_def bc_new_def)
  ultimately show ?thesis
    by (auto simp: cc_get_header_def cc_get_block_hash_def split: option.splits)
qed

theorem cache_hit_is_current_witness:
  "fst (cc_get_block_hash 2 (fold cc_step [CC_PutHash 1 10, CC_PutHash 2 20, CC_PutHash 3 30, CC_PutHash 2 21] (cc_new 2 2))) = Some 21
   \<and> cc_hash_count (fold cc_step [CC_PutHash 1 10, CC_PutHash 2 20, CC_PutHash 3 30, CC_PutHash 2 21] (cc_new 2 2)) \<le> 2"
proof -
  let ?ops = "[CC_PutHash 1 10, CC_PutHash 2 20, CC_PutHash 3 30, CC_PutHash 2 21]"
  have "fst (cc_get_block_hash 2 (fold cc_step ?ops (cc_new 2 2))) \<noteq> None" by code_simp
  with cache_hit_is_current[of "fold cc_step ?ops (cc_new 2 2)" ?ops 2 2 _ 2] show ?thesis by (auto simp: numeral_2_eq_2)
qed

end
