(* ===== verification/Skills.thy ===== *)
theory Skills
  imports F32
begin

text \<open>
  Skill trees, \<open>crates/game-engine/src/skills.rs\<close>: skill points, prerequisites and the
  bonuses of the allocated levels. Bonuses are sums of \<open>f32\<close> in the order of the
  \<open>HashMap\<close> of levels, so the order is a parameter.
\<close>

section \<open>Data\<close>

type_synonym skill_id = u32

datatype skill_tree = ST_Combat | ST_Gathering | ST_Crafting | ST_Survival

datatype skill_type = SK_Passive | SK_Active

datatype skill_effect =
    SE_AttackBonus f32
  | SE_DefenseBonus f32
  | SE_HealthBonus f32
  | SE_SpeedBonus f32
  | SE_CritChanceBonus f32
  | SE_CritDamageBonus f32
  | SE_GatherBonus f32
  | SE_CraftEfficiency f32
  | SE_DropRateBonus f32
  | SE_HealthRegen f32

record skill_def =
  sk_id :: skill_id
  sk_name :: string
  sk_description :: string
  sk_tree :: skill_tree
  sk_type :: skill_type
  sk_max_level :: u32
  sk_cost_per_level :: u32
  sk_required_level :: u32
  sk_prerequisites :: "(skill_id \<times> u32) list"
  sk_effect_per_level :: skill_effect

record player_skill_state =
  pss_skills :: "(skill_id \<times> u32) list"
  pss_available_points :: u32
  pss_total_points_earned :: u32

definition pss_new :: player_skill_state where
  "pss_new = \<lparr> pss_skills = [], pss_available_points = 0, pss_total_points_earned = 0 \<rparr>"

definition skill_level :: "player_skill_state \<Rightarrow> skill_id \<Rightarrow> u32" where
  "skill_level s i = (case map_of (pss_skills s) i of None \<Rightarrow> 0 | Some n \<Rightarrow> n)"

definition total_allocated :: "player_skill_state \<Rightarrow> u32" where
  "total_allocated s = sum_list (hm_vals (pss_skills s))"

definition skill_points_per_level :: "u32 \<Rightarrow> u32" where
  "skill_points_per_level n =
     (if 1 \<le> n \<and> n \<le> 5 then 1 else if 6 \<le> n \<and> n \<le> 10 then 2 else if 11 \<le> n \<and> n \<le> 20 then 3 else 4)"

datatype skill_error =
    SKE_NotFound skill_id
  | SKE_NotEnoughPoints u32 u32
  | SKE_MaxLevel skill_id
  | SKE_LevelTooLow u32 u32
  | SKE_PrerequisitesNotMet "(skill_id \<times> u32) list"

datatype skill_result =
    SR_LeveledUp skill_id u32
  | SR_PointsAwarded u32
  | SR_Error skill_error

record skill_bonuses =
  sb_attack :: f32
  sb_defense :: f32
  sb_health :: f32
  sb_speed :: f32
  sb_crit_chance :: f32
  sb_crit_damage :: f32
  sb_gather :: f32
  sb_craft_efficiency :: f32
  sb_drop_rate :: f32
  sb_health_regen :: f32

definition sb_default :: skill_bonuses where
  "sb_default = \<lparr> sb_attack = 0, sb_defense = 0, sb_health = 0, sb_speed = 0, sb_crit_chance = 0,
     sb_crit_damage = 0, sb_gather = 0, sb_craft_efficiency = 0, sb_drop_rate = 0, sb_health_regen = 0 \<rparr>"

type_synonym skill_registry = "(skill_id \<times> skill_def) list"

section \<open>Operations\<close>

definition sk_register :: "skill_def \<Rightarrow> skill_registry \<Rightarrow> skill_registry" where
  "sk_register d r = AList.update (sk_id d) d r"

definition sk_get :: "skill_registry \<Rightarrow> skill_id \<Rightarrow> skill_def option" where
  "sk_get r i = map_of r i"

definition skills_in_tree :: "skill_registry \<Rightarrow> skill_tree \<Rightarrow> skill_def list" where
  "skills_in_tree r t = filter (\<lambda>d. sk_tree d = t) (hm_vals r)"

definition skill_count :: "skill_registry \<Rightarrow> nat" where
  "skill_count r = length r"

definition skill ::
  "u32 \<Rightarrow> string \<Rightarrow> string \<Rightarrow> skill_tree \<Rightarrow> u32 \<Rightarrow> u32 \<Rightarrow> u32 \<Rightarrow> (skill_id \<times> u32) list \<Rightarrow> skill_effect \<Rightarrow> skill_def" where
  "skill i name desc tr mx cost req pre eff =
     \<lparr> sk_id = i, sk_name = name, sk_description = desc, sk_tree = tr, sk_type = SK_Passive, sk_max_level = mx,
       sk_cost_per_level = cost, sk_required_level = req, sk_prerequisites = pre, sk_effect_per_level = eff \<rparr>"

definition builtin_skills :: "skill_def list" where
  "builtin_skills =
     [skill 1 ''Strength'' ''Increases attack damage.'' ST_Combat 10 1 1 [] (SE_AttackBonus (f32_of_int 3)),
      skill 2 ''Toughness'' ''Increases defense.'' ST_Combat 10 1 1 [] (SE_DefenseBonus (f32_of_int 2)),
      skill 3 ''Precision'' ''Increases critical hit chance.'' ST_Combat 5 2 3 [(1, 3)] (SE_CritChanceBonus (f32_lit 3 2)),
      skill 4 ''Devastation'' ''Increases critical hit damage.'' ST_Combat 5 2 5 [(3, 2)] (SE_CritDamageBonus (f32_lit 2 1)),
      skill 10 ''Prospector'' ''Increases mining yield.'' ST_Gathering 10 1 1 [] (SE_GatherBonus (f32_lit 1 1)),
      skill 11 ''Lucky Find'' ''Increases rare item drop rate.'' ST_Gathering 5 2 5 [(10, 3)] (SE_DropRateBonus (f32_lit 1 1)),
      skill 20 ''Efficient Crafting'' ''Reduces crafting material cost.'' ST_Crafting 5 2 2 [] (SE_CraftEfficiency (f32_lit 5 2)),
      skill 30 ''Vitality'' ''Increases maximum health.'' ST_Survival 10 1 1 [] (SE_HealthBonus (f32_of_int 10)),
      skill 31 ''Regeneration'' ''Slowly regenerate health over time.'' ST_Survival 5 2 3 [(30, 3)] (SE_HealthRegen (f32_lit 5 1)),
      skill 32 ''Swiftness'' ''Increases movement speed.'' ST_Survival 5 1 2 [] (SE_SpeedBonus (f32_lit 5 2))]"

definition default_skills :: skill_registry where
  "default_skills = fold sk_register builtin_skills []"

definition award_level_up_points :: "u32 \<Rightarrow> player_skill_state \<Rightarrow> skill_result \<times> player_skill_state" where
  "award_level_up_points level s =
     (let points = skill_points_per_level level in
      (SR_PointsAwarded points,
       s\<lparr>pss_available_points := pss_available_points s + points,
         pss_total_points_earned := pss_total_points_earned s + points\<rparr>))"

definition missing_prerequisites :: "skill_def \<Rightarrow> player_skill_state \<Rightarrow> (skill_id \<times> u32) list" where
  "missing_prerequisites d s = filter (\<lambda>(i, n). skill_level s i < n) (sk_prerequisites d)"

definition allocate_point :: "skill_registry \<Rightarrow> skill_id \<Rightarrow> u32 \<Rightarrow> player_skill_state \<Rightarrow> skill_result \<times> player_skill_state" where
  "allocate_point r i level s =
     (case sk_get r i of
        None \<Rightarrow> (SR_Error (SKE_NotFound i), s)
      | Some d \<Rightarrow>
          if sk_max_level d \<le> skill_level s i then (SR_Error (SKE_MaxLevel i), s)
          else if level < sk_required_level d then (SR_Error (SKE_LevelTooLow (sk_required_level d) level), s)
          else let missing = missing_prerequisites d s in
            if missing \<noteq> [] then (SR_Error (SKE_PrerequisitesNotMet missing), s)
            else if pss_available_points s < sk_cost_per_level d
              then (SR_Error (SKE_NotEnoughPoints (sk_cost_per_level d) (pss_available_points s)), s)
            else let s1 = s\<lparr>pss_available_points := pss_available_points s - sk_cost_per_level d\<rparr>;
                     s2 = s1\<lparr>pss_skills := AList.update i (skill_level s1 i + 1) (pss_skills s1)\<rparr>
                 in (SR_LeveledUp i (skill_level s2 i), s2))"

fun add_effect :: "f32 \<Rightarrow> skill_effect \<Rightarrow> skill_bonuses \<Rightarrow> skill_bonuses" where
  "add_effect n (SE_AttackBonus v) b = b\<lparr>sb_attack := f32_add (sb_attack b) (f32_mul v n)\<rparr>"
| "add_effect n (SE_DefenseBonus v) b = b\<lparr>sb_defense := f32_add (sb_defense b) (f32_mul v n)\<rparr>"
| "add_effect n (SE_HealthBonus v) b = b\<lparr>sb_health := f32_add (sb_health b) (f32_mul v n)\<rparr>"
| "add_effect n (SE_SpeedBonus v) b = b\<lparr>sb_speed := f32_add (sb_speed b) (f32_mul v n)\<rparr>"
| "add_effect n (SE_CritChanceBonus v) b = b\<lparr>sb_crit_chance := f32_add (sb_crit_chance b) (f32_mul v n)\<rparr>"
| "add_effect n (SE_CritDamageBonus v) b = b\<lparr>sb_crit_damage := f32_add (sb_crit_damage b) (f32_mul v n)\<rparr>"
| "add_effect n (SE_GatherBonus v) b = b\<lparr>sb_gather := f32_add (sb_gather b) (f32_mul v n)\<rparr>"
| "add_effect n (SE_CraftEfficiency v) b = b\<lparr>sb_craft_efficiency := f32_add (sb_craft_efficiency b) (f32_mul v n)\<rparr>"
| "add_effect n (SE_DropRateBonus v) b = b\<lparr>sb_drop_rate := f32_add (sb_drop_rate b) (f32_mul v n)\<rparr>"
| "add_effect n (SE_HealthRegen v) b = b\<lparr>sb_health_regen := f32_add (sb_health_regen b) (f32_mul v n)\<rparr>"

definition add_skill :: "skill_registry \<Rightarrow> skill_id \<times> u32 \<Rightarrow> skill_bonuses \<Rightarrow> skill_bonuses" where
  "add_skill r il b =
     (if snd il = 0 then b
      else case sk_get r (fst il) of
             None \<Rightarrow> b
           | Some d \<Rightarrow> add_effect (f32_of_int (uint (snd il))) (sk_effect_per_level d) b)"

definition compute_bonuses ::
  "((skill_id \<times> u32) list \<Rightarrow> (skill_id \<times> u32) list) \<Rightarrow> skill_registry \<Rightarrow> player_skill_state \<Rightarrow> skill_bonuses" where
  "compute_bonuses ord r s = fold (add_skill r) (ord (pss_skills s)) sb_default"

section \<open>Points and levels\<close>

datatype skill_op = SO_LevelUp u32 | SO_Allocate skill_id u32

fun skill_step :: "skill_registry \<Rightarrow> skill_op \<Rightarrow> player_skill_state \<Rightarrow> player_skill_state" where
  "skill_step r (SO_LevelUp n) s = snd (award_level_up_points n s)"
| "skill_step r (SO_Allocate i n) s = snd (allocate_point r i n s)"

definition skill_cost :: "skill_registry \<Rightarrow> skill_id \<Rightarrow> u32" where
  "skill_cost r i = (case sk_get r i of None \<Rightarrow> 0 | Some d \<Rightarrow> sk_cost_per_level d)"

definition points_spent :: "skill_registry \<Rightarrow> (skill_id \<times> u32) list \<Rightarrow> u32" where
  "points_spent r m = sum_list (map (\<lambda>(i, n). skill_cost r i * n) m)"

text \<open>A level is allowed: of a known skill, not above its maximum, with its prerequisites.\<close>

definition level_ok :: "skill_registry \<Rightarrow> player_skill_state \<Rightarrow> skill_id \<Rightarrow> bool" where
  "level_ok r s i \<longleftrightarrow> skill_level s i = 0
     \<or> (case sk_get r i of
          None \<Rightarrow> False
        | Some d \<Rightarrow> skill_level s i \<le> sk_max_level d \<and> missing_prerequisites d s = [])"

definition skills_wf :: "skill_registry \<Rightarrow> player_skill_state \<Rightarrow> bool" where
  "skills_wf r s \<longleftrightarrow> hm_wf (pss_skills s)
     \<and> pss_available_points s + points_spent r (pss_skills s) = pss_total_points_earned s
     \<and> (\<forall>i. level_ok r s i)"

lemma points_spent_update:
  "hm_wf m \<Longrightarrow> points_spent r (AList.update i (n + 1) m)
     = points_spent r m + skill_cost r i * (n + 1 - (case map_of m i of None \<Rightarrow> 0 | Some k \<Rightarrow> k))"
proof (induction m)
  case (Cons jk m)
  obtain j k where jk: "jk = (j, k)" by (cases jk)
  show ?case
  proof (cases "j = i")
    case True
    then show ?thesis using jk by (simp add: points_spent_def algebra_simps)
  next
    case False
    then show ?thesis using Cons jk by (simp add: points_spent_def algebra_simps)
  qed
qed (simp add: points_spent_def)

lemma skill_level_points [simp]:
  "skill_level (s\<lparr>pss_available_points := a\<rparr>) = skill_level s"
  "skill_level (s\<lparr>pss_total_points_earned := a\<rparr>) = skill_level s"
  by (rule ext, simp add: skill_level_def)+

lemma level_up_wf: "skills_wf r s \<Longrightarrow> skills_wf r (snd (award_level_up_points n s))"
  by (simp add: skills_wf_def award_level_up_points_def Let_def level_ok_def missing_prerequisites_def algebra_simps
      cong: option.case_cong)

lemma raised_level:
  "skill_level (s\<lparr>pss_available_points := a, pss_skills := AList.update i (n + 1) (pss_skills s)\<rparr>) j
     = (if j = i then n + 1 else skill_level s j)"
  by (simp add: skill_level_def hm_update_get)

lemma no_more_missing:
  assumes "missing_prerequisites d s = []" and "\<forall>j. skill_level s j \<le> skill_level s' j"
  shows "missing_prerequisites d s' = []"
proof -
  have "\<not> skill_level s' j < n" if "(j, n) \<in> set (sk_prerequisites d)" for j n
  proof -
    have "n \<le> skill_level s j" using assms(1) that by (auto simp: missing_prerequisites_def filter_empty_conv not_less)
    also have "\<dots> \<le> skill_level s' j" using assms(2) by simp
    finally show ?thesis by (simp add: not_less)
  qed
  then show ?thesis by (auto simp: missing_prerequisites_def filter_empty_conv)
qed

lemma allocate_cases:
  obtains "snd (allocate_point r i level s) = s"
  | d where "sk_get r i = Some d" "skill_level s i < sk_max_level d" "missing_prerequisites d s = []"
      "snd (allocate_point r i level s)
       = s\<lparr>pss_available_points := pss_available_points s - sk_cost_per_level d,
           pss_skills := AList.update i (skill_level s i + 1) (pss_skills s)\<rparr>"
proof (cases "sk_get r i")
  case (Some d)
  then show thesis
    using that(2)[of d]
    by (cases "sk_max_level d \<le> skill_level s i \<or> level < sk_required_level d \<or> missing_prerequisites d s \<noteq> []
          \<or> pss_available_points s < sk_cost_per_level d")
      (auto intro: that(1) simp: allocate_point_def Let_def)
qed (simp add: that(1) allocate_point_def)

lemma allocate_wf:
  assumes wf: "skills_wf r s"
  shows "skills_wf r (snd (allocate_point r i level s))"
proof (cases r i level s rule: allocate_cases)
  case (2 d)
  let ?s = "s\<lparr>pss_available_points := pss_available_points s - sk_cost_per_level d,
    pss_skills := AList.update i (skill_level s i + 1) (pss_skills s)\<rparr>"
  have m: "hm_wf (pss_skills s)" and ok: "level_ok r s j"
    and pts: "pss_available_points s + points_spent r (pss_skills s) = pss_total_points_earned s" for j
    using wf by (simp_all add: skills_wf_def)
  note Suc = unat_Suc_word[OF 2(2)]
  have mono: "\<forall>j. skill_level s j \<le> skill_level ?s j"
    using Suc by (simp add: raised_level word_le_nat_alt)
  have "level_ok r ?s j" for j
  proof (cases "j = i")
    case True
    have "skill_level s i + 1 \<le> sk_max_level d"
      using 2(2) Suc by (simp add: word_le_nat_alt word_less_nat_alt)
    then show ?thesis using True 2(1) no_more_missing[OF 2(3) mono] by (simp add: level_ok_def raised_level)
  next
    case False
    then show ?thesis using ok[of j]
      by (auto simp: level_ok_def raised_level no_more_missing[OF _ mono] split: option.splits)
  qed
  then have "\<forall>j. level_ok r ?s j" by blast
  moreover have "points_spent r (pss_skills ?s) = points_spent r (pss_skills s) + sk_cost_per_level d"
    using points_spent_update[OF m, of r i "skill_level s i"] 2(1)
    by (simp add: skill_cost_def skill_level_def)
  then have "pss_available_points ?s + points_spent r (pss_skills ?s) = pss_total_points_earned ?s"
    using pts by simp
  ultimately show ?thesis
    unfolding 2(4) skills_wf_def using m by (simp add: hm_update_wf)
qed (simp add: wf)

interpretation skill_machine: op_machine "skill_step r" "skills_wf r"
proof
  fix s :: player_skill_state and x assume "skills_wf r s"
  then show "skills_wf r (skill_step r x s)" by (cases x) (simp_all add: level_up_wf allocate_wf)
qed

lemma new_wf: "skills_wf r pss_new"
  by (simp add: skills_wf_def pss_new_def points_spent_def level_ok_def skill_level_def)

text \<open>C37. In every state that level-ups and allocations lead to, the points left and the points the
  levels cost add up to the points earned (modulo $2^{32}$), no skill is above its maximum and every
  allocated skill still has its prerequisites.\<close>

theorem skill_points_conserved:
  assumes "s = fold (skill_step r) ops pss_new"
  shows "pss_available_points s + points_spent r (pss_skills s) = pss_total_points_earned s
    \<and> (skill_level s i = 0 \<or>
       (\<exists>d. sk_get r i = Some d \<and> skill_level s i \<le> sk_max_level d
          \<and> (\<forall>p. p \<notin> set (sk_prerequisites d) \<or> snd p \<le> skill_level s (fst p))))"
proof -
  have wf: "skills_wf r s" unfolding assms by (rule skill_machine.run_inv[OF new_wf])
  then have "level_ok r s i" by (simp add: skills_wf_def)
  then have "skill_level s i = 0 \<or>
       (\<exists>d. sk_get r i = Some d \<and> skill_level s i \<le> sk_max_level d
          \<and> (\<forall>p. p \<notin> set (sk_prerequisites d) \<or> snd p \<le> skill_level s (fst p)))"
    by (cases "sk_get r i") (auto simp: level_ok_def missing_prerequisites_def filter_empty_conv not_less)
  then show ?thesis using wf by (simp add: skills_wf_def)
qed

section \<open>Bonuses and the order of the HashMap\<close>

fun effect_kind :: "skill_effect \<Rightarrow> nat" where
  "effect_kind (SE_AttackBonus _) = 0"
| "effect_kind (SE_DefenseBonus _) = 1"
| "effect_kind (SE_HealthBonus _) = 2"
| "effect_kind (SE_SpeedBonus _) = 3"
| "effect_kind (SE_CritChanceBonus _) = 4"
| "effect_kind (SE_CritDamageBonus _) = 5"
| "effect_kind (SE_GatherBonus _) = 6"
| "effect_kind (SE_CraftEfficiency _) = 7"
| "effect_kind (SE_DropRateBonus _) = 8"
| "effect_kind (SE_HealthRegen _) = 9"

lemma add_effect_commute:
  "effect_kind e \<noteq> effect_kind e' \<Longrightarrow> add_effect n e (add_effect n' e' b) = add_effect n' e' (add_effect n e b)"
  by (cases e; cases e') simp_all

definition kinds_differ :: "skill_registry \<Rightarrow> bool" where
  "kinds_differ r \<longleftrightarrow> distinct (map (effect_kind \<circ> sk_effect_per_level) (hm_vals r))"

lemma kinds_differD:
  assumes "kinds_differ r" "sk_get r i = Some d" "sk_get r j = Some e" "i \<noteq> j"
  shows "effect_kind (sk_effect_per_level d) \<noteq> effect_kind (sk_effect_per_level e)"
proof -
  let ?k = "\<lambda>x. effect_kind (sk_effect_per_level (snd x))"
  have "(i, d) \<in> set r" "(j, e) \<in> set r" using assms(2,3) by (simp_all add: sk_get_def map_of_SomeD)
  moreover have "inj_on ?k (set r)" using assms(1) by (simp add: kinds_differ_def distinct_map comp_def inj_on_def)
  ultimately show ?thesis using assms(4) inj_onD[of ?k "set r" "(i, d)" "(j, e)"] by auto
qed

lemma add_skill_commute:
  assumes "kinds_differ r" "i \<noteq> j"
  shows "add_skill r (i, n) \<circ> add_skill r (j, m) = add_skill r (j, m) \<circ> add_skill r (i, n)"
  using kinds_differD[OF assms(1) _ _ assms(2)]
  by (auto simp: fun_eq_iff add_skill_def add_effect_commute split: option.splits)

lemma bonuses_order:
  assumes "kinds_differ r" and "hm_wf (pss_skills s)" and "iter_order ord"
  shows "compute_bonuses ord r s = compute_bonuses (\<lambda>xs. xs) r s"
proof -
  have "fold (add_skill r) (ord (pss_skills s)) = fold (add_skill r) (pss_skills s)"
  proof (rule fold_multiset_equiv)
    fix x y assume "x \<in> set (ord (pss_skills s))" "y \<in> set (ord (pss_skills s))"
    then have "x = y \<or> fst x \<noteq> fst y"
      using assms(2,3) by (auto simp: distinct_map inj_on_def)
    then show "add_skill r x \<circ> add_skill r y = add_skill r y \<circ> add_skill r x"
      using add_skill_commute[OF assms(1), of "fst x" "fst y" "snd x" "snd y"] by auto
  qed (use assms(3) in \<open>simp add: iter_order_def\<close>)
  then show ?thesis by (simp add: compute_bonuses_def)
qed

lemma default_kinds_differ: "kinds_differ default_skills"
proof -
  have "hm_vals default_skills = builtin_skills"
    by (simp add: default_skills_def builtin_skills_def sk_register_def skill_def)
  then show ?thesis by (simp add: kinds_differ_def builtin_skills_def skill_def comp_def)
qed

text \<open>With the built-in skills the bonuses of a player do not depend on the order in which the
  \<open>HashMap\<close> of levels is iterated, although they are sums of floating-point numbers: two nodes
  compute the same bonuses.\<close>

theorem default_bonuses_agree:
  assumes "s = fold (skill_step default_skills) ops pss_new" and "iter_order ord" and "iter_order ord'"
  shows "compute_bonuses ord default_skills s = compute_bonuses ord' default_skills s"
proof -
  have "skills_wf default_skills s" unfolding assms(1) by (rule skill_machine.run_inv[OF new_wf])
  then have "hm_wf (pss_skills s)" by (simp add: skills_wf_def)
  from bonuses_order[OF default_kinds_differ this assms(2)] bonuses_order[OF default_kinds_differ this assms(3)]
  show ?thesis by (rule trans[OF _ sym])
qed

text \<open>Three skills with the same effect are enough to break this.\<close>

definition same_effect_skills :: skill_registry where
  "same_effect_skills = fold sk_register
     [skill 1 ''A'' [] ST_Combat 1 1 1 [] (SE_AttackBonus (f32_of_int 16777216)),
      skill 2 ''B'' [] ST_Combat 1 1 1 [] (SE_AttackBonus (f32_of_int 1)),
      skill 3 ''C'' [] ST_Combat 1 1 1 [] (SE_AttackBonus (f32_of_int 1))] []"

lemma sum_depends_on_order:
  "f32_add (f32_add (f32_add 0 (f32_mul (f32_of_int 16777216) (f32_of_int 1))) (f32_mul (f32_of_int 1) (f32_of_int 1)))
     (f32_mul (f32_of_int 1) (f32_of_int 1)) = f32_of_int 16777216"
  "f32_add (f32_add (f32_add 0 (f32_mul (f32_of_int 1) (f32_of_int 1))) (f32_mul (f32_of_int 1) (f32_of_int 1)))
     (f32_mul (f32_of_int 16777216) (f32_of_int 1)) = f32_of_int 16777218"
  "f32_of_int 16777216 \<noteq> f32_of_int 16777218"
  by code_simp+

lemma same_effect_bonuses:
  "i \<in> {1, 2, 3} \<Longrightarrow> add_skill same_effect_skills (i, 1) b
     = b\<lparr>sb_attack := f32_add (sb_attack b) (f32_mul (f32_of_int (if i = 1 then 16777216 else 1)) (f32_of_int 1))\<rparr>"
  by (auto simp: add_skill_def sk_get_def same_effect_skills_def sk_register_def skill_def)

lemma bonuses_depend_on_order:
  assumes "s = \<lparr> pss_skills = [(1, 1), (2, 1), (3, 1)], pss_available_points = 0, pss_total_points_earned = 3 \<rparr>"
  shows "sb_attack (compute_bonuses (\<lambda>xs. xs) same_effect_skills s) \<noteq> sb_attack (compute_bonuses rev same_effect_skills s)"
proof -
  let ?one = "f32_mul (f32_of_int 1) (f32_of_int 1)" and ?big = "f32_mul (f32_of_int 16777216) (f32_of_int 1)"
  have p: "pss_skills s = [(1, 1), (2, 1), (3, 1)]" by (simp add: assms)
  have z: "sb_attack sb_default = 0" by (simp add: sb_default_def)
  have "sb_attack (compute_bonuses (\<lambda>xs. xs) same_effect_skills s) = f32_add (f32_add (f32_add 0 ?big) ?one) ?one"
    using z by (simp add: compute_bonuses_def p same_effect_bonuses)
  moreover have "sb_attack (compute_bonuses rev same_effect_skills s) = f32_add (f32_add (f32_add 0 ?one) ?one) ?big"
    using z by (simp add: compute_bonuses_def p same_effect_bonuses)
  ultimately show ?thesis by (simp only: sum_depends_on_order not_False_eq_True)
qed

definition demo_skills :: skill_registry where
  "demo_skills = [(1, skill 1 ''A'' [] ST_Combat 3 1 1 [] (SE_AttackBonus 0)), (2, skill 2 ''B'' [] ST_Combat 3 2 1 [(1, 1)] (SE_AttackBonus 0))]"

lemma demo_skill_steps:
  "skill_step demo_skills (SO_LevelUp 11) pss_new = \<lparr> pss_skills = [], pss_available_points = 3, pss_total_points_earned = 3 \<rparr>"
  "skill_step demo_skills (SO_Allocate 1 11) \<lparr> pss_skills = [], pss_available_points = 3, pss_total_points_earned = 3 \<rparr>
     = \<lparr> pss_skills = [(1, 1)], pss_available_points = 2, pss_total_points_earned = 3 \<rparr>"
  "skill_step demo_skills (SO_Allocate 2 11) \<lparr> pss_skills = [(1, 1)], pss_available_points = 2, pss_total_points_earned = 3 \<rparr>
     = \<lparr> pss_skills = [(1, 1), (2, 1)], pss_available_points = 0, pss_total_points_earned = 3 \<rparr>"
  by (simp_all add: award_level_up_points_def allocate_point_def skill_points_per_level_def pss_new_def demo_skills_def
      sk_get_def skill_def skill_level_def missing_prerequisites_def)

theorem skill_points_conserved_witness:
  "let s = fold (skill_step demo_skills) [SO_LevelUp 11, SO_Allocate 1 11, SO_Allocate 2 11] pss_new in
   pss_skills s = [(1, 1), (2, 1)] \<and> pss_available_points s + points_spent demo_skills (pss_skills s) = 3"
proof -
  let ?s = "fold (skill_step demo_skills) [SO_LevelUp 11, SO_Allocate 1 11, SO_Allocate 2 11] pss_new"
  have s: "?s = \<lparr> pss_skills = [(1, 1), (2, 1)], pss_available_points = 0, pss_total_points_earned = 3 \<rparr>"
    by (simp del: skill_step.simps add: demo_skill_steps)
  from skill_points_conserved[OF refl, of demo_skills "[SO_LevelUp 11, SO_Allocate 1 11, SO_Allocate 2 11]" 1]
  show ?thesis unfolding s Let_def by simp
qed

theorem default_bonuses_agree_witness:
  "compute_bonuses (\<lambda>xs. xs) default_skills (fold (skill_step default_skills) [SO_LevelUp 4, SO_Allocate 1 4] pss_new)
   = compute_bonuses rev default_skills (fold (skill_step default_skills) [SO_LevelUp 4, SO_Allocate 1 4] pss_new)"
  by (rule default_bonuses_agree[OF refl]) simp_all

end
