(* ===== verification/Shops.thy ===== *)
theory Shops
  imports Items
begin

text \<open>
  NPC shops with demand-driven prices, \<open>crates/game-engine/src/shops.rs\<close>. Prices are computed
  in \<open>f32\<close>; the totals are 64-bit products that wrap.
\<close>

section \<open>Data\<close>

type_synonym shop_id = u32

record shop_listing =
  sl_item_id :: item_def_id
  sl_base_price :: u64
  sl_stock :: "u32 option"
  sl_max_stock :: "u32 option"
  sl_restock_rate :: u32
  sl_restock_interval :: u32
  sl_last_restock_tick :: u64

record demand_tracker =
  dtr_buy_volume :: "(item_def_id \<times> u32) list"
  dtr_sell_volume :: "(item_def_id \<times> u32) list"
  dtr_window_ticks :: u64
  dtr_window_size :: u64

record shop_def =
  sd_id :: shop_id
  sd_npc_type :: string
  sd_name :: string
  sd_listings :: "shop_listing list"
  sd_buyback_rate :: f32
  sd_demand_tracker :: demand_tracker

datatype shop_error =
    SHE_ShopNotFound shop_id
  | SHE_ItemNotAvailable item_def_id
  | SHE_OutOfStock item_def_id u32 u32
  | SHE_InsufficientGold u64 u64
  | SHE_InsufficientItems item_def_id u32 u32
  | SHE_CannotSellItem item_def_id

datatype shop_result =
    SH_Bought item_def_id u32 u64
  | SH_Sold item_def_id u32 u64
  | SH_Error shop_error

type_synonym shop_manager = "(shop_id \<times> shop_def) list"

section \<open>Demand\<close>

definition dtr_new :: "u64 \<Rightarrow> demand_tracker" where
  "dtr_new window = \<lparr> dtr_buy_volume = [], dtr_sell_volume = [], dtr_window_ticks = 0, dtr_window_size = window \<rparr>"

definition volume :: "(item_def_id \<times> u32) list \<Rightarrow> item_def_id \<Rightarrow> u32" where
  "volume m i = (case map_of m i of None \<Rightarrow> 0 | Some n \<Rightarrow> n)"

definition record_buy :: "item_def_id \<Rightarrow> u32 \<Rightarrow> demand_tracker \<Rightarrow> demand_tracker" where
  "record_buy i q t = t\<lparr>dtr_buy_volume := AList.update i (volume (dtr_buy_volume t) i + q) (dtr_buy_volume t)\<rparr>"

definition record_sell :: "item_def_id \<Rightarrow> u32 \<Rightarrow> demand_tracker \<Rightarrow> demand_tracker" where
  "record_sell i q t = t\<lparr>dtr_sell_volume := AList.update i (volume (dtr_sell_volume t) i + q) (dtr_sell_volume t)\<rparr>"

definition halve :: "(item_def_id \<times> u32) list \<Rightarrow> (item_def_id \<times> u32) list" where
  "halve m = map (\<lambda>(i, v). (i, v div 2)) m"

definition demand_tick :: "demand_tracker \<Rightarrow> demand_tracker" where
  "demand_tick t =
     (let t1 = t\<lparr>dtr_window_ticks := dtr_window_ticks t + 1\<rparr> in
      if dtr_window_size t1 \<le> dtr_window_ticks t1
      then t1\<lparr>dtr_buy_volume := halve (dtr_buy_volume t1), dtr_sell_volume := halve (dtr_sell_volume t1),
             dtr_window_ticks := 0\<rparr>
      else t1)"

definition price_multiplier :: "demand_tracker \<Rightarrow> item_def_id \<Rightarrow> f32" where
  "price_multiplier t i =
     (let buys = f32_of_int (uint (volume (dtr_buy_volume t) i));
          sells = f32_of_int (uint (volume (dtr_sell_volume t) i));
          net = f32_sub buys sells
      in f32_clamp (f32_add (f32_of_int 1) (f32_mul net (f32_lit 2 2))) (f32_lit 5 1) (f32_of_int 2))"

section \<open>The shops\<close>

definition shm_new :: shop_manager where
  "shm_new = []"

definition shm_register :: "shop_def \<Rightarrow> shop_manager \<Rightarrow> shop_manager" where
  "shm_register s m = AList.update (sd_id s) s m"

definition listing :: "u32 \<Rightarrow> u64 \<Rightarrow> u32 \<Rightarrow> u32 \<Rightarrow> u32 \<Rightarrow> shop_listing" where
  "listing i price mx rate interval =
     \<lparr> sl_item_id = i, sl_base_price = price, sl_stock = Some mx, sl_max_stock = Some mx, sl_restock_rate = rate,
       sl_restock_interval = interval, sl_last_restock_tick = 0 \<rparr>"

definition general_store :: shop_def where
  "general_store = \<lparr> sd_id = 1, sd_npc_type = ''merchant'', sd_name = ''General Store'',
     sd_listings = [listing 20 30 20 2 100, listing 21 100 5 1 200, listing 22 8 50 5 50, listing 1 15 5 1 300, listing 10 20 3 1 300],
     sd_buyback_rate = f32_lit 4 1, sd_demand_tracker = dtr_new 600 \<rparr>"

definition armory :: shop_def where
  "armory = \<lparr> sd_id = 2, sd_npc_type = ''guard'', sd_name = ''Armory'',
     sd_listings = [listing 2 75 3 1 500, listing 11 120 2 1 500, listing 12 90 2 1 500, listing 30 5 30 3 100],
     sd_buyback_rate = f32_lit 5 1, sd_demand_tracker = dtr_new 600 \<rparr>"

text \<open>The item registry argument of the source is not used by it.\<close>

definition default_shops :: shop_manager where
  "default_shops = fold shm_register [general_store, armory] shm_new"

definition shm_get :: "shop_manager \<Rightarrow> shop_id \<Rightarrow> shop_def option" where
  "shm_get m i = map_of m i"

definition find_by_npc :: "(shop_def list \<Rightarrow> shop_def list) \<Rightarrow> shop_manager \<Rightarrow> string \<Rightarrow> shop_def option" where
  "find_by_npc ord m t = find (\<lambda>s. sd_npc_type s = t) (ord (hm_vals m))"

definition shop_count :: "shop_manager \<Rightarrow> nat" where
  "shop_count m = length m"

definition find_listing :: "item_def_id \<Rightarrow> shop_def \<Rightarrow> shop_listing option" where
  "find_listing i s = find (\<lambda>l. sl_item_id l = i) (sd_listings s)"

definition unit_buy_price :: "shop_def \<Rightarrow> shop_listing \<Rightarrow> item_def_id \<Rightarrow> u64" where
  "unit_buy_price s l i =
     f32_to_u64 (f32_ceil (f32_mul (f32_of_int (uint (sl_base_price l))) (price_multiplier (sd_demand_tracker s) i)))"

definition unit_sell_price :: "shop_def \<Rightarrow> item_def \<Rightarrow> item_def_id \<Rightarrow> u64" where
  "unit_sell_price s d i =
     max (f32_to_u64 (f32_floor (f32_div (f32_mul (f32_of_int (uint (it_value d))) (sd_buyback_rate s))
            (price_multiplier (sd_demand_tracker s) i)))) 1"

definition buy_price :: "shop_manager \<Rightarrow> shop_id \<Rightarrow> item_def_id \<Rightarrow> u64 option" where
  "buy_price m sid i =
     Option.bind (map_of m sid) (\<lambda>s. Option.bind (find_listing i s) (\<lambda>l. Some (unit_buy_price s l i)))"

definition sell_price :: "shop_manager \<Rightarrow> shop_id \<Rightarrow> item_def_id \<Rightarrow> item_registry \<Rightarrow> u64 option" where
  "sell_price m sid i r =
     Option.bind (map_of m sid) (\<lambda>s. Option.bind (ir_get r i) (\<lambda>d. Some (unit_sell_price s d i)))"

text \<open>Writing through the reference \<open>iter_mut().find(..)\<close> returns.\<close>

fun set_listing :: "item_def_id \<Rightarrow> shop_listing \<Rightarrow> shop_listing list \<Rightarrow> shop_listing list" where
  "set_listing i l' [] = []"
| "set_listing i l' (l # ls) = (if sl_item_id l = i then l' # ls else l # set_listing i l' ls)"

definition buy_item :: "shop_id \<Rightarrow> item_def_id \<Rightarrow> u32 \<Rightarrow> u64 \<Rightarrow> shop_manager \<Rightarrow> shop_result \<times> shop_manager" where
  "buy_item sid i q gold m =
     (case map_of m sid of
        None \<Rightarrow> (SH_Error (SHE_ShopNotFound sid), m)
      | Some s \<Rightarrow>
         (case find_listing i s of
            None \<Rightarrow> (SH_Error (SHE_ItemNotAvailable i), m)
          | Some l \<Rightarrow>
              if case sl_stock l of None \<Rightarrow> False | Some n \<Rightarrow> n < q
              then (SH_Error (SHE_OutOfStock i (the (sl_stock l)) q), m)
              else let total = unit_buy_price s l i * ucast q in
                if gold < total then (SH_Error (SHE_InsufficientGold total gold), m)
                else let l' = l\<lparr>sl_stock := map_option (\<lambda>n. n - q) (sl_stock l)\<rparr>;
                         s' = s\<lparr>sd_listings := set_listing i l' (sd_listings s),
                                sd_demand_tracker := record_buy i q (sd_demand_tracker s)\<rparr>
                     in (SH_Bought i q total, AList.update sid s' m)))"

definition sell_item :: "shop_id \<Rightarrow> item_def_id \<Rightarrow> u32 \<Rightarrow> u32 \<Rightarrow> item_registry \<Rightarrow> shop_manager \<Rightarrow> shop_result \<times> shop_manager" where
  "sell_item sid i q held r m =
     (case ir_get r i of
        None \<Rightarrow> (SH_Error (SHE_CannotSellItem i), m)
      | Some d \<Rightarrow>
         (case map_of m sid of
            None \<Rightarrow> (SH_Error (SHE_ShopNotFound sid), m)
          | Some s \<Rightarrow>
              if held < q then (SH_Error (SHE_InsufficientItems i q held), m)
              else (SH_Sold i q (unit_sell_price s d i * ucast q),
                    AList.update sid (s\<lparr>sd_demand_tracker := record_sell i q (sd_demand_tracker s)\<rparr>) m)))"

definition restock :: "u64 \<Rightarrow> shop_listing \<Rightarrow> shop_listing" where
  "restock tick l =
     (case (sl_stock l, sl_max_stock l) of
        (Some n, Some mx) \<Rightarrow>
          if n < mx \<and> 0 < sl_restock_interval l \<and> sl_last_restock_tick l + ucast (sl_restock_interval l) \<le> tick
          then l\<lparr>sl_stock := Some (min (n + sl_restock_rate l) mx), sl_last_restock_tick := tick\<rparr>
          else l
      | _ \<Rightarrow> l)"

definition tick_shops :: "u64 \<Rightarrow> shop_manager \<Rightarrow> shop_manager" where
  "tick_shops tick m =
     map (\<lambda>(i, s). (i, s\<lparr>sd_demand_tracker := demand_tick (sd_demand_tracker s),
                        sd_listings := map (restock tick) (sd_listings s)\<rparr>)) m"

section \<open>A purchase\<close>

definition listing_at :: "shop_manager \<Rightarrow> shop_id \<Rightarrow> item_def_id \<Rightarrow> shop_listing option" where
  "listing_at m sid i = Option.bind (map_of m sid) (find_listing i)"

lemma find_set_listing:
  "sl_item_id l' = i \<Longrightarrow> find (\<lambda>l. sl_item_id l = i) ls = Some l \<Longrightarrow>
   find (\<lambda>l. sl_item_id l = j) (set_listing i l' ls)
     = (if j = i then Some l' else find (\<lambda>l. sl_item_id l = j) ls)"
  by (induction ls) (auto split: if_splits)

lemma find_listing_id: "find_listing i s = Some l \<Longrightarrow> sl_item_id l = i \<and> l \<in> set (sd_listings s)"
  by (auto simp: find_listing_def find_Some_iff)

lemma buy_item_cases:
  assumes "buy_item sid i q gold m = (r, m')"
  obtains (error) e where "r = SH_Error e" "m' = m"
  | (bought) s l where "map_of m sid = Some s" "find_listing i s = Some l"
      "\<And>n. sl_stock l = Some n \<Longrightarrow> q \<le> n" "unit_buy_price s l i * ucast q \<le> gold"
      "r = SH_Bought i q (unit_buy_price s l i * ucast q)"
      "m' = AList.update sid (s\<lparr>sd_listings := set_listing i (l\<lparr>sl_stock := map_option (\<lambda>n. n - q) (sl_stock l)\<rparr>) (sd_listings s),
              sd_demand_tracker := record_buy i q (sd_demand_tracker s)\<rparr>) m"
proof (cases "map_of m sid")
  case None
  then show thesis using assms error by (auto simp: buy_item_def)
next
  case s: (Some s)
  show thesis
  proof (cases "find_listing i s")
    case None
    then show thesis using assms error s by (auto simp: buy_item_def)
  next
    case l: (Some l)
    consider "case sl_stock l of None \<Rightarrow> False | Some n \<Rightarrow> n < q"
      | "\<not> (case sl_stock l of None \<Rightarrow> False | Some n \<Rightarrow> n < q)" "gold < unit_buy_price s l i * ucast q"
      | "\<not> (case sl_stock l of None \<Rightarrow> False | Some n \<Rightarrow> n < q)" "\<not> gold < unit_buy_price s l i * ucast q"
      by blast
    then show thesis
    proof cases
      case 3
      show thesis
        by (rule bought[OF s l]) (use assms s l 3 in \<open>auto simp: buy_item_def Let_def not_less\<close>)
    qed (use assms error s l in \<open>auto simp: buy_item_def Let_def\<close>)
  qed
qed

text \<open>A purchase either fails and changes nothing, or costs the price asked for before times the
  quantity, which the player has, and takes the quantity from the stock, which had it; every other
  listing of every shop is as before, and the demand for the item grows.\<close>

theorem buy_item_correct:
  assumes "buy_item sid i q gold m = (r, m')"
  shows "(\<exists>e. r = SH_Error e \<and> m' = m) \<or>
    (\<exists>s l p. map_of m sid = Some s \<and> listing_at m sid i = Some l \<and> buy_price m sid i = Some p
       \<and> r = SH_Bought i q (p * ucast q) \<and> p * ucast q \<le> gold
       \<and> (\<forall>n. sl_stock l \<noteq> Some n \<or> q \<le> n)
       \<and> (\<forall>sid' j. listing_at m' sid' j
            = (if sid' = sid \<and> j = i then Some (l\<lparr>sl_stock := map_option (\<lambda>n. n - q) (sl_stock l)\<rparr>)
               else listing_at m sid' j))
       \<and> (\<forall>j. map_option (\<lambda>s'. volume (dtr_buy_volume (sd_demand_tracker s')) j) (map_of m' sid)
            = Some (volume (dtr_buy_volume (sd_demand_tracker s)) j + (if j = i then q else 0))))"
  using assms
proof (cases rule: buy_item_cases)
  case (bought s l)
  have id: "sl_item_id l = i" using find_listing_id[OF bought(2)] by simp
  have l: "listing_at m sid i = Some l" "buy_price m sid i = Some (unit_buy_price s l i)"
    using bought(1,2) by (simp_all add: listing_at_def buy_price_def)
  have upd: "listing_at m' sid' j = (if sid' = sid \<and> j = i then Some (l\<lparr>sl_stock := map_option (\<lambda>n. n - q) (sl_stock l)\<rparr>)
      else listing_at m sid' j)" for sid' j
    using find_set_listing[of "l\<lparr>sl_stock := map_option (\<lambda>n. n - q) (sl_stock l)\<rparr>" i "sd_listings s" l j] bought(1,2) id
    by (cases "j = i") (simp_all add: listing_at_def bought(6) hm_update_get find_listing_def)
  have vol: "map_option (\<lambda>s'. volume (dtr_buy_volume (sd_demand_tracker s')) j) (map_of m' sid)
      = Some (volume (dtr_buy_volume (sd_demand_tracker s)) j + (if j = i then q else 0))" for j
    by (simp add: bought(6) hm_update_get record_buy_def volume_def)
  have stock: "sl_stock l \<noteq> Some n \<or> q \<le> n" for n using bought(3) by blast
  show ?thesis
    by (rule disjI2, intro exI[of _ s] exI[of _ l] exI[of _ "unit_buy_price s l i"] conjI allI)
      (rule bought(1,4,5) l upd vol stock)+
qed simp

section \<open>Stock never exceeds its maximum\<close>

datatype shop_op =
    SO_Buy shop_id item_def_id u32 u64
  | SO_Sell shop_id item_def_id u32 u32
  | SO_Tick u64

fun shop_step :: "item_registry \<Rightarrow> shop_op \<Rightarrow> shop_manager \<Rightarrow> shop_manager" where
  "shop_step r (SO_Buy sid i q gold) m = snd (buy_item sid i q gold m)"
| "shop_step r (SO_Sell sid i q held) m = snd (sell_item sid i q held r m)"
| "shop_step r (SO_Tick n) m = tick_shops n m"

definition stock_ok :: "shop_listing \<Rightarrow> bool" where
  "stock_ok l = (case (sl_stock l, sl_max_stock l) of (Some n, Some mx) \<Rightarrow> n \<le> mx | _ \<Rightarrow> True)"

definition shops_ok :: "shop_manager \<Rightarrow> bool" where
  "shops_ok m = list_all (\<lambda>s. list_all stock_ok (sd_listings s)) (hm_vals m)"

lemma set_listing_all: "list_all P ls \<Longrightarrow> P l' \<Longrightarrow> list_all P (set_listing i l' ls)"
  by (induction ls) auto

lemma shops_ok_get: "shops_ok m \<Longrightarrow> map_of m sid = Some s \<Longrightarrow> list_all stock_ok (sd_listings s)"
  by (auto simp: shops_ok_def list_all_iff dest!: map_of_SomeD)

lemma shops_ok_update: "shops_ok m \<Longrightarrow> list_all stock_ok (sd_listings s) \<Longrightarrow> shops_ok (AList.update sid s m)"
  unfolding shops_ok_def by (induction m) auto

lemma restock_ok: "stock_ok l \<Longrightarrow> stock_ok (restock n l)"
  by (auto simp: stock_ok_def restock_def split: option.splits)

interpretation shop_machine: op_machine "shop_step r" shops_ok for r
proof
  fix m :: shop_manager and x assume ok: "shops_ok m"
  show "shops_ok (shop_step r x m)"
  proof (cases x)
    case (SO_Buy sid i q gold)
    obtain res m' where b: "buy_item sid i q gold m = (res, m')" by (cases "buy_item sid i q gold m")
    from b have "shops_ok m'"
    proof (cases rule: buy_item_cases)
      case (bought s l)
      have s: "list_all stock_ok (sd_listings s)" by (rule shops_ok_get[OF ok bought(1)])
      have "stock_ok l" using find_listing_id[OF bought(2)] s by (auto simp: list_all_iff)
      then have "stock_ok (l\<lparr>sl_stock := map_option (\<lambda>n. n - q) (sl_stock l)\<rparr>)"
        using bought(3) by (auto simp: stock_ok_def intro: order.trans[OF word_sub_le] split: option.splits)
      then show ?thesis using bought(6) s ok by (simp add: shops_ok_update set_listing_all)
    qed (simp add: ok)
    with SO_Buy b show ?thesis by simp
  next
    case (SO_Sell sid i q held)
    then show ?thesis using ok shops_ok_get[OF ok]
      by (auto simp: sell_item_def Let_def shops_ok_update split: option.split)
  next
    case (SO_Tick n)
    then show ?thesis using ok
      by (auto simp: tick_shops_def shops_ok_def list_all_iff restock_ok)
  qed
qed

lemma default_shops_ok: "shops_ok default_shops"
  by (simp add: default_shops_def shm_register_def shm_new_def general_store_def armory_def listing_def shops_ok_def stock_ok_def)

text \<open>From the built-in shops on, no sequence of purchases, sales and ticks, with any stock, tick or
  quantity, makes a limited stock exceed its maximum.\<close>

theorem stock_within_maximum:
  assumes "m = fold (shop_step r) ops default_shops" and "listing_at m sid i = Some l"
    and "sl_stock l = Some n" and "sl_max_stock l = Some mx"
  shows "n \<le> mx"
proof -
  have "shops_ok m" unfolding assms(1) by (rule shop_machine.run_inv[OF default_shops_ok])
  then have "stock_ok l" using assms(2) find_listing_id
    by (auto simp: listing_at_def list_all_iff bind_eq_Some_conv dest!: shops_ok_get)
  then show ?thesis using assms(3,4) by (simp add: stock_ok_def)
qed

section \<open>Trading at a profit\<close>

lemma demo_prices:
  "f32_clamp (f32_add (f32_of_int 1) (f32_mul (f32_sub (f32_of_int 0) (f32_of_int 0)) (f32_lit 2 2))) (f32_lit 5 1) (f32_of_int 2) = f32_of_int 1"
  "f32_clamp (f32_add (f32_of_int 1) (f32_mul (f32_sub (f32_of_int 0) (f32_of_int 50)) (f32_lit 2 2))) (f32_lit 5 1) (f32_of_int 2) = f32_lit 5 1"
  "f32_clamp (f32_add (f32_of_int 1) (f32_mul (f32_sub (f32_of_int 20) (f32_of_int 50)) (f32_lit 2 2))) (f32_lit 5 1) (f32_of_int 2) = f32_lit 5 1"
  "f32_to_u64 (f32_floor (f32_div (f32_mul (f32_of_int 25) (f32_lit 4 1)) (f32_of_int 1))) = 10"
  "f32_to_u64 (f32_floor (f32_div (f32_mul (f32_of_int 25) (f32_lit 4 1)) (f32_lit 5 1))) = 20"
  "f32_to_u64 (f32_ceil (f32_mul (f32_of_int 30) (f32_of_int 1))) = 30"
  "f32_to_u64 (f32_ceil (f32_mul (f32_of_int 30) (f32_lit 5 1))) = 15"
  by code_simp+

definition potion_store :: "u32 \<Rightarrow> (item_def_id \<times> u32) list \<Rightarrow> (item_def_id \<times> u32) list \<Rightarrow> shop_manager" where
  "potion_store n buys sells =
     [(1, general_store\<lparr>sd_listings := set_listing 20 ((listing 20 30 20 2 100)\<lparr>sl_stock := Some n\<rparr>) (sd_listings general_store),
            sd_demand_tracker := (dtr_new 600)\<lparr>dtr_buy_volume := buys, dtr_sell_volume := sells\<rparr>\<rparr>),
      (2, armory)]"

lemma default_potion_store: "default_shops = potion_store 20 [] []"
  by (simp add: default_shops_def shm_register_def shm_new_def potion_store_def general_store_def armory_def listing_def dtr_new_def)

lemma potion_def: "ir_get default_items 20 = Some (builtin_items ! 7) \<and> it_value (builtin_items ! 7) = 25"
  by (simp add: builtin_get builtin_items_def item_lit_def)

lemma potion_listing:
  "map_of (potion_store n bs ss) 1 = Some (snd (hd (potion_store n bs ss)))"
  "find_listing 20 (snd (hd (potion_store n bs ss))) = Some ((listing 20 30 20 2 100)\<lparr>sl_stock := Some n\<rparr>)"
  "sd_buyback_rate (snd (hd (potion_store n bs ss))) = f32_lit 4 1"
  "sd_demand_tracker (snd (hd (potion_store n bs ss))) = (dtr_new 600)\<lparr>dtr_buy_volume := bs, dtr_sell_volume := ss\<rparr>"
  by (simp_all add: potion_store_def find_listing_def general_store_def listing_def)

lemma potion_buy:
  "n = 20 \<Longrightarrow> buy_item 1 20 20 300 (potion_store n [] [(20, 50)]) = (SH_Bought 20 20 300, potion_store 0 [(20, 20)] [(20, 50)])"
  by (simp del: One_nat_def add: buy_item_def potion_listing unit_buy_price_def price_multiplier_def volume_def dtr_new_def
      demo_prices listing_def Let_def)
    (simp add: potion_store_def general_store_def listing_def record_buy_def volume_def dtr_new_def)

lemma potion_sell:
  "sell_item 1 20 50 50 default_items (potion_store 20 [] []) = (SH_Sold 20 50 500, potion_store 20 [] [(20, 50)])"
  "sell_item 1 20 20 20 default_items (potion_store 0 [(20, 20)] [(20, 50)])
     = (SH_Sold 20 20 400, potion_store 0 [(20, 20)] [(20, 70)])"
  by (simp del: One_nat_def add: sell_item_def potion_listing potion_def unit_sell_price_def price_multiplier_def volume_def dtr_new_def demo_prices,
      simp add: potion_store_def general_store_def record_sell_def volume_def dtr_new_def)+

text \<open>The prices let a player trade at a profit: after 50 potions were sold to the General Store,
  its whole stock of 20 is bought for 300 and sold back to it at once for 400, because the price the
  shop pays is divided by the multiplier that sales push down.\<close>

theorem shop_pays_more_than_it_asks:
  "let (r1, m1) = sell_item 1 20 50 50 default_items default_shops;
       (r2, m2) = buy_item 1 20 20 300 m1;
       (r3, m3) = sell_item 1 20 20 20 default_items m2
   in r1 = SH_Sold 20 50 500 \<and> r2 = SH_Bought 20 20 300 \<and> r3 = SH_Sold 20 20 400"
  by (simp add: default_potion_store potion_sell potion_buy)

theorem buy_item_correct_witness:
  "\<exists>s l p. map_of (potion_store 20 [] [(20, 50)]) 1 = Some s \<and> listing_at (potion_store 20 [] [(20, 50)]) 1 20 = Some l
     \<and> buy_price (potion_store 20 [] [(20, 50)]) 1 20 = Some p \<and> p * 20 = 300"
proof -
  from buy_item_correct[OF potion_buy[OF refl]] show ?thesis by auto
qed

theorem stock_within_maximum_witness:
  "fold (shop_step default_items) [SO_Sell 1 20 50 50, SO_Buy 1 20 20 300] default_shops = potion_store 0 [(20, 20)] [(20, 50)]
   \<and> (0 :: u32) \<le> 20"
proof -
  have f: "fold (shop_step default_items) [SO_Sell 1 20 50 50, SO_Buy 1 20 20 300] default_shops = potion_store 0 [(20, 20)] [(20, 50)]"
    by (simp add: default_potion_store potion_sell potion_buy)
  have l: "listing_at (potion_store 0 [(20, 20)] [(20, 50)]) 1 20 = Some ((listing 20 30 20 2 100)\<lparr>sl_stock := Some 0\<rparr>)"
    by (simp add: listing_at_def potion_listing)
  from stock_within_maximum[OF f[symmetric] l, of 0 20] f show ?thesis by (simp add: listing_def)
qed

end
