(* ===== verification/Rpc_Format.thy ===== *)
theory Rpc_Format
  imports Storage
begin

text \<open>
  Numbers as text, the way \<open>format!\<close> prints and \<open>from_str_radix\<close> reads them, and the parsers
  of request parameters at the end of \<open>crates/rpc/src/eth_api.rs\<close>. Reading a 256-bit number is
  third-party (\<open>ruint\<close>) and an argument. Errors keep their code and fixed part.
\<close>

section \<open>Printing\<close>

fun radix_digits :: "nat \<Rightarrow> nat \<Rightarrow> nat list" where
  "radix_digits b n = (if b < 2 \<or> n < b then [n] else radix_digits b (n div b) @ [n mod b])"

declare radix_digits.simps [simp del]

definition digit_char :: "nat \<Rightarrow> char" where
  "digit_char d = char_of (if d < 10 then 48 + d else 87 + d)"

definition decimal :: "nat \<Rightarrow> string" where
  "decimal n = map digit_char (radix_digits 10 n)"

definition lower_hex :: "nat \<Rightarrow> string" where
  "lower_hex n = map digit_char (radix_digits 16 n)"

definition format_hex :: "'a::len word \<Rightarrow> string" where
  "format_hex w = ''0x'' @ lower_hex (unat w)"

section \<open>Reading\<close>

definition digit_value :: "char \<Rightarrow> nat option" where
  "digit_value c =
     (let n = of_char c in
      if 48 \<le> n \<and> n \<le> (57 :: nat) then Some (n - 48)
      else if 97 \<le> n \<and> n \<le> 102 then Some (n - 87)
      else if 65 \<le> n \<and> n \<le> 70 then Some (n - 55)
      else None)"

text \<open>The loop of \<open>u64::from_str_radix\<close> at radix 16: it stops at a character that is no digit and
  at the first overflow.\<close>

fun read_digits :: "nat \<Rightarrow> string \<Rightarrow> nat option" where
  "read_digits acc [] = Some acc"
| "read_digits acc (c # cs) =
     (case digit_value c of
        None \<Rightarrow> None
      | Some d \<Rightarrow> if 2 ^ 64 \<le> acc * 16 + d then None else read_digits (acc * 16 + d) cs)"

definition u64_from_hex :: "string \<Rightarrow> u64 option" where
  "u64_from_hex s =
     (case s of
        [] \<Rightarrow> None
      | c # cs \<Rightarrow> map_option of_nat (read_digits 0 (if c = CHR ''+'' \<and> cs \<noteq> [] then cs else s)))"

datatype rpc_failure = RPC_Internal string | RPC_InvalidParams string

definition parse_u64_hex :: "string \<Rightarrow> rpc_failure + u64" where
  "parse_u64_hex s =
     (let s = strip_0x s in
      if s = [] \<or> s = ''0'' then Inr 0
      else case u64_from_hex s of None \<Rightarrow> Inl (RPC_InvalidParams ''Invalid u64 hex'') | Some n \<Rightarrow> Inr n)"

definition parse_u256_hex :: "(string \<Rightarrow> u256 option) \<Rightarrow> string \<Rightarrow> rpc_failure + u256" where
  "parse_u256_hex from_radix s =
     (let s = strip_0x s in
      if s = [] \<or> s = ''0'' then Inr 0
      else case from_radix s of None \<Rightarrow> Inl (RPC_InvalidParams ''Invalid U256 hex'') | Some n \<Rightarrow> Inr n)"

definition parse_hex_data :: "externs \<Rightarrow> string \<Rightarrow> rpc_failure + bytes" where
  "parse_hex_data X s =
     (let s = strip_0x s in
      if s = [] then Inr []
      else case x_hex_decode X s of None \<Rightarrow> Inl (RPC_InvalidParams ''Invalid hex data'') | Some bs \<Rightarrow> Inr bs)"

definition parse_address :: "externs \<Rightarrow> string \<Rightarrow> rpc_failure + address" where
  "parse_address X s =
     (case x_hex_decode X (strip_0x s) of
        None \<Rightarrow> Inl (RPC_InvalidParams ''Invalid address hex'')
      | Some bs \<Rightarrow> if length bs \<noteq> 20 then Inl (RPC_InvalidParams ''Address must be 20 bytes'')
                   else Inr (from_be_bytes bs))"

text \<open>The hash parameter of a query.\<close>

definition parse_hash :: "externs \<Rightarrow> string \<Rightarrow> rpc_failure + b256" where
  "parse_hash X s =
     (case x_hex_decode X (strip_0x s) of
        None \<Rightarrow> Inl (RPC_InvalidParams ''Invalid hash'')
      | Some bs \<Rightarrow> if length bs \<noteq> 32 then Inl (RPC_InvalidParams ''Hash must be 32 bytes'')
                   else Inr (from_be_bytes bs))"

section \<open>What was printed is read back\<close>

lemma radix_digits_small: "n < b \<Longrightarrow> radix_digits b n = [n]"
  by (simp add: radix_digits.simps)

lemma radix_digits_step: "2 \<le> b \<Longrightarrow> b \<le> n \<Longrightarrow> radix_digits b n = radix_digits b (n div b) @ [n mod b]"
  by (simp add: radix_digits.simps[of b n])

lemma radix_digits_bound: "2 \<le> b \<Longrightarrow> \<forall>d \<in> set (radix_digits b n). d < b"
proof (induction b n rule: radix_digits.induct)
  case (1 b n)
  show ?case
  proof (cases "n < b")
    case False
    then have "\<forall>d \<in> set (radix_digits b (n div b)). d < b" using 1 by simp
    moreover have "n mod b < b" using 1(2) by simp
    ultimately show ?thesis using 1(2) False by (subst radix_digits_step) auto
  qed (simp add: radix_digits_small)
qed

lemma digit_value_char: "d < 16 \<Longrightarrow> digit_value (digit_char d) = Some d"
proof -
  assume "d < 16"
  then have "(of_char (digit_char d) :: nat) = (if d < 10 then 48 + d else 87 + d)"
    by (simp add: digit_char_def)
  then show ?thesis using \<open>d < 16\<close> by (simp add: digit_value_def Let_def)
qed

lemma read_digits_snoc:
  "d < 16 \<Longrightarrow> read_digits acc (s @ [digit_char d]) =
     (case read_digits acc s of None \<Rightarrow> None | Some v \<Rightarrow> if 2 ^ 64 \<le> v * 16 + d then None else Some (v * 16 + d))"
  by (induction acc s rule: read_digits.induct) (simp_all add: digit_value_char split: option.split)

lemma read_lower_hex: "n < 2 ^ 64 \<Longrightarrow> read_digits 0 (lower_hex n) = Some n"
proof (induction n rule: less_induct)
  case (less n)
  show ?case
  proof (cases "n < 16")
    case True
    then show ?thesis by (simp add: lower_hex_def radix_digits_small digit_value_char)
  next
    case False
    have s: "lower_hex n = lower_hex (n div 16) @ [digit_char (n mod 16)]"
      unfolding lower_hex_def by (subst radix_digits_step) (use False in simp_all)
    have "read_digits 0 (lower_hex (n div 16)) = Some (n div 16)"
      using False less.prems by (intro less.IH) auto
    then show ?thesis using less.prems by (simp add: s read_digits_snoc)
  qed
qed

lemma radix_digits_not_nil: "radix_digits b n \<noteq> []"
  by (simp add: radix_digits.simps)

lemma digit_not_plus: "d < 16 \<Longrightarrow> digit_char d \<noteq> CHR ''+''"
  using digit_value_char[of d] by (auto simp: digit_value_def)

lemma u64_from_lower_hex: "u64_from_hex (lower_hex (unat (w :: u64))) = Some w"
proof -
  obtain d ds where d: "radix_digits 16 (unat w) = d # ds"
    using radix_digits_not_nil[of 16 "unat w"] by (cases "radix_digits 16 (unat w)") auto
  then have "d < 16" using radix_digits_bound[of 16 "unat w"] by simp
  moreover have "read_digits 0 (lower_hex (unat w)) = Some (unat w)"
    using unsigned_less[where ?'a = nat and w = w] by (intro read_lower_hex) simp
  ultimately show ?thesis using d by (simp add: u64_from_hex_def lower_hex_def digit_not_plus)
qed

lemma parse_format_u64: "parse_u64_hex (format_hex (w :: u64)) = Inr w"
proof -
  have s: "strip_0x (format_hex w) = lower_hex (unat w)" by (simp add: strip_0x_def format_hex_def)
  have z: "lower_hex (unat w) = ''0'' \<Longrightarrow> w = 0"
    using u64_from_lower_hex[of w] by (simp add: u64_from_hex_def digit_value_def)
  show ?thesis
    using u64_from_lower_hex[of w] z
    by (auto simp: parse_u64_hex_def Let_def s) (simp_all add: lower_hex_def radix_digits_not_nil)
qed

lemma strip_prefixed: "strip_0x (''0x'' @ s) = s"
  by (simp add: strip_0x_def)

lemma parse_hash_hex:
  "hex_ok X \<Longrightarrow> parse_hash X (''0x'' @ x_hex_encode X (hash_bytes h)) = Inr h"
  by (simp add: parse_hash_def strip_0x_def hex_ok_def hash_bytes_def from_to_be_bytes)

lemma parse_address_hex:
  "hex_ok X \<Longrightarrow> parse_address X (''0x'' @ x_hex_encode X (to_be_bytes 20 a)) = Inr (a :: address)"
  by (simp add: parse_address_def strip_0x_def hex_ok_def from_to_be_bytes)

end
