(* ===== verification/Sessions.thy ===== *)
theory Sessions
  imports Rpc_Format
begin

text \<open>
  The session manager behind the RPC server, \<open>crates/rpc/src/session.rs\<close>: sessions by identifier,
  an index from addresses to identifiers, connection, disconnection, heartbeats and expiry, and the
  order in which the operations take the two locks. The clock is an argument; subtraction wraps as in
  a release build.
\<close>

section \<open>Data\<close>

record session_info =
  si_session_id :: string
  si_address :: string
  si_connected_at :: u64
  si_last_activity :: u64
  si_is_active :: bool

record session_manager =
  se_sessions :: "(string \<times> session_info) list"
  se_address_index :: "(string \<times> string) list"
  se_timeout_secs :: u64

definition session_manager_new :: "u64 \<Rightarrow> session_manager" where
  "session_manager_new timeout = \<lparr> se_sessions = [], se_address_index = [], se_timeout_secs = timeout \<rparr>"

definition session_manager_default :: session_manager where
  "session_manager_default = session_manager_new 300"

section \<open>Operations\<close>

definition generate_session_id :: "externs \<Rightarrow> string \<Rightarrow> u64 \<Rightarrow> string" where
  "generate_session_id X address timestamp =
     (let hash = x_keccak X (str_bytes (address @ '':'' @ decimal (unat timestamp)))
      in ''session_'' @ x_hex_encode X (take 16 (hash_bytes hash)))"

text \<open>The signature a client sends is not looked at.\<close>

definition connect :: "externs \<Rightarrow> string \<Rightarrow> string \<Rightarrow> u64 \<Rightarrow> session_manager \<Rightarrow> string \<times> session_manager" where
  "connect X address sig now s =
     (let create =
        (let session_id = generate_session_id X address now;
             session = \<lparr> si_session_id = session_id, si_address = address, si_connected_at = now,
                         si_last_activity = now, si_is_active = True \<rparr>
         in (session_id, s\<lparr>se_sessions := AList.update session_id session (se_sessions s),
                           se_address_index := AList.update address session_id (se_address_index s)\<rparr>)) in
      case map_of (se_address_index s) address of
        None \<Rightarrow> create
      | Some existing_id \<Rightarrow>
          (case map_of (se_sessions s) existing_id of
             None \<Rightarrow> create
           | Some _ \<Rightarrow>
               (existing_id,
                s\<lparr>se_sessions := hm_modify existing_id
                     (\<lambda>x. x\<lparr>si_last_activity := now, si_is_active := True\<rparr>) (se_sessions s)\<rparr>)))"

definition disconnect :: "string \<Rightarrow> session_manager \<Rightarrow> bool \<times> session_manager" where
  "disconnect session_id s =
     (case map_of (se_sessions s) session_id of
        None \<Rightarrow> (False, s)
      | Some session \<Rightarrow>
          (True, s\<lparr>se_sessions := hm_modify session_id (\<lambda>x. x\<lparr>si_is_active := False\<rparr>) (se_sessions s),
                   se_address_index := AList.delete (si_address session) (se_address_index s)\<rparr>))"

definition heartbeat :: "string \<Rightarrow> u64 \<Rightarrow> session_manager \<Rightarrow> bool \<times> session_manager" where
  "heartbeat session_id now s =
     (if map_of (se_sessions s) session_id = None then (False, s)
      else (True, s\<lparr>se_sessions := hm_modify session_id (\<lambda>x. x\<lparr>si_last_activity := now\<rparr>) (se_sessions s)\<rparr>))"

definition active_session_count :: "session_manager \<Rightarrow> nat" where
  "active_session_count s = length (filter (\<lambda>(_, x). si_is_active x) (se_sessions s))"

definition get_session :: "string \<Rightarrow> session_manager \<Rightarrow> session_info option" where
  "get_session session_id s = map_of (se_sessions s) session_id"

definition get_session_by_address :: "string \<Rightarrow> session_manager \<Rightarrow> session_info option" where
  "get_session_by_address address s =
     (case map_of (se_address_index s) address of None \<Rightarrow> None | Some i \<Rightarrow> map_of (se_sessions s) i)"

definition get_active_sessions ::
  "((string \<times> session_info) list \<Rightarrow> (string \<times> session_info) list) \<Rightarrow> session_manager \<Rightarrow> session_info list" where
  "get_active_sessions ord s = filter si_is_active (map snd (ord (se_sessions s)))"

definition has_expired :: "u64 \<Rightarrow> u64 \<Rightarrow> session_info \<Rightarrow> bool" where
  "has_expired timeout now x \<longleftrightarrow> si_is_active x \<and> timeout < now - si_last_activity x"

definition cleanup_expired ::
  "((string \<times> session_info) list \<Rightarrow> (string \<times> session_info) list) \<Rightarrow> u64 \<Rightarrow> session_manager \<Rightarrow> nat \<times> session_manager" where
  "cleanup_expired ord now s =
     (let expired = map fst (filter (\<lambda>(_, x). has_expired (se_timeout_secs s) now x) (ord (se_sessions s)))
      in (length expired, fold (\<lambda>i s. snd (disconnect i s)) expired s))"

section \<open>Runs\<close>

datatype session_event =
    SV_Connect string string u64
  | SV_Disconnect string
  | SV_Heartbeat string u64
  | SV_Cleanup u64

fun session_step ::
  "externs \<Rightarrow> ((string \<times> session_info) list \<Rightarrow> (string \<times> session_info) list) \<Rightarrow> session_event
     \<Rightarrow> session_manager \<Rightarrow> session_manager" where
  "session_step X ord (SV_Connect a sig now) s = snd (connect X a sig now s)"
| "session_step X ord (SV_Disconnect i) s = snd (disconnect i s)"
| "session_step X ord (SV_Heartbeat i now) s = snd (heartbeat i now s)"
| "session_step X ord (SV_Cleanup now) s = snd (cleanup_expired ord now s)"

definition session_run ::
  "externs \<Rightarrow> ((string \<times> session_info) list \<Rightarrow> (string \<times> session_info) list) \<Rightarrow> session_event list
     \<Rightarrow> session_manager \<Rightarrow> session_manager" where
  "session_run X ord evs s = fold (session_step X ord) evs s"

section \<open>The index is the active sessions\<close>

text \<open>\<open>C\<close> are the connections made: address and time.\<close>

definition id_ok :: "externs \<Rightarrow> (string \<times> u64) set \<Rightarrow> string \<Rightarrow> session_info \<Rightarrow> bool" where
  "id_ok X C i x \<longleftrightarrow> si_session_id x = i \<and> (si_address x, si_connected_at x) \<in> C
     \<and> i = generate_session_id X (si_address x) (si_connected_at x)"

definition index_ok :: "(string \<Rightarrow> session_info option) \<Rightarrow> (string \<Rightarrow> string option) \<Rightarrow> bool" where
  "index_ok f g \<longleftrightarrow> (\<forall>a i. g a = Some i \<longleftrightarrow> (\<exists>x. f i = Some x \<and> si_is_active x \<and> si_address x = a))"

definition session_inv :: "externs \<Rightarrow> (string \<times> u64) set \<Rightarrow> session_manager \<Rightarrow> bool" where
  "session_inv X C s \<longleftrightarrow>
     hm_wf (se_sessions s) \<and> (\<forall>i x. map_of (se_sessions s) i = Some x \<longrightarrow> id_ok X C i x)
     \<and> index_ok (map_of (se_sessions s)) (map_of (se_address_index s))"

definition no_collision :: "externs \<Rightarrow> (string \<times> u64) set \<Rightarrow> bool" where
  "no_collision X C \<longleftrightarrow>
     (\<forall>(a, t) \<in> C. \<forall>(b, u) \<in> C. generate_session_id X a t = generate_session_id X b u \<longrightarrow> a = b)"

text \<open>A disconnection that names no session that was ended before.\<close>

definition ends_live :: "session_event \<Rightarrow> session_manager \<Rightarrow> bool" where
  "ends_live ev s = (case ev of
     SV_Disconnect i \<Rightarrow> (case map_of (se_sessions s) i of Some x \<Rightarrow> si_is_active x | None \<Rightarrow> True) | _ \<Rightarrow> True)"

lemma index_ok_insert:
  assumes "index_ok f g" and "g a = None" and "\<And>y. f i = Some y \<Longrightarrow> si_address y = a"
    and "si_is_active x" and "si_address x = a"
  shows "index_ok (f(i \<mapsto> x)) (g(a \<mapsto> i))"
  unfolding index_ok_def
proof (intro allI)
  fix b j
  have fg: "g b = Some j \<longleftrightarrow> (\<exists>x. f j = Some x \<and> si_is_active x \<and> si_address x = b)"
    and fa: "\<not> (f j = Some y \<and> si_is_active y \<and> si_address y = a)" for y
    using assms(1,2) unfolding index_ok_def by (blast, metis option.distinct(1))
  show "(g(a \<mapsto> i)) b = Some j
      \<longleftrightarrow> (\<exists>y. (f(i \<mapsto> x)) j = Some y \<and> si_is_active y \<and> si_address y = b)"
    using assms(3-5) fg fa by (cases "b = a"; cases "j = i") auto
qed

lemma index_ok_modify:
  assumes "index_ok f g" and "f i = Some x"
    and "si_is_active x' = si_is_active x" and "si_address x' = si_address x"
  shows "index_ok (f(i \<mapsto> x')) g"
  using assms unfolding index_ok_def by (auto split: if_splits)

lemma index_ok_end:
  assumes "index_ok f g" and "f i = Some x" and "si_is_active x"
    and "\<not> si_is_active x'"
  shows "index_ok (f(i \<mapsto> x')) (g(si_address x := None))"
  unfolding index_ok_def
proof (intro allI)
  fix b j
  have g: "g (si_address x) = Some i" using assms(1-3) unfolding index_ok_def by blast
  have fg: "g b = Some j \<longleftrightarrow> (\<exists>x. f j = Some x \<and> si_is_active x \<and> si_address x = b)"
    using assms(1) unfolding index_ok_def by blast
  show "(g(si_address x := None)) b = Some j
      \<longleftrightarrow> (\<exists>y. (f(i \<mapsto> x')) j = Some y \<and> si_is_active y \<and> si_address y = b)"
    using assms(2-4) fg g by (cases "b = si_address x"; cases "j = i") auto
qed

lemma modify_map:
  "map_of m k = Some v \<Longrightarrow> map_of (hm_modify k f m) = (map_of m)(k \<mapsto> f v)"
  "map_of (AList.update k w m) = (map_of m)(k \<mapsto> w)"
  "map_of (AList.delete k m) = (map_of m)(k := None)"
  by (simp_all add: fun_eq_iff velo_map)

lemma ids_insert:
  "\<forall>j y. f j = Some y \<longrightarrow> id_ok X C j y \<Longrightarrow> id_ok X C i x \<Longrightarrow> \<forall>j y. (f(i \<mapsto> x)) j = Some y \<longrightarrow> id_ok X C j y"
  by auto

lemma connect_inv:
  assumes i: "session_inv X C s" and c: "no_collision X C" and a: "(a, now) \<in> C"
  shows "session_inv X C (snd (connect X a sig now s))"
proof (cases "map_of (se_address_index s) a")
  case None
  let ?i = "generate_session_id X a now"
  have "si_address x = a" if "map_of (se_sessions s) ?i = Some x" for x
  proof -
    have "id_ok X C ?i x" using i that unfolding session_inv_def by blast
    then show ?thesis using c a unfolding id_ok_def no_collision_def by fastforce
  qed
  then show ?thesis
    using i None a unfolding session_inv_def
    by (simp add: connect_def Let_def modify_map velo_wf del: fun_upd_apply)
      (intro conjI ids_insert index_ok_insert; simp add: id_ok_def)
next
  case (Some i)
  then obtain x where x: "map_of (se_sessions s) i = Some x" "si_is_active x" "si_address x = a"
    using assms(1) unfolding session_inv_def index_ok_def by blast
  have "id_ok X C i x" using assms(1) x(1) unfolding session_inv_def by blast
  then have id: "id_ok X C i (x\<lparr>si_last_activity := now, si_is_active := True\<rparr>)" by (simp add: id_ok_def)
  show ?thesis
    using assms(1) Some x(1,2) unfolding session_inv_def
    by (simp add: connect_def modify_map(1)[OF x(1)] del: fun_upd_apply map_of_eq_Some_iff)
      (intro conjI ids_insert index_ok_modify; (rule id | simp del: map_of_eq_Some_iff))
qed

lemma disconnect_inv:
  assumes i: "session_inv X C s" and act: "\<And>x. map_of (se_sessions s) i = Some x \<Longrightarrow> si_is_active x"
  shows "session_inv X C (snd (disconnect i s))"
proof (cases "map_of (se_sessions s) i")
  case (Some x)
  then have "id_ok X C i x" using i unfolding session_inv_def by blast
  then show ?thesis
    using i Some act[OF Some] unfolding session_inv_def
    by (simp add: disconnect_def modify_map(1)[OF Some] modify_map(3) del: fun_upd_apply map_of_eq_Some_iff)
      (intro conjI ids_insert index_ok_end; simp add: id_ok_def del: map_of_eq_Some_iff)
qed (use i in \<open>simp add: disconnect_def\<close>)

lemma heartbeat_inv:
  assumes "session_inv X C s" shows "session_inv X C (snd (heartbeat i now s))"
proof (cases "map_of (se_sessions s) i")
  case (Some x)
  then have "id_ok X C i x" using assms unfolding session_inv_def by blast
  then show ?thesis
    using assms Some unfolding session_inv_def
    by (simp add: heartbeat_def modify_map(1)[OF Some] del: fun_upd_apply map_of_eq_Some_iff)
      (intro conjI ids_insert index_ok_modify; simp add: id_ok_def del: map_of_eq_Some_iff)
qed (use assms in \<open>simp add: heartbeat_def\<close>)


text \<open>A list of expired sessions: each is active and listed once.\<close>

lemma disconnect_others:
  "j \<noteq> i \<Longrightarrow> map_of (se_sessions (snd (disconnect i s))) j = map_of (se_sessions s) j"
  by (simp add: disconnect_def velo_map split: option.split)

lemma disconnects_inv:
  "session_inv X C s \<Longrightarrow> distinct is \<Longrightarrow> \<forall>i \<in> set is. \<exists>x. map_of (se_sessions s) i = Some x \<and> si_is_active x \<Longrightarrow>
   session_inv X C (fold (\<lambda>i s. snd (disconnect i s)) is s)"
proof (induction "is" arbitrary: s)
  case (Cons i "is")
  have "session_inv X C (snd (disconnect i s))"
    using Cons.prems(3) by (intro disconnect_inv[OF Cons.prems(1)]) auto
  moreover have "\<forall>j \<in> set is. \<exists>x. map_of (se_sessions (snd (disconnect i s))) j = Some x \<and> si_is_active x"
  proof
    fix j assume "j \<in> set is"
    then have "j \<noteq> i" using Cons.prems(2) by auto
    then show "\<exists>x. map_of (se_sessions (snd (disconnect i s))) j = Some x \<and> si_is_active x"
      using Cons.prems(3) \<open>j \<in> set is\<close> by (simp add: disconnect_others del: map_of_eq_Some_iff)
  qed
  ultimately show ?case using Cons.IH Cons.prems(2) by simp
qed simp

lemma cleanup_inv:
  assumes "session_inv X C s" and "iter_order ord"
  shows "session_inv X C (snd (cleanup_expired ord now s))"
proof -
  let ?e = "map fst (filter (\<lambda>(_, x). has_expired (se_timeout_secs s) now x) (ord (se_sessions s)))"
  have w: "hm_wf (se_sessions s)" using assms(1) by (simp add: session_inv_def)
  have "distinct ?e" using w assms(2) by (intro distinct_map_filter) simp
  moreover have "\<forall>i \<in> set ?e. \<exists>x. map_of (se_sessions s) i = Some x \<and> si_is_active x"
    using assms(2) by (auto simp: hm_get_in[OF w] has_expired_def simp del: map_of_eq_Some_iff)
  ultimately show ?thesis using disconnects_inv[OF assms(1)] by (simp add: cleanup_expired_def Let_def)
qed

fun connections :: "session_event list \<Rightarrow> (string \<times> u64) set" where
  "connections [] = {}"
| "connections (SV_Connect a sig now # evs) = insert (a, now) (connections evs)"
| "connections (ev # evs) = connections evs"

fun all_end_live ::
  "externs \<Rightarrow> ((string \<times> session_info) list \<Rightarrow> (string \<times> session_info) list) \<Rightarrow> session_event list
     \<Rightarrow> session_manager \<Rightarrow> bool" where
  "all_end_live X ord [] s = True"
| "all_end_live X ord (ev # evs) s = (ends_live ev s \<and> all_end_live X ord evs (session_step X ord ev s))"

lemma session_run_inv:
  assumes "no_collision X C" and "iter_order ord"
  shows "session_inv X C s \<Longrightarrow> connections evs \<subseteq> C \<Longrightarrow> all_end_live X ord evs s \<Longrightarrow>
    session_inv X C (session_run X ord evs s)"
proof (induction evs arbitrary: s)
  case (Cons ev evs)
  have "session_inv X C (session_step X ord ev s)"
  proof (cases ev)
    case (SV_Connect a sig now)
    then show ?thesis using Cons.prems connect_inv[OF Cons.prems(1) assms(1)] by simp
  next
    case (SV_Disconnect i)
    then show ?thesis using Cons.prems by (auto intro!: disconnect_inv simp: ends_live_def)
  qed (use Cons.prems(1) heartbeat_inv cleanup_inv assms(2) in auto)
  moreover have "connections evs \<subseteq> C" using Cons.prems(2) by (cases ev) auto
  ultimately show ?case using Cons by (simp add: session_run_def)
qed (simp add: session_run_def)

lemma session_inv_start: "session_inv X C (session_manager_new t)"
  by (simp add: session_inv_def session_manager_new_def index_ok_def)

lemma at_most_one: "\<forall>p \<in> set xs. \<forall>q \<in> set xs. p = q \<Longrightarrow> distinct xs \<Longrightarrow> length xs \<le> 1"
  by (metis One_nat_def card_le_Suc0_iff_eq distinct_card finite_set)

text \<open>C18. As long as no two addresses get the same identifier and nobody ends a session twice, an
  address has at most one active session at any time, however the clock moves: the index leads to the
  active session of an address if and only if there is one.\<close>

theorem one_session_per_address:
  assumes "no_collision X (connections evs)" and "iter_order ord"
    and "all_end_live X ord evs (session_manager_new t)"
    and "session_run X ord evs (session_manager_new t) = s"
  shows "(map_of (se_address_index s) a = Some i \<longleftrightarrow>
      (\<exists>x. get_session i s = Some x \<and> si_is_active x \<and> si_address x = a))
    \<and> length (filter (\<lambda>x. si_address x = a) (get_active_sessions ord s)) \<le> 1"
proof -
  have inv: "session_inv X (connections evs) s"
    using session_run_inv[OF assms(1,2) session_inv_start subset_refl assms(3)] assms(4) by simp
  then have w: "hm_wf (se_sessions s)" and ix: "index_ok (map_of (se_sessions s)) (map_of (se_address_index s))"
    by (simp_all add: session_inv_def)
  let ?l = "filter (\<lambda>(_, x). si_is_active x \<and> si_address x = a) (ord (se_sessions s))"
  have one: "map_of (se_address_index s) a = Some i" if mem: "i \<in> set (map fst ?l)" for i
  proof -
    obtain x where x: "(i, x) \<in> set (se_sessions s)" "si_is_active x" "si_address x = a"
      using mem assms(2) by auto
    then have "map_of (se_sessions s) i = Some x" using w by (intro map_of_is_SomeI)
    then show ?thesis using ix x(2,3) unfolding index_ok_def by blast
  qed
  then have "\<forall>p \<in> set (map fst ?l). \<forall>q \<in> set (map fst ?l). p = q" by (metis option.inject)
  moreover have "distinct (map fst ?l)" using w assms(2) by (intro distinct_map_filter) simp
  ultimately have "length (map fst ?l) \<le> 1" by (rule at_most_one)
  moreover have "filter (\<lambda>x. si_address x = a) (get_active_sessions ord s) = map snd ?l"
    by (simp add: get_active_sessions_def filter_map comp_def case_prod_unfold conj_commute)
  ultimately show ?thesis using ix unfolding index_ok_def get_session_def by (simp del: map_of_eq_Some_iff)
qed


definition session_demo :: "session_event list" where
  "session_demo = [SV_Connect ''0xa'' ''sig'' 10, SV_Connect ''0xb'' ''sig'' 11, SV_Connect ''0xa'' ''sig'' 12,
     SV_Heartbeat ''nobody'' 13, SV_Cleanup 400, SV_Connect ''0xa'' ''sig'' 401]"

text \<open>A hash that repeats the character that tells the two addresses apart.\<close>

definition session_externs :: externs where
  "session_externs = demo_externs\<lparr>x_keccak := \<lambda>bs. from_be_bytes (replicate 32 (bs ! 2))\<rparr>"

lemma session_demo_ids:
  "generate_session_id session_externs ''0xa'' t = ''session_'' @ x_hex_encode demo_externs (replicate 16 97)"
  "generate_session_id session_externs ''0xb'' t = ''session_'' @ x_hex_encode demo_externs (replicate 16 98)"
  by (simp_all add: generate_session_id_def session_externs_def str_bytes_def hash_bytes_def to_from_be_bytes)

lemma session_ids_differ:
  "x_hex_encode demo_externs (replicate 16 97) \<noteq> x_hex_encode demo_externs (replicate 16 98)"
proof -
  have "replicate 16 (97 :: u8) \<noteq> replicate 16 98" by simp
  then show ?thesis using demo_hex_ok unfolding hex_ok_def by (metis option.inject)
qed

lemma session_no_collision: "no_collision session_externs (connections session_demo)"
  using session_ids_differ by (auto simp: no_collision_def session_demo_def session_demo_ids)

lemma session_demo_live: "all_end_live session_externs rev session_demo (session_manager_new 300)"
  by (simp add: session_demo_def ends_live_def)

theorem one_session_per_address_witness:
  "length (filter (\<lambda>x. si_address x = ''0xa'')
     (get_active_sessions rev (session_run session_externs rev session_demo (session_manager_new 300)))) \<le> 1"
  using one_session_per_address[OF session_no_collision iter_order_rev session_demo_live refl] by blast

text \<open>A client that ends its old session a second time cuts its new session off the index: it
  stays active, and the next connection of the address opens another beside it.\<close>

theorem second_disconnect_splits:
  assumes "map_of (se_sessions s) old = Some x" and "si_address x = a" and "old \<noteq> cur"
    and "map_of (se_sessions s) cur = Some y" and "si_is_active y" and "si_address y = a"
    and "generate_session_id X a now \<noteq> cur"
    and "connect X a sig now (snd (disconnect old s)) = (new, s')"
  shows "new \<noteq> cur
    \<and> (\<forall>i \<in> {cur, new}. \<exists>z. get_session i s' = Some z \<and> si_is_active z \<and> si_address z = a)
    \<and> map_of (se_address_index s') a = Some new"
proof -
  have d: "snd (disconnect old s) = s\<lparr>se_sessions := hm_modify old (\<lambda>x. x\<lparr>si_is_active := False\<rparr>) (se_sessions s),
      se_address_index := AList.delete a (se_address_index s)\<rparr>"
    using assms(1,2) by (simp add: disconnect_def del: map_of_eq_Some_iff)
  show ?thesis
    using assms(3-8) unfolding d
    by (auto simp: connect_def Let_def get_session_def velo_map simp del: map_of_eq_Some_iff)
qed


definition split_externs :: externs where
  "split_externs = demo_externs\<lparr>x_keccak := \<lambda>bs. from_be_bytes (replicate 32 (last bs))\<rparr>"

definition split_id :: "u8 \<Rightarrow> string" where
  "split_id b = ''session_'' @ x_hex_encode demo_externs (replicate 16 b)"

lemma split_ids:
  "generate_session_id split_externs ''0xa'' 1 = split_id 49" "generate_session_id split_externs ''0xa'' 2 = split_id 50"
  "generate_session_id split_externs ''0xa'' 3 = split_id 51"
  by (simp_all add: generate_session_id_def split_externs_def str_bytes_def hash_bytes_def to_from_be_bytes
      decimal_def radix_digits_small digit_char_def split_id_def)

lemma split_ids_differ: "a \<noteq> b \<Longrightarrow> split_id a \<noteq> split_id b"
proof
  assume "a \<noteq> b" "split_id a = split_id b"
  then have "replicate 16 a = replicate 16 b"
    using demo_hex_ok unfolding hex_ok_def split_id_def by (metis option.inject same_append_eq)
  then show False using \<open>a \<noteq> b\<close> by simp
qed

theorem second_disconnect_splits_witness:
  "let s = session_run split_externs rev [SV_Connect ''0xa'' ''sig'' 1, SV_Disconnect (split_id 49),
             SV_Connect ''0xa'' ''sig'' 2, SV_Disconnect (split_id 49), SV_Connect ''0xa'' ''sig'' 3] (session_manager_new 300)
   in \<forall>i \<in> {split_id 50, split_id 51}. \<exists>z. get_session i s = Some z \<and> si_is_active z \<and> si_address z = ''0xa''"
proof -
  let ?s = "session_run split_externs rev [SV_Connect ''0xa'' ''sig'' 1, SV_Disconnect (split_id 49),
      SV_Connect ''0xa'' ''sig'' 2] (session_manager_new 300)"
  have ne: "split_id 49 \<noteq> split_id 50" "split_id 50 \<noteq> split_id 49" "split_id 51 \<noteq> split_id 50"
    by (simp_all add: split_ids_differ)
  have s: "?s = \<lparr> se_sessions = [(split_id 49, \<lparr> si_session_id = split_id 49, si_address = ''0xa'', si_connected_at = 1,
        si_last_activity = 1, si_is_active = False \<rparr>), (split_id 50, \<lparr> si_session_id = split_id 50,
        si_address = ''0xa'', si_connected_at = 2, si_last_activity = 2, si_is_active = True \<rparr>)],
      se_address_index = [(''0xa'', split_id 50)], se_timeout_secs = 300 \<rparr>"
    by (simp add: session_run_def session_manager_new_def connect_def disconnect_def Let_def split_ids ne hm_modify_def)
  obtain new s' where c: "connect split_externs ''0xa'' ''sig'' 3 (snd (disconnect (split_id 49) ?s)) = (new, s')"
    by fastforce
  have "map_of (se_address_index (snd (disconnect (split_id 49) ?s))) ''0xa'' = None"
    unfolding s by (simp add: disconnect_def)
  then have "new = split_id 51" using c by (simp add: connect_def Let_def split_ids)
  then have "\<forall>i \<in> {split_id 50, split_id 51}. \<exists>z. get_session i s' = Some z \<and> si_is_active z \<and> si_address z = ''0xa''"
    using second_disconnect_splits[of ?s "split_id 49" _ "''0xa''" "split_id 50" _ split_externs 3 "''sig''" new s']
      c ne unfolding s by (simp add: split_ids)
  then show ?thesis using c by (simp add: session_run_def Let_def)
qed

section \<open>The two locks\<close>

text \<open>What each operation does to the locks of \<open>sessions\<close> and \<open>address_index\<close>, in its order; a
  guard is released at the end of its scope. \<open>connect\<close> is the branch that finds a session.\<close>

datatype session_lock = LK_Sessions | LK_Index
datatype lock_act = LA_Read session_lock | LA_Write session_lock | LA_Unlock session_lock

definition connect_locks :: "lock_act list" where
  "connect_locks = [LA_Read LK_Index, LA_Write LK_Sessions, LA_Unlock LK_Sessions, LA_Unlock LK_Index]"

definition connect_new_locks :: "lock_act list" where
  "connect_new_locks = [LA_Read LK_Index, LA_Unlock LK_Index, LA_Write LK_Sessions, LA_Unlock LK_Sessions,
     LA_Write LK_Index, LA_Unlock LK_Index]"

definition disconnect_locks :: "lock_act list" where
  "disconnect_locks = [LA_Write LK_Sessions, LA_Write LK_Index, LA_Unlock LK_Index, LA_Unlock LK_Sessions]"

definition cleanup_locks :: "lock_act list" where
  "cleanup_locks = [LA_Write LK_Sessions, LA_Write LK_Index, LA_Unlock LK_Index, LA_Unlock LK_Sessions]"

definition heartbeat_locks :: "lock_act list" where
  "heartbeat_locks = [LA_Write LK_Sessions, LA_Unlock LK_Sessions]"

definition by_address_locks :: "lock_act list" where
  "by_address_locks = [LA_Read LK_Index, LA_Read LK_Sessions, LA_Unlock LK_Sessions, LA_Unlock LK_Index]"

text \<open>Threads with what is left of their operations, and who holds what (\<open>True\<close>: for writing).\<close>

record lock_state =
  lo_held :: "(nat \<times> session_lock \<times> bool) list"
  lo_rest :: "lock_act list list"

inductive lock_step :: "lock_state \<Rightarrow> lock_state \<Rightarrow> bool" where
  acq_read: "i < length (lo_rest s) \<Longrightarrow> lo_rest s ! i = LA_Read l # acts \<Longrightarrow>
    \<forall>h \<in> set (lo_held s). fst (snd h) = l \<longrightarrow> \<not> snd (snd h) \<Longrightarrow>
    lock_step s \<lparr> lo_held = (i, l, False) # lo_held s, lo_rest = (lo_rest s)[i := acts] \<rparr>"
| acq_write: "i < length (lo_rest s) \<Longrightarrow> lo_rest s ! i = LA_Write l # acts \<Longrightarrow>
    \<forall>h \<in> set (lo_held s). fst (snd h) \<noteq> l \<Longrightarrow>
    lock_step s \<lparr> lo_held = (i, l, True) # lo_held s, lo_rest = (lo_rest s)[i := acts] \<rparr>"
| release: "i < length (lo_rest s) \<Longrightarrow> lo_rest s ! i = LA_Unlock l # acts \<Longrightarrow>
    lock_step s \<lparr> lo_held = filter (\<lambda>h. \<not> (fst h = i \<and> fst (snd h) = l)) (lo_held s),
                  lo_rest = (lo_rest s)[i := acts] \<rparr>"

definition lock_start :: "lock_act list list \<Rightarrow> lock_state" where
  "lock_start ps = \<lparr> lo_held = [], lo_rest = ps \<rparr>"

text \<open>Two threads that wait for each other.\<close>

definition crossed :: "nat \<Rightarrow> nat \<Rightarrow> lock_state \<Rightarrow> bool" where
  "crossed i j s \<longleftrightarrow> i < length (lo_rest s) \<and> j < length (lo_rest s)
     \<and> lo_rest s ! i = tl connect_locks \<and> lo_rest s ! j = tl disconnect_locks
     \<and> (i, LK_Index, False) \<in> set (lo_held s) \<and> (j, LK_Sessions, True) \<in> set (lo_held s)"

lemma crossed_step: "lock_step s s' \<Longrightarrow> crossed i j s \<Longrightarrow> crossed i j s'"
proof (induction rule: lock_step.induct)
  case (acq_read k s l acts)
  then have "k \<noteq> i" "k \<noteq> j" by (auto simp: crossed_def connect_locks_def disconnect_locks_def)
  then show ?case using acq_read.prems by (simp add: crossed_def)
next
  case (acq_write k s l acts)
  then have "k \<noteq> i" "k \<noteq> j" by (force simp: crossed_def connect_locks_def disconnect_locks_def)+
  then show ?case using acq_write.prems by (simp add: crossed_def)
next
  case (release k s l acts)
  then have "k \<noteq> i" "k \<noteq> j" by (auto simp: crossed_def connect_locks_def disconnect_locks_def)
  then show ?case using release.prems by (simp add: crossed_def)
qed

lemma crossed_stays: "lock_step\<^sup>*\<^sup>* s s' \<Longrightarrow> crossed i j s \<Longrightarrow> crossed i j s'"
  by (induction rule: rtranclp_induct) (simp_all add: crossed_step)

text \<open>C19. \<open>connect\<close> takes the index and then the sessions, \<open>disconnect\<close> the sessions and then the
  index. Whatever else runs beside them, there is an order of steps after which the two wait for each
  other and neither ever finishes.\<close>

theorem connect_disconnect_deadlock:
  assumes "i < length ps" and "j < length ps" and "ps ! i = connect_locks" and "ps ! j = disconnect_locks"
  shows "\<exists>s. lock_step\<^sup>*\<^sup>* (lock_start ps) s \<and>
    (\<forall>s'. lock_step\<^sup>*\<^sup>* s s' \<longrightarrow> lo_rest s' ! i = tl connect_locks \<and> lo_rest s' ! j = tl disconnect_locks)"
proof -
  let ?s1 = "\<lparr> lo_held = [(i, LK_Index, False)], lo_rest = ps[i := tl connect_locks] \<rparr>"
  let ?s2 = "\<lparr> lo_held = [(j, LK_Sessions, True), (i, LK_Index, False)],
      lo_rest = ps[i := tl connect_locks, j := tl disconnect_locks] \<rparr>"
  have ij: "i \<noteq> j" using assms(3,4) by (auto simp: connect_locks_def disconnect_locks_def)
  have "lock_step (lock_start ps) ?s1"
    using lock_step.acq_read[of i "lock_start ps" LK_Index "tl connect_locks"] assms
    by (simp add: lock_start_def connect_locks_def)
  moreover have "lock_step ?s1 ?s2"
    using lock_step.acq_write[of j ?s1 LK_Sessions "tl disconnect_locks"] assms ij
    by (simp add: disconnect_locks_def)
  ultimately have reach: "lock_step\<^sup>*\<^sup>* (lock_start ps) ?s2"
    by (rule converse_rtranclp_into_rtranclp[OF _ r_into_rtranclp])
  have "crossed i j ?s2" using assms ij by (simp add: crossed_def)
  then have "\<forall>s'. lock_step\<^sup>*\<^sup>* ?s2 s' \<longrightarrow> lo_rest s' ! i = tl connect_locks \<and> lo_rest s' ! j = tl disconnect_locks"
    using crossed_stays[of ?s2] unfolding crossed_def by blast
  with reach show ?thesis by blast
qed

theorem connect_disconnect_deadlock_witness:
  "\<exists>s. lock_step\<^sup>*\<^sup>* (lock_start [heartbeat_locks, connect_locks, disconnect_locks]) s \<and>
    (\<forall>s'. lock_step\<^sup>*\<^sup>* s s' \<longrightarrow> lo_rest s' ! 1 = tl connect_locks \<and> lo_rest s' ! 2 = tl disconnect_locks)"
  by (rule connect_disconnect_deadlock) simp_all

end
