(* ===== verification/Eth_Api.thy ===== *)
theory Eth_Api
  imports Rpc_Format Chain
begin

text \<open>
  The Ethereum JSON-RPC interface, \<open>crates/rpc/src/eth_api.rs\<close>: each method as a function of the
  parameters and of what it reads. The API shares the database, the account state and the pool with
  the chain and has an EVM executor of its own. JSON values are an abstract type with the access
  functions of \<open>serde_json\<close>; the block parameter that the methods ignore is kept.
\<close>

section \<open>Data\<close>

record rpc_block =
  rb_number :: string
  rb_hash :: string
  rb_parent_hash :: string
  rb_timestamp :: string
  rb_gas_limit :: string
  rb_gas_used :: string
  rb_beneficiary :: string
  rb_state_root :: string
  rb_transactions_root :: string
  rb_receipts_root :: string
  rb_game_tick :: u64
  rb_game_state_root :: string
  rb_difficulty :: string
  rb_transactions :: "string list"

record 'v rpc_receipt =
  rr_transaction_hash :: string
  rr_block_number :: string
  rr_block_hash :: string
  rr_transaction_index :: string
  rr_success :: bool
  rr_gas_used :: string
  rr_cumulative_gas_used :: string
  rr_contract_address :: "string option"
  rr_logs :: "'v list"

record call_request =
  cr_from :: "string option"
  cr_to :: "string option"
  cr_value :: "string option"
  cr_data :: "string option"
  cr_gas :: "string option"

record log_filter =
  lf_from_block :: "string option"
  lf_to_block :: "string option"
  lf_address :: "string option"
  lf_topics :: "string option list option"

record rpc_log =
  rl_address :: string
  rl_topics :: "string list"
  rl_data :: string
  rl_block_number :: string
  rl_block_hash :: string
  rl_transaction_hash :: string
  rl_transaction_index :: string
  rl_log_index :: string

text \<open>Third-party code: reading a transaction, a 256-bit number and a JSON value; its members (a
  missing one is the null value), and its string, number, truth value and array, if it is one; and how
  a hash is printed for debugging.\<close>

record 'v rpc_ext =
  re_de_tx :: "bytes \<Rightarrow> string + signed_transaction"
  re_u256 :: "string \<Rightarrow> u256 option"
  re_de_value :: "bytes \<Rightarrow> string + 'v"
  re_member :: "'v \<Rightarrow> string \<Rightarrow> 'v"
  re_str :: "'v \<Rightarrow> string option"
  re_u64 :: "'v \<Rightarrow> u64 option"
  re_bool :: "'v \<Rightarrow> bool option"
  re_array :: "'v \<Rightarrow> 'v list option"
  re_hash_debug :: "b256 \<Rightarrow> string"

record ('db, 'e) eth_api =
  ea_chain_id :: u64
  ea_state :: "'db world_state"
  ea_txpool :: txpool
  ea_evm :: "'e evm_executor"

definition eth_api_new :: "'e revm \<Rightarrow> u64 \<Rightarrow> 'db world_state \<Rightarrow> txpool \<Rightarrow> ('db, 'e) eth_api" where
  "eth_api_new V chain_id w p =
     \<lparr> ea_chain_id = chain_id, ea_state = w, ea_txpool = p, ea_evm = evm_new V chain_id \<rparr>"

abbreviation ea_db :: "('db, 'e) eth_api \<Rightarrow> 'db" where
  "ea_db api \<equiv> ws_db (ea_state api)"

definition or_default :: "'a \<Rightarrow> 'a option \<Rightarrow> 'a" where
  "or_default d x = (case x of None \<Rightarrow> d | Some y \<Rightarrow> y)"

definition hex_bytes :: "externs \<Rightarrow> bytes \<Rightarrow> string" where
  "hex_bytes X bs = ''0x'' @ x_hex_encode X bs"

abbreviation hex_hash :: "externs \<Rightarrow> b256 \<Rightarrow> string" where
  "hex_hash X h \<equiv> hex_bytes X (hash_bytes h)"

section \<open>Chain and accounts\<close>

definition eth_chain_id :: "('db, 'e) eth_api \<Rightarrow> string" where
  "eth_chain_id api = format_hex (ea_chain_id api)"

definition latest_number :: "'db rocks \<Rightarrow> 'db \<Rightarrow> rpc_failure + u64" where
  "latest_number R db =
     (case get_latest_block_number R db of
        Inl e \<Rightarrow> Inl (RPC_Internal ''Storage error'') | Inr n \<Rightarrow> Inr (or_default 0 n))"

definition eth_block_number :: "'db rocks \<Rightarrow> ('db, 'e) eth_api \<Rightarrow> rpc_failure + string" where
  "eth_block_number R api = map_sum id format_hex (latest_number R (ea_db api))"

definition eth_get_balance ::
  "('db, 'e) node_ext \<Rightarrow> string \<Rightarrow> string option \<Rightarrow> ('db, 'e) eth_api \<Rightarrow> (rpc_failure + string) \<times> ('db, 'e) eth_api" where
  "eth_get_balance N address blk api =
     (case parse_address (nx_X N) address of
        Inl e \<Rightarrow> (Inl e, api)
      | Inr addr \<Rightarrow>
          (case ws_get_balance (nx_R N) (nx_J N) addr (ea_state api) of
             (Inl e, w) \<Rightarrow> (Inl (RPC_Internal ''State error''), api\<lparr>ea_state := w\<rparr>)
           | (Inr b, w) \<Rightarrow> (Inr (format_hex b), api\<lparr>ea_state := w\<rparr>)))"

definition eth_get_transaction_count ::
  "('db, 'e) node_ext \<Rightarrow> string \<Rightarrow> string option \<Rightarrow> ('db, 'e) eth_api \<Rightarrow> (rpc_failure + string) \<times> ('db, 'e) eth_api" where
  "eth_get_transaction_count N address blk api =
     (case parse_address (nx_X N) address of
        Inl e \<Rightarrow> (Inl e, api)
      | Inr addr \<Rightarrow>
          (case ws_get_nonce (nx_R N) (nx_J N) addr (ea_state api) of
             (Inl e, w) \<Rightarrow> (Inl (RPC_Internal ''State error''), api\<lparr>ea_state := w\<rparr>)
           | (Inr n, w) \<Rightarrow> (Inr (format_hex n), api\<lparr>ea_state := w\<rparr>)))"

definition eth_send_raw_transaction ::
  "externs \<Rightarrow> 'v rpc_ext \<Rightarrow> string \<Rightarrow> ('db, 'e) eth_api \<Rightarrow> (rpc_failure + string) \<times> ('db, 'e) eth_api" where
  "eth_send_raw_transaction X E data api =
     (case x_hex_decode X (strip_0x data) of
        None \<Rightarrow> (Inl (RPC_InvalidParams ''Invalid hex data''), api)
      | Some bs \<Rightarrow>
     (case re_de_tx E bs of
        Inl e \<Rightarrow> (Inl (RPC_InvalidParams ''Invalid transaction encoding''), api)
      | Inr tx \<Rightarrow>
     (case tx_sender X tx of
        Inl e \<Rightarrow> (Inl (RPC_InvalidParams ''Invalid signature''), api)
      | Inr _ \<Rightarrow>
     (case add_transaction X tx (ea_txpool api) of
        (Inl e, p) \<Rightarrow> (Inl (RPC_Internal ''TxPool error''), api\<lparr>ea_txpool := p\<rparr>)
      | (Inr _, p) \<Rightarrow> (Inr (re_hash_debug E (st_hash tx)), api\<lparr>ea_txpool := p\<rparr>)))))"

definition eth_gas_price :: string where
  "eth_gas_price = ''0x3b9aca00''"

definition eth_net_version :: "('db, 'e) eth_api \<Rightarrow> string" where
  "eth_net_version api = decimal (unat (ea_chain_id api))"

text \<open>Contract code is not served: the answer is empty for every well-formed address.\<close>

definition eth_get_code :: "externs \<Rightarrow> string \<Rightarrow> rpc_failure + string" where
  "eth_get_code X address = (case parse_address X address of Inl e \<Rightarrow> Inl e | Inr _ \<Rightarrow> Inr ''0x'')"

section \<open>Blocks\<close>

definition rpc_from_block :: "externs \<Rightarrow> block_header \<Rightarrow> signed_transaction list \<Rightarrow> rpc_block" where
  "rpc_from_block X h txs =
     \<lparr> rb_number = format_hex (bh_number h), rb_hash = hex_hash X (header_hash X h),
       rb_parent_hash = hex_hash X (bh_parent_hash h), rb_timestamp = format_hex (bh_timestamp h),
       rb_gas_limit = format_hex (bh_gas_limit h), rb_gas_used = format_hex (bh_gas_used h),
       rb_beneficiary = hex_bytes X (address_bytes (bh_beneficiary h)),
       rb_state_root = hex_hash X (bh_state_root h), rb_transactions_root = hex_hash X (bh_transactions_root h),
       rb_receipts_root = hex_hash X (bh_receipts_root h), rb_game_tick = bh_game_tick h,
       rb_game_state_root = hex_hash X (bh_game_state_root h), rb_difficulty = format_hex (bh_difficulty h),
       rb_transactions = map (\<lambda>tx. hex_hash X (st_hash tx)) txs \<rparr>"

text \<open>The header of a hash with its body; a missing body is an empty one.\<close>

definition rpc_block_of :: "externs \<Rightarrow> 'db rocks \<Rightarrow> 'db \<Rightarrow> b256 \<Rightarrow> rpc_failure + rpc_block option" where
  "rpc_block_of X R db hash =
     (case get_header R db hash of
        Inl e \<Rightarrow> Inl (RPC_Internal ''Storage error'')
      | Inr None \<Rightarrow> Inr None
      | Inr (Some h) \<Rightarrow>
          (case get_body R db hash of
             Inl e \<Rightarrow> Inl (RPC_Internal ''Storage error'')
           | Inr body \<Rightarrow> Inr (Some (rpc_from_block X h (or_default [] body)))))"

definition block_number_param :: "'db rocks \<Rightarrow> 'db \<Rightarrow> string \<Rightarrow> rpc_failure + u64" where
  "block_number_param R db number =
     (if number = ''latest'' then latest_number R db
      else case u64_from_hex (strip_0x number) of
             None \<Rightarrow> Inl (RPC_InvalidParams ''Invalid block number'') | Some n \<Rightarrow> Inr n)"

definition eth_get_block_by_number ::
  "('db, 'e) node_ext \<Rightarrow> string \<Rightarrow> bool \<Rightarrow> ('db, 'e) eth_api \<Rightarrow> rpc_failure + rpc_block option" where
  "eth_get_block_by_number N number full api =
     (let R = nx_R N; db = ea_db api in
      case block_number_param R db number of
        Inl e \<Rightarrow> Inl e
      | Inr n \<Rightarrow>
     (case get_block_hash_by_number R db n of
        Inl e \<Rightarrow> Inl (RPC_Internal ''Storage error'')
      | Inr None \<Rightarrow> Inr None
      | Inr (Some hash) \<Rightarrow> rpc_block_of (nx_X N) R db hash))"

definition eth_get_block_by_hash ::
  "('db, 'e) node_ext \<Rightarrow> string \<Rightarrow> bool \<Rightarrow> ('db, 'e) eth_api \<Rightarrow> rpc_failure + rpc_block option" where
  "eth_get_block_by_hash N hash full api =
     (case parse_hash (nx_X N) hash of
        Inl e \<Rightarrow> Inl e
      | Inr h \<Rightarrow> rpc_block_of (nx_X N) (nx_R N) (ea_db api) h)"

section \<open>Receipts and logs\<close>

fun trim_0x :: "string \<Rightarrow> string" where
  "trim_0x (a # b # s) = (if [a, b] = ''0x'' then trim_0x s else a # b # s)"
| "trim_0x s = s"

definition member_str :: "'v rpc_ext \<Rightarrow> string \<Rightarrow> 'v \<Rightarrow> string" where
  "member_str E k v = or_default [] (re_str E (re_member E v k))"

definition member_hex :: "'v rpc_ext \<Rightarrow> string \<Rightarrow> 'v \<Rightarrow> string" where
  "member_hex E k v = format_hex (or_default 0 (re_u64 E (re_member E v k)))"

definition rpc_receipt_of :: "'v rpc_ext \<Rightarrow> 'v \<Rightarrow> 'v rpc_receipt" where
  "rpc_receipt_of E v =
     \<lparr> rr_transaction_hash = ''0x'' @ trim_0x (member_str E ''tx_hash'' v),
       rr_block_number = member_hex E ''block_number'' v,
       rr_block_hash = ''0x'' @ trim_0x (member_str E ''block_hash'' v),
       rr_transaction_index = member_hex E ''index'' v,
       rr_success = or_default False (re_bool E (re_member E v ''success'')),
       rr_gas_used = member_hex E ''gas_used'' v,
       rr_cumulative_gas_used = member_hex E ''cumulative_gas_used'' v,
       rr_contract_address = re_str E (re_member E v ''contract_address''),
       rr_logs = or_default [] (re_array E (re_member E v ''logs'')) \<rparr>"

definition eth_get_transaction_receipt ::
  "('db, 'e) node_ext \<Rightarrow> 'v rpc_ext \<Rightarrow> string \<Rightarrow> ('db, 'e) eth_api \<Rightarrow> rpc_failure + 'v rpc_receipt option" where
  "eth_get_transaction_receipt N E hash api =
     (case parse_hash (nx_X N) hash of
        Inl e \<Rightarrow> Inl e
      | Inr h \<Rightarrow>
     (case get_receipt (nx_R N) (ea_db api) h of
        Inl e \<Rightarrow> Inl (RPC_Internal ''Storage error'')
      | Inr None \<Rightarrow> Inr None
      | Inr (Some data) \<Rightarrow>
          (case re_de_value E data of
             Inl e \<Rightarrow> Inl (RPC_Internal ''Receipt decode'') | Inr v \<Rightarrow> Inr (Some (rpc_receipt_of E v)))))"

text \<open>The logs of one stored receipt that pass the filter, with their position in it.\<close>

definition logs_of_receipt ::
  "('db, 'e) node_ext \<Rightarrow> 'v rpc_ext \<Rightarrow> address option \<Rightarrow> u64 \<Rightarrow> b256 \<Rightarrow> nat \<Rightarrow> signed_transaction \<Rightarrow> 'v \<Rightarrow> rpc_log list" where
  "logs_of_receipt N E fa num hash tx_idx tx v =
     [\<lparr> rl_address = member_str E ''address'' l,
        rl_topics = List.map_filter (re_str E) (or_default [] (re_array E (re_member E l ''topics''))),
        rl_data = or_default ''0x'' (re_str E (re_member E l ''data'')), rl_block_number = format_hex num,
        rl_block_hash = hex_hash (nx_X N) hash, rl_transaction_hash = re_hash_debug E (st_hash tx),
        rl_transaction_index = ''0x'' @ lower_hex tx_idx, rl_log_index = ''0x'' @ lower_hex i \<rparr>.
      (i, l) \<leftarrow> enumerate 0 (or_default [] (re_array E (re_member E v ''logs''))),
      (case fa of None \<Rightarrow> True | Some a \<Rightarrow> member_str E ''address'' l = nx_addr_debug N a)]"

fun logs_of_txs ::
  "('db, 'e) node_ext \<Rightarrow> 'v rpc_ext \<Rightarrow> 'db \<Rightarrow> address option \<Rightarrow> u64 \<Rightarrow> b256 \<Rightarrow> nat \<Rightarrow> signed_transaction list
     \<Rightarrow> rpc_failure + rpc_log list" where
  "logs_of_txs N E db fa num hash i [] = Inr []"
| "logs_of_txs N E db fa num hash i (tx # txs) =
     (case get_receipt (nx_R N) db (st_hash tx) of
        Inl e \<Rightarrow> Inl (RPC_Internal ''Storage error'')
      | Inr data \<Rightarrow>
          let own = (case data of
                       None \<Rightarrow> []
                     | Some d \<Rightarrow> (case re_de_value E d of Inl e \<Rightarrow> []
                                  | Inr v \<Rightarrow> logs_of_receipt N E fa num hash i tx v))
          in map_sum id (\<lambda>rest. own @ rest) (logs_of_txs N E db fa num hash (Suc i) txs))"

fun logs_of_blocks ::
  "('db, 'e) node_ext \<Rightarrow> 'v rpc_ext \<Rightarrow> 'db \<Rightarrow> address option \<Rightarrow> u64 list \<Rightarrow> rpc_failure + rpc_log list" where
  "logs_of_blocks N E db fa [] = Inr []"
| "logs_of_blocks N E db fa (num # nums) =
     (case get_block_hash_by_number (nx_R N) db num of
        Inl e \<Rightarrow> Inl (RPC_Internal ''Storage error'')
      | Inr None \<Rightarrow> logs_of_blocks N E db fa nums
      | Inr (Some hash) \<Rightarrow>
     (case get_body (nx_R N) db hash of
        Inl e \<Rightarrow> Inl (RPC_Internal ''Storage error'')
      | Inr None \<Rightarrow> logs_of_blocks N E db fa nums
      | Inr (Some txs) \<Rightarrow>
     (case logs_of_txs N E db fa num hash 0 txs of
        Inl e \<Rightarrow> Inl e
      | Inr own \<Rightarrow> map_sum id (\<lambda>rest. own @ rest) (logs_of_blocks N E db fa nums))))"

definition log_range :: "u64 \<Rightarrow> u64 \<Rightarrow> u64 list" where
  "log_range a b = map of_nat [unat a..<Suc (unat (min b (a + 1000)))]"

definition filter_address :: "externs \<Rightarrow> log_filter \<Rightarrow> rpc_failure + address option" where
  "filter_address X f =
     (case lf_address f of None \<Rightarrow> Inr None | Some a \<Rightarrow> map_sum id Some (parse_address X a))"

definition eth_get_logs ::
  "('db, 'e) node_ext \<Rightarrow> 'v rpc_ext \<Rightarrow> log_filter \<Rightarrow> ('db, 'e) eth_api \<Rightarrow> rpc_failure + rpc_log list" where
  "eth_get_logs N E f api =
     (case parse_u64_hex (or_default ''0x0'' (lf_from_block f)) of
        Inl e \<Rightarrow> Inl e
      | Inr from \<Rightarrow>
     (case latest_number (nx_R N) (ea_db api) of
        Inl e \<Rightarrow> Inl e
      | Inr latest \<Rightarrow>
     (let to = (case parse_u64_hex (or_default ''latest'' (lf_to_block f)) of Inl e \<Rightarrow> latest | Inr n \<Rightarrow> n) in
      case filter_address (nx_X N) f of
        Inl e \<Rightarrow> Inl e
      | Inr fa \<Rightarrow> logs_of_blocks N E (ea_db api) fa (log_range from to))))"

section \<open>Calls\<close>

definition optional_address :: "externs \<Rightarrow> string option \<Rightarrow> rpc_failure + address option" where
  "optional_address X a = (case a of None \<Rightarrow> Inr None | Some s \<Rightarrow> map_sum id Some (parse_address X s))"

text \<open>The parameters the two methods share, in the order in which they are checked.\<close>

definition call_params ::
  "externs \<Rightarrow> 'v rpc_ext \<Rightarrow> call_request \<Rightarrow> rpc_failure + (address \<times> address option \<times> u256 \<times> bytes)" where
  "call_params X E tx =
     (case optional_address X (cr_from tx) of
        Inl e \<Rightarrow> Inl e
      | Inr from \<Rightarrow>
     (case optional_address X (cr_to tx) of
        Inl e \<Rightarrow> Inl e
      | Inr to \<Rightarrow>
     (case parse_u256_hex (re_u256 E) (or_default ''0x0'' (cr_value tx)) of
        Inl e \<Rightarrow> Inl e
      | Inr amount \<Rightarrow>
     (case parse_hex_data X (or_default ''0x'' (cr_data tx)) of
        Inl e \<Rightarrow> Inl e
      | Inr data \<Rightarrow> Inr (or_default 0 from, to, amount, data)))))"

definition eth_call ::
  "('db, 'e) node_ext \<Rightarrow> 'v rpc_ext \<Rightarrow> call_request \<Rightarrow> string option \<Rightarrow> ('db, 'e) eth_api \<Rightarrow> rpc_failure + string" where
  "eth_call N E tx blk api =
     (case call_params (nx_X N) E tx of
        Inl e \<Rightarrow> Inl e
      | Inr (from, to, amount, data) \<Rightarrow>
     (case parse_u64_hex (or_default ''0x1c9c380'' (cr_gas tx)) of
        Inl e \<Rightarrow> Inl e
      | Inr gas \<Rightarrow>
     (case simulate_call (nx_V N) (ea_evm api) from to amount data gas of
        Inl e \<Rightarrow> Inl (RPC_Internal ''EVM call failed'')
      | Inr r \<Rightarrow> Inr (hex_bytes (nx_X N) (eo_output r)))))"

definition eth_estimate_gas ::
  "('db, 'e) node_ext \<Rightarrow> 'v rpc_ext \<Rightarrow> call_request \<Rightarrow> string option \<Rightarrow> ('db, 'e) eth_api \<Rightarrow> rpc_failure + string" where
  "eth_estimate_gas N E tx blk api =
     (case call_params (nx_X N) E tx of
        Inl e \<Rightarrow> Inl e
      | Inr (from, to, amount, data) \<Rightarrow>
     (case estimate_gas (nx_V N) (ea_evm api) from to amount data of
        Inl e \<Rightarrow> Inl (RPC_Internal ''Gas estimation failed'')
      | Inr gas \<Rightarrow> Inr (format_hex gas)))"


section \<open>An applied block is served\<close>

lemma or_default_simps [simp]: "or_default d None = d" "or_default d (Some x) = x"
  by (simp_all add: or_default_def)

lemma block_number_param_hex: "block_number_param R db (format_hex (n :: u64)) = Inr n"
proof -
  have "format_hex n \<noteq> ''latest''" by (simp add: format_hex_def)
  moreover have "strip_0x (format_hex n) = lower_hex (unat n)" by (simp add: strip_0x_def format_hex_def)
  ultimately show ?thesis by (simp add: block_number_param_def u64_from_lower_hex)
qed

lemma hex_hash_back: "hex_ok X \<Longrightarrow> parse_hash X (hex_hash X h) = Inr h"
  unfolding hex_bytes_def by (rule parse_hash_hex)

lemma hex_address_back: "hex_ok X \<Longrightarrow> parse_address X (hex_bytes X (address_bytes a)) = Inr a"
  unfolding hex_bytes_def address_bytes_def by (rule parse_address_hex)

lemma rpc_block_reads_back:
  assumes "hex_ok X"
  shows "parse_u64_hex (rb_number (rpc_from_block X h txs)) = Inr (bh_number h)"
    and "parse_hash X (rb_hash (rpc_from_block X h txs)) = Inr (header_hash X h)"
    and "parse_hash X (rb_parent_hash (rpc_from_block X h txs)) = Inr (bh_parent_hash h)"
    and "parse_u64_hex (rb_timestamp (rpc_from_block X h txs)) = Inr (bh_timestamp h)"
    and "parse_u64_hex (rb_gas_used (rpc_from_block X h txs)) = Inr (bh_gas_used h)"
    and "parse_address X (rb_beneficiary (rpc_from_block X h txs)) = Inr (bh_beneficiary h)"
    and "parse_hash X (rb_state_root (rpc_from_block X h txs)) = Inr (bh_state_root h)"
    and "map (parse_hash X) (rb_transactions (rpc_from_block X h txs)) = map (\<lambda>tx. Inr (st_hash tx)) txs"
  using assms
  by (simp_all add: rpc_from_block_def parse_format_u64 hex_hash_back hex_address_back comp_def)

text \<open>C10. A block that was applied is what a client gets for its number, for \<open>latest\<close> and for its
  hash, and reading the text of the answer back gives the number, the hashes, the times, the gas, the
  beneficiary and the hashes of the transactions of that block, in order.\<close>

theorem applied_block_is_served:
  assumes "node_ok N" and "hex_ok (nx_X N)" and "apply_block N b ch = (Inr (), ch')"
    and "ea_db api = ws_db (ch_state ch')"
  shows "\<exists>rb. eth_get_block_by_number N (format_hex (block_number b)) full api = Inr (Some rb)
    \<and> eth_get_block_by_number N ''latest'' full api = Inr (Some rb)
    \<and> eth_get_block_by_hash N (rb_hash rb) full api = Inr (Some rb)
    \<and> eth_block_number (nx_R N) api = Inr (rb_number rb)
    \<and> parse_u64_hex (rb_number rb) = Inr (block_number b)
    \<and> parse_hash (nx_X N) (rb_hash rb) = Inr (block_hash (nx_X N) b)
    \<and> parse_hash (nx_X N) (rb_parent_hash rb) = Inr (bh_parent_hash (bl_header b))
    \<and> parse_u64_hex (rb_timestamp rb) = Inr (bh_timestamp (bl_header b))
    \<and> parse_u64_hex (rb_gas_used rb) = Inr (bh_gas_used (bl_header b))
    \<and> parse_address (nx_X N) (rb_beneficiary rb) = Inr (bh_beneficiary (bl_header b))
    \<and> parse_hash (nx_X N) (rb_state_root rb) = Inr (bh_state_root (bl_header b))
    \<and> map (parse_hash (nx_X N)) (rb_transactions rb) = map (\<lambda>tx. Inr (st_hash tx)) (bl_transactions b)"
proof -
  let ?X = "nx_X N" and ?rb = "rpc_from_block (nx_X N) (bl_header b) (bl_transactions b)"
  obtain par receipts ch2 ch3 where st: "store_block N b receipts ch2 = (Inr (), ch3)"
    and db: "ch_state ch' = ch_state ch3" by (rule apply_block_ok[OF assms(3)]) simp
  note reads = store_block_reads[OF assms(1) st, folded db, folded assms(4)]
  have found: "rpc_block_of ?X (nx_R N) (ea_db api) (block_hash ?X b) = Inr (Some ?rb)"
    using reads by (simp add: rpc_block_of_def)
  have l: "latest_number (nx_R N) (ea_db api) = Inr (block_number b)"
    using reads by (simp add: latest_number_def)
  have h: "header_hash ?X (bl_header b) = block_hash ?X b" by (simp add: block_hash_def)
  have n: "bh_number (bl_header b) = block_number b" by (simp add: block_number_def)
  note readback = rpc_block_reads_back[OF assms(2), of "bl_header b" "bl_transactions b", unfolded h n]
  have "eth_get_block_by_number N (format_hex (block_number b)) full api = Inr (Some ?rb)"
    using reads found by (simp add: eth_get_block_by_number_def Let_def block_number_param_hex)
  moreover have "eth_get_block_by_number N ''latest'' full api = Inr (Some ?rb)"
    using reads found l by (simp add: eth_get_block_by_number_def Let_def block_number_param_def)
  moreover have "eth_get_block_by_hash N (rb_hash ?rb) full api = Inr (Some ?rb)"
    using found readback(2) by (simp add: eth_get_block_by_hash_def)
  moreover have "eth_block_number (nx_R N) api = Inr (rb_number ?rb)"
    by (simp add: eth_block_number_def l rpc_from_block_def n)
  ultimately show ?thesis using readback by (intro exI[of _ ?rb] conjI) assumption+
qed

section \<open>Calls see no state\<close>

text \<open>What happens to the shared parts: queries, submissions, and whatever the chain does.\<close>

datatype 'db eth_request =
    RQ_GetBalance string "string option"
  | RQ_GetTransactionCount string "string option"
  | RQ_SendRawTransaction string
  | RQ_ChainMoves "'db world_state" txpool

fun eth_step :: "('db, 'e) node_ext \<Rightarrow> 'v rpc_ext \<Rightarrow> 'db eth_request \<Rightarrow> ('db, 'e) eth_api \<Rightarrow> ('db, 'e) eth_api" where
  "eth_step N E (RQ_GetBalance a blk) api = snd (eth_get_balance N a blk api)"
| "eth_step N E (RQ_GetTransactionCount a blk) api = snd (eth_get_transaction_count N a blk api)"
| "eth_step N E (RQ_SendRawTransaction data) api = snd (eth_send_raw_transaction (nx_X N) E data api)"
| "eth_step N E (RQ_ChainMoves w p) api = api\<lparr>ea_state := w, ea_txpool := p\<rparr>"

lemma eth_step_evm: "ea_evm (eth_step N E rq api) = ea_evm api \<and> ea_chain_id (eth_step N E rq api) = ea_chain_id api"
  by (cases rq) (auto simp: eth_get_balance_def eth_get_transaction_count_def eth_send_raw_transaction_def
      split: sum.split prod.split option.split)

lemma eth_run_evm: "ea_evm (fold (eth_step N E) rqs api) = ea_evm api"
  by (induction rqs arbitrary: api) (simp_all add: eth_step_evm)

lemma calls_read_evm:
  "ea_evm a = ea_evm b \<Longrightarrow> eth_call N E tx blk a = eth_call N E tx blk' b"
  "ea_evm a = ea_evm b \<Longrightarrow> eth_estimate_gas N E tx blk a = eth_estimate_gas N E tx blk' b"
  by (simp_all add: eth_call_def eth_estimate_gas_def split: sum.split prod.split)

text \<open>\<open>eth_call\<close> and \<open>eth_estimateGas\<close> run on an executor that is never loaded: whatever blocks the
  chain applies and whatever requests come between, the answer is the one of a node with an empty
  state, for any block that is asked for.\<close>

theorem calls_see_no_state:
  "eth_call N E tx blk (fold (eth_step N E) rqs (eth_api_new (nx_V N) chain_id w p))
     = eth_call N E tx None (eth_api_new (nx_V N) chain_id (ws_new db) tp_new)
   \<and> eth_estimate_gas N E tx blk (fold (eth_step N E) rqs (eth_api_new (nx_V N) chain_id w p))
     = eth_estimate_gas N E tx None (eth_api_new (nx_V N) chain_id (ws_new db) tp_new)"
  by (intro conjI calls_read_evm(1) calls_read_evm(2)) (simp_all add: eth_run_evm eth_api_new_def)

section \<open>A query changes the state root\<close>


theorem applied_block_is_served_witness:
  "\<exists>ch' rb. apply_block demo_node demo_next demo_chain = (Inr (), ch')
     \<and> eth_get_block_by_number demo_node ''latest'' True
         (eth_api_new demo_revm 27181 (ch_state ch') (ch_txpool ch')) = Inr (Some rb)
     \<and> parse_u64_hex (rb_number rb) = Inr 1 \<and> length (rb_transactions rb) = 1"
proof -
  obtain ch' where ch': "apply_block demo_node demo_next demo_chain = (Inr (), ch')" using demo_applies by blast
  have n: "block_number demo_next = 1" "bl_transactions demo_next = [Storage.demo_tx]"
    by (simp_all add: block_number_def block_new_def demo_header_def header_genesis_def)
  have h: "hex_ok (nx_X demo_node)" using demo_hex_ok by simp
  have d: "ea_db (eth_api_new demo_revm 27181 (ch_state ch') (ch_txpool ch')) = ws_db (ch_state ch')"
    by (simp add: eth_api_new_def)
  from applied_block_is_served[OF demo_node_ok h ch' d, of True] obtain rb
    where rb: "eth_get_block_by_number demo_node ''latest'' True
         (eth_api_new demo_revm 27181 (ch_state ch') (ch_txpool ch')) = Inr (Some rb)"
      "parse_u64_hex (rb_number rb) = Inr 1"
      "map (parse_hash demo_externs) (rb_transactions rb) = map (\<lambda>tx. Inr (st_hash tx)) [Storage.demo_tx]"
    unfolding n demo_node_simps by blast
  have "length (rb_transactions rb) = 1" using rb(3) map_eq_imp_length_eq[OF rb(3)] by simp
  then show ?thesis using ch' rb(1,2) by blast
qed


end
