(* ===== verification/Game_Api.thy ===== *)
theory Game_Api
  imports Rpc_Format Chain
begin

text \<open>
  The game and administration interfaces of the RPC server, \<open>crates/rpc/src/game_api.rs\<close> and
  \<open>admin_api.rs\<close>. The parameters of an action are a JSON value behind three access functions; the key
  pair that the code draws at random is an argument.
\<close>

section \<open>Queries\<close>

record world_info =
  wi_current_tick :: u64
  wi_entity_count :: nat
  wi_player_count :: nat
  wi_seed :: u64

record node_info =
  ni_name :: string
  ni_chain_id :: u64
  ni_block_number :: u64
  ni_game_tick :: u64
  ni_entity_count :: nat
  ni_player_count :: nat
  ni_pending_tx_count :: nat
  ni_uptime_secs :: u64

record health_status =
  hs_healthy :: bool
  hs_block_number :: u64
  hs_game_tick :: u64
  hs_pending_tx_count :: nat
  hs_db_ok :: bool

definition api_entity_count :: "game_world \<Rightarrow> nat" where
  "api_entity_count g = entity_count (gw_ecs g)"

definition get_world_info :: "entity_order \<Rightarrow> game_world \<Rightarrow> world_info" where
  "get_world_info ord g =
     \<lparr> wi_current_tick = gw_current_tick g, wi_entity_count = api_entity_count g,
       wi_player_count = gw_player_count ord g, wi_seed = gw_seed g \<rparr>"

definition admin_node_info ::
  "'db rocks \<Rightarrow> entity_order \<Rightarrow> string \<Rightarrow> u64 \<Rightarrow> 'db \<Rightarrow> game_world \<Rightarrow> txpool \<Rightarrow> u64 \<Rightarrow> rpc_failure + node_info" where
  "admin_node_info R ord version chain_id db g p uptime =
     (case get_latest_block_number R db of
        Inl e \<Rightarrow> Inl (RPC_Internal ''Storage error'')
      | Inr n \<Rightarrow> Inr \<lparr> ni_name = ''VeloChain/v'' @ version, ni_chain_id = chain_id,
          ni_block_number = (case n of None \<Rightarrow> 0 | Some k \<Rightarrow> k), ni_game_tick = gw_current_tick g,
          ni_entity_count = api_entity_count g, ni_player_count = gw_player_count ord g,
          ni_pending_tx_count = pending_count p, ni_uptime_secs = uptime \<rparr>)"

definition admin_health :: "'db rocks \<Rightarrow> 'db \<Rightarrow> game_world \<Rightarrow> txpool \<Rightarrow> health_status" where
  "admin_health R db g p =
     (let number = (case get_latest_block_number R db of Inr (Some n) \<Rightarrow> n | _ \<Rightarrow> 0);
          ok = \<not> isl (get_meta R db ''latest_block_number'')
      in \<lparr> hs_healthy = ok, hs_block_number = number, hs_game_tick = gw_current_tick g,
           hs_pending_tx_count = pending_count p, hs_db_ok = ok \<rparr>)"

definition admin_peer_count :: nat where
  "admin_peer_count = 0"

section \<open>Submitting an action\<close>

text \<open>A member of the parameters as a signed or unsigned number or as a string, if it is there and is one.\<close>

record 'v action_json =
  aj_i64 :: "'v \<Rightarrow> string \<Rightarrow> 64 word option"
  aj_u64 :: "'v \<Rightarrow> string \<Rightarrow> u64 option"
  aj_str :: "'v \<Rightarrow> string \<Rightarrow> string option"

definition parse_game_action :: "'v action_json \<Rightarrow> string \<Rightarrow> 'v \<Rightarrow> rpc_failure + game_action" where
  "parse_game_action A action_type params =
     (let num = (\<lambda>k. case aj_i64 A params k of Some v \<Rightarrow> v | None \<Rightarrow> 0) in
      if action_type = ''move'' then Inr (GA_Move (num ''x'') (num ''y'') (num ''z''))
      else if action_type = ''attack'' then
        (case aj_u64 A params ''target_entity_id'' of
           None \<Rightarrow> Inl (RPC_InvalidParams ''Missing target_entity_id'') | Some t \<Rightarrow> Inr (GA_Attack t))
      else if action_type = ''chat'' then
        Inr (GA_Chat (case aj_str A params ''message'' of None \<Rightarrow> [] | Some s \<Rightarrow> s))
      else if action_type = ''respawn'' then Inr GA_Respawn
      else Inl (RPC_InvalidParams ''Unknown action type''))"

definition submit_action ::
  "externs \<Rightarrow> 'v action_json \<Rightarrow> (b256 \<Rightarrow> string) \<Rightarrow> keypair \<Rightarrow> u64 \<Rightarrow> string \<Rightarrow> 'v \<Rightarrow> txpool
     \<Rightarrow> (rpc_failure + string) \<times> txpool" where
  "submit_action X A hash_debug random_key chain_id action_type params p =
     (case parse_game_action A action_type params of
        Inl e \<Rightarrow> (Inl e, p)
      | Inr action \<Rightarrow>
     (case tx_sign X random_key (new_game_action chain_id 0 action) of
        Inl e \<Rightarrow> (Inl (RPC_Internal ''Failed to sign action''), p)
      | Inr stx \<Rightarrow>
     (case add_transaction X stx p of
        (Inl e, p1) \<Rightarrow> (Inl (RPC_Internal ''TxPool error''), p1)
      | (Inr _, p1) \<Rightarrow> (Inr (hash_debug (st_hash stx)), p1))))"

text \<open>What an action leaves alone when its player does not exist.\<close>

lemma strangers_action_frame:
  assumes "find_player_entity ord w addr = None" and "i \<noteq> ew_next_entity_id w" and "action \<noteq> GA_Attack i"
  shows "map_of (ew_entities (snd (process_action ord addr action w))) i = map_of (ew_entities w) i"
  using assms
  by (cases action) (auto simp: process_action_def Let_def spawn_player_def ecs_spawn_def modify_components_def
      velo_map split: option.split)

text \<open>C38. An action submitted over \<open>game_submitAction\<close> enters the pool as a transaction of the address
  of the random key, with nonce 0: it is nobody's action. Unless that address has a player, executing
  it moves and revives no entity there is; it can only hit a target or make a new player.\<close>

theorem submitted_action_is_strangers:
  assumes "crypto_ok X" and "from_secret_key X s = Inr kp"
    and "submit_action X A hash_debug kp chain_id action_type params p = (Inr answer, p')"
  shows "\<exists>tx action. parse_game_action A action_type params = Inr action
    \<and> answer = hash_debug (st_hash tx) \<and> map_of (tp_by_hash p') (st_hash tx) = Some tx
    \<and> tx_sender X tx = Inr (kp_address kp) \<and> st_nonce tx = 0 \<and> st_game_action tx = Some action
    \<and> (\<forall>ord w addr i. find_player_entity ord w addr = None \<longrightarrow> i \<noteq> ew_next_entity_id w \<longrightarrow> action \<noteq> GA_Attack i \<longrightarrow>
         map_of (ew_entities (snd (process_action ord addr action w))) i = map_of (ew_entities w) i)"
proof -
  obtain action tx h where a: "parse_game_action A action_type params = Inr action"
    and t: "tx_sign X kp (new_game_action chain_id 0 action) = Inr tx" and ad: "add_transaction X tx p = (Inr h, p')"
    and ans: "answer = hash_debug (st_hash tx)"
    using assms(3) by (auto simp: submit_action_def split: sum.splits prod.splits)
  note r = tx_sign_recovers[OF assms(1,2) t]
  have "map_of (tp_by_hash p') (st_hash tx) = Some tx"
    by (rule add_transaction_ok[OF ad]) (simp add: hm_update_get del: map_of_eq_Some_iff)
  moreover have "st_transaction tx = new_game_action chain_id 0 action"
    using r by (metis signed_new_def signed_transaction.select_convs(1))
  then have "st_nonce tx = 0" "st_game_action tx = Some action"
    by (simp_all add: new_game_action_def st_game_action_def)
  ultimately show ?thesis using a ans r strangers_action_frame by (intro exI[of _ tx] exI[of _ action]) blast
qed

definition demo_action_json :: "unit action_json" where
  "demo_action_json = \<lparr> aj_i64 = (\<lambda>_ _. Some 5), aj_u64 = (\<lambda>_ _. None), aj_str = (\<lambda>_ _. None) \<rparr>"

theorem submitted_action_is_strangers_witness:
  "\<exists>tx p'. submit_action demo_externs demo_action_json (\<lambda>_. ''0x'') demo_keypair 27181 ''respawn'' () tp_new = (Inr ''0x'', p')
     \<and> map_of (tp_by_hash p') (st_hash tx) = Some tx \<and> tx_sender demo_externs tx = Inr (kp_address demo_keypair)"
proof -
  have s: "tx_sign demo_externs demo_keypair (new_game_action 27181 0 GA_Respawn) = Inr Storage.demo_tx"
    by (simp add: demo_tx_sign demo_keypair_def Storage.demo_tx_def demo_secret_def)
  have "submit_action demo_externs demo_action_json (\<lambda>_. ''0x'') demo_keypair 27181 ''respawn'' () tp_new
      = (Inr ''0x'', snd (add_transaction demo_externs Storage.demo_tx tp_new))"
    by (simp add: submit_action_def parse_game_action_def s add_transaction_def tp_new_def tp_with_max_size_def
        tp_queue_def Let_def)
  then obtain p' where "submit_action demo_externs demo_action_json (\<lambda>_. ''0x'') demo_keypair 27181 ''respawn'' () tp_new
      = (Inr ''0x'', p')" by blast
  with submitted_action_is_strangers[OF demo_crypto_ok demo_keypair_ok this] show ?thesis by blast
qed

end
