(* ===== verification/F64.thy ===== *)
theory F64
  imports F32
begin

text \<open>
  The \<open>f64\<close> arithmetic of terrain and combat, on IEEE 754 bit patterns, in the manner of \<open>F32\<close>: 53
  significant bits, exponent at least -1074, round to nearest, ties to even; a NaN result is the
  canonical quiet NaN. Also the casts between the two formats and to integers, which saturate.
\<close>

section \<open>Bit patterns and values\<close>

type_synonym f64 = "64 word"

definition f64_val :: "f64 \<Rightarrow> fval" where
  "f64_val x =
     (let n = uint x; s = (2 ^ 63 \<le> n); ex = (n div 2 ^ 52) mod 2048; fr = n mod 2 ^ 52 in
      if ex = 2047 then (if fr = 0 then FV_Inf s else FV_NaN)
      else if ex = 0 then FV_Fin s fr (- 1074)
      else FV_Fin s (fr + 2 ^ 52) (ex - 1075))"

definition f64_nan :: f64 where
  "f64_nan = 0x7FF8000000000000"

definition sign_bit64 :: "bool \<Rightarrow> int" where
  "sign_bit64 s = (if s then 2 ^ 63 else 0)"

definition f64_inf :: "bool \<Rightarrow> f64" where
  "f64_inf s = of_int (sign_bit64 s + 2047 * 2 ^ 52)"

definition f64_round :: "bool \<Rightarrow> int \<Rightarrow> int \<Rightarrow> f64" where
  "f64_round s m e =
     (if m = 0 then of_int (sign_bit64 s)
      else let sh = max (bit_length m - 53) (- 1074 - e);
               m' = (if sh \<le> 0 then m * 2 ^ nat (- sh) else round_even m (nat sh));
               bits = (e + sh + 1074) * 2 ^ 52 + m'
           in if 2047 * 2 ^ 52 \<le> bits then f64_inf s else of_int (sign_bit64 s + bits))"

section \<open>Operations\<close>

definition f64_neg :: "f64 \<Rightarrow> f64" where
  "f64_neg x = xor x 0x8000000000000000"

definition f64_add :: "f64 \<Rightarrow> f64 \<Rightarrow> f64" where
  "f64_add x y =
     (case (f64_val x, f64_val y) of
        (FV_Fin s1 m1 e1, FV_Fin s2 m2 e2) \<Rightarrow>
          let e = min e1 e2; z = signed_mant s1 m1 e1 e + signed_mant s2 m2 e2 e in
          if z = 0 then of_int (sign_bit64 (s1 \<and> s2)) else f64_round (z < 0) \<bar>z\<bar> e
      | (FV_Inf s1, FV_Inf s2) \<Rightarrow> if s1 = s2 then f64_inf s1 else f64_nan
      | (FV_Inf s, FV_Fin _ _ _) \<Rightarrow> f64_inf s
      | (FV_Fin _ _ _, FV_Inf s) \<Rightarrow> f64_inf s
      | _ \<Rightarrow> f64_nan)"

definition f64_sub :: "f64 \<Rightarrow> f64 \<Rightarrow> f64" where
  "f64_sub x y = f64_add x (f64_neg y)"

definition f64_mul :: "f64 \<Rightarrow> f64 \<Rightarrow> f64" where
  "f64_mul x y =
     (case (f64_val x, f64_val y) of
        (FV_Fin s1 m1 e1, FV_Fin s2 m2 e2) \<Rightarrow> f64_round (s1 \<noteq> s2) (m1 * m2) (e1 + e2)
      | (FV_Inf s1, FV_Inf s2) \<Rightarrow> f64_inf (s1 \<noteq> s2)
      | (FV_Inf s1, FV_Fin s2 m _) \<Rightarrow> if m = 0 then f64_nan else f64_inf (s1 \<noteq> s2)
      | (FV_Fin s1 m _, FV_Inf s2) \<Rightarrow> if m = 0 then f64_nan else f64_inf (s1 \<noteq> s2)
      | _ \<Rightarrow> f64_nan)"

text \<open>Division keeps 128 quotient bits and a sticky bit.\<close>

definition f64_div :: "f64 \<Rightarrow> f64 \<Rightarrow> f64" where
  "f64_div x y =
     (case (f64_val x, f64_val y) of
        (FV_Fin s1 m1 e1, FV_Fin s2 m2 e2) \<Rightarrow>
          if m2 = 0 then (if m1 = 0 then f64_nan else f64_inf (s1 \<noteq> s2))
          else let n = m1 * 2 ^ 128; q = n div m2; sticky = (if n mod m2 = 0 then 0 else 1)
               in f64_round (s1 \<noteq> s2) (2 * q + sticky) (e1 - e2 - 129)
      | (FV_Inf s1, FV_Fin s2 _ _) \<Rightarrow> f64_inf (s1 \<noteq> s2)
      | (FV_Fin s1 _ _, FV_Inf s2) \<Rightarrow> of_int (sign_bit64 (s1 \<noteq> s2))
      | _ \<Rightarrow> f64_nan)"

text \<open>The order of the values; \<open>fval_less\<close> is false when a NaN is compared.\<close>

definition fval_less :: "fval \<Rightarrow> fval \<Rightarrow> bool" where
  "fval_less x y =
     (case (x, y) of
        (FV_Fin s1 m1 e1, FV_Fin s2 m2 e2) \<Rightarrow>
          (let e = min e1 e2 in signed_mant s1 m1 e1 e < signed_mant s2 m2 e2 e)
      | (FV_Inf s1, FV_Inf s2) \<Rightarrow> s1 \<and> \<not> s2
      | (FV_Inf s, FV_Fin _ _ _) \<Rightarrow> s
      | (FV_Fin _ _ _, FV_Inf s) \<Rightarrow> \<not> s
      | _ \<Rightarrow> False)"

definition f64_less :: "f64 \<Rightarrow> f64 \<Rightarrow> bool" where
  "f64_less x y \<longleftrightarrow> fval_less (f64_val x) (f64_val y)"

definition f64_sqrt :: "f64 \<Rightarrow> f64" where
  "f64_sqrt x =
     (case f64_val x of
        FV_Fin s m e \<Rightarrow>
          if m = 0 then x
          else if s then f64_nan
          else let m1 = (if even e then m else 2 * m); e1 = (if even e then e else e - 1);
                   n = m1 * 2 ^ 128; q = isqrt n; sticky = (if q * q = n then 0 else 1)
               in f64_round False (2 * q + sticky) (e1 div 2 - 65)
      | FV_Inf False \<Rightarrow> x
      | _ \<Rightarrow> f64_nan)"

text \<open>A number with a fraction is below $2^{53}$, so its floor is exact.\<close>

definition f64_floor :: "f64 \<Rightarrow> f64" where
  "f64_floor x =
     (case f64_val x of
        FV_Fin s m e \<Rightarrow>
          if 0 \<le> e \<or> m = 0 then x
          else let q = m div 2 ^ nat (- e); frac = (m mod 2 ^ nat (- e) \<noteq> 0)
               in f64_round s (if frac \<and> s then q + 1 else q) 0
      | _ \<Rightarrow> x)"

section \<open>Conversions\<close>

definition f64_of_int :: "int \<Rightarrow> f64" where
  "f64_of_int z = f64_round (z < 0) \<bar>z\<bar> 0"

definition f64_lit :: "int \<Rightarrow> nat \<Rightarrow> f64" where
  "f64_lit z k =
     (let n = \<bar>z\<bar> * 2 ^ 256; d = 10 ^ k; q = n div d; sticky = (if n mod d = 0 then 0 else 1)
      in f64_round (z < 0) (2 * q + sticky) (- 257))"

text \<open>Towards zero, then clamped to the range of the target.\<close>

definition fval_trunc :: "fval \<Rightarrow> int \<Rightarrow> int \<Rightarrow> int" where
  "fval_trunc v lo hi =
     (case v of
        FV_NaN \<Rightarrow> 0
      | FV_Inf s \<Rightarrow> if s then lo else hi
      | FV_Fin s m e \<Rightarrow>
          let z = (if 0 \<le> e then m * 2 ^ nat e else m div 2 ^ nat (- e))
          in max lo (min hi (if s then - z else z)))"

definition f64_to_i64 :: "f64 \<Rightarrow> 64 word" where
  "f64_to_i64 x = of_int (fval_trunc (f64_val x) (- (2 ^ 63)) (2 ^ 63 - 1))"

definition f64_to_u64 :: "f64 \<Rightarrow> u64" where
  "f64_to_u64 x = of_int (fval_trunc (f64_val x) 0 (2 ^ 64 - 1))"

definition f32_to_i32 :: "f32 \<Rightarrow> 32 word" where
  "f32_to_i32 x = of_int (fval_trunc (f32_val x) (- (2 ^ 31)) (2 ^ 31 - 1))"

definition f64_to_f32 :: "f64 \<Rightarrow> f32" where
  "f64_to_f32 x =
     (case f64_val x of FV_NaN \<Rightarrow> f32_nan | FV_Inf s \<Rightarrow> f32_inf s | FV_Fin s m e \<Rightarrow> f32_round s m e)"

text \<open>\<open>max\<close> of a NaN is the other number.\<close>

definition f32_max :: "f32 \<Rightarrow> f32 \<Rightarrow> f32" where
  "f32_max x y = (if f32_val x = FV_NaN then y else if f32_val y = FV_NaN then x else if f32_less x y then y else x)"

definition f32_min :: "f32 \<Rightarrow> f32 \<Rightarrow> f32" where
  "f32_min x y = (if f32_val x = FV_NaN then y else if f32_val y = FV_NaN then x else if f32_less y x then y else x)"

definition f32_abs :: "f32 \<Rightarrow> f32" where
  "f32_abs x = and x 0x7FFFFFFF"

text \<open>The remainder \<open>%\<close> is exact and has the sign of the dividend.\<close>

definition f32_rem :: "f32 \<Rightarrow> f32 \<Rightarrow> f32" where
  "f32_rem x y =
     (case (f32_val x, f32_val y) of
        (FV_Fin s1 m1 e1, FV_Fin s2 m2 e2) \<Rightarrow>
          if m2 = 0 then f32_nan
          else let e = min e1 e2; r = (m1 * 2 ^ nat (e1 - e)) mod (m2 * 2 ^ nat (e2 - e)) in f32_round s1 r e
      | (FV_Fin _ _ _, FV_Inf _) \<Rightarrow> x
      | _ \<Rightarrow> f32_nan)"

section \<open>Known patterns\<close>

lemma f64_known:
  "f64_of_int 1 = 0x3FF0000000000000" "f64_lit 1 1 = 0x3FB999999999999A" "f64_lit (- 15) 1 = 0xBFF8000000000000"
  "f64_add (f64_lit 1 1) (f64_lit 2 1) = 0x3FD3333333333334" "f64_mul (f64_lit 1 1) (f64_of_int 3) = 0x3FD3333333333334"
  "f64_div (f64_of_int 1) (f64_of_int 3) = 0x3FD5555555555555" "f64_sqrt (f64_of_int 2) = 0x3FF6A09E667F3BCD"
  "f64_floor (f64_lit (- 25) 1) = f64_of_int (- 3)" "f64_to_i64 (f64_lit (- 29) 1) = - 2"
  "f64_to_u64 (f64_of_int (- 5)) = 0" "f64_to_f32 (f64_lit 1 1) = f32_lit 1 1" "f32_to_i32 (f32_of_int (- 7)) = - 7"
  "f64_of_int (2 ^ 53 + 1) = f64_of_int (2 ^ 53)" "f32_rem (f32_lit 75 1) (f32_of_int 2) = f32_lit 15 1"
  "f32_rem (f32_of_int (- 7)) (f32_of_int 3) = f32_of_int (- 1)" "f32_abs (f32_of_int (- 7)) = f32_of_int 7"
  by code_simp+

section \<open>The order is transitive\<close>

definition fval_key :: "int \<Rightarrow> fval \<Rightarrow> int" where
  "fval_key e v = (case v of FV_Fin s m ex \<Rightarrow> signed_mant s m ex e | _ \<Rightarrow> 0)"

lemma signed_mant_scale:
  assumes "e \<le> d" and "d \<le> ex" shows "signed_mant s m ex e = signed_mant s m ex d * 2 ^ nat (d - e)"
proof -
  have "nat (ex - e) = nat (ex - d) + nat (d - e)" using assms by simp
  then show ?thesis by (simp add: signed_mant_def power_add)
qed

text \<open>The common exponent of a comparison does not matter.\<close>

lemma fin_less_at:
  assumes "e \<le> e1" and "e \<le> e2"
  shows "fval_less (FV_Fin s1 m1 e1) (FV_Fin s2 m2 e2) \<longleftrightarrow> signed_mant s1 m1 e1 e < signed_mant s2 m2 e2 e"
proof -
  have "e \<le> min e1 e2" using assms by simp
  then show ?thesis
    by (simp add: fval_less_def Let_def signed_mant_scale[of e "min e1 e2"])
qed

lemma fval_less_trans: "fval_less x y \<Longrightarrow> fval_less y z \<Longrightarrow> fval_less x z"
proof (cases x; cases y; cases z)
  fix s1 m1 e1 s2 m2 e2 s3 m3 e3
  assume f: "x = FV_Fin s1 m1 e1" "y = FV_Fin s2 m2 e2" "z = FV_Fin s3 m3 e3"
    and l: "fval_less x y" "fval_less y z"
  let ?e = "min e1 (min e2 e3)"
  have e: "?e \<le> e1" "?e \<le> e2" "?e \<le> e3" by simp_all
  show "fval_less x z"
    using l unfolding f fin_less_at[OF e(1,2)] fin_less_at[OF e(2,3)] fin_less_at[OF e(1,3)] by (rule less_trans)
qed (auto simp: fval_less_def)

lemma f64_less_trans: "f64_less x y \<Longrightarrow> f64_less y z \<Longrightarrow> f64_less x z"
  unfolding f64_less_def by (rule fval_less_trans)

lemma f64_less_nan: "f64_val x = FV_NaN \<Longrightarrow> \<not> f64_less y x \<and> \<not> f64_less x y"
  by (auto simp: f64_less_def fval_less_def split: fval.split)

end
