(* ===== verification/Terrain.thy ===== *)
theory Terrain
  imports Primitives F64
begin

text \<open>
  Procedural terrain, \<open>crates/game-engine/src/terrain.rs\<close>: hash noise, heights, biomes, tiles, and
  the world terrain that caches the chunks it generated. Coordinates are \<open>i32\<close> and wrap as in a
  release build; an index out of range panics (\<open>None\<close>).
\<close>

section \<open>Tiles, biomes, chunks\<close>

definition CHUNK_SIZE :: u32 where
  "CHUNK_SIZE = 16"

datatype tile_type =
  TT_DeepWater | TT_ShallowWater | TT_Sand | TT_Grass | TT_Forest | TT_DenseForest | TT_Hills
  | TT_Mountain | TT_Snow | TT_Swamp | TT_Desert | TT_Village

definition tile_is_walkable :: "tile_type \<Rightarrow> bool" where
  "tile_is_walkable t = (case t of TT_DeepWater \<Rightarrow> False | TT_Mountain \<Rightarrow> False | TT_Snow \<Rightarrow> False | _ \<Rightarrow> True)"

definition movement_multiplier :: "tile_type \<Rightarrow> f32" where
  "movement_multiplier t =
     (case t of
        TT_DeepWater \<Rightarrow> 0 | TT_Mountain \<Rightarrow> 0 | TT_Snow \<Rightarrow> 0
      | TT_ShallowWater \<Rightarrow> f32_lit 5 1 | TT_Swamp \<Rightarrow> f32_lit 5 1
      | TT_Sand \<Rightarrow> f32_lit 8 1 | TT_Desert \<Rightarrow> f32_lit 8 1
      | TT_Forest \<Rightarrow> f32_lit 7 1 | TT_DenseForest \<Rightarrow> f32_lit 5 1 | TT_Hills \<Rightarrow> f32_lit 6 1
      | TT_Grass \<Rightarrow> f32_of_int 1 | TT_Village \<Rightarrow> f32_of_int 1)"

datatype biome = BI_Ocean | BI_Beach | BI_Plains | BI_Forest | BI_Mountains | BI_Desert | BI_Swamp | BI_Tundra

type_synonym i32 = "32 word"

record terrain_chunk =
  tc_cx :: i32
  tc_cy :: i32
  tc_tiles :: "tile_type list"
  tc_heights :: "f32 list"
  tc_biome :: biome

definition chunk_index :: "u32 \<Rightarrow> u32 \<Rightarrow> nat" where
  "chunk_index lx ly = unat (ly * CHUNK_SIZE + lx)"

definition checked_nth :: "'a list \<Rightarrow> nat \<Rightarrow> 'a option" where
  "checked_nth xs i = (if i < length xs then Some (xs ! i) else None)"

definition chunk_get_tile :: "terrain_chunk \<Rightarrow> u32 \<Rightarrow> u32 \<Rightarrow> tile_type option" where
  "chunk_get_tile c lx ly =
     (if CHUNK_SIZE \<le> lx \<or> CHUNK_SIZE \<le> ly then Some TT_DeepWater else checked_nth (tc_tiles c) (chunk_index lx ly))"

definition chunk_get_height :: "terrain_chunk \<Rightarrow> u32 \<Rightarrow> u32 \<Rightarrow> f32 option" where
  "chunk_get_height c lx ly =
     (if CHUNK_SIZE \<le> lx \<or> CHUNK_SIZE \<le> ly then Some 0 else checked_nth (tc_heights c) (chunk_index lx ly))"

section \<open>Noise\<close>

definition hash2d :: "externs \<Rightarrow> u64 \<Rightarrow> 64 word \<Rightarrow> 64 word \<Rightarrow> u64 \<Rightarrow> f64" where
  "hash2d X seed x y octave =
     (let result = to_be_bytes 32 (x_keccak X (to_le_bytes 8 seed @ to_le_bytes 8 x @ to_le_bytes 8 y @ to_le_bytes 8 octave));
          v = (from_le_bytes (take 4 result) :: u32)
      in f64_div (f64_of_int (uint v)) (f64_of_int (2 ^ 32 - 1)))"

definition smooth :: "f64 \<Rightarrow> f64" where
  "smooth f = f64_mul (f64_mul f f) (f64_sub (f64_of_int 3) (f64_mul (f64_of_int 2) f))"

definition mix :: "f64 \<Rightarrow> f64 \<Rightarrow> f64 \<Rightarrow> f64" where
  "mix s a b = f64_add a (f64_mul s (f64_sub b a))"

definition noise2d :: "externs \<Rightarrow> u64 \<Rightarrow> f64 \<Rightarrow> f64 \<Rightarrow> u64 \<Rightarrow> f64" where
  "noise2d X seed x y octave =
     (let ix = f64_to_i64 (f64_floor x); iy = f64_to_i64 (f64_floor y);
          sx = smooth (f64_sub x (f64_floor x)); sy = smooth (f64_sub y (f64_floor y));
          n00 = hash2d X seed ix iy octave; n10 = hash2d X seed (ix + 1) iy octave;
          n01 = hash2d X seed ix (iy + 1) octave; n11 = hash2d X seed (ix + 1) (iy + 1) octave
      in mix sy (mix sx n00 n10) (mix sx n01 n11))"

text \<open>The loop over the octaves: height, amplitude, frequency, sum of the amplitudes.\<close>

definition octave_step ::
  "externs \<Rightarrow> u64 \<Rightarrow> f64 \<Rightarrow> f64 \<Rightarrow> u64 \<Rightarrow> f64 \<times> f64 \<times> f64 \<times> f64 \<Rightarrow> f64 \<times> f64 \<times> f64 \<times> f64" where
  "octave_step X seed x y octave s =
     (case s of (height, amplitude, frequency, total_amplitude) \<Rightarrow>
        (f64_add height (f64_mul (noise2d X seed (f64_mul x frequency) (f64_mul y frequency) (octave + 10)) amplitude),
         f64_mul amplitude (f64_lit 5 1), f64_mul frequency (f64_of_int 2), f64_add total_amplitude amplitude))"

definition height_at :: "externs \<Rightarrow> u64 \<Rightarrow> f64 \<Rightarrow> f64 \<Rightarrow> f64" where
  "height_at X seed x y =
     (case fold (octave_step X seed x y) [0, 1, 2, 3] (0, f64_of_int 1, f64_lit 2 2, 0) of
        (height, _, _, total_amplitude) \<Rightarrow> f64_div height total_amplitude)"

section \<open>Biomes and tiles\<close>

abbreviation f64_greater :: "f64 \<Rightarrow> f64 \<Rightarrow> bool" where
  "f64_greater x y \<equiv> f64_less y x"

definition biome_at_chunk :: "externs \<Rightarrow> u64 \<Rightarrow> i32 \<Rightarrow> i32 \<Rightarrow> biome" where
  "biome_at_chunk X seed cx cy =
     (let fx = f64_mul (f64_of_int (sint cx)) (f64_lit 1 1); fy = f64_mul (f64_of_int (sint cy)) (f64_lit 1 1);
          temperature = noise2d X seed fx fy 1; moisture = noise2d X seed fx fy 2;
          dist = f64_sqrt (f64_of_int (sint (cx * cx + cy * cy)))
      in if f64_greater dist (f64_of_int 20) \<and> f64_less temperature (f64_lit 3 1) then BI_Ocean
         else if f64_greater temperature (f64_lit 5 1) then
           (if f64_greater moisture (f64_lit 5 1)
            then (if f64_greater temperature (f64_lit 8 1) then BI_Swamp else BI_Forest)
            else BI_Desert)
         else if f64_greater moisture (f64_lit 5 1)
           then (if f64_less temperature (f64_lit 2 1) then BI_Tundra else BI_Plains)
           else (if f64_less moisture (f64_lit 3 1) then BI_Mountains else BI_Beach))"

definition tile_from_height_and_biome :: "externs \<Rightarrow> u64 \<Rightarrow> f64 \<Rightarrow> biome \<Rightarrow> f64 \<Rightarrow> f64 \<Rightarrow> tile_type" where
  "tile_from_height_and_biome X seed height b x y =
     (let detail = (\<lambda>scale octave. noise2d X seed (f64_mul x scale) (f64_mul y scale) octave) in
      case b of
        BI_Ocean \<Rightarrow> if f64_less height (f64_lit 3 1) then TT_DeepWater else TT_ShallowWater
      | BI_Beach \<Rightarrow>
          if f64_less height (f64_lit 3 1) then TT_ShallowWater
          else if f64_less height (f64_lit 5 1) then TT_Sand else TT_Grass
      | BI_Plains \<Rightarrow>
          let d = detail (f64_lit 1 1) 50 in
          if f64_less height (f64_lit 25 2) then TT_ShallowWater
          else if f64_greater d (f64_lit 7 1) then TT_Forest
          else if f64_greater d (f64_lit 85 2) then TT_Village
          else TT_Grass
      | BI_Forest \<Rightarrow>
          let d = detail (f64_lit 15 2) 51 in
          if f64_less height (f64_lit 2 1) then TT_ShallowWater
          else if f64_greater d (f64_lit 6 1) then TT_DenseForest else TT_Forest
      | BI_Mountains \<Rightarrow>
          if f64_greater height (f64_lit 8 1) then TT_Snow
          else if f64_greater height (f64_lit 6 1) then TT_Mountain
          else if f64_greater height (f64_lit 4 1) then TT_Hills else TT_Grass
      | BI_Desert \<Rightarrow>
          let d = detail (f64_lit 8 2) 52 in
          if f64_less height (f64_lit 15 2) then TT_ShallowWater
          else if f64_greater d (f64_lit 85 2) then TT_Sand else TT_Desert
      | BI_Swamp \<Rightarrow>
          let d = detail (f64_lit 12 2) 53 in
          if f64_less d (f64_lit 4 1) then TT_ShallowWater else TT_Swamp
      | BI_Tundra \<Rightarrow>
          if f64_greater height (f64_lit 7 1) then TT_Snow
          else if f64_greater height (f64_lit 5 1) then TT_Hills else TT_Grass)"

text \<open>The tiles in row-major order.\<close>

definition chunk_cells :: "(nat \<times> nat) list" where
  "chunk_cells = [(lx, ly). ly \<leftarrow> [0..<16], lx \<leftarrow> [0..<16]]"

definition world_coord :: "i32 \<Rightarrow> nat \<Rightarrow> f64" where
  "world_coord c l = f64_add (f64_mul (f64_of_int (sint c)) (f64_of_int (uint CHUNK_SIZE))) (f64_of_int (int l))"

definition generate_chunk :: "externs \<Rightarrow> u64 \<Rightarrow> i32 \<Rightarrow> i32 \<Rightarrow> terrain_chunk" where
  "generate_chunk X seed cx cy =
     (let b = biome_at_chunk X seed cx cy;
          h = (\<lambda>(lx, ly). height_at X seed (world_coord cx lx) (world_coord cy ly))
      in \<lparr> tc_cx = cx, tc_cy = cy,
           tc_tiles = map (\<lambda>(lx, ly). tile_from_height_and_biome X seed (h (lx, ly)) b
             (world_coord cx lx) (world_coord cy ly)) chunk_cells,
           tc_heights = map (\<lambda>p. f64_to_f32 (h p)) chunk_cells, tc_biome = b \<rparr>)"

section \<open>The world terrain\<close>

record world_terrain =
  wt_seed :: u64
  wt_chunks :: "((i32 \<times> i32) \<times> terrain_chunk) list"

definition world_terrain_new :: "u64 \<Rightarrow> world_terrain" where
  "world_terrain_new seed = \<lparr> wt_seed = seed, wt_chunks = [] \<rparr>"

definition get_chunk :: "externs \<Rightarrow> i32 \<Rightarrow> i32 \<Rightarrow> world_terrain \<Rightarrow> terrain_chunk \<times> world_terrain" where
  "get_chunk X cx cy t =
     (case map_of (wt_chunks t) (cx, cy) of
        Some c \<Rightarrow> (c, t)
      | None \<Rightarrow> let c = generate_chunk X (wt_seed t) cx cy
                in (c, t\<lparr>wt_chunks := AList.update (cx, cy) c (wt_chunks t)\<rparr>))"

definition div_chunk :: "i32 \<Rightarrow> i32" where
  "div_chunk w = of_int (sint w div 16)"

definition rem_chunk :: "i32 \<Rightarrow> u32" where
  "rem_chunk w = of_int (sint w mod 16)"

definition get_tile_at :: "externs \<Rightarrow> i32 \<Rightarrow> i32 \<Rightarrow> world_terrain \<Rightarrow> tile_type option \<times> world_terrain" where
  "get_tile_at X wx wy t =
     (let (c, t1) = get_chunk X (div_chunk wx) (div_chunk wy) t in (chunk_get_tile c (rem_chunk wx) (rem_chunk wy), t1))"

definition get_height_at :: "externs \<Rightarrow> i32 \<Rightarrow> i32 \<Rightarrow> world_terrain \<Rightarrow> f32 option \<times> world_terrain" where
  "get_height_at X wx wy t =
     (let (c, t1) = get_chunk X (div_chunk wx) (div_chunk wy) t in (chunk_get_height c (rem_chunk wx) (rem_chunk wy), t1))"

definition is_walkable :: "externs \<Rightarrow> f32 \<Rightarrow> f32 \<Rightarrow> world_terrain \<Rightarrow> bool option \<times> world_terrain" where
  "is_walkable X x y t =
     (let (r, t1) = get_tile_at X (f32_to_i32 (f32_floor x)) (f32_to_i32 (f32_floor y)) t
      in (map_option tile_is_walkable r, t1))"

definition movement_speed_at :: "externs \<Rightarrow> f32 \<Rightarrow> f32 \<Rightarrow> world_terrain \<Rightarrow> f32 option \<times> world_terrain" where
  "movement_speed_at X x y t =
     (let (r, t1) = get_tile_at X (f32_to_i32 (f32_floor x)) (f32_to_i32 (f32_floor y)) t
      in (map_option movement_multiplier r, t1))"

definition biome_at :: "externs \<Rightarrow> f32 \<Rightarrow> f32 \<Rightarrow> world_terrain \<Rightarrow> biome \<times> world_terrain" where
  "biome_at X x y t =
     (let c = (\<lambda>v. f32_to_i32 (f32_floor (f32_div v (f32_of_int (uint CHUNK_SIZE)))));
          (k, t1) = get_chunk X (c x) (c y) t
      in (tc_biome k, t1))"

definition cached_chunk_count :: "world_terrain \<Rightarrow> nat" where
  "cached_chunk_count t = length (wt_chunks t)"

definition generate_spawn_area :: "externs \<Rightarrow> world_terrain \<Rightarrow> world_terrain" where
  "generate_spawn_area X t =
     fold (\<lambda>(cx, cy) t. snd (get_chunk X cx cy t)) [(of_int x, of_int y). y \<leftarrow> [- 2..2], x \<leftarrow> [- 2..2]] t"


section \<open>Villages are never generated\<close>

lemma village_threshold: "f64_less (f64_lit 7 1) (f64_lit 85 2)"
  by code_simp

lemma no_village_tile: "tile_from_height_and_biome X seed h b x y \<noteq> TT_Village"
  using f64_less_trans[OF village_threshold]
  by (cases b) (auto simp: tile_from_height_and_biome_def Let_def)

text \<open>No chunk has a village: the test for one comes after a weaker test that gives a forest.\<close>

theorem no_village_is_generated:
  "TT_Village \<notin> set (tc_tiles (generate_chunk X seed cx cy))"
  by (auto simp: generate_chunk_def Let_def no_village_tile[THEN not_sym])

section \<open>The cache is transparent\<close>

datatype terrain_query =
    TQ_Chunk i32 i32 | TQ_Tile i32 i32 | TQ_Height i32 i32 | TQ_Walkable f32 f32 | TQ_Speed f32 f32
  | TQ_Biome f32 f32 | TQ_SpawnArea

fun terrain_step :: "externs \<Rightarrow> terrain_query \<Rightarrow> world_terrain \<Rightarrow> world_terrain" where
  "terrain_step X (TQ_Chunk cx cy) t = snd (get_chunk X cx cy t)"
| "terrain_step X (TQ_Tile x y) t = snd (get_tile_at X x y t)"
| "terrain_step X (TQ_Height x y) t = snd (get_height_at X x y t)"
| "terrain_step X (TQ_Walkable x y) t = snd (is_walkable X x y t)"
| "terrain_step X (TQ_Speed x y) t = snd (movement_speed_at X x y t)"
| "terrain_step X (TQ_Biome x y) t = snd (biome_at X x y t)"
| "terrain_step X TQ_SpawnArea t = generate_spawn_area X t"

definition terrain_ok :: "externs \<Rightarrow> u64 \<Rightarrow> world_terrain \<Rightarrow> bool" where
  "terrain_ok X seed t \<longleftrightarrow> wt_seed t = seed \<and>
     (\<forall>cx cy c. map_of (wt_chunks t) (cx, cy) = Some c \<longrightarrow> c = generate_chunk X seed cx cy)"

lemma get_chunk_ok:
  assumes "terrain_ok X seed t"
  shows "fst (get_chunk X cx cy t) = generate_chunk X seed cx cy" and "terrain_ok X seed (snd (get_chunk X cx cy t))"
  using assms by (auto simp: get_chunk_def terrain_ok_def Let_def velo_map simp del: map_of_eq_Some_iff
      split: option.split)

lemma spawn_area_ok:
  "terrain_ok X seed t \<Longrightarrow> terrain_ok X seed (fold (\<lambda>(cx, cy) t. snd (get_chunk X cx cy t)) ps t)"
  by (induction ps arbitrary: t) (auto intro: get_chunk_ok(2))

lemma terrain_step_ok: "terrain_ok X seed t \<Longrightarrow> terrain_ok X seed (terrain_step X q t)"
  by (cases q) (auto simp: get_tile_at_def get_height_at_def is_walkable_def movement_speed_at_def biome_at_def
      generate_spawn_area_def Let_def case_prod_beta intro: get_chunk_ok(2) spawn_area_ok)

lemma terrain_run_ok: "terrain_ok X seed t \<Longrightarrow> terrain_ok X seed (fold (terrain_step X) qs t)"
  by (induction qs arbitrary: t) (simp_all add: terrain_step_ok)

lemma chunk_cells_rows: "chunk_cells = map (\<lambda>i. (i mod 16, i div 16)) [0..<256]"
  by code_simp

lemma rem_chunk_bound: "rem_chunk w < 16" "unat (rem_chunk w) = nat (sint w mod 16)"
proof -
  have b: "0 \<le> sint w mod 16" "sint w mod 16 < 16" by simp_all
  then have "uint (rem_chunk w) = sint w mod 16"
    by (simp add: rem_chunk_def unsigned_of_int take_bit_int_eq_self)
  then show "unat (rem_chunk w) = nat (sint w mod 16)" by (metis nat_uint_eq)
  then show "rem_chunk w < 16" using b by (simp add: word_less_nat_alt)
qed

lemma chunk_index_cell:
  assumes "lx < 16" and "ly < 16"
  shows "chunk_index lx ly < length chunk_cells" and "chunk_cells ! chunk_index lx ly = (unat lx, unat ly)"
proof -
  have b: "unat lx < 16" "unat ly < 16" using assms by (simp_all add: word_less_nat_alt)
  have i: "chunk_index lx ly = unat ly * 16 + unat lx"
    using b by (simp add: chunk_index_def CHUNK_SIZE_def unat_word_ariths)
  show "chunk_index lx ly < length chunk_cells" using b by (simp add: chunk_cells_rows i)
  then show "chunk_cells ! chunk_index lx ly = (unat lx, unat ly)" using b by (simp add: chunk_cells_rows i)
qed

text \<open>C28. Whatever was asked before, and hence whatever is cached, the tile at a position is the one
  the generator gives for exactly that position and its chunk; no query reads outside a chunk.\<close>

theorem terrain_cache_transparent:
  "fst (get_tile_at X wx wy (fold (terrain_step X) qs (world_terrain_new seed)))
     = (let x = world_coord (div_chunk wx) (nat (sint wx mod 16)); y = world_coord (div_chunk wy) (nat (sint wy mod 16))
        in Some (tile_from_height_and_biome X seed (height_at X seed x y)
             (biome_at_chunk X seed (div_chunk wx) (div_chunk wy)) x y))"
proof -
  have "terrain_ok X seed (world_terrain_new seed)" by (simp add: terrain_ok_def world_terrain_new_def)
  note ok = terrain_run_ok[OF this, of qs]
  note i = chunk_index_cell[OF rem_chunk_bound(1)[of wx] rem_chunk_bound(1)[of wy]]
  have n: "\<not> 16 \<le> rem_chunk wx" "\<not> 16 \<le> rem_chunk wy" using rem_chunk_bound(1) by (simp_all add: not_le)
  show ?thesis
    using i rem_chunk_bound(2)
    by (simp add: get_tile_at_def case_prod_beta get_chunk_ok(1)[OF ok] chunk_get_tile_def CHUNK_SIZE_def checked_nth_def
        n generate_chunk_def Let_def)
qed

section \<open>Far chunks\<close>

text \<open>The square of the distance wraps: at chunk 46341 it is negative, its root is a NaN and the chunk
  is no ocean, whatever the noise.\<close>

lemma far_chunk_never_ocean: "biome_at_chunk X seed 46341 0 \<noteq> BI_Ocean"
proof -
  have "\<not> f64_greater (f64_sqrt (f64_of_int (sint (46341 * 46341 + 0 * 0 :: i32)))) (f64_of_int 20)" by code_simp
  then show ?thesis by (simp add: biome_at_chunk_def Let_def)
qed

end
