(* ===== verification/Combat.thy ===== *)
theory Combat
  imports Ecs F64
begin

text \<open>
  Combat, \<open>crates/game-engine/src/combat.rs\<close>: the damage formula, the deterministic roll, range,
  experience, and the resolver that turns the attacks of a tick into damage. The game tick does not
  call it (\<open>process_action\<close> of \<open>Game_World\<close> takes ten points off directly).
\<close>

section \<open>Stats\<close>

record combat_stats =
  cs_attack :: f32
  cs_defense :: f32
  cs_attack_range :: f32
  cs_attack_cooldown :: u32
  cs_cooldown_remaining :: u32
  cs_crit_chance :: f32
  cs_crit_multiplier :: f32

definition combat_stats_default :: combat_stats where
  "combat_stats_default =
     \<lparr> cs_attack = 0, cs_defense = 0, cs_attack_range = 0, cs_attack_cooldown = 0, cs_cooldown_remaining = 0,
       cs_crit_chance = 0, cs_crit_multiplier = 0 \<rparr>"

definition player_default_stats :: combat_stats where
  "player_default_stats =
     \<lparr> cs_attack = f32_of_int 10, cs_defense = f32_of_int 5, cs_attack_range = f32_of_int 2,
       cs_attack_cooldown = 5, cs_cooldown_remaining = 0, cs_crit_chance = f32_lit 5 2,
       cs_crit_multiplier = f32_of_int 2 \<rparr>"

definition from_npc :: "f32 \<Rightarrow> f32 \<Rightarrow> u32 \<Rightarrow> combat_stats" where
  "from_npc damage reach cooldown =
     \<lparr> cs_attack = damage, cs_defense = f32_mul damage (f32_lit 3 1), cs_attack_range = reach,
       cs_attack_cooldown = cooldown, cs_cooldown_remaining = 0, cs_crit_chance = 0,
       cs_crit_multiplier = f32_lit 15 1 \<rparr>"

definition can_attack :: "combat_stats \<Rightarrow> bool" where
  "can_attack s \<longleftrightarrow> cs_cooldown_remaining s = 0 \<and> f32_less 0 (cs_attack s)"

definition tick_cooldown :: "combat_stats \<Rightarrow> combat_stats" where
  "tick_cooldown s =
     (if 0 < cs_cooldown_remaining s then s\<lparr>cs_cooldown_remaining := cs_cooldown_remaining s - 1\<rparr> else s)"

definition start_cooldown :: "combat_stats \<Rightarrow> combat_stats" where
  "start_cooldown s = s\<lparr>cs_cooldown_remaining := cs_attack_cooldown s\<rparr>"

section \<open>Damage\<close>

record damage_result =
  dr_raw_damage :: f32
  dr_final_damage :: f32
  dr_is_critical :: bool
  dr_is_kill :: bool

definition deterministic_float :: "externs \<Rightarrow> u64 \<Rightarrow> u64 \<Rightarrow> u64 \<Rightarrow> f32" where
  "deterministic_float X tick entity_id index =
     (let result = to_be_bytes 32 (x_keccak X (to_le_bytes 8 tick @ to_le_bytes 8 entity_id @ to_le_bytes 8 index));
          v = (from_le_bytes (take 4 result) :: u32)
      in f32_div (f32_of_int (uint v)) (f32_of_int (2 ^ 32 - 1)))"

definition calculate_damage :: "externs \<Rightarrow> combat_stats \<Rightarrow> combat_stats \<Rightarrow> u64 \<Rightarrow> u64 \<Rightarrow> damage_result" where
  "calculate_damage X attacker defender tick attacker_id =
     (let crit_roll = deterministic_float X tick attacker_id 0;
          is_critical = f32_less crit_roll (cs_crit_chance attacker);
          crit_mult = (if is_critical then cs_crit_multiplier attacker else f32_of_int 1);
          raw = f32_mul (cs_attack attacker) crit_mult;
          reduction = f32_mul (cs_defense defender) (f32_lit 5 1)
      in \<lparr> dr_raw_damage = raw, dr_final_damage = f32_max (f32_sub raw reduction) (f32_of_int 1),
           dr_is_critical = is_critical, dr_is_kill = False \<rparr>)"

definition is_in_range :: "position_component \<Rightarrow> position_component \<Rightarrow> f32 \<Rightarrow> bool" where
  "is_in_range a t attack_range =
     (let dx = f32_sub (pos_x a) (pos_x t); dy = f32_sub (pos_y a) (pos_y t)
      in f32_le (f32_add (f32_mul dx dx) (f32_mul dy dy)) (f32_mul attack_range attack_range))"

section \<open>Experience\<close>

definition exp_for_level :: "u32 \<Rightarrow> u64" where
  "exp_for_level level = 100 * ucast level * ucast level"

text \<open>The difference of the levels is taken as \<open>i32\<close> and wraps.\<close>

definition exp_multiplier :: "u32 \<Rightarrow> u32 \<Rightarrow> f64" where
  "exp_multiplier killer victim =
     (let d = sint (victim - killer) in
      if 5 \<le> d then f64_of_int 2 else if 2 \<le> d then f64_lit 15 1 else if 0 \<le> d then f64_of_int 1
      else if - 2 \<le> d then f64_lit 75 2 else if - 5 \<le> d then f64_lit 5 1 else f64_lit 1 1)"

definition exp_gained :: "u32 \<Rightarrow> u32 \<Rightarrow> u64 \<Rightarrow> u64" where
  "exp_gained killer victim base_exp =
     f64_to_u64 (f64_mul (f64_of_int (uint base_exp)) (exp_multiplier killer victim))"

section \<open>The resolver\<close>

record combat_log_entry =
  cl_tick :: u64
  cl_attacker_id :: u64
  cl_target_id :: u64
  cl_damage :: f32
  cl_is_critical :: bool
  cl_is_kill :: bool

record combat_resolver =
  cb_pending_actions :: "(u64 \<times> u64) list"
  cb_log :: "combat_log_entry list"

definition combat_resolver_new :: combat_resolver where
  "combat_resolver_new = \<lparr> cb_pending_actions = [], cb_log = [] \<rparr>"

definition queue_attack :: "u64 \<Rightarrow> u64 \<Rightarrow> combat_resolver \<Rightarrow> combat_resolver" where
  "queue_attack attacker target r = r\<lparr>cb_pending_actions := cb_pending_actions r @ [(attacker, target)]\<rparr>"

definition combat_entry ::
  "externs \<Rightarrow> u64 \<Rightarrow> (u64 \<times> combat_stats) list \<Rightarrow> combat_stats \<Rightarrow> u64 \<Rightarrow> u64 \<Rightarrow> combat_log_entry" where
  "combat_entry X tick stats attacker_stats attacker target =
     (let defender = (case map_of stats target of Some s \<Rightarrow> s | None \<Rightarrow> combat_stats_default);
          damage = calculate_damage X attacker_stats defender tick attacker
      in \<lparr> cl_tick = tick, cl_attacker_id = attacker, cl_target_id = target, cl_damage = dr_final_damage damage,
           cl_is_critical = dr_is_critical damage, cl_is_kill = False \<rparr>)"

text \<open>The loop over the pending actions; log and results grow together.\<close>

fun resolve_actions ::
  "externs \<Rightarrow> u64 \<Rightarrow> (u64 \<times> combat_stats) list \<Rightarrow> (u64 \<times> u64) list
     \<Rightarrow> combat_log_entry list \<times> (u64 \<times> f32 \<times> combat_log_entry) list
     \<Rightarrow> combat_log_entry list \<times> (u64 \<times> f32 \<times> combat_log_entry) list" where
  "resolve_actions X tick stats [] acc = acc"
| "resolve_actions X tick stats ((attacker, target) # actions) (log, results) =
     (case map_of stats attacker of
        None \<Rightarrow> resolve_actions X tick stats actions (log, results)
      | Some s \<Rightarrow>
          if can_attack s then
            (let e = combat_entry X tick stats s attacker target
             in resolve_actions X tick stats actions (log @ [e], results @ [(target, cl_damage e, e)]))
          else resolve_actions X tick stats actions (log, results))"

definition resolve ::
  "externs \<Rightarrow> u64 \<Rightarrow> (u64 \<times> combat_stats) list \<Rightarrow> combat_resolver
     \<Rightarrow> (u64 \<times> f32 \<times> combat_log_entry) list \<times> combat_resolver" where
  "resolve X tick stats r =
     (let (log, results) = resolve_actions X tick stats (cb_pending_actions r) ([], [])
      in (results, r\<lparr>cb_log := log, cb_pending_actions := []\<rparr>))"

section \<open>What a tick of combat does\<close>

text \<open>At least one point, whatever the stats are, NaN and infinity included.\<close>

lemma f32_max_one: "\<not> f32_less (f32_max x (f32_of_int 1)) (f32_of_int 1) \<and> f32_val (f32_max x (f32_of_int 1)) \<noteq> FV_NaN"
proof -
  have "f32_val (f32_of_int 1) \<noteq> FV_NaN" by code_simp
  then show ?thesis by (auto simp: f32_max_def)
qed

lemma damage_at_least_one: "f32_le (f32_of_int 1) (dr_final_damage (calculate_damage X a d tick i))"
proof -
  have "f32_val (f32_of_int 1) \<noteq> FV_NaN" by code_simp
  then show ?thesis
    using f32_max_one by (auto simp: calculate_damage_def Let_def f32_le_def f32_eq_def)
qed

definition may_attack :: "(u64 \<times> combat_stats) list \<Rightarrow> u64 \<times> u64 \<Rightarrow> bool" where
  "may_attack stats a = (case map_of stats (fst a) of None \<Rightarrow> False | Some s \<Rightarrow> can_attack s)"

definition attack_entry :: "externs \<Rightarrow> u64 \<Rightarrow> (u64 \<times> combat_stats) list \<Rightarrow> u64 \<times> u64 \<Rightarrow> combat_log_entry" where
  "attack_entry X tick stats a = combat_entry X tick stats (the (map_of stats (fst a))) (fst a) (snd a)"

lemma resolve_actions_eq:
  "resolve_actions X tick stats actions (log, results) =
     (log @ map (attack_entry X tick stats) (filter (may_attack stats) actions),
      results @ map (\<lambda>a. (snd a, cl_damage (attack_entry X tick stats a), attack_entry X tick stats a))
        (filter (may_attack stats) actions))"
proof (induction actions arbitrary: log results)
  case (Cons a actions)
  then show ?case
    by (cases a; cases "map_of stats (fst a)")
      (simp_all add: may_attack_def attack_entry_def Let_def del: map_of_eq_Some_iff)
qed simp

text \<open>C27. Resolving a tick gives one result per queued attack whose attacker is known and may attack,
  in order and each as if it were alone: the log is those entries, nobody is hit by anything else,
  every hit does at least one point, even to a target that does not exist or with stats that are no
  numbers, and the queue is empty afterwards. An attacker queued twice hits twice, at any distance.\<close>

theorem resolve_hits_each_attack:
  assumes "resolve X tick stats r = (results, r')"
  shows "map (\<lambda>(t, d, e). (cl_attacker_id e, t)) results
      = filter (\<lambda>a. \<exists>s. map_of stats (fst a) = Some s \<and> can_attack s) (cb_pending_actions r)
    \<and> cb_log r' = map (\<lambda>(t, d, e). e) results \<and> cb_pending_actions r' = []
    \<and> (\<forall>(t, d, e) \<in> set results. f32_le (f32_of_int 1) d \<and> cl_damage e = d \<and> cl_target_id e = t \<and> cl_tick e = tick
        \<and> [(t, d, e)] = fst (resolve X tick stats (queue_attack (cl_attacker_id e) t combat_resolver_new)))"
proof -
  let ?as = "filter (may_attack stats) (cb_pending_actions r)"
  have m: "may_attack stats a \<longleftrightarrow> (\<exists>s. map_of stats (fst a) = Some s \<and> can_attack s)" for a
    by (simp add: may_attack_def split: option.split)
  have res: "results = map (\<lambda>a. (snd a, cl_damage (attack_entry X tick stats a), attack_entry X tick stats a)) ?as"
    and r': "r' = r\<lparr>cb_log := map (attack_entry X tick stats) ?as, cb_pending_actions := []\<rparr>"
    using assms by (simp_all add: resolve_def Let_def resolve_actions_eq)
  have e: "cl_attacker_id (attack_entry X tick stats a) = fst a" "cl_target_id (attack_entry X tick stats a) = snd a"
    "cl_tick (attack_entry X tick stats a) = tick" "f32_le (f32_of_int 1) (cl_damage (attack_entry X tick stats a))" for a
    by (simp_all add: attack_entry_def combat_entry_def Let_def damage_at_least_one)
  have one: "fst (resolve X tick stats (queue_attack i t combat_resolver_new))
      = [(t, cl_damage (attack_entry X tick stats (i, t)), attack_entry X tick stats (i, t))]"
    if "map_of stats i = Some s" "can_attack s" for i t s
    using that
    by (simp add: resolve_def queue_attack_def combat_resolver_new_def resolve_actions_eq may_attack_def
        del: map_of_eq_Some_iff)
  have "map (\<lambda>(t, d, e). (cl_attacker_id e, t)) results = ?as" by (simp add: res comp_def e)
  moreover have "?as = filter (\<lambda>a. \<exists>s. map_of stats (fst a) = Some s \<and> can_attack s) (cb_pending_actions r)"
    by (rule filter_cong) (simp_all only: m)
  ultimately show ?thesis by (auto simp: res r' e one comp_def simp del: map_of_eq_Some_iff)
qed

theorem resolve_hits_each_attack_witness:
  "let r = queue_attack 1 9 (queue_attack 2 1 (queue_attack 1 2 combat_resolver_new))
   in map (\<lambda>(t, d, e). (cl_attacker_id e, t)) (fst (resolve demo_externs 5 [(1, player_default_stats)] r)) = [(1, 2), (1, 9)]"
proof -
  let ?r = "queue_attack 1 9 (queue_attack 2 1 (queue_attack 1 2 combat_resolver_new))"
  have c: "can_attack player_default_stats"
  proof -
    have "f32_less 0 (f32_of_int 10)" by code_simp
    then show ?thesis by (simp add: can_attack_def player_default_stats_def)
  qed
  obtain results r' where r: "resolve demo_externs 5 [(1, player_default_stats)] ?r = (results, r')" by fastforce
  show ?thesis
    using resolve_hits_each_attack[OF r] c r by (simp add: queue_attack_def combat_resolver_new_def)
qed

text \<open>The roll is documented to be below one; it is one when the first bytes of the hash are all ones.\<close>

lemma roll_can_be_one:
  assumes "take 4 (to_be_bytes 32 (x_keccak X (to_le_bytes 8 t @ to_le_bytes 8 i @ to_le_bytes 8 k))) = [255, 255, 255, 255]"
  shows "deterministic_float X t i k = f32_of_int 1"
proof -
  have "uint (from_le_bytes [255, 255, 255, 255] :: u32) = 4294967295"
    by (simp add: from_le_bytes_def from_be_bytes_def)
  moreover have "f32_of_int 4294967295 = 0x4F800000" by code_simp
  moreover have "f32_of_int 1 = 0x3F800000" by code_simp
  moreover have "f32_div 0x4F800000 0x4F800000 = 0x3F800000" by code_simp
  ultimately show ?thesis using assms by (simp add: deterministic_float_def Let_def)
qed

end
