(* ===== verification/Shutdown.thy ===== *)
theory Shutdown
  imports Velo_Prelude
begin

text \<open>
  The shutdown controller, \<open>crates/node/src/shutdown.rs\<close>, as a step relation: \<open>shutdown\<close> is an atomic
  swap, a wake-up of the registered waiters and a message to the subscribers, and \<open>wait_for_shutdown\<close>
  tests the flag and then registers; the calls of different tasks interleave between these steps.
  \<open>notify_waiters\<close> wakes the futures that exist when it is called and leaves no permit behind, as the
  documentation of tokio says. The signal handlers are one more caller of \<open>shutdown\<close>.
\<close>

section \<open>State and steps\<close>

datatype waiter = W_Checked | W_Waiting | W_Returned

datatype caller = C_Swapped | C_Notified | C_Done

record shutdown_controller =
  sd_initiated :: bool
  sd_waiters :: "nat \<Rightarrow> waiter option"
  sd_callers :: "nat \<Rightarrow> caller option"
  sd_receivers :: "nat \<Rightarrow> nat option"

definition shutdown_new :: shutdown_controller where
  "shutdown_new =
     \<lparr> sd_initiated = False, sd_waiters = (\<lambda>_. None), sd_callers = (\<lambda>_. None), sd_receivers = (\<lambda>_. None) \<rparr>"

definition is_shutdown :: "shutdown_controller \<Rightarrow> bool" where
  "is_shutdown s \<longleftrightarrow> sd_initiated s"

datatype shutdown_act =
    SA_Swap nat | SA_Notify nat | SA_Send nat | SA_Check nat | SA_Register nat | SA_Subscribe nat

text \<open>The swap: the first call goes on to wake the waiters, every later one is done.\<close>

definition swap_initiated :: "nat \<Rightarrow> shutdown_controller \<Rightarrow> shutdown_controller" where
  "swap_initiated c s =
     s\<lparr>sd_initiated := True, sd_callers := (sd_callers s)(c \<mapsto> if sd_initiated s then C_Done else C_Swapped)\<rparr>"

definition notify_waiters :: "nat \<Rightarrow> shutdown_controller \<Rightarrow> shutdown_controller" where
  "notify_waiters c s =
     s\<lparr>sd_waiters := (\<lambda>w. if sd_waiters s w = Some W_Waiting then Some W_Returned else sd_waiters s w),
       sd_callers := (sd_callers s)(c \<mapsto> C_Notified)\<rparr>"

definition send_signal :: "nat \<Rightarrow> shutdown_controller \<Rightarrow> shutdown_controller" where
  "send_signal c s =
     s\<lparr>sd_receivers := (\<lambda>r. map_option Suc (sd_receivers s r)), sd_callers := (sd_callers s)(c \<mapsto> C_Done)\<rparr>"

definition check_shutdown :: "nat \<Rightarrow> shutdown_controller \<Rightarrow> shutdown_controller" where
  "check_shutdown w s =
     s\<lparr>sd_waiters := (sd_waiters s)(w \<mapsto> if is_shutdown s then W_Returned else W_Checked)\<rparr>"

definition register_waiter :: "nat \<Rightarrow> shutdown_controller \<Rightarrow> shutdown_controller" where
  "register_waiter w s = s\<lparr>sd_waiters := (sd_waiters s)(w \<mapsto> W_Waiting)\<rparr>"

definition subscribe :: "nat \<Rightarrow> shutdown_controller \<Rightarrow> shutdown_controller" where
  "subscribe r s = s\<lparr>sd_receivers := (sd_receivers s)(r \<mapsto> 0)\<rparr>"

inductive shutdown_step :: "shutdown_controller \<Rightarrow> shutdown_act \<Rightarrow> shutdown_controller \<Rightarrow> bool" where
  swap: "sd_callers s c \<in> {None, Some C_Done} \<Longrightarrow> shutdown_step s (SA_Swap c) (swap_initiated c s)"
| notify: "sd_callers s c = Some C_Swapped \<Longrightarrow> shutdown_step s (SA_Notify c) (notify_waiters c s)"
| send: "sd_callers s c = Some C_Notified \<Longrightarrow> shutdown_step s (SA_Send c) (send_signal c s)"
| check: "sd_waiters s w \<in> {None, Some W_Returned} \<Longrightarrow> shutdown_step s (SA_Check w) (check_shutdown w s)"
| register: "sd_waiters s w = Some W_Checked \<Longrightarrow> shutdown_step s (SA_Register w) (register_waiter w s)"
| subscribe: "sd_receivers s r = None \<Longrightarrow> shutdown_step s (SA_Subscribe r) (subscribe r s)"

inductive_simps shutdown_step_simps [simp]:
  "shutdown_step s (SA_Swap c) s'" "shutdown_step s (SA_Notify c) s'" "shutdown_step s (SA_Send c) s'"
  "shutdown_step s (SA_Check w) s'" "shutdown_step s (SA_Register w) s'" "shutdown_step s (SA_Subscribe r) s'"

inductive shutdown_run :: "shutdown_controller \<Rightarrow> shutdown_act list \<Rightarrow> shutdown_controller \<Rightarrow> bool" where
  run_nil: "shutdown_run s [] s"
| run_cons: "shutdown_step s a s1 \<Longrightarrow> shutdown_run s1 as s2 \<Longrightarrow> shutdown_run s (a # as) s2"

inductive_simps shutdown_run_simps [simp]: "shutdown_run s [] s'" "shutdown_run s (a # as) s'"

section \<open>Which calls return\<close>

definition unfinished_waits :: "shutdown_controller \<Rightarrow> nat set" where
  "unfinished_waits s = {w. sd_waiters s w \<in> {Some W_Checked, Some W_Waiting}}"

text \<open>One call at most is between its swap and its wake-up, and only after the flag was set.\<close>

definition one_swapper :: "shutdown_controller \<Rightarrow> bool" where
  "one_swapper s \<longleftrightarrow> (\<forall>c. sd_callers s c = Some C_Swapped
     \<longrightarrow> sd_initiated s \<and> (\<forall>d. sd_callers s d = Some C_Swapped \<longrightarrow> d = c))"

lemmas shutdown_ops = swap_initiated_def notify_waiters_def send_signal_def check_shutdown_def
  register_waiter_def subscribe_def is_shutdown_def

lemma one_swapper_step: "shutdown_step s a s' \<Longrightarrow> one_swapper s \<Longrightarrow> one_swapper s'"
  by (induction rule: shutdown_step.induct) (fastforce simp: one_swapper_def shutdown_ops split: if_splits)+

lemma one_swapper_run: "shutdown_run s as s' \<Longrightarrow> one_swapper s \<Longrightarrow> one_swapper s'"
  by (induction rule: shutdown_run.induct) (auto intro: one_swapper_step)

text \<open>After the wake-up no call changes sides.\<close>

definition woken :: "shutdown_controller \<Rightarrow> bool" where
  "woken s \<longleftrightarrow> sd_initiated s \<and> (\<forall>c. sd_callers s c \<noteq> Some C_Swapped)"

lemma woken_step:
  assumes "shutdown_step s a s'" "woken s"
  shows "woken s' \<and> unfinished_waits s' = unfinished_waits s"
  using assms by (induction rule: shutdown_step.induct) (auto simp: woken_def unfinished_waits_def shutdown_ops)

lemma woken_run: "shutdown_run s as s' \<Longrightarrow> woken s \<Longrightarrow> unfinished_waits s' = unfinished_waits s"
  by (induction rule: shutdown_run.induct) (auto dest: woken_step)

text \<open>C20. A call of \<open>wait_for_shutdown\<close> ends once the node is shut down, except for those that had tested
  the flag but not yet registered when the waiters were woken: exactly these never return, whatever
  happens afterwards, further calls of \<open>shutdown\<close> included.\<close>

theorem wait_ends_unless_raced:
  assumes "shutdown_run shutdown_new bs s1" "shutdown_step s1 (SA_Notify c) s2" "shutdown_run s2 as' s3"
  shows "unfinished_waits s3 = {w. sd_waiters s1 w = Some W_Checked}"
proof -
  have "one_swapper shutdown_new" by (simp add: one_swapper_def shutdown_new_def)
  then have "one_swapper s1" using one_swapper_run[OF assms(1)] by simp
  then have "woken s2" using assms(2) by (auto simp: one_swapper_def woken_def notify_waiters_def)
  moreover have "unfinished_waits s2 = {w. sd_waiters s1 w = Some W_Checked}"
    using assms(2) by (auto simp: unfinished_waits_def notify_waiters_def)
  ultimately show ?thesis using woken_run[OF assms(3)] by simp
qed

theorem wait_ends_unless_raced_witness:
  "\<exists>s. shutdown_run shutdown_new
        ([SA_Check 1, SA_Check 2, SA_Register 2, SA_Swap 0] @ SA_Notify 0 # [SA_Register 1, SA_Check 3, SA_Swap 5]) s
     \<and> unfinished_waits s = {1}"
proof -
  let ?s1 = "swap_initiated 0 (register_waiter 2 (check_shutdown 2 (check_shutdown 1 shutdown_new)))"
  let ?s2 = "notify_waiters 0 ?s1"
  let ?s3 = "swap_initiated 5 (check_shutdown 3 (register_waiter 1 ?s2))"
  have r1: "shutdown_run shutdown_new [SA_Check 1, SA_Check 2, SA_Register 2, SA_Swap 0] ?s1"
    and r2: "shutdown_step ?s1 (SA_Notify 0) ?s2"
    and r3: "shutdown_run ?s2 [SA_Register 1, SA_Check 3, SA_Swap 5] ?s3"
    by (simp_all add: shutdown_ops shutdown_new_def)
  have "unfinished_waits ?s3 = {w. sd_waiters ?s1 w = Some W_Checked}" by (rule wait_ends_unless_raced[OF r1 r2 r3])
  also have "\<dots> = {1}" by (auto simp: shutdown_ops shutdown_new_def)
  finally have "unfinished_waits ?s3 = {1}" .
  then show ?thesis using r1 r2 r3 by auto
qed

end
