(* ===== verification/Node_Config.thy ===== *)
theory Node_Config
  imports Rpc_Format Chain Genesis
begin

text \<open>
  The configuration of a node, \<open>crates/node/src/config.rs\<close> and \<open>config_file.rs\<close>: the sections with
  their defaults, loading and writing a file, and the overrides from the environment, which is an
  argument. Reading and writing TOML and the file system are third-party and arguments; the address
  of the RPC server stays text (its parser, \<open>rpc_socket_addr\<close>, is not modelled).
\<close>

section \<open>Sections and defaults\<close>

definition default_data_dir :: string where
  "default_data_dir = ''./velochain-data''"

definition default_rpc_addr :: string where
  "default_rpc_addr = ''127.0.0.1:8545''"

definition default_max_ws :: u32 where
  "default_max_ws = 100"

definition default_p2p_addr :: string where
  "default_p2p_addr = ''/ip4/0.0.0.0/tcp/30303''"

definition default_max_peers :: u64 where
  "default_max_peers = 50"

definition default_log_level :: string where
  "default_log_level = ''info''"

record node_section =
  ns_data_dir :: string
  ns_genesis_file :: "string option"

record rpc_section =
  rs_addr :: string
  rs_max_ws_connections :: u32
  rs_enable_admin :: bool

record network_section =
  nw_listen_addr :: string
  nw_bootnodes :: "string list"
  nw_max_peers :: u64

record validator_section =
  vs_enabled :: bool
  vs_keystore_file :: "string option"
  vs_private_key :: "string option"

record logging_section =
  ls_level :: string
  ls_modules :: "string list"
  ls_timestamps :: bool
  ls_json :: bool

record config_file =
  cf_node :: node_section
  cf_rpc :: rpc_section
  cf_network :: network_section
  cf_validator :: validator_section
  cf_logging :: logging_section

definition node_section_default :: node_section where
  "node_section_default = \<lparr> ns_data_dir = default_data_dir, ns_genesis_file = None \<rparr>"

definition rpc_section_default :: rpc_section where
  "rpc_section_default =
     \<lparr> rs_addr = default_rpc_addr, rs_max_ws_connections = default_max_ws, rs_enable_admin = False \<rparr>"

definition network_section_default :: network_section where
  "network_section_default =
     \<lparr> nw_listen_addr = default_p2p_addr, nw_bootnodes = [], nw_max_peers = default_max_peers \<rparr>"

definition validator_section_default :: validator_section where
  "validator_section_default = \<lparr> vs_enabled = False, vs_keystore_file = None, vs_private_key = None \<rparr>"

definition logging_section_default :: logging_section where
  "logging_section_default =
     \<lparr> ls_level = default_log_level, ls_modules = [], ls_timestamps = True, ls_json = False \<rparr>"

definition config_file_default :: config_file where
  "config_file_default =
     \<lparr> cf_node = node_section_default, cf_rpc = rpc_section_default, cf_network = network_section_default,
       cf_validator = validator_section_default, cf_logging = logging_section_default \<rparr>"

record node_config =
  nc_data_dir :: string
  nc_genesis :: genesis
  nc_rpc_addr :: string
  nc_p2p_addr :: string
  nc_boot_nodes :: "string list"
  nc_is_validator :: bool
  nc_validator_key :: "string option"
  nc_max_peers :: u64
  nc_log_level :: string

definition node_config_default :: node_config where
  "node_config_default =
     \<lparr> nc_data_dir = ''./velochain-data'', nc_genesis = genesis_default, nc_rpc_addr = ''127.0.0.1:8545'',
       nc_p2p_addr = ''/ip4/0.0.0.0/tcp/30303'', nc_boot_nodes = [], nc_is_validator = False,
       nc_validator_key = None, nc_max_peers = 50, nc_log_level = ''info'' \<rparr>"

section \<open>Files\<close>

definition config_load ::
  "(string \<Rightarrow> string + string) \<Rightarrow> (string \<Rightarrow> string + config_file) \<Rightarrow> string \<Rightarrow> node_error + config_file" where
  "config_load read_to_string from_toml path =
     (case read_to_string path of
        Inl e \<Rightarrow> Inl (NE_Config (''Failed to read config file: '' @ e))
      | Inr contents \<Rightarrow>
          (case from_toml contents of
             Inl e \<Rightarrow> Inl (NE_Config (''Failed to parse TOML config: '' @ e))
           | Inr cf \<Rightarrow> Inr cf))"

text \<open>The files are a function from paths to contents; \<open>fails\<close> says which writes are refused.\<close>

definition write_default ::
  "(config_file \<Rightarrow> string + string) \<Rightarrow> (string \<Rightarrow> string option) \<Rightarrow> string \<Rightarrow> (string \<Rightarrow> string option)
     \<Rightarrow> (node_error + unit) \<times> (string \<Rightarrow> string option)" where
  "write_default to_toml fails path files =
     (case to_toml config_file_default of
        Inl e \<Rightarrow> (Inl (NE_Config (''Failed to serialize default config: '' @ e)), files)
      | Inr t \<Rightarrow>
          (case fails path of
             Some e \<Rightarrow> (Inl (NE_Config (''Failed to write config file: '' @ e)), files)
           | None \<Rightarrow> (Inr (), files(path \<mapsto> t))))"

fun log_filter_string :: "logging_section \<Rightarrow> string" where
  "log_filter_string l = ls_level l @ concat (map (\<lambda>f. CHR '','' # f) (ls_modules l))"

section \<open>Overrides\<close>

text \<open>The loop of \<open>parse\<close> for an unsigned type with the given maximum: an empty text, a character that
  is no digit and an overflow are errors; one plus sign may stand in front.\<close>

fun read_decimal :: "nat \<Rightarrow> nat \<Rightarrow> string \<Rightarrow> nat option" where
  "read_decimal bound acc [] = Some acc"
| "read_decimal bound acc (c # cs) =
     (case digit_value c of
        None \<Rightarrow> None
      | Some d \<Rightarrow> if 10 \<le> d \<or> bound < acc * 10 + d then None else read_decimal bound (acc * 10 + d) cs)"

definition parse_unsigned :: "string \<Rightarrow> 'a::len word option" where
  "parse_unsigned s =
     (case s of
        [] \<Rightarrow> None
      | c # cs \<Rightarrow> map_option of_nat
          (read_decimal (2 ^ LENGTH('a) - 1) 0 (if c = CHR ''+'' \<and> cs \<noteq> [] then cs else s)))"

definition to_ascii_lower :: "char \<Rightarrow> char" where
  "to_ascii_lower c = (let n = of_char c :: nat in if 65 \<le> n \<and> n \<le> 90 then char_of (n + 32) else c)"

definition truthy :: "string \<Rightarrow> bool" where
  "truthy s \<longleftrightarrow> s = ''1'' \<or> map to_ascii_lower s = ''true''"

definition or_keep :: "'a option \<Rightarrow> 'a \<Rightarrow> 'a" where
  "or_keep x old = (case x of None \<Rightarrow> old | Some v \<Rightarrow> v)"

definition apply_env_overrides :: "(string \<Rightarrow> string option) \<Rightarrow> config_file \<Rightarrow> config_file" where
  "apply_env_overrides env cf =
     (let cf1 = cf\<lparr>cf_node := (cf_node cf)\<lparr>ns_data_dir :=
             or_keep (env ''VELOCHAIN_NODE_DATA_DIR'') (ns_data_dir (cf_node cf))\<rparr>\<rparr>;
          r = cf_rpc cf1;
          r1 = r\<lparr>rs_addr := or_keep (env ''VELOCHAIN_RPC_ADDR'') (rs_addr r)\<rparr>;
          r2 = r1\<lparr>rs_max_ws_connections :=
             or_keep (Option.bind (env ''VELOCHAIN_RPC_MAX_WS'') parse_unsigned) (rs_max_ws_connections r1)\<rparr>;
          r3 = r2\<lparr>rs_enable_admin :=
             or_keep (map_option truthy (env ''VELOCHAIN_RPC_ENABLE_ADMIN'')) (rs_enable_admin r2)\<rparr>;
          n = cf_network cf1;
          n1 = n\<lparr>nw_listen_addr := or_keep (env ''VELOCHAIN_NETWORK_LISTEN'') (nw_listen_addr n)\<rparr>;
          n2 = n1\<lparr>nw_max_peers :=
             or_keep (Option.bind (env ''VELOCHAIN_NETWORK_MAX_PEERS'') parse_unsigned) (nw_max_peers n1)\<rparr>;
          v = cf_validator cf1;
          v1 = v\<lparr>vs_enabled := or_keep (map_option truthy (env ''VELOCHAIN_VALIDATOR_ENABLED'')) (vs_enabled v)\<rparr>;
          v2 = v1\<lparr>vs_private_key := (case env ''VELOCHAIN_VALIDATOR_KEY'' of None \<Rightarrow> vs_private_key v1 | Some k \<Rightarrow> Some k)\<rparr>;
          l = cf_logging cf1;
          l1 = l\<lparr>ls_level := or_keep (env ''VELOCHAIN_LOG_LEVEL'') (ls_level l)\<rparr>;
          l2 = l1\<lparr>ls_json := or_keep (map_option truthy (env ''VELOCHAIN_LOG_JSON'')) (ls_json l1)\<rparr>
      in cf1\<lparr>cf_rpc := r3, cf_network := n2, cf_validator := v2, cf_logging := l2\<rparr>)"

section \<open>What an override does\<close>

lemma or_keep_simps [simp]: "or_keep None old = old" "or_keep (Some v) old = v"
  by (simp_all add: or_keep_def)

lemma or_keep_twice [simp]: "or_keep x (or_keep x old) = or_keep x old"
  by (cases x) simp_all

text \<open>A second pass changes nothing, and a number that cannot be read leaves the file's setting.\<close>

lemma overrides_idempotent: "apply_env_overrides env (apply_env_overrides env cf) = apply_env_overrides env cf"
  by (simp add: apply_env_overrides_def Let_def split: option.split)

lemma no_overrides: "apply_env_overrides (\<lambda>_. None) cf = cf"
  by (simp add: apply_env_overrides_def Let_def)

lemma malformed_number_ignored:
  assumes "env ''VELOCHAIN_RPC_MAX_WS'' = Some s" "parse_unsigned s = (None :: u32 option)"
  shows "rs_max_ws_connections (cf_rpc (apply_env_overrides env cf)) = rs_max_ws_connections (cf_rpc cf)"
  using assms by (simp add: apply_env_overrides_def Let_def)

text \<open>The variable the documentation names for the log level is not the one that is read.\<close>

lemma documented_log_level_ignored:
  "apply_env_overrides (env(''VELOCHAIN_LOGGING_LEVEL'' := x)) cf = apply_env_overrides env cf"
  by (simp add: apply_env_overrides_def Let_def)

text \<open>Numbers are read back as printed, up to the width of the setting and not beyond.\<close>

lemma read_decimal_snoc:
  "d < 10 \<Longrightarrow> read_decimal bound acc (s @ [digit_char d]) =
     (case read_decimal bound acc s of None \<Rightarrow> None
      | Some v \<Rightarrow> if bound < v * 10 + d then None else Some (v * 10 + d))"
  by (induction bound acc s rule: read_decimal.induct) (simp_all add: digit_value_char split: option.split)

lemma read_decimal_printed: "9 \<le> bound \<Longrightarrow> read_decimal bound 0 (decimal n) = (if n \<le> bound then Some n else None)"
proof (induction n rule: less_induct)
  case (less n)
  show ?case
  proof (cases "n < 10")
    case True
    then show ?thesis using less.prems by (simp add: decimal_def radix_digits_small digit_value_char)
  next
    case False
    have s: "decimal n = decimal (n div 10) @ [digit_char (n mod 10)]"
      unfolding decimal_def by (subst radix_digits_step) (use False in simp_all)
    have "n div 10 < n" using False by simp
    then show ?thesis using less by (auto simp: s read_decimal_snoc)
  qed
qed

lemma parse_unsigned_decimal:
  assumes "4 \<le> LENGTH('a)"
  shows "parse_unsigned (decimal n) = (if n < 2 ^ LENGTH('a) then Some (of_nat n :: 'a::len word) else None)"
proof -
  obtain d ds where d: "radix_digits 10 n = d # ds"
    using radix_digits_not_nil[of 10 n] by (cases "radix_digits 10 n") auto
  then have "d < 16" using radix_digits_bound[of 10 n] by simp
  have "(2 :: nat) ^ 4 \<le> 2 ^ LENGTH('a)" using assms by (intro power_increasing) simp_all
  then have "read_decimal (2 ^ LENGTH('a) - 1) 0 (decimal n) = (if n \<le> 2 ^ LENGTH('a) - 1 then Some n else None)"
    by (intro read_decimal_printed) simp
  moreover have "n \<le> 2 ^ LENGTH('a) - 1 \<longleftrightarrow> n < 2 ^ LENGTH('a)" by (auto simp: Suc_leI le_diff_conv2)
  ultimately show ?thesis
    using d \<open>d < 16\<close> by (simp add: parse_unsigned_def decimal_def digit_not_plus)
qed

text \<open>A file that was written as the default is loaded as the default, if the TOML library reads back
  what it writes.\<close>

lemma written_default_loads:
  assumes "\<And>cf t. to_toml cf = Inr t \<Longrightarrow> from_toml t = Inr cf"
    and "write_default to_toml fails path files = (Inr (), files')"
  shows "config_load (\<lambda>p. case files' p of None \<Rightarrow> Inl e | Some t \<Rightarrow> Inr t) from_toml path = Inr config_file_default"
  using assms by (auto simp: write_default_def config_load_def split: sum.splits option.splits)

end
