(* ===== verification/Net_Service.thy ===== *)
theory Net_Service
  imports Net_Handler Block_Producer
begin

text \<open>
  The network service, \<open>crates/network/src/service.rs\<close> and \<open>protocol.rs\<close>, and how the block producer
  uses it: the commands of the node wait in a channel, the event loop turns them into messages on a
  gossip topic and turns the messages of peers into events for the handler. Encoding messages is
  third-party and an argument, and whether libp2p accepts a publication is an input of the step.
\<close>

section \<open>Messages, commands, state\<close>

definition TOPIC_BLOCKS :: string where
  "TOPIC_BLOCKS = ''/velochain/blocks/1.0.0''"

definition TOPIC_TRANSACTIONS :: string where
  "TOPIC_TRANSACTIONS = ''/velochain/txs/1.0.0''"

datatype network_message =
    MSG_NewBlock block
  | MSG_NewTransaction signed_transaction
  | MSG_GetBlock u64
  | MSG_BlockResponse "block option"
  | MSG_GetHead
  | MSG_HeadResponse u64 bytes u64
  | MSG_GetHeaders u64 u64
  | MSG_HeadersResponse "block_header list"
  | MSG_GetBodies "bytes list"
  | MSG_BodiesResponse "signed_transaction list list"
  | MSG_Status u64 u64 bytes bytes
  | MSG_Ping u64
  | MSG_Pong u64

datatype network_command =
    CMD_BroadcastBlock block
  | CMD_BroadcastTransaction signed_transaction
  | CMD_PublishSyncRequest network_message
  | CMD_RequestBlock u64
  | CMD_SendBlockResponse block
  | CMD_Dial string
  | CMD_Shutdown

datatype network_error =
    NWE_Transport string | NWE_Protocol string | NWE_PeerDisconnected string | NWE_Encoding string
  | NWE_Io string | NWE_ChannelClosed

record msg_codec =
  mc_to_vec :: "network_message \<Rightarrow> bytes option"
  mc_from_slice :: "bytes \<Rightarrow> network_message option"

text \<open>The messages of a set are encoded and read back.\<close>

definition codec_ok :: "msg_codec \<Rightarrow> network_message set \<Rightarrow> bool" where
  "codec_ok C ms \<longleftrightarrow> (\<forall>m \<in> ms. \<exists>data. mc_to_vec C m = Some data \<and> mc_from_slice C data = Some m)"

text \<open>The channel is closed when the loop has ended, because the loop owns its receiving end.\<close>

record net_service =
  sv_peers :: "string set"
  sv_commands :: "network_command list"
  sv_running :: bool

definition service_new :: net_service where
  "service_new = \<lparr> sv_peers = {}, sv_commands = [], sv_running = True \<rparr>"

section \<open>Operations of the node\<close>

definition send_command :: "network_command \<Rightarrow> net_service \<Rightarrow> (network_error + unit) \<times> net_service" where
  "send_command c s =
     (if sv_running s then (Inr (), s\<lparr>sv_commands := sv_commands s @ [c]\<rparr>) else (Inl NWE_ChannelClosed, s))"

definition broadcast_block :: "block \<Rightarrow> net_service \<Rightarrow> (network_error + unit) \<times> net_service" where
  "broadcast_block b = send_command (CMD_BroadcastBlock b)"

definition broadcast_transaction :: "signed_transaction \<Rightarrow> net_service \<Rightarrow> (network_error + unit) \<times> net_service" where
  "broadcast_transaction tx = send_command (CMD_BroadcastTransaction tx)"

definition request_headers :: "u64 \<Rightarrow> u64 \<Rightarrow> net_service \<Rightarrow> (network_error + unit) \<times> net_service" where
  "request_headers start_block max_headers = send_command (CMD_PublishSyncRequest (MSG_GetHeaders start_block max_headers))"

definition broadcast_status ::
  "u64 \<Rightarrow> u64 \<Rightarrow> bytes \<Rightarrow> bytes \<Rightarrow> net_service \<Rightarrow> (network_error + unit) \<times> net_service" where
  "broadcast_status chain_id best_block best_hash genesis_hash =
     send_command (CMD_PublishSyncRequest (MSG_Status chain_id best_block best_hash genesis_hash))"

definition request_block :: "u64 \<Rightarrow> net_service \<Rightarrow> (network_error + unit) \<times> net_service" where
  "request_block n = send_command (CMD_RequestBlock n)"

definition send_block_response :: "block \<Rightarrow> net_service \<Rightarrow> (network_error + unit) \<times> net_service" where
  "send_block_response b = send_command (CMD_SendBlockResponse b)"

definition service_shutdown :: "net_service \<Rightarrow> (network_error + unit) \<times> net_service" where
  "service_shutdown = send_command CMD_Shutdown"

definition service_peer_count :: "net_service \<Rightarrow> nat" where
  "service_peer_count s = card (sv_peers s)"

section \<open>The event loop\<close>

text \<open>What a message of a peer is for the node; the identity in a status event is drawn at random.\<close>

definition message_event :: "string \<Rightarrow> network_message \<Rightarrow> network_event option" where
  "message_event random_peer m =
     (case m of
        MSG_NewBlock b \<Rightarrow> Some (NW_BlockReceived b)
      | MSG_NewTransaction tx \<Rightarrow> Some (NW_TransactionReceived tx)
      | MSG_HeadersResponse hs \<Rightarrow> Some (NW_HeadersReceived hs)
      | MSG_BodiesResponse bs \<Rightarrow> Some (NW_BodiesReceived bs)
      | MSG_GetBlock n \<Rightarrow> Some (NW_BlockRequested n)
      | MSG_BlockResponse (Some b) \<Rightarrow> Some (NW_BlockResponseReceived b)
      | MSG_Status chain_id best_block best_hash genesis_hash \<Rightarrow>
          Some (NW_PeerStatus random_peer chain_id best_block best_hash genesis_hash)
      | _ \<Rightarrow> None)"

definition command_message :: "network_command \<Rightarrow> (string \<times> network_message) option" where
  "command_message c =
     (case c of
        CMD_BroadcastBlock b \<Rightarrow> Some (TOPIC_BLOCKS, MSG_NewBlock b)
      | CMD_BroadcastTransaction tx \<Rightarrow> Some (TOPIC_TRANSACTIONS, MSG_NewTransaction tx)
      | CMD_PublishSyncRequest m \<Rightarrow> Some (TOPIC_BLOCKS, m)
      | CMD_RequestBlock n \<Rightarrow> Some (TOPIC_BLOCKS, MSG_GetBlock n)
      | CMD_SendBlockResponse b \<Rightarrow> Some (TOPIC_BLOCKS, MSG_BlockResponse (Some b))
      | CMD_Dial _ \<Rightarrow> None
      | CMD_Shutdown \<Rightarrow> None)"

datatype loop_input =
    LI_Message string bytes
  | LI_Discovered "string list"
  | LI_Expired "string list"
  | LI_Command bool

text \<open>One turn of the loop: the events for the node and the publications. A command is taken from the
  channel; the flag says whether libp2p accepts to publish its message.\<close>

fun service_step ::
  "msg_codec \<Rightarrow> loop_input \<Rightarrow> net_service \<Rightarrow> network_event list \<times> (string \<times> bytes) list \<times> net_service" where
  "service_step C i s =
     (if \<not> sv_running s then ([], [], s)
      else case i of
        LI_Message random_peer data \<Rightarrow>
          ((case mc_from_slice C data of
              None \<Rightarrow> [] | Some m \<Rightarrow> (case message_event random_peer m of None \<Rightarrow> [] | Some ev \<Rightarrow> [ev])), [], s)
      | LI_Discovered ps \<Rightarrow> (map NW_PeerConnected ps, [], s\<lparr>sv_peers := sv_peers s \<union> set ps\<rparr>)
      | LI_Expired ps \<Rightarrow> (map NW_PeerDisconnected ps, [], s\<lparr>sv_peers := sv_peers s - set ps\<rparr>)
      | LI_Command accepted \<Rightarrow>
          (case sv_commands s of
             [] \<Rightarrow> ([], [], s)
           | CMD_Shutdown # cs \<Rightarrow> ([], [], s\<lparr>sv_commands := cs, sv_running := False\<rparr>)
           | c # cs \<Rightarrow>
               ([], (case command_message c of
                       None \<Rightarrow> []
                     | Some (topic, m) \<Rightarrow>
                         (case mc_to_vec C m of None \<Rightarrow> [] | Some data \<Rightarrow> if accepted then [(topic, data)] else [])),
                s\<lparr>sv_commands := cs\<rparr>)))"

fun service_run ::
  "msg_codec \<Rightarrow> loop_input list \<Rightarrow> net_service \<Rightarrow> network_event list \<times> (string \<times> bytes) list \<times> net_service" where
  "service_run C [] s = ([], [], s)"
| "service_run C (i # is) s =
     (let (ev, pb, s1) = service_step C i s; (evs, pbs, s2) = service_run C is s1 in (ev @ evs, pb @ pbs, s2))"

section \<open>The broadcast of the block producer\<close>

text \<open>The retries of one block; \<open>pause\<close> is what happens to the service during the sleep after an
  attempt. The number of calls is returned with the service.\<close>

definition max_retries :: "block \<Rightarrow> nat" where
  "max_retries b = (if block_number b \<le> 3 then 5 else 0)"

function broadcast_retry ::
  "(nat \<Rightarrow> net_service \<Rightarrow> net_service) \<Rightarrow> nat \<Rightarrow> block \<Rightarrow> net_service \<Rightarrow> nat \<times> net_service" where
  "broadcast_retry pause retries b s =
     (case broadcast_block b s of
        (Inr _, s1) \<Rightarrow> (Suc retries, s1)
      | (Inl _, s1) \<Rightarrow>
          if retries < max_retries b then broadcast_retry pause (Suc retries) b (pause retries s1)
          else (Suc retries, s1))"
  by pat_completeness auto
termination
  by (relation "measure (\<lambda>(pause, retries, b, s). max_retries b - retries)") auto

declare broadcast_retry.simps [simp del]

text \<open>One turn of the production loop, and the loop for a number of timer ticks. The service is
  missing when the node runs without a network.\<close>

definition producer_turn ::
  "('db, 'e) node_ext \<Rightarrow> (nat \<Rightarrow> net_service \<Rightarrow> net_service) \<Rightarrow> pool_order \<times> u64 \<Rightarrow> ('db, 'e) chain \<times> net_service option
     \<Rightarrow> ('db, 'e) chain \<times> net_service option" where
  "producer_turn N pause t st =
     (case produce_block N (fst t) (snd t) (fst st) of
        (Inl _, ch) \<Rightarrow> (ch, snd st)
      | (Inr b, ch) \<Rightarrow> (ch, map_option (\<lambda>s. snd (broadcast_retry pause 0 b s)) (snd st)))"

definition producer_start ::
  "('db, 'e) node_ext \<Rightarrow> (nat \<Rightarrow> net_service \<Rightarrow> net_service) \<Rightarrow> (pool_order \<times> u64) list
     \<Rightarrow> ('db, 'e) chain \<times> net_service option \<Rightarrow> ('db, 'e) chain \<times> net_service option" where
  "producer_start N pause ticks st =
     (if poa_is_validator (ch_consensus (fst st)) then fold (producer_turn N pause) ticks st else st)"

section \<open>What is published\<close>

lemma service_run_append:
  "service_run C (xs @ ys) s =
     (let (ev1, pb1, s1) = service_run C xs s; (ev2, pb2, s2) = service_run C ys s1 in (ev1 @ ev2, pb1 @ pb2, s2))"
  by (induction xs arbitrary: s) (simp_all add: Let_def case_prod_beta del: service_step.simps)

definition encode :: "msg_codec \<Rightarrow> network_message \<Rightarrow> bytes" where
  "encode C m = the (mc_to_vec C m)"

lemma codec_okD: "codec_ok C ms \<Longrightarrow> m \<in> ms \<Longrightarrow> mc_to_vec C m = Some (encode C m) \<and> mc_from_slice C (encode C m) = Some m"
  unfolding codec_ok_def encode_def by (metis option.sel)

lemma encode_inj: "codec_ok C ms \<Longrightarrow> m \<in> ms \<Longrightarrow> m' \<in> ms \<Longrightarrow> encode C m = encode C m' \<Longrightarrow> m = m'"
  using codec_okD[of C ms m] codec_okD[of C ms m'] by (metis option.inject)

text \<open>Broadcast blocks are published in order, when libp2p accepts them; what else the loop does in between
  does not matter.\<close>

lemma broadcasts_published:
  "codec_ok C (MSG_NewBlock ` set bs) \<Longrightarrow> sv_running s \<Longrightarrow> sv_commands s = map CMD_BroadcastBlock bs \<Longrightarrow>
   LI_Command False \<notin> set is \<Longrightarrow> length bs \<le> count_list is (LI_Command True) \<Longrightarrow>
    fst (snd (service_run C is s)) = map (\<lambda>b. (TOPIC_BLOCKS, encode C (MSG_NewBlock b))) bs"
proof (induction "is" arbitrary: s bs)
  case (Cons i is')
  have run: "fst (snd (service_run C (i # is') s))
      = fst (snd (service_step C i s)) @ fst (snd (service_run C is' (snd (snd (service_step C i s)))))"
    by (simp add: Let_def case_prod_beta del: service_step.simps)
  show ?case
  proof (cases "i = LI_Command True")
    case False
    then have q: "\<nexists>acc. i = LI_Command acc" using Cons.prems(4) by (metis (full_types) list.set_intros(1))
    then have "fst (snd (service_step C i s)) = []" "sv_commands (snd (snd (service_step C i s))) = sv_commands s"
      "sv_running (snd (snd (service_step C i s)))"
      using Cons.prems(2) by (cases i; simp)+
    then show ?thesis unfolding run using Cons.IH[OF Cons.prems(1)] Cons.prems False by simp
  next
    case True
    show ?thesis
    proof (cases bs)
      case Nil
      then have "service_step C i s = ([], [], s)" using Cons.prems True by simp
      then show ?thesis unfolding run using Cons.IH[of "[]" s] Cons.prems Nil by (simp del: service_step.simps)
    next
      case (Cons b bs')
      then have "service_step C i s = ([], [(TOPIC_BLOCKS, encode C (MSG_NewBlock b))], s\<lparr>sv_commands := map CMD_BroadcastBlock bs'\<rparr>)"
        using Cons.prems True codec_okD[OF Cons.prems(1), of "MSG_NewBlock b"] by (simp add: command_message_def)
      then show ?thesis
        unfolding run using Cons.IH[of bs' "s\<lparr>sv_commands := map CMD_BroadcastBlock bs'\<rparr>"] Cons.prems True Cons
        by (simp add: codec_ok_def del: service_step.simps)
    qed
  qed
qed simp

lemma broadcast_all:
  "sv_running s \<Longrightarrow> fold (\<lambda>b s. snd (broadcast_block b s)) bs s
     = s\<lparr>sv_commands := sv_commands s @ map CMD_BroadcastBlock bs\<rparr>"
  by (induction bs arbitrary: s) (simp_all add: broadcast_block_def send_command_def)

text \<open>What a peer hears: one event per message, in the order of arrival.\<close>

lemma heard_blocks:
  assumes "codec_ok C (MSG_NewBlock ` set bs)" and "sv_running s"
    and "\<forall>i \<in> set is. \<exists>p. \<exists>b \<in> set bs. i = LI_Message p (encode C (MSG_NewBlock b))"
  shows "set (fst (service_run C is s)) \<subseteq> NW_BlockReceived ` set bs
    \<and> (\<forall>p. \<forall>b \<in> set bs. LI_Message p (encode C (MSG_NewBlock b)) \<in> set is \<longrightarrow> NW_BlockReceived b \<in> set (fst (service_run C is s)))"
  using assms(3)
proof (induction "is")
  case (Cons i is')
  then obtain p b where i: "b \<in> set bs" "i = LI_Message p (encode C (MSG_NewBlock b))" by auto
  have st: "service_step C i s = ([NW_BlockReceived b], [], s)"
    using codec_okD[OF assms(1), of "MSG_NewBlock b"] assms(2) i by (simp add: message_event_def)
  have inj: "encode C (MSG_NewBlock b') = encode C (MSG_NewBlock b) \<Longrightarrow> b' \<in> set bs \<Longrightarrow> b' = b" for b'
    using encode_inj[OF assms(1), of "MSG_NewBlock b'" "MSG_NewBlock b"] i(1) by simp
  have f: "fst (service_run C (i # is') s) = NW_BlockReceived b # fst (service_run C is' s)"
    using st by (simp add: Let_def case_prod_beta del: service_step.simps)
  have IH: "set (fst (service_run C is' s)) \<subseteq> NW_BlockReceived ` set bs"
    "\<And>p b. b \<in> set bs \<Longrightarrow> LI_Message p (encode C (MSG_NewBlock b)) \<in> set is' \<Longrightarrow>
       NW_BlockReceived b \<in> set (fst (service_run C is' s))"
    using Cons by (simp_all del: service_run.simps)
  have "NW_BlockReceived b' \<in> set (fst (service_run C (i # is') s))"
    if "b' \<in> set bs" "LI_Message p' (encode C (MSG_NewBlock b')) \<in> set (i # is')" for p' b'
  proof (cases "LI_Message p' (encode C (MSG_NewBlock b')) \<in> set is'")
    case True
    then show ?thesis using IH(2)[OF that(1)] unfolding f by simp
  next
    case False
    then have "encode C (MSG_NewBlock b') = encode C (MSG_NewBlock b)" using that(2) i(2) by simp
    then show ?thesis using inj that(1) unfolding f by simp
  qed
  then show ?case using IH(1) i(1) unfolding f by simp
qed simp

section \<open>Blocks reach a follower\<close>

definition message_data :: "loop_input \<Rightarrow> bytes option" where
  "message_data i = (case i of LI_Message p data \<Rightarrow> Some data | _ \<Rightarrow> None)"

lemma message_data_iff: "message_data i = Some data \<longleftrightarrow> (\<exists>p. i = LI_Message p data)"
  by (simp add: message_data_def split: loop_input.split)

text \<open>C2. From the producer to a follower. Blocks that the producer hands to its idle network service are
  published one by one in the order it gave them, whatever else the loop does in between, when libp2p
  accepts every publication. Whatever the gossip layer makes of the publications (any order, any
  repetition), as long as each arrives at least once, nothing else arrives, there are at most 1000 of them (the
  follower buffers no more) and the blocks extend the follower's chain, the follower's chain ends as if
  it had applied them in sequence, and its buffer is empty. The follower's service runs, the wire codec reads back
  what it writes, and the block numbers stay below \<open>2 ^ 64\<close>.\<close>

theorem broadcast_blocks_reach_follower:
  assumes "codec_ok C (MSG_NewBlock ` set bs)" and "sv_running a" and "sv_commands a = []" and "sv_running f"
    and "apply_seq N bs ch = Some ch'" and "length bs \<le> 1000" and "unat (chain_block_number ch) + length bs + 1 < 2 ^ 64"
    and "LI_Command False \<notin> set turns" and "length bs \<le> count_list turns (LI_Command True)"
    and "service_run C turns (fold (\<lambda>b s. snd (broadcast_block b s)) bs a) = (evs_a, published, a')"
    and "message_data ` set arrivals = Some ` snd ` set published"
  shows "map Some (map snd published) = map (\<lambda>b. mc_to_vec C (MSG_NewBlock b)) bs \<and> set (map fst published) \<subseteq> {TOPIC_BLOCKS}
    \<and> ns_chain (snd (run_handler N (fst (service_run C arrivals f)) (net_start ch))) = ch'
    \<and> ns_block_buffer (snd (run_handler N (fst (service_run C arrivals f)) (net_start ch))) = []"
proof -
  let ?enc = "\<lambda>b. encode C (MSG_NewBlock b)" and ?evs = "fst (service_run C arrivals f)"
  have p: "published = map (\<lambda>b. (TOPIC_BLOCKS, ?enc b)) bs"
    using assms(10) broadcasts_published[OF assms(1), of "a\<lparr>sv_commands := map CMD_BroadcastBlock bs\<rparr>", OF _ _ assms(8,9)]
    by (simp add: broadcast_all[OF assms(2)] assms(2,3))
  have order: "map Some (map snd published) = map (\<lambda>b. mc_to_vec C (MSG_NewBlock b)) bs"
    "set (map fst published) \<subseteq> {TOPIC_BLOCKS}"
    using codec_okD[OF assms(1)] by (auto simp: p)
  from p have pub: "snd ` set published = ?enc ` set bs" by (simp add: image_image)
  have arr: "\<forall>i \<in> set arrivals. \<exists>p. \<exists>b \<in> set bs. i = LI_Message p (?enc b)"
  proof
    fix i assume "i \<in> set arrivals"
    then have "message_data i \<in> Some ` ?enc ` set bs"
      using assms(11) pub by blast
    then show "\<exists>p. \<exists>b \<in> set bs. i = LI_Message p (?enc b)" by (fastforce simp: message_data_iff)
  qed
  note heard = heard_blocks[OF assms(1,4) arr]
  have all: "NW_BlockReceived b \<in> set ?evs" if b: "b \<in> set bs" for b
  proof -
    have "Some (?enc b) \<in> message_data ` set arrivals"
      unfolding assms(11) pub using b by blast
    then obtain i where i: "i \<in> set arrivals" "message_data i = Some (?enc b)"
      by auto
    then obtain p where "i = LI_Message p (?enc b)" by (auto simp: message_data_iff)
    then show ?thesis using heard i(1) b by blast
  qed
  have evs: "set ?evs = NW_BlockReceived ` set bs" using heard all by blast
  have "ns_chain (snd (run_handler N ?evs (net_start ch))) = ch'
    \<and> ns_block_buffer (snd (run_handler N ?evs (net_start ch))) = []"
    by (rule delivered_in_any_order[OF assms(5-7)]) (auto simp: evs block_event_def)
  with order show ?thesis by blast
qed

section \<open>Lost broadcasts\<close>

text \<open>The node and the loop interleaved: the node puts a command in the channel, or the loop takes a turn.\<close>

type_synonym node_step = "network_command + loop_input"

fun node_run :: "msg_codec \<Rightarrow> node_step list \<Rightarrow> net_service \<Rightarrow> (string \<times> bytes) list \<times> net_service" where
  "node_run C [] s = ([], s)"
| "node_run C (Inl c # xs) s = node_run C xs (snd (send_command c s))"
| "node_run C (Inr i # xs) s =
     (let r = service_step C i s; q = node_run C xs (snd (snd r)) in (fst (snd r) @ fst q, snd q))"

lemma node_run_append:
  "node_run C (xs @ ys) s =
     (let p = node_run C xs s; q = node_run C ys (snd p) in (fst p @ fst q, snd q))"
  by (induction C xs s rule: node_run.induct) (simp_all add: Let_def del: service_step.simps)

lemma node_run_stopped: "\<not> sv_running s \<Longrightarrow> node_run C xs s = ([], s)"
  by (induction C xs s rule: node_run.induct) (simp_all add: send_command_def)

text \<open>The commands whose message is published as the given data.\<close>

definition carries :: "msg_codec \<Rightarrow> bytes \<Rightarrow> network_command \<Rightarrow> bool" where
  "carries C data c \<longleftrightarrow> (\<exists>t m. command_message c = Some (t, m) \<and> mc_to_vec C m = Some data)"

lemma step_idle:
  assumes "\<forall>acc. i \<noteq> LI_Command acc"
  shows "fst (snd (service_step C i s)) = [] \<and> sv_commands (snd (snd (service_step C i s))) = sv_commands s
     \<and> sv_running (snd (snd (service_step C i s))) = sv_running s"
proof (cases i)
  case (LI_Command acc)
  then show ?thesis using assms by blast
qed simp_all

lemma step_taken:
  assumes "sv_running s" and "sv_commands s = c # cs"
  shows "sv_commands (snd (snd (service_step C (LI_Command acc) s))) = cs
    \<and> (data \<in> snd ` set (fst (snd (service_step C (LI_Command acc) s))) \<longrightarrow> acc \<and> carries C data c)"
  using assms by (cases c) (auto simp: carries_def command_message_def split: option.splits if_splits)

lemma step_empty: "sv_commands s = [] \<Longrightarrow> service_step C (LI_Command acc) s = ([], [], s)"
  by simp

text \<open>Nothing is published that no command carries.\<close>

lemma uncarried_unpublished:
  "\<forall>c. c \<in> set (sv_commands s) \<or> Inl c \<in> set xs \<longrightarrow> \<not> carries C data c \<Longrightarrow> data \<notin> snd ` set (fst (node_run C xs s))"
proof (induction xs arbitrary: s)
  case (Cons x xs)
  show ?case
  proof (cases x)
    case (Inl c)
    then show ?thesis using Cons by (simp add: send_command_def)
  next
    case (Inr i)
    let ?r = "service_step C i s"
    have "set (sv_commands (snd (snd ?r))) \<subseteq> set (sv_commands s) \<and> data \<notin> snd ` set (fst (snd ?r))"
    proof (cases "\<exists>acc. i = LI_Command acc")
      case False
      then show ?thesis using step_idle[of i C s] by (simp del: service_step.simps)
    next
      case True
      then obtain acc where i: "i = LI_Command acc" by blast
      show ?thesis
      proof (cases "sv_running s \<and> sv_commands s \<noteq> []")
        case True
        then obtain c cs where c: "sv_commands s = c # cs" by (cases "sv_commands s") auto
        have "\<not> carries C data c" using Cons.prems c by simp
        then show ?thesis using step_taken[of s c cs C acc data] True c i by auto
      qed (auto simp: i)
    qed
    moreover have "data \<notin> snd ` set (fst (node_run C xs (snd (snd ?r))))"
      by (rule Cons.IH) (use Cons.prems calculation Inr in \<open>auto simp del: service_step.simps\<close>)
    ultimately show ?thesis using Inr by (simp add: Let_def image_Un del: service_step.simps)
  qed
qed simp

text \<open>The commands that wait are taken first, one by each turn that takes a command.\<close>

fun takes_command :: "node_step \<Rightarrow> bool" where
  "takes_command (Inr (LI_Command accepted)) = True"
| "takes_command _ = False"

lemma queue_drained:
  "sv_running s \<Longrightarrow> sv_commands s = before @ c # after \<Longrightarrow> length (filter takes_command xs) = length before \<Longrightarrow>
   \<forall>c \<in> set before. \<not> carries C data c \<Longrightarrow>
   data \<notin> snd ` set (fst (node_run C xs s)) \<and> (sv_running (snd (node_run C xs s)) \<longrightarrow>
     (\<exists>rest. sv_commands (snd (node_run C xs s)) = c # rest \<and> set rest \<subseteq> set after \<union> {c. Inl c \<in> set xs}))"
proof (induction xs arbitrary: s before after)
  case (Cons x xs)
  show ?case
  proof (cases "takes_command x")
    case True
    then obtain acc where x: "x = Inr (LI_Command acc)" by (cases x rule: takes_command.cases) simp_all
    then obtain b before' where b: "before = b # before'" using Cons.prems(3) by (cases before) simp_all
    let ?r = "service_step C (LI_Command acc) s"
    have q: "sv_commands (snd (snd ?r)) = before' @ c # after" "data \<notin> snd ` set (fst (snd ?r))"
      using step_taken[of s b "before' @ c # after" C acc data] Cons.prems b by auto
    show ?thesis
    proof (cases "sv_running (snd (snd ?r))")
      case True
      then show ?thesis
        using Cons.IH[OF True q(1)] Cons.prems(3,4) b x q(2) by (auto simp: Let_def simp del: service_step.simps)
    next
      case False
      then show ?thesis using x q(2) by (simp add: Let_def node_run_stopped del: service_step.simps)
    qed
  next
    case False
    show ?thesis
    proof (cases x)
      case (Inl d)
      have "sv_commands (snd (send_command d s)) = before @ c # (after @ [d])" "sv_running (snd (send_command d s))"
        using Cons.prems(1,2) by (simp_all add: send_command_def)
      from Cons.IH[OF this(2,1)] Cons.prems(3,4) Inl show ?thesis by fastforce
    next
      case (Inr i)
      then have i: "\<forall>acc. i \<noteq> LI_Command acc" using False by auto
      let ?r = "service_step C i s"
      have "sv_commands (snd (snd ?r)) = before @ c # after" "sv_running (snd (snd ?r))" "fst (snd ?r) = []"
        using step_idle[OF i, of C s] Cons.prems(1,2) by (simp_all del: service_step.simps)
      then show ?thesis
        using Cons.IH[of "snd (snd ?r)" before after] Cons.prems(3,4) Inr False
        by (auto simp: Let_def simp del: service_step.simps)
    qed
  qed
qed simp

text \<open>C26. While the service runs, the first call of the producer to broadcast a block succeeds, because it only
  puts a command in the channel, so that its retries for early blocks do not happen. When the loop
  comes to that command, behind those that waited, and libp2p refuses the publication, as it does
  while there is no peer, the announcement of the block is published neither before nor by any later turn,
  whoever connects and whatever else the node sends, unless the node sends another command that
  carries the same announcement.\<close>

theorem refused_broadcast_is_lost:
  assumes "sv_running s" and "broadcast_retry pause 0 b s = (calls, s1)"
    and "mc_to_vec C (MSG_NewBlock b) = Some data"
    and "length (filter takes_command before) = length (sv_commands s)"
    and "node_run C (before @ Inr (LI_Command False) # later) s1 = (published, s2)"
    and "\<forall>c. c \<in> set (sv_commands s) \<or> Inl c \<in> set (before @ later) \<longrightarrow> \<not> carries C data c"
  shows "calls = 1 \<and> data \<notin> snd ` set published"
proof -
  let ?s = "s\<lparr>sv_commands := sv_commands s @ [CMD_BroadcastBlock b]\<rparr>"
  have "broadcast_block b s = (Inr (), ?s)" using assms(1) by (simp add: broadcast_block_def send_command_def)
  then have s1: "calls = 1" "s1 = ?s" using assms(2) by (simp_all add: broadcast_retry.simps)
  let ?q = "snd (node_run C before ?s)"
  have d: "data \<notin> snd ` set (fst (node_run C before ?s))"
    "sv_running ?q \<Longrightarrow> \<exists>rest. sv_commands ?q = CMD_BroadcastBlock b # rest \<and> set rest \<subseteq> {c. Inl c \<in> set before}"
    using queue_drained[of ?s "sv_commands s" "CMD_BroadcastBlock b" "[]" before C data] assms(1,4,6) by auto
  have "data \<notin> snd ` set (fst (node_run C (Inr (LI_Command False) # later) ?q))"
  proof (cases "sv_running ?q")
    case True
    then obtain rest where r: "sv_commands ?q = CMD_BroadcastBlock b # rest" "set rest \<subseteq> {c. Inl c \<in> set before}"
      using d(2) by blast
    let ?r = "service_step C (LI_Command False) ?q"
    have "sv_commands (snd (snd ?r)) = rest" "data \<notin> snd ` set (fst (snd ?r))"
      using step_taken[OF True r(1), of C False data] by auto
    moreover from this have "data \<notin> snd ` set (fst (node_run C later (snd (snd ?r))))"
      by (intro uncarried_unpublished) (use r(2) assms(6) in \<open>auto simp del: service_step.simps\<close>)
    ultimately show ?thesis by (simp add: Let_def image_Un del: service_step.simps)
  qed (simp add: node_run_stopped)
  moreover have "published = fst (node_run C before ?s) @ fst (node_run C (Inr (LI_Command False) # later) ?q)"
    using assms(5) s1(2) by (simp add: node_run_append Let_def del: node_run.simps)
  ultimately show ?thesis using s1(1) d(1) by (simp add: image_Un del: node_run.simps)
qed

text \<open>Requests for headers are published, but no node turns them into an event: they have no answer.\<close>

lemma header_requests_unheard: "message_event p (MSG_GetHeaders start n) = None"
  by (simp add: message_event_def)

text \<open>After a shutdown command nothing of the node is sent any more.\<close>

lemma stopped_stays: "\<not> sv_running s \<Longrightarrow> service_run C is s = ([], [], s)"
  by (induction "is") simp_all

section \<open>Concrete runs\<close>

abbreviation demo_b1 :: block where "demo_b1 \<equiv> block_new demo_one []"
abbreviation demo_b2 :: block where "demo_b2 \<equiv> block_new demo_two []"

definition demo_codec :: msg_codec where
  "demo_codec = \<lparr> mc_to_vec = (\<lambda>m. if m = MSG_NewBlock demo_b1 then Some [1] else if m = MSG_NewBlock demo_b2 then Some [2] else None),
     mc_from_slice = (\<lambda>d. if d = [1] then Some (MSG_NewBlock demo_b1) else if d = [2] then Some (MSG_NewBlock demo_b2) else None) \<rparr>"

lemma demo_blocks_differ: "demo_b2 \<noteq> demo_b1"
proof
  assume "demo_b2 = demo_b1"
  then have "bh_number demo_two = bh_number demo_one" by (simp add: block_new_def)
  then show False by (simp add: demo_children)
qed

lemma demo_codec_ok: "codec_ok demo_codec (MSG_NewBlock ` set [demo_b1, demo_b2])"
  using demo_blocks_differ by (auto simp: codec_ok_def demo_codec_def)

theorem broadcast_blocks_reach_follower_witness:
  "\<exists>c pbs. fst (snd (service_run demo_codec [LI_Command True, LI_Discovered [''q''], LI_Command True]
       (fold (\<lambda>b s. snd (broadcast_block b s)) [demo_b1, demo_b2] service_new))) = pbs \<and> map snd pbs = [[1], [2]]
     \<and> ns_chain (snd (run_handler demo_node (fst (service_run demo_codec
       [LI_Message ''q'' [2], LI_Message ''p'' [1], LI_Message ''p'' [2]] service_new)) (net_start demo_chain))) = c
     \<and> chain_block_number c = 2"
proof -
  let ?bs = "[demo_b1, demo_b2]"
  let ?turns = "[LI_Command True, LI_Discovered [''q''], LI_Command True]"
  let ?a = "fold (\<lambda>b s. snd (broadcast_block b s)) ?bs service_new"
  obtain c where c: "apply_seq demo_node ?bs demo_chain = Some c" "chain_block_number c = 2" by (rule demo_sequence)
  have a: "?a = service_new\<lparr>sv_commands := map CMD_BroadcastBlock ?bs\<rparr>"
    by (subst broadcast_all) (simp_all add: service_new_def)
  have "service_run demo_codec ?turns ?a
      = ([NW_PeerConnected ''q''], [(TOPIC_BLOCKS, [1]), (TOPIC_BLOCKS, [2])], service_new\<lparr>sv_peers := {''q''}\<rparr>)"
    unfolding a using demo_blocks_differ by (simp add: service_new_def command_message_def demo_codec_def)
  from this broadcast_blocks_reach_follower[OF demo_codec_ok _ _ _ c(1) _ _ _ _ this, of service_new
      "[LI_Message ''q'' [2], LI_Message ''p'' [1], LI_Message ''p'' [2]]"] c(2)
  show ?thesis by (auto simp: service_new_def demo_head message_data_def)
qed

text \<open>The second block waits behind the first, its announcement is refused, and then a peer connects.\<close>

theorem refused_broadcast_is_lost_witness:
  "fst (broadcast_retry (\<lambda>_ s. s) 0 demo_b2 (service_new\<lparr>sv_commands := [CMD_BroadcastBlock demo_b1]\<rparr>)) = 1
   \<and> [2] \<notin> snd ` set (fst (node_run demo_codec
        ([Inr (LI_Command True)] @ Inr (LI_Command False) # [Inr (LI_Discovered [''peer'']), Inl (CMD_RequestBlock 3), Inr (LI_Command True)])
        (snd (broadcast_retry (\<lambda>_ s. s) 0 demo_b2 (service_new\<lparr>sv_commands := [CMD_BroadcastBlock demo_b1]\<rparr>)))))"
proof -
  let ?s = "service_new\<lparr>sv_commands := [CMD_BroadcastBlock demo_b1]\<rparr>"
  obtain calls s1 where b: "broadcast_retry (\<lambda>_ s. s) 0 demo_b2 ?s = (calls, s1)" by (rule prod.exhaust)
  obtain pbs s2 where r: "node_run demo_codec
      ([Inr (LI_Command True)] @ Inr (LI_Command False) # [Inr (LI_Discovered [''peer'']), Inl (CMD_RequestBlock 3), Inr (LI_Command True)]) s1
      = (pbs, s2)" by (rule prod.exhaust)
  have "sv_running ?s" by (simp add: service_new_def)
  moreover have "mc_to_vec demo_codec (MSG_NewBlock demo_b2) = Some [2]"
    using demo_blocks_differ by (simp add: demo_codec_def)
  moreover have "length (filter takes_command [Inr (LI_Command True)]) = length (sv_commands ?s)" by simp
  moreover have "\<not> carries demo_codec [2] (CMD_BroadcastBlock demo_b1)" "\<not> carries demo_codec [2] (CMD_RequestBlock 3)"
    by (simp_all add: demo_codec_def carries_def command_message_def)
  ultimately have "calls = 1 \<and> [2] \<notin> snd ` set pbs"
    using refused_broadcast_is_lost[OF _ b _ _ r, of "[2]"] by (simp only: Un_iff set_append) auto
  then show ?thesis by (simp only: b r fst_conv snd_conv) simp
qed

end
