(* ===== verification/Subscriptions.thy ===== *)
theory Subscriptions
  imports F32 "HOL-Library.Sublist"
begin

text \<open>
  The subscriptions, \<open>crates/rpc/src/subscriptions.rs\<close>: each starts a task that reads the broadcast
  channel and forwards the events of its kind to the client. The channel is third-party (tokio); what
  its \<open>recv\<close> gives to a task is an input, and its documented contract is the predicate \<open>receives\<close>.
\<close>

section \<open>Events and tasks\<close>

datatype rpc_event =
    RE_NewBlock u64 string nat u64
  | RE_GameTick u64 nat nat string
  | RE_PendingTransaction string
  | RE_PlayerState string "f32 \<times> f32 \<times> f32" f32 bool
  | RE_ChatMessage string string u64
  | RE_EntityUpdate u64 string "f32 \<times> f32 \<times> f32" "f32 option" bool

datatype recv_result = RR_Event rpc_event | RR_Lagged nat | RR_Closed

text \<open>The loop of a task; \<open>alive k\<close> says whether the client takes the message number \<open>k\<close>. The loop
  ends when the client is gone or the channel is closed.\<close>

fun forward :: "(rpc_event \<Rightarrow> bool) \<Rightarrow> (nat \<Rightarrow> bool) \<Rightarrow> nat \<Rightarrow> recv_result list \<Rightarrow> rpc_event list" where
  "forward wants alive k [] = []"
| "forward wants alive k (RR_Event e # rs) =
     (if wants e then (if alive k then e # forward wants alive (Suc k) rs else [])
      else forward wants alive k rs)"
| "forward wants alive k (RR_Lagged n # rs) = forward wants alive k rs"
| "forward wants alive k (RR_Closed # rs) = []"

fun is_new_block :: "rpc_event \<Rightarrow> bool" where
  "is_new_block (RE_NewBlock _ _ _ _) = True" | "is_new_block _ = False"

fun is_game_tick :: "rpc_event \<Rightarrow> bool" where
  "is_game_tick (RE_GameTick _ _ _ _) = True" | "is_game_tick _ = False"

fun is_pending_tx :: "rpc_event \<Rightarrow> bool" where
  "is_pending_tx (RE_PendingTransaction _) = True" | "is_pending_tx _ = False"

fun is_player_state :: "rpc_event \<Rightarrow> bool" where
  "is_player_state (RE_PlayerState _ _ _ _) = True" | "is_player_state _ = False"

fun is_chat_message :: "rpc_event \<Rightarrow> bool" where
  "is_chat_message (RE_ChatMessage _ _ _) = True" | "is_chat_message _ = False"

fun is_entity_update :: "rpc_event \<Rightarrow> bool" where
  "is_entity_update (RE_EntityUpdate _ _ _ _ _) = True" | "is_entity_update _ = False"

definition subscribe_new_blocks :: "(nat \<Rightarrow> bool) \<Rightarrow> recv_result list \<Rightarrow> rpc_event list" where
  "subscribe_new_blocks alive rs = forward is_new_block alive 0 rs"

definition subscribe_game_ticks :: "(nat \<Rightarrow> bool) \<Rightarrow> recv_result list \<Rightarrow> rpc_event list" where
  "subscribe_game_ticks alive rs = forward is_game_tick alive 0 rs"

definition subscribe_pending_txs :: "(nat \<Rightarrow> bool) \<Rightarrow> recv_result list \<Rightarrow> rpc_event list" where
  "subscribe_pending_txs alive rs = forward is_pending_tx alive 0 rs"

definition subscribe_player_state :: "(nat \<Rightarrow> bool) \<Rightarrow> recv_result list \<Rightarrow> rpc_event list" where
  "subscribe_player_state alive rs = forward is_player_state alive 0 rs"

definition subscribe_chat_messages :: "(nat \<Rightarrow> bool) \<Rightarrow> recv_result list \<Rightarrow> rpc_event list" where
  "subscribe_chat_messages alive rs = forward is_chat_message alive 0 rs"

definition subscribe_entity_updates :: "(nat \<Rightarrow> bool) \<Rightarrow> recv_result list \<Rightarrow> rpc_event list" where
  "subscribe_entity_updates alive rs = forward is_entity_update alive 0 rs"

text \<open>The Ethereum form takes the kind as text; an unknown kind is accepted and gets nothing.\<close>

definition should_send :: "string \<Rightarrow> rpc_event \<Rightarrow> bool" where
  "should_send kind e =
     (if kind = ''newHeads'' then is_new_block e
      else if kind = ''newPendingTransactions'' then is_pending_tx e
      else False)"

definition eth_subscribe :: "string \<Rightarrow> (nat \<Rightarrow> bool) \<Rightarrow> recv_result list \<Rightarrow> rpc_event list" where
  "eth_subscribe kind alive rs = forward (should_send kind) alive 0 rs"

section \<open>What a subscriber gets\<close>

text \<open>The contract of the channel: after the subscription the events come in order; a receiver that
  fell behind is told how many it missed and goes on after them; the channel is reported closed only
  when nothing is left.\<close>

fun receives :: "rpc_event list \<Rightarrow> recv_result list \<Rightarrow> bool" where
  "receives es [] = True"
| "receives es (RR_Lagged n # rs) = (0 < n \<and> n \<le> length es \<and> receives (drop n es) rs)"
| "receives es (RR_Closed # rs) = (es = [] \<and> rs = [])"
| "receives [] (RR_Event e # rs) = False"
| "receives (e' # es) (RR_Event e # rs) = (e' = e \<and> receives es rs)"

fun events_of :: "recv_result list \<Rightarrow> rpc_event list" where
  "events_of [] = []"
| "events_of (RR_Event e # rs) = e # events_of rs"
| "events_of (RR_Lagged n # rs) = events_of rs"
| "events_of (RR_Closed # rs) = []"

lemma receives_events: "receives es rs \<Longrightarrow> subseq (events_of rs) es"
proof (induction es rs rule: receives.induct)
  case (2 es n rs)
  then have "subseq (events_of rs) (drop n es)" by simp
  also have "subseq (drop n es) es" by (rule suffix_imp_subseq[OF suffix_drop])
  finally show ?case by simp
qed simp_all

lemma receives_all: "receives es rs \<Longrightarrow> \<forall>n. RR_Lagged n \<notin> set rs \<Longrightarrow> prefix (events_of rs) es"
  by (induction es rs rule: receives.induct) auto

lemma receives_closed:
  "receives es rs \<Longrightarrow> \<forall>n. RR_Lagged n \<notin> set rs \<Longrightarrow> RR_Closed \<in> set rs \<Longrightarrow> events_of rs = es"
  by (induction es rs rule: receives.induct) auto

lemma forward_alive: "forward wants (\<lambda>_. True) k rs = filter wants (events_of rs)"
  by (induction wants "\<lambda>_ :: nat. True" k rs rule: forward.induct) simp_all

lemma forward_prefix: "prefix (forward wants alive k rs) (filter wants (events_of rs))"
  by (induction wants alive k rs rule: forward.induct) auto

text \<open>Whatever the client and the channel do, a subscriber to new blocks gets block events only, each
  event at most as often as it was sent after the subscription and in that order; it gets a prefix of
  them when it never falls behind; and all of them when it also stays until the channel is closed.\<close>

theorem subscriber_gets_its_blocks:
  assumes "receives es rs"
  shows "subseq (subscribe_new_blocks alive rs) (filter is_new_block es)
    \<and> ((\<forall>n. RR_Lagged n \<notin> set rs) \<longrightarrow> prefix (subscribe_new_blocks alive rs) (filter is_new_block es))
    \<and> ((\<forall>n. RR_Lagged n \<notin> set rs) \<and> RR_Closed \<in> set rs \<longrightarrow>
         subscribe_new_blocks (\<lambda>_. True) rs = filter is_new_block es)"
proof -
  let ?got = "subscribe_new_blocks alive rs"
  have p: "prefix ?got (filter is_new_block (events_of rs))"
    unfolding subscribe_new_blocks_def by (rule forward_prefix)
  have "subseq ?got (filter is_new_block es)"
    using prefix_imp_subseq[OF p] subseq_filter[OF receives_events[OF assms]] by (rule subseq_order.trans)
  moreover have "prefix ?got (filter is_new_block es)" if "\<forall>n. RR_Lagged n \<notin> set rs"
    using p receives_all[OF assms that] by (auto simp: prefix_def)
  moreover have "subscribe_new_blocks (\<lambda>_. True) rs = filter is_new_block es"
    if "\<forall>n. RR_Lagged n \<notin> set rs" "RR_Closed \<in> set rs"
    using receives_closed[OF assms that] by (simp add: subscribe_new_blocks_def forward_alive)
  ultimately show ?thesis by blast
qed

theorem subscriber_gets_its_blocks_witness:
  "let b = (\<lambda>n. RE_NewBlock n ''0x'' 0 n); es = [b 1, RE_PendingTransaction ''0x'', b 2];
       rs = [RR_Event (b 1), RR_Event (RE_PendingTransaction ''0x''), RR_Event (b 2), RR_Closed]
   in receives es rs \<and> subscribe_new_blocks (\<lambda>_. True) rs = [b 1, b 2]"
proof -
  let ?b = "\<lambda>n. RE_NewBlock n ''0x'' 0 n"
  let ?rs = "[RR_Event (?b 1), RR_Event (RE_PendingTransaction ''0x''), RR_Event (?b 2), RR_Closed]"
  have r: "receives [?b 1, RE_PendingTransaction ''0x'', ?b 2] ?rs" by simp
  show ?thesis using subscriber_gets_its_blocks[OF r] by simp
qed

text \<open>A kind the code does not know, \<open>logs\<close> among them, never gets an event.\<close>

lemma unknown_kind_silent: "eth_subscribe ''logs'' alive rs = []"
proof -
  have "forward (\<lambda>_. False) alive k rs = []" for k by (induction rs rule: events_of.induct) simp_all
  moreover have "should_send ''logs'' = (\<lambda>_. False)" by (simp add: should_send_def fun_eq_iff)
  ultimately show ?thesis by (simp add: eth_subscribe_def)
qed

end
