(* ===== verification/Rpc_Server.thy ===== *)
theory Rpc_Server
  imports Primitives
begin

text \<open>
  The start of the RPC server, \<open>crates/rpc/src/server.rs\<close>: which methods it registers. The attributes
  of the interfaces give a namespace and names; the library joins them with an underscore and refuses
  to merge a module that registers a name a second time. Addresses are text; binding the socket is
  an argument.
\<close>

section \<open>Names\<close>

datatype rpc_error =
    RPE_Internal string | RPE_MethodNotFound string | RPE_InvalidParams string | RPE_TxPool string
  | RPE_BlockNotFound string | RPE_Server string

definition in_namespace :: "string \<Rightarrow> string list \<Rightarrow> string list" where
  "in_namespace ns names = map (\<lambda>n. ns @ ''_'' @ n) names"

definition eth_methods :: "string list" where
  "eth_methods = in_namespace ''eth''
     [''chainId'', ''blockNumber'', ''getBalance'', ''getTransactionCount'', ''sendRawTransaction'', ''gasPrice'',
      ''net_version'', ''getBlockByNumber'', ''getBlockByHash'', ''getTransactionReceipt'', ''call'', ''estimateGas'',
      ''getCode'', ''getLogs'']"

definition game_methods :: "string list" where
  "game_methods = in_namespace ''game''
     [''getWorldInfo'', ''getPlayer'', ''getCurrentTick'', ''getEntityCount'', ''submitAction'', ''getAllPlayers'',
      ''getEntitiesInArea'']"

definition session_methods :: "string list" where
  "session_methods = in_namespace ''game''
     [''connectPlayer'', ''disconnectPlayer'', ''heartbeat'', ''getActiveSessions'', ''getSessionInfo'']"

definition admin_methods :: "string list" where
  "admin_methods = in_namespace ''admin'' [''nodeInfo'', ''health'', ''peerCount'']"

definition subscription_methods :: "string list" where
  "subscription_methods = in_namespace ''velochain''
     [''subscribeNewBlocks'', ''unsubscribeNewBlocks'', ''subscribeGameTicks'', ''unsubscribeGameTicks'',
      ''subscribePendingTxs'', ''unsubscribePendingTxs'', ''subscribePlayerState'', ''unsubscribePlayerState'',
      ''subscribeChatMessages'', ''unsubscribeChatMessages'', ''subscribeEntityUpdates'', ''unsubscribeEntityUpdates'']"

definition eth_subscription_methods :: "string list" where
  "eth_subscription_methods = in_namespace ''eth'' [''subscribe'', ''unsubscribe'']"

section \<open>The start\<close>

record rpc_config =
  rp_addr :: string
  rp_chain_id :: u64
  rp_max_ws_connections :: u32
  rp_enable_admin :: bool

definition rpc_config_default :: rpc_config where
  "rpc_config_default =
     \<lparr> rp_addr = ''127.0.0.1:8545'', rp_chain_id = 27181, rp_max_ws_connections = 100, rp_enable_admin = False \<rparr>"

definition merge_module :: "string list \<Rightarrow> string list \<Rightarrow> rpc_error + string list" where
  "merge_module names registered =
     (if set names \<inter> set registered = {} \<and> distinct names then Inr (registered @ names)
      else Inl (RPE_Server ''Method already registered''))"

fun merge_all :: "string list list \<Rightarrow> string list \<Rightarrow> rpc_error + string list" where
  "merge_all [] registered = Inr registered"
| "merge_all (m # ms) registered =
     (case merge_module m registered of Inl e \<Rightarrow> Inl e | Inr r \<Rightarrow> merge_all ms r)"

text \<open>The modules in the order of the code: the session, admin and subscription interfaces depend on
  what the caller passes and on the configuration.\<close>

definition server_modules :: "rpc_config \<Rightarrow> bool \<Rightarrow> bool \<Rightarrow> string list list" where
  "server_modules cfg event_tx session_manager =
     [eth_methods, game_methods]
     @ (if session_manager then [session_methods] else [])
     @ (if rp_enable_admin cfg then [admin_methods] else [])
     @ (if event_tx then [subscription_methods, eth_subscription_methods] else [])"

definition rpc_start ::
  "(string \<Rightarrow> string + string) \<Rightarrow> rpc_config \<Rightarrow> bool \<Rightarrow> bool \<Rightarrow> rpc_error + (string \<times> string list)" where
  "rpc_start bind_addr cfg event_tx session_manager =
     (case bind_addr (rp_addr cfg) of
        Inl e \<Rightarrow> Inl (RPE_Server e)
      | Inr addr \<Rightarrow>
          (case merge_all (server_modules cfg event_tx session_manager) [] of
             Inl e \<Rightarrow> Inl e | Inr names \<Rightarrow> Inr (addr, names)))"

section \<open>What the server offers\<close>

definition all_modules :: "string list" where
  "all_modules = eth_methods @ game_methods @ session_methods @ admin_methods @ subscription_methods
     @ eth_subscription_methods"

lemma all_modules_distinct: "distinct all_modules"
  by code_simp

lemma merge_all_distinct:
  "distinct (registered @ concat ms) \<Longrightarrow> merge_all ms registered = Inr (registered @ concat ms)"
proof (induction ms arbitrary: registered)
  case (Cons m ms)
  then show ?case using Cons.IH[of "registered @ m"] by (auto simp: merge_module_def)
qed simp

lemma server_modules_distinct: "distinct (concat (server_modules cfg ev sm))"
  using all_modules_distinct by (auto simp: server_modules_def all_modules_def)

text \<open>Once the socket is bound the server starts, whatever the configuration and whatever interfaces
  are asked for: no name is registered twice. The two interfaces that share the namespace \<open>game\<close> do
  not collide, and nor do the two that share \<open>eth\<close>. The method documented as \<open>net_version\<close> is not
  among the names, and the admin methods are there only if the configuration says so.\<close>

theorem rpc_server_starts:
  assumes "bind_addr (rp_addr cfg) = Inr addr"
  shows "\<exists>names. rpc_start bind_addr cfg ev sm = Inr (addr, names) \<and> distinct names
    \<and> set eth_methods \<union> set game_methods \<subseteq> set names
    \<and> ''net_version'' \<notin> set names \<and> ''eth_net_version'' \<in> set names
    \<and> (set admin_methods \<inter> set names \<noteq> {} \<longleftrightarrow> rp_enable_admin cfg)"
proof -
  let ?names = "concat (server_modules cfg ev sm)"
  have "merge_all (server_modules cfg ev sm) [] = Inr ?names"
    using merge_all_distinct[of "[]"] server_modules_distinct by simp
  then have "rpc_start bind_addr cfg ev sm = Inr (addr, ?names)" by (simp add: rpc_start_def assms)
  moreover have "''net_version'' \<notin> set all_modules" "''eth_net_version'' \<in> set eth_methods" by code_simp+
  then have "''net_version'' \<notin> set ?names" "''eth_net_version'' \<in> set ?names"
    by (auto simp: server_modules_def all_modules_def)
  moreover have "set admin_methods \<inter> set ?names \<noteq> {} \<longleftrightarrow> rp_enable_admin cfg"
  proof -
    have "''admin_health'' \<in> set admin_methods" by code_simp
    moreover have "set admin_methods \<inter> (set eth_methods \<union> set game_methods \<union> set session_methods
        \<union> set subscription_methods \<union> set eth_subscription_methods) = {}"
      using all_modules_distinct by (auto simp: all_modules_def)
    ultimately show ?thesis by (cases "rp_enable_admin cfg") (auto simp: server_modules_def)
  qed
  ultimately show ?thesis using server_modules_distinct by (auto simp: server_modules_def)
qed

theorem rpc_server_starts_witness:
  "\<exists>names. rpc_start Inr rpc_config_default True True = Inr (''127.0.0.1:8545'', names) \<and> ''net_version'' \<notin> set names
     \<and> set admin_methods \<inter> set names = {}"
  using rpc_server_starts[of Inr rpc_config_default "''127.0.0.1:8545''" True True]
  by (auto simp: rpc_config_default_def)

end
