(* ===== verification/Client_Sound.thy ===== *)
theory Client_Sound
  imports F64
begin

text \<open>
  The sound state of the game client, \<open>crates/game-client/src/sound.rs\<close>: volumes, the queue of effects
  with its deduplication, and the crossfade of the background music. The two systems are functions of
  the clock, the configuration and the state.
\<close>

section \<open>Data\<close>

record sound_config =
  so_master_volume :: f32
  so_bgm_volume :: f32
  so_sfx_volume :: f32
  so_env_volume :: f32
  so_muted :: bool

definition sound_config_default :: sound_config where
  "sound_config_default =
     \<lparr> so_master_volume = f32_lit 8 1, so_bgm_volume = f32_lit 6 1, so_sfx_volume = f32_lit 8 1,
       so_env_volume = f32_lit 5 1, so_muted = False \<rparr>"

definition effective_bgm :: "sound_config \<Rightarrow> f32" where
  "effective_bgm c = (if so_muted c then 0 else f32_mul (so_master_volume c) (so_bgm_volume c))"

definition effective_sfx :: "sound_config \<Rightarrow> f32" where
  "effective_sfx c = (if so_muted c then 0 else f32_mul (so_master_volume c) (so_sfx_volume c))"

definition effective_env :: "sound_config \<Rightarrow> f32" where
  "effective_env c = (if so_muted c then 0 else f32_mul (so_master_volume c) (so_env_volume c))"

datatype bgm_track = BT_Overworld | BT_Combat | BT_Town | BT_Dungeon | BT_Night | BT_Boss | BT_Menu

datatype ambient_sound = AS_Forest | AS_Ocean | AS_Rain | AS_Wind | AS_Cave | AS_TownBustle | AS_None

datatype sfx_id =
    SX_AttackSwing | SX_AttackHit | SX_RangedAttack | SX_TakeDamage | SX_Heal | SX_Death | SX_CriticalHit
  | SX_ItemPickup | SX_ItemDrop | SX_LevelUp | SX_CraftStart | SX_CraftComplete | SX_QuestAccept
  | SX_QuestComplete | SX_SkillLearn | SX_UiClick | SX_PanelOpen | SX_PanelClose | SX_UiError | SX_ChatMessage

datatype sound_event =
    SO_AttackSwing | SO_AttackHit | SO_RangedAttack | SO_TakeDamage | SO_Heal | SO_Death | SO_CriticalHit
  | SO_ItemPickup | SO_ItemDrop | SO_LevelUp | SO_CraftStart | SO_CraftComplete | SO_QuestAccept
  | SO_QuestComplete | SO_SkillLearn | SO_UiClick | SO_PanelOpen | SO_PanelClose | SO_UiError | SO_ChatMessage
  | SO_ChangeBgm bgm_track | SO_StopBgm | SO_ChangeAmbient ambient_sound | SO_StopAmbient

record queued_sfx =
  qs_id :: sfx_id
  qs_volume :: f32
  qs_pitch :: f32

record sound_state =
  ss_current_bgm :: "bgm_track option"
  ss_target_bgm :: "bgm_track option"
  ss_current_ambient :: ambient_sound
  ss_crossfade_progress :: f32
  ss_crossfading :: bool
  ss_recent_sfx :: "(sfx_id \<times> f32) list"
  ss_sfx_cooldown :: f32
  ss_sfx_queue :: "queued_sfx list"

definition sound_state_default :: sound_state where
  "sound_state_default =
     \<lparr> ss_current_bgm = None, ss_target_bgm = None, ss_current_ambient = AS_None, ss_crossfade_progress = 0,
       ss_crossfading = False, ss_recent_sfx = [], ss_sfx_cooldown = f32_lit 5 2, ss_sfx_queue = [] \<rparr>"

section \<open>Systems\<close>

fun event_to_sfx_id :: "sound_event \<Rightarrow> sfx_id option" where
  "event_to_sfx_id SO_AttackSwing = Some SX_AttackSwing"
| "event_to_sfx_id SO_AttackHit = Some SX_AttackHit"
| "event_to_sfx_id SO_RangedAttack = Some SX_RangedAttack"
| "event_to_sfx_id SO_TakeDamage = Some SX_TakeDamage"
| "event_to_sfx_id SO_Heal = Some SX_Heal"
| "event_to_sfx_id SO_Death = Some SX_Death"
| "event_to_sfx_id SO_CriticalHit = Some SX_CriticalHit"
| "event_to_sfx_id SO_ItemPickup = Some SX_ItemPickup"
| "event_to_sfx_id SO_ItemDrop = Some SX_ItemDrop"
| "event_to_sfx_id SO_LevelUp = Some SX_LevelUp"
| "event_to_sfx_id SO_CraftStart = Some SX_CraftStart"
| "event_to_sfx_id SO_CraftComplete = Some SX_CraftComplete"
| "event_to_sfx_id SO_QuestAccept = Some SX_QuestAccept"
| "event_to_sfx_id SO_QuestComplete = Some SX_QuestComplete"
| "event_to_sfx_id SO_SkillLearn = Some SX_SkillLearn"
| "event_to_sfx_id SO_UiClick = Some SX_UiClick"
| "event_to_sfx_id SO_PanelOpen = Some SX_PanelOpen"
| "event_to_sfx_id SO_PanelClose = Some SX_PanelClose"
| "event_to_sfx_id SO_UiError = Some SX_UiError"
| "event_to_sfx_id SO_ChatMessage = Some SX_ChatMessage"
| "event_to_sfx_id (SO_ChangeBgm t) = None"
| "event_to_sfx_id SO_StopBgm = None"
| "event_to_sfx_id (SO_ChangeAmbient a) = None"
| "event_to_sfx_id SO_StopAmbient = None"

definition sfx_pitch :: "f32 \<Rightarrow> f32" where
  "sfx_pitch now =
     f32_add (f32_of_int 1)
       (f32_mul (f32_sub (f32_rem (f32_mul now (f32_of_int 100)) (f32_of_int 10)) (f32_of_int 5)) (f32_lit 1 2))"

definition play_sfx :: "f32 \<Rightarrow> sound_config \<Rightarrow> sfx_id \<Rightarrow> sound_state \<Rightarrow> sound_state" where
  "play_sfx now c i s =
     (if list_ex (\<lambda>(j, _). j = i) (ss_recent_sfx s) then s
      else s\<lparr>ss_sfx_queue := ss_sfx_queue s @ [\<lparr> qs_id = i, qs_volume = effective_sfx c, qs_pitch = sfx_pitch now \<rparr>],
             ss_recent_sfx := ss_recent_sfx s @ [(i, now)]\<rparr>)"

fun handle_sound_event :: "f32 \<Rightarrow> sound_config \<Rightarrow> sound_event \<Rightarrow> sound_state \<Rightarrow> sound_state" where
  "handle_sound_event now c (SO_ChangeBgm t) s =
     (if ss_current_bgm s \<noteq> Some t
      then s\<lparr>ss_target_bgm := Some t, ss_crossfading := True, ss_crossfade_progress := 0\<rparr> else s)"
| "handle_sound_event now c SO_StopBgm s =
     s\<lparr>ss_target_bgm := None, ss_crossfading := True, ss_crossfade_progress := 0\<rparr>"
| "handle_sound_event now c (SO_ChangeAmbient a) s = s\<lparr>ss_current_ambient := a\<rparr>"
| "handle_sound_event now c SO_StopAmbient s = s\<lparr>ss_current_ambient := AS_None\<rparr>"
| "handle_sound_event now c e s =
     (case event_to_sfx_id e of None \<Rightarrow> s | Some i \<Rightarrow> play_sfx now c i s)"

definition clean_recent :: "f32 \<Rightarrow> sound_state \<Rightarrow> sound_state" where
  "clean_recent now s =
     s\<lparr>ss_recent_sfx := filter (\<lambda>(_, t). f32_less (f32_sub now t) (ss_sfx_cooldown s)) (ss_recent_sfx s)\<rparr>"

definition handle_sound_events :: "f32 \<Rightarrow> sound_config \<Rightarrow> sound_event list \<Rightarrow> sound_state \<Rightarrow> sound_state" where
  "handle_sound_events now c es s = fold (handle_sound_event now c) es (clean_recent now s)"

definition update_bgm_state :: "f32 \<Rightarrow> sound_state \<Rightarrow> sound_state" where
  "update_bgm_state dt s =
     (if \<not> ss_crossfading s then s
      else let p = f32_min (f32_add (ss_crossfade_progress s) (f32_mul dt (f32_lit 5 1))) (f32_of_int 1) in
           if f32_le (f32_of_int 1) p
           then s\<lparr>ss_current_bgm := ss_target_bgm s, ss_crossfading := False, ss_crossfade_progress := 0\<rparr>
           else s\<lparr>ss_crossfade_progress := p\<rparr>)"

section \<open>Effects\<close>

definition recent_ids :: "sound_state \<Rightarrow> sfx_id list" where
  "recent_ids s = map fst (ss_recent_sfx s)"

definition event_ids :: "sound_event list \<Rightarrow> sfx_id list" where
  "event_ids es = List.map_filter event_to_sfx_id es"

lemma event_ids_simps [simp]:
  "event_ids [] = []"
  "event_ids (e # es) = (case event_to_sfx_id e of None \<Rightarrow> event_ids es | Some i \<Rightarrow> i # event_ids es)"
  by (simp_all add: event_ids_def map_filter_simps split: option.split)

lemma handle_event_sfx:
  "handle_sound_event now c e s =
     (case event_to_sfx_id e of Some i \<Rightarrow> play_sfx now c i s | None \<Rightarrow> handle_sound_event now c e s)"
  by (cases e) simp_all

lemma handle_event_other:
  "event_to_sfx_id e = None \<Longrightarrow>
     ss_sfx_queue (handle_sound_event now c e s) = ss_sfx_queue s \<and> ss_recent_sfx (handle_sound_event now c e s) = ss_recent_sfx s"
  by (cases e) simp_all

lemma play_recent: "play_sfx now c i s = (if i \<in> set (recent_ids s) then s
      else s\<lparr>ss_sfx_queue := ss_sfx_queue s @ [\<lparr> qs_id = i, qs_volume = effective_sfx c, qs_pitch = sfx_pitch now \<rparr>],
             ss_recent_sfx := ss_recent_sfx s @ [(i, now)]\<rparr>)"
proof -
  have "list_ex (\<lambda>(j, _). j = i) (ss_recent_sfx s) \<longleftrightarrow> i \<in> set (recent_ids s)"
    by (force simp: recent_ids_def list_ex_iff)
  then show ?thesis by (simp add: play_sfx_def)
qed

text \<open>The first occurrence of each effect that was not played recently.\<close>

fun fresh_ids :: "sfx_id set \<Rightarrow> sfx_id list \<Rightarrow> sfx_id list" where
  "fresh_ids seen [] = []"
| "fresh_ids seen (i # is) = (if i \<in> seen then fresh_ids seen is else i # fresh_ids (insert i seen) is)"

lemma run_events:
  "map qs_id (ss_sfx_queue (fold (handle_sound_event now c) es s))
     = map qs_id (ss_sfx_queue s) @ fresh_ids (set (recent_ids s)) (event_ids es)"
proof (induction es arbitrary: s)
  case (Cons e es)
  show ?case
  proof (cases "event_to_sfx_id e")
    case None
    then show ?thesis using Cons.IH[of "handle_sound_event now c e s"] handle_event_other[OF None, of now c s]
      by (simp add: recent_ids_def)
  next
    case (Some i)
    have h: "handle_sound_event now c e s = play_sfx now c i s" using handle_event_sfx[of now c e s] Some by simp
    show ?thesis
      using Cons.IH[of "play_sfx now c i s"] Some
      by (cases "i \<in> set (recent_ids s)") (simp_all add: h play_recent, simp_all add: recent_ids_def)
  qed
qed simp

lemma fresh_ids_distinct: "distinct (fresh_ids seen is) \<and> set (fresh_ids seen is) = set is - seen"
  by (induction seen "is" rule: fresh_ids.induct) auto

text \<open>In one frame every requested effect is queued exactly once, in the order of the first requests,
  unless it was played within the cooldown before; effects queued in earlier frames stay queued.\<close>

theorem frame_queues_each_effect_once:
  "\<exists>new. map qs_id (ss_sfx_queue (handle_sound_events now c es s)) = map qs_id (ss_sfx_queue s) @ new
     \<and> distinct new
     \<and> set new = set (event_ids es) - {i. \<exists>t. (i, t) \<in> set (ss_recent_sfx s) \<and> f32_less (f32_sub now t) (ss_sfx_cooldown s)}"
proof -
  have "set (recent_ids (clean_recent now s))
      = {i. \<exists>t. (i, t) \<in> set (ss_recent_sfx s) \<and> f32_less (f32_sub now t) (ss_sfx_cooldown s)}"
    by (force simp: recent_ids_def clean_recent_def)
  then show ?thesis
    using run_events[of now c es "clean_recent now s"] fresh_ids_distinct[of "set (recent_ids (clean_recent now s))" "event_ids es"]
    by (auto simp: handle_sound_events_def clean_recent_def)
qed

text \<open>Nothing takes an effect out of the queue: it only grows.\<close>

lemma queue_only_grows:
  "length (ss_sfx_queue s) \<le> length (ss_sfx_queue (update_bgm_state dt (handle_sound_events now c es s)))"
proof -
  have "ss_sfx_queue (update_bgm_state dt t) = ss_sfx_queue t" for t by (simp add: update_bgm_state_def Let_def)
  moreover have "length (ss_sfx_queue s) \<le> length (map qs_id (ss_sfx_queue (handle_sound_events now c es s)))"
    using run_events[of now c es "clean_recent now s"] by (simp add: handle_sound_events_def clean_recent_def)
  ultimately show ?thesis by simp
qed

section \<open>Music\<close>

text \<open>Asking for the track that still plays does not cancel a change that is under way.\<close>

lemma return_to_current_ignored:
  assumes "ss_current_bgm s = Some t" and "ss_crossfading s" and "ss_target_bgm s = Some u"
  shows "ss_target_bgm (handle_sound_event now c (SO_ChangeBgm t) s) = Some u"
    and "f32_le (f32_of_int 1) (f32_min (f32_add (ss_crossfade_progress s) (f32_mul dt (f32_lit 5 1))) (f32_of_int 1))
      \<Longrightarrow> ss_current_bgm (update_bgm_state dt (handle_sound_event now c (SO_ChangeBgm t) s)) = Some u"
  using assms by (simp_all add: update_bgm_state_def Let_def)

text \<open>Two seconds finish a change.\<close>

lemma crossfade_ends:
  assumes "ss_crossfading s" and "ss_crossfade_progress s = 0"
  shows "ss_current_bgm (update_bgm_state (f32_of_int 2) s) = ss_target_bgm s \<and> \<not> ss_crossfading (update_bgm_state (f32_of_int 2) s)"
proof -
  have "f32_le (f32_of_int 1) (f32_min (f32_add 0 (f32_mul (f32_of_int 2) (f32_lit 5 1))) (f32_of_int 1))" by code_simp
  then show ?thesis using assms by (simp add: update_bgm_state_def Let_def)
qed

end
