(* ===== verification/Client_Ui.thy ===== *)
theory Client_Ui
  imports F64
begin

text \<open>
  The state behind the panels of the game client, \<open>crates/game-client/src/ui.rs\<close> and \<open>ui_panels.rs\<close>:
  chat log, inventory, overlay panels and notifications. A Bevy system is a function of the resources
  it reads and writes; the nodes it switches are part of the state, the layout of the panels is not.
\<close>

section \<open>Chat\<close>

record chat_message =
  cm_sender :: string
  cm_text :: string

record chat_log =
  clg_messages :: "chat_message list"
  clg_max_display :: nat

definition chat_log_new :: chat_log where
  "chat_log_new = \<lparr> clg_messages = [], clg_max_display = 8 \<rparr>"

text \<open>The derived default, which is what the plugin inserts.\<close>

definition chat_log_default :: chat_log where
  "chat_log_default = \<lparr> clg_messages = [], clg_max_display = 0 \<rparr>"

definition chat_push :: "string \<Rightarrow> string \<Rightarrow> chat_log \<Rightarrow> chat_log" where
  "chat_push sender text log =
     (let ms = clg_messages log @ [\<lparr> cm_sender = sender, cm_text = text \<rparr>]
      in log\<lparr>clg_messages := if 100 < length ms then tl ms else ms\<rparr>)"

fun join_lines :: "string list \<Rightarrow> string" where
  "join_lines [] = []"
| "join_lines [l] = l"
| "join_lines (l # ls) = l @ CHR 0x0A # join_lines ls"

definition update_chat_display :: "chat_log \<Rightarrow> string" where
  "update_chat_display log =
     (let start = length (clg_messages log) - clg_max_display log
      in join_lines (map (\<lambda>m. ''['' @ cm_sender m @ ''] '' @ cm_text m) (drop start (clg_messages log))))"

definition update_health_bar :: "f32 \<Rightarrow> f32 \<Rightarrow> f32 \<times> 32 word \<times> 32 word" where
  "update_health_bar health max_health =
     ((if f32_less 0 max_health
       then f32_clamp (f32_mul (f32_div health max_health) (f32_of_int 100)) 0 (f32_of_int 100) else 0),
      f32_to_i32 health, f32_to_i32 max_health)"

text \<open>The inventory with the visibility of its node.\<close>

definition toggle_inventory :: "bool \<Rightarrow> bool \<times> bool \<Rightarrow> bool \<times> bool" where
  "toggle_inventory pressed st = (if pressed then (\<not> fst st, \<not> fst st) else st)"

section \<open>Panels\<close>

datatype panel_kind = PK_Crafting | PK_QuestLog | PK_SkillTree | PK_Shop

record panel_states =
  ps_crafting_open :: bool
  ps_quest_log_open :: bool
  ps_skill_tree_open :: bool
  ps_shop_open :: bool
  ps_active_panel :: "panel_kind option"

definition panel_states_default :: panel_states where
  "panel_states_default =
     \<lparr> ps_crafting_open = False, ps_quest_log_open = False, ps_skill_tree_open = False, ps_shop_open = False,
       ps_active_panel = None \<rparr>"

definition close_all :: "panel_states \<Rightarrow> panel_states" where
  "close_all s =
     s\<lparr>ps_crafting_open := False, ps_quest_log_open := False, ps_skill_tree_open := False, ps_shop_open := False,
       ps_active_panel := None\<rparr>"

fun is_open :: "panel_states \<Rightarrow> panel_kind \<Rightarrow> bool" where
  "is_open s PK_Crafting = ps_crafting_open s"
| "is_open s PK_QuestLog = ps_quest_log_open s"
| "is_open s PK_SkillTree = ps_skill_tree_open s"
| "is_open s PK_Shop = ps_shop_open s"

fun set_open :: "panel_kind \<Rightarrow> bool \<Rightarrow> panel_states \<Rightarrow> panel_states" where
  "set_open PK_Crafting b s = s\<lparr>ps_crafting_open := b\<rparr>"
| "set_open PK_QuestLog b s = s\<lparr>ps_quest_log_open := b\<rparr>"
| "set_open PK_SkillTree b s = s\<lparr>ps_skill_tree_open := b\<rparr>"
| "set_open PK_Shop b s = s\<lparr>ps_shop_open := b\<rparr>"

definition toggle :: "panel_kind \<Rightarrow> panel_states \<Rightarrow> panel_states" where
  "toggle k s =
     (let was_open = is_open s k; s1 = close_all s
      in if was_open then s1 else (set_open k True s1)\<lparr>ps_active_panel := Some k\<rparr>)"

definition open_count :: "panel_states \<Rightarrow> nat" where
  "open_count s =
     length (filter id [ps_crafting_open s, ps_quest_log_open s, ps_skill_tree_open s, ps_shop_open s])"

datatype panel_event =
    PE_Toggle panel_kind
  | PE_CloseAll
  | PE_SelectRecipe u32
  | PE_CraftItem u32
  | PE_SelectQuest string
  | PE_AbandonQuest string
  | PE_AllocateSkill string
  | PE_ShopBuy u32 u32
  | PE_ShopSell u32 u32

text \<open>The panels that are shown, switched after each event that concerns them.\<close>

definition sync_panel_visibility :: "panel_states \<Rightarrow> panel_kind \<Rightarrow> bool" where
  "sync_panel_visibility s = is_open s"

fun handle_panel_events ::
  "panel_event list \<Rightarrow> panel_states \<times> (panel_kind \<Rightarrow> bool) \<Rightarrow> panel_states \<times> (panel_kind \<Rightarrow> bool)" where
  "handle_panel_events [] st = st"
| "handle_panel_events (PE_Toggle k # es) st =
     (let s = toggle k (fst st) in handle_panel_events es (s, sync_panel_visibility s))"
| "handle_panel_events (PE_CloseAll # es) st =
     (let s = close_all (fst st) in handle_panel_events es (s, sync_panel_visibility s))"
| "handle_panel_events (e # es) st = handle_panel_events es st"

datatype key_code = KEY_C | KEY_J | KEY_K | KEY_B | KEY_Escape

definition handle_panel_hotkeys :: "(key_code \<Rightarrow> bool) \<Rightarrow> panel_event list" where
  "handle_panel_hotkeys just_pressed =
     (if just_pressed KEY_C then [PE_Toggle PK_Crafting] else [])
     @ (if just_pressed KEY_J then [PE_Toggle PK_QuestLog] else [])
     @ (if just_pressed KEY_K then [PE_Toggle PK_SkillTree] else [])
     @ (if just_pressed KEY_B then [PE_Toggle PK_Shop] else [])
     @ (if just_pressed KEY_Escape then [PE_CloseAll] else [])"

section \<open>Notifications\<close>

datatype notification_kind =
  NK_Info | NK_Success | NK_Warning | NK_Error | NK_QuestUpdate | NK_LevelUp | NK_ItemReceived

record notification =
  nt_text :: string
  nt_kind :: notification_kind
  nt_remaining :: f32
  nt_total :: f32

record notification_queue =
  nq_notifications :: "notification list"
  nq_max_visible :: nat
  nq_default_duration :: f32

definition notification_queue_default :: notification_queue where
  "notification_queue_default =
     \<lparr> nq_notifications = [], nq_max_visible = 5, nq_default_duration = f32_of_int 3 \<rparr>"

fun trim_front :: "nat \<Rightarrow> 'a list \<Rightarrow> 'a list" where
  "trim_front n [] = []"
| "trim_front n (x # xs) = (if n < length (x # xs) then trim_front n xs else x # xs)"

definition notify :: "string \<Rightarrow> notification_kind \<Rightarrow> notification_queue \<Rightarrow> notification_queue" where
  "notify text kind q =
     (let d = nq_default_duration q;
          ns = nq_notifications q @ [\<lparr> nt_text = text, nt_kind = kind, nt_remaining = d, nt_total = d \<rparr>]
      in q\<lparr>nq_notifications := trim_front (nq_max_visible q * 2) ns\<rparr>)"

definition push_timed :: "string \<Rightarrow> notification_kind \<Rightarrow> f32 \<Rightarrow> notification_queue \<Rightarrow> notification_queue" where
  "push_timed text kind d q =
     q\<lparr>nq_notifications := nq_notifications q
         @ [\<lparr> nt_text = text, nt_kind = kind, nt_remaining = d, nt_total = d \<rparr>]\<rparr>"

definition visible :: "notification_queue \<Rightarrow> notification list" where
  "visible q = take (nq_max_visible q) (rev (filter (\<lambda>n. f32_less 0 (nt_remaining n)) (nq_notifications q)))"

definition opacity :: "notification \<Rightarrow> f32" where
  "opacity n =
     (if f32_less (f32_lit 5 1) (nt_remaining n) then f32_of_int 1
      else f32_max (f32_div (nt_remaining n) (f32_lit 5 1)) 0)"

definition update_notifications :: "f32 \<Rightarrow> notification_queue \<Rightarrow> notification_queue" where
  "update_notifications dt q =
     q\<lparr>nq_notifications :=
         filter (\<lambda>n. f32_less (f32_lit (- 5) 1) (nt_remaining n))
           (map (\<lambda>n. n\<lparr>nt_remaining := f32_sub (nt_remaining n) dt\<rparr>) (nq_notifications q))\<rparr>"

section \<open>Properties\<close>

text \<open>With the resource the plugin inserts no chat message is ever shown.\<close>

lemma chat_never_shown: "update_chat_display (fold (\<lambda>(s, t). chat_push s t) ms chat_log_default) = []"
proof -
  have "clg_max_display (fold (\<lambda>(s, t). chat_push s t) ms log) = clg_max_display log" for log
    by (induction ms arbitrary: log) (simp_all add: chat_push_def Let_def case_prod_beta)
  then show ?thesis by (simp add: update_chat_display_def chat_log_default_def)
qed

lemma chat_bounded: "length (clg_messages log) \<le> 100 \<Longrightarrow> length (clg_messages (chat_push s t log)) \<le> 100"
  by (simp add: chat_push_def Let_def)

text \<open>At most one panel is open, it is the active one, and what is shown is what is open.\<close>

definition panels_ok :: "panel_states \<times> (panel_kind \<Rightarrow> bool) \<Rightarrow> bool" where
  "panels_ok st \<longleftrightarrow> (\<forall>k. is_open (fst st) k \<longleftrightarrow> ps_active_panel (fst st) = Some k) \<and> snd st = is_open (fst st)"

lemma is_open_set: "is_open (set_open k b s) j = (if j = k then b else is_open s j)"
  by (cases k; cases j) simp_all

lemma is_open_active [simp]: "is_open (s\<lparr>ps_active_panel := a\<rparr>) j = is_open s j"
  by (cases j) simp_all

lemma is_open_closed [simp]: "\<not> is_open (close_all s) j" "ps_active_panel (close_all s) = None"
  by (cases j) (simp_all add: close_all_def)

lemma toggle_ok: "panels_ok (toggle k s, is_open (toggle k s))"
  by (auto simp: panels_ok_def toggle_def Let_def is_open_set)

lemma handle_ok: "panels_ok st \<Longrightarrow> panels_ok (handle_panel_events es st)"
proof (induction es st rule: handle_panel_events.induct)
  case (2 k es st)
  then show ?case by (simp add: Let_def sync_panel_visibility_def toggle_ok)
next
  case (3 es st)
  then show ?case by (simp add: Let_def sync_panel_visibility_def panels_ok_def)
qed simp_all

lemma open_count_active:
  assumes "\<forall>k. is_open s k \<longleftrightarrow> ps_active_panel s = Some k"
  shows "open_count s = (if ps_active_panel s = None then 0 else 1)"
proof -
  have o: "ps_crafting_open s = (ps_active_panel s = Some PK_Crafting)"
    "ps_quest_log_open s = (ps_active_panel s = Some PK_QuestLog)"
    "ps_skill_tree_open s = (ps_active_panel s = Some PK_SkillTree)" "ps_shop_open s = (ps_active_panel s = Some PK_Shop)"
    using assms is_open.simps by metis+
  show ?thesis
  proof (cases "ps_active_panel s")
    case None
    then show ?thesis by (simp add: open_count_def o)
  next
    case (Some k)
    then show ?thesis by (cases k) (simp_all add: open_count_def o)
  qed
qed

text \<open>Over any run of frames, whatever panel events and keys arrive, at most one panel is open, it is
  the active one, and the panels shown are those that are open.\<close>

theorem one_panel_open:
  assumes "st = fold (\<lambda>(es, keys). handle_panel_events (es @ handle_panel_hotkeys keys)) frames
      (panel_states_default, is_open panel_states_default)"
  shows "open_count (fst st) \<le> 1 \<and> (\<forall>k. is_open (fst st) k \<longleftrightarrow> ps_active_panel (fst st) = Some k) \<and> snd st = is_open (fst st)"
proof -
  have run: "panels_ok s \<Longrightarrow>
      panels_ok (fold (\<lambda>(es, keys). handle_panel_events (es @ handle_panel_hotkeys keys)) frames s)" for s
    by (induction frames arbitrary: s) (simp_all add: case_prod_beta handle_ok)
  have "\<not> is_open panel_states_default k" for k by (cases k) (simp_all add: panel_states_default_def)
  then have "panels_ok (panel_states_default, is_open panel_states_default)"
    by (simp add: panels_ok_def panel_states_default_def)
  from run[OF this] have "panels_ok st" unfolding assms .
  then show ?thesis using open_count_active[of "fst st"] by (auto simp: panels_ok_def)
qed

theorem one_panel_open_witness:
  "open_count (fst (fold (\<lambda>(es, keys). handle_panel_events (es @ handle_panel_hotkeys keys))
     [([PE_Toggle PK_Shop, PE_ShopBuy 1 2], \<lambda>k. k = KEY_C), ([], \<lambda>k. k = KEY_J)]
     (panel_states_default, is_open panel_states_default))) \<le> 1"
  using one_panel_open[OF refl, of "[([PE_Toggle PK_Shop, PE_ShopBuy 1 2], \<lambda>k. k = KEY_C), ([], \<lambda>k. k = KEY_J)]"]
  by blast

text \<open>Untimed notifications keep the queue at twice the visible number; timed ones do not, and the
  visible ones are never more than allowed.\<close>

lemma trim_front_length: "length (trim_front n xs) \<le> n"
  by (induction xs) auto

lemma notify_bounded: "length (nq_notifications (notify t k q)) \<le> 2 * nq_max_visible q"
  using trim_front_length[of "nq_max_visible q * 2"] by (simp add: notify_def Let_def mult.commute)

lemma visible_bounded: "length (visible q) \<le> nq_max_visible q"
  by (simp add: visible_def)

lemma timed_unbounded:
  "length (nq_notifications ((push_timed t k d ^^ n) q)) = length (nq_notifications q) + n"
  by (induction n) (simp_all add: push_timed_def)

end
