(* ===== verification/Client_Touch.thy ===== *)
theory Client_Touch
  imports F64
begin

text \<open>
  Touch input of the game client, \<open>crates/game-client/src/touch_input.rs\<close>: the virtual joystick, the
  tracked touches and the gestures. Vector arithmetic is third-party (glam) and the record \<open>vec_ops\<close>;
  what Bevy reports for a frame is the record \<open>touch_frame\<close>. The plugin adds its three systems to one
  set without an order, so that the scheduler may run \<open>detect_gestures\<close> before or after
  \<open>process_touch_input\<close>; both orders are modelled.
\<close>

section \<open>Data\<close>

type_synonym vec2 = "f32 \<times> f32"

record vec_ops =
  vo_add :: "vec2 \<Rightarrow> vec2 \<Rightarrow> vec2"
  vo_sub :: "vec2 \<Rightarrow> vec2 \<Rightarrow> vec2"
  vo_mul :: "vec2 \<Rightarrow> f32 \<Rightarrow> vec2"
  vo_div :: "vec2 \<Rightarrow> f32 \<Rightarrow> vec2"
  vo_len :: "vec2 \<Rightarrow> f32"
  vo_normalize :: "vec2 \<Rightarrow> vec2"

record touch_config =
  to_enabled :: bool
  to_joystick_dead_zone :: f32
  to_joystick_max_radius :: f32
  to_tap_threshold :: f32
  to_swipe_min_distance :: f32
  to_pinch_sensitivity :: f32
  to_double_tap_window :: f32
  to_long_press_threshold :: f32

definition touch_config_default :: touch_config where
  "touch_config_default =
     \<lparr> to_enabled = True, to_joystick_dead_zone = f32_of_int 10, to_joystick_max_radius = f32_of_int 60,
       to_tap_threshold = f32_lit 25 2, to_swipe_min_distance = f32_of_int 50, to_pinch_sensitivity = f32_of_int 1,
       to_double_tap_window = f32_lit 3 1, to_long_press_threshold = f32_lit 5 1 \<rparr>"

datatype joystick_side = JS_Left | JS_Right

record virtual_joystick =
  vj_active :: bool
  vj_origin :: vec2
  vj_current :: vec2
  vj_direction :: vec2
  vj_magnitude :: f32
  vj_side :: joystick_side

definition joystick_default :: virtual_joystick where
  "joystick_default =
     \<lparr> vj_active = False, vj_origin = (0, 0), vj_current = (0, 0), vj_direction = (0, 0), vj_magnitude = 0,
       vj_side = JS_Left \<rparr>"

definition joystick_reset :: "virtual_joystick \<Rightarrow> virtual_joystick" where
  "joystick_reset j = j\<lparr>vj_active := False, vj_direction := (0, 0), vj_magnitude := 0\<rparr>"

definition joystick_update :: "vec_ops \<Rightarrow> vec2 \<Rightarrow> vec2 \<Rightarrow> f32 \<Rightarrow> f32 \<Rightarrow> virtual_joystick \<Rightarrow> virtual_joystick" where
  "joystick_update G origin current dead_zone max_radius j =
     (let j1 = j\<lparr>vj_origin := origin, vj_current := current\<rparr>;
          delta = vo_sub G current origin; distance = vo_len G delta
      in if f32_less distance dead_zone then j1\<lparr>vj_direction := (0, 0), vj_magnitude := 0\<rparr>
         else j1\<lparr>vj_direction := vo_normalize G delta,
                 vj_magnitude := f32_min (f32_div (f32_sub distance dead_zone) (f32_sub max_radius dead_zone)) (f32_of_int 1)\<rparr>)"

definition joystick_movement :: "vec_ops \<Rightarrow> virtual_joystick \<Rightarrow> vec2" where
  "joystick_movement G j = vo_mul G (vj_direction j) (vj_magnitude j)"

record touch_point =
  tp_id :: u64
  tp_start_pos :: vec2
  tp_current_pos :: vec2
  tp_start_time :: f32
  tp_consumed :: bool

datatype swipe_direction = SD_Up | SD_Down | SD_Left | SD_Right

definition swipe_from_delta :: "vec2 \<Rightarrow> swipe_direction" where
  "swipe_from_delta d =
     (if f32_less (f32_abs (snd d)) (f32_abs (fst d)) then (if f32_less 0 (fst d) then SD_Right else SD_Left)
      else if f32_less 0 (snd d) then SD_Up else SD_Down)"

datatype gesture =
    GE_Tap vec2 | GE_DoubleTap vec2 | GE_LongPress vec2 | GE_Swipe vec2 vec2 swipe_direction | GE_Pinch vec2 f32

record gesture_state =
  ge_touches :: "touch_point list"
  ge_last_tap_time :: f32
  ge_last_tap_pos :: vec2
  ge_prev_pinch_distance :: "f32 option"
  ge_current_gesture :: "gesture option"

definition gesture_state_default :: gesture_state where
  "gesture_state_default =
     \<lparr> ge_touches = [], ge_last_tap_time = f32_of_int (- 1), ge_last_tap_pos = (0, 0), ge_prev_pinch_distance = None,
       ge_current_gesture = None \<rparr>"

datatype touch_action =
    TA_Move vec2 f32 | TA_Interact vec2 | TA_QuickPickup vec2 | TA_ContextMenu vec2 | TA_SwipeMenu swipe_direction
  | TA_Zoom f32

record touch_ui_scale =
  us_scale :: f32
  us_auto_scale :: bool
  us_min_touch_target :: f32
  us_reference_width :: f32

definition touch_ui_scale_default :: touch_ui_scale where
  "touch_ui_scale_default =
     \<lparr> us_scale = f32_of_int 1, us_auto_scale = True, us_min_touch_target = f32_of_int 44,
       us_reference_width = f32_of_int 1280 \<rparr>"

definition calculate_scale :: "f32 \<Rightarrow> touch_ui_scale \<Rightarrow> f32" where
  "calculate_scale screen_width u =
     (if \<not> us_auto_scale u then us_scale u
      else f32_clamp (f32_div (us_reference_width u) screen_width) (f32_lit 8 1) (f32_of_int 2))"

definition effective_touch_target :: "touch_ui_scale \<Rightarrow> f32" where
  "effective_touch_target u = f32_mul (us_min_touch_target u) (us_scale u)"

section \<open>The systems\<close>

record touch_frame =
  tf_now :: f32
  tf_just_pressed :: "(u64 \<times> vec2) list"
  tf_pressed :: "(u64 \<times> vec2) list"
  tf_just_released :: "(u64 \<times> vec2) list"
  tf_screen_width :: "f32 option"

fun set_current :: "u64 \<times> vec2 \<Rightarrow> touch_point list \<Rightarrow> touch_point list" where
  "set_current p [] = []"
| "set_current p (t # ts) = (if tp_id t = fst p then t\<lparr>tp_current_pos := snd p\<rparr> # ts else t # set_current p ts)"

definition new_touch :: "f32 \<Rightarrow> u64 \<times> vec2 \<Rightarrow> touch_point" where
  "new_touch now p =
     \<lparr> tp_id = fst p, tp_start_pos = snd p, tp_current_pos = snd p, tp_start_time = now, tp_consumed = False \<rparr>"

definition process_touch_input :: "touch_config \<Rightarrow> touch_frame \<Rightarrow> gesture_state \<Rightarrow> gesture_state" where
  "process_touch_input c f g =
     (if \<not> to_enabled c then g
      else let t1 = ge_touches g @ map (new_touch (tf_now f)) (tf_just_pressed f);
               t2 = fold set_current (tf_pressed f) t1;
               t3 = fold (\<lambda>(i, _). filter (\<lambda>t. tp_id t \<noteq> i)) (tf_just_released f) t2
           in g\<lparr>ge_touches := t3\<rparr>)"

text \<open>The joystick takes the first touch of the left half.\<close>

definition update_virtual_joystick ::
  "vec_ops \<Rightarrow> touch_config \<Rightarrow> touch_frame \<Rightarrow> virtual_joystick \<Rightarrow> touch_action list \<times> virtual_joystick" where
  "update_virtual_joystick G c f j =
     (if \<not> to_enabled c then ([], j)
      else let width = (case tf_screen_width f of None \<Rightarrow> f32_of_int 1280 | Some w \<Rightarrow> w);
               half = f32_div width (f32_of_int 2) in
        case find (\<lambda>(_, pos). f32_less (fst pos) half \<and> vj_side j = JS_Left) (tf_pressed f) of
          None \<Rightarrow> ([], if vj_active j then joystick_reset j else j)
        | Some (_, pos) \<Rightarrow>
            let j1 = (if vj_active j then j else j\<lparr>vj_active := True, vj_origin := pos\<rparr>);
                j2 = joystick_update G (vj_origin j1) pos (to_joystick_dead_zone c) (to_joystick_max_radius c) j1
            in (if f32_less 0 (vj_magnitude j2) then [TA_Move (vj_direction j2) (vj_magnitude j2)] else [], j2))"

definition was_quick :: "vec_ops \<Rightarrow> touch_config \<Rightarrow> f32 \<Rightarrow> u64 \<Rightarrow> touch_point \<Rightarrow> bool" where
  "was_quick G c now i t \<longleftrightarrow> tp_id t = i \<and> f32_less (f32_sub now (tp_start_time t)) (to_tap_threshold c)
     \<and> f32_less (vo_len G (vo_sub G (tp_current_pos t) (tp_start_pos t))) (to_swipe_min_distance c)"

definition detect_tap ::
  "vec_ops \<Rightarrow> touch_config \<Rightarrow> f32 \<Rightarrow> u64 \<times> vec2 \<Rightarrow> gesture_state \<Rightarrow> touch_action list \<times> gesture_state" where
  "detect_tap G c now p g =
     (let pos = snd p in
      if list_ex (was_quick G c now (fst p)) (ge_touches g) then
        (if f32_less (f32_sub now (ge_last_tap_time g)) (to_double_tap_window c)
            \<and> f32_less (vo_len G (vo_sub G pos (ge_last_tap_pos g))) (f32_of_int 30)
         then ([TA_QuickPickup pos], g\<lparr>ge_current_gesture := Some (GE_DoubleTap pos), ge_last_tap_time := f32_of_int (- 1)\<rparr>)
         else ([TA_Interact pos],
               g\<lparr>ge_current_gesture := Some (GE_Tap pos), ge_last_tap_time := now, ge_last_tap_pos := pos\<rparr>))
      else ([], g))"

definition detect_swipe ::
  "vec_ops \<Rightarrow> touch_config \<Rightarrow> f32 \<Rightarrow> u64 \<times> vec2 \<Rightarrow> gesture_state \<Rightarrow> touch_action list \<times> gesture_state" where
  "detect_swipe G c now p g =
     (case find (\<lambda>t. tp_id t = fst p) (ge_touches g) of
        None \<Rightarrow> ([], g)
      | Some t \<Rightarrow>
          let delta = vo_sub G (tp_current_pos t) (tp_start_pos t) in
          if f32_le (to_swipe_min_distance c) (vo_len G delta) \<and> f32_less (f32_sub now (tp_start_time t)) (f32_lit 5 1)
          then ([TA_SwipeMenu (swipe_from_delta delta)],
                g\<lparr>ge_current_gesture := Some (GE_Swipe (tp_start_pos t) (tp_current_pos t) (swipe_from_delta delta))\<rparr>)
          else ([], g))"

fun detect_releases ::
  "vec_ops \<Rightarrow> touch_config \<Rightarrow> f32 \<Rightarrow> (u64 \<times> vec2) list \<Rightarrow> gesture_state \<Rightarrow> touch_action list \<times> gesture_state" where
  "detect_releases G c now [] g = ([], g)"
| "detect_releases G c now (p # ps) g =
     (let (a1, g1) = detect_tap G c now p g; (a2, g2) = detect_swipe G c now p g1;
          (a3, g3) = detect_releases G c now ps g2
      in (a1 @ a2 @ a3, g3))"

definition is_long_press :: "vec_ops \<Rightarrow> touch_config \<Rightarrow> f32 \<Rightarrow> touch_point \<Rightarrow> bool" where
  "is_long_press G c now t \<longleftrightarrow> \<not> tp_consumed t \<and> f32_le (to_long_press_threshold c) (f32_sub now (tp_start_time t))
     \<and> f32_less (vo_len G (vo_sub G (tp_current_pos t) (tp_start_pos t))) (to_joystick_dead_zone c)"

text \<open>All long presses are consumed, the last one acts.\<close>

definition detect_long_press ::
  "vec_ops \<Rightarrow> touch_config \<Rightarrow> f32 \<Rightarrow> gesture_state \<Rightarrow> touch_action list \<times> gesture_state" where
  "detect_long_press G c now g =
     (let hit = is_long_press G c now;
          g1 = g\<lparr>ge_touches := map (\<lambda>t. if hit t then t\<lparr>tp_consumed := True\<rparr> else t) (ge_touches g)\<rparr>
      in case rev (filter hit (ge_touches g)) of
           [] \<Rightarrow> ([], g1)
         | t # _ \<Rightarrow> ([TA_ContextMenu (tp_current_pos t)],
                     g1\<lparr>ge_current_gesture := Some (GE_LongPress (tp_current_pos t))\<rparr>))"

definition detect_pinch :: "vec_ops \<Rightarrow> touch_config \<Rightarrow> gesture_state \<Rightarrow> touch_action list \<times> gesture_state" where
  "detect_pinch G c g =
     (case ge_touches g of
        [s, t] \<Rightarrow>
          let dist = vo_len G (vo_sub G (tp_current_pos s) (tp_current_pos t));
              center = vo_div G (vo_add G (tp_current_pos s) (tp_current_pos t)) (f32_of_int 2);
              g1 = g\<lparr>ge_prev_pinch_distance := Some dist\<rparr>
          in (case ge_prev_pinch_distance g of
                None \<Rightarrow> ([], g1)
              | Some prev \<Rightarrow>
                  let delta = f32_mul (f32_div dist prev) (to_pinch_sensitivity c) in
                  if f32_less (f32_lit 1 2) (f32_abs (f32_sub delta (f32_of_int 1)))
                  then ([TA_Zoom delta], g1\<lparr>ge_current_gesture := Some (GE_Pinch center delta)\<rparr>)
                  else ([], g1))
      | _ \<Rightarrow> ([], g\<lparr>ge_prev_pinch_distance := None\<rparr>))"

definition detect_gestures ::
  "vec_ops \<Rightarrow> touch_config \<Rightarrow> touch_frame \<Rightarrow> gesture_state \<Rightarrow> touch_action list \<times> gesture_state" where
  "detect_gestures G c f g =
     (if \<not> to_enabled c then ([], g)
      else let (a1, g1) = detect_releases G c (tf_now f) (tf_just_released f) g;
               (a2, g2) = detect_long_press G c (tf_now f) g1;
               (a3, g3) = detect_pinch G c g2
           in (a1 @ a2 @ a3, g3))"

section \<open>Two schedules\<close>

text \<open>A frame with the tracking first, and with the detection first; and a run of frames, in which the
  schedule of each frame is given.\<close>

definition frame_tracking_first ::
  "vec_ops \<Rightarrow> touch_config \<Rightarrow> touch_frame \<Rightarrow> gesture_state \<Rightarrow> touch_action list \<times> gesture_state" where
  "frame_tracking_first G c f g = detect_gestures G c f (process_touch_input c f g)"

definition frame_detection_first ::
  "vec_ops \<Rightarrow> touch_config \<Rightarrow> touch_frame \<Rightarrow> gesture_state \<Rightarrow> touch_action list \<times> gesture_state" where
  "frame_detection_first G c f g =
     (let (a, g1) = detect_gestures G c f g in (a, process_touch_input c f g1))"

fun run_frames ::
  "vec_ops \<Rightarrow> touch_config \<Rightarrow> (bool \<times> touch_frame) list \<Rightarrow> gesture_state \<Rightarrow> touch_action list \<times> gesture_state" where
  "run_frames G c [] g = ([], g)"
| "run_frames G c ((tracking_first, f) # fs) g =
     (let (a, g1) = (if tracking_first then frame_tracking_first G c f g else frame_detection_first G c f g);
          (as, g2) = run_frames G c fs g1
      in (a @ as, g2))"

fun is_release_action :: "touch_action \<Rightarrow> bool" where
  "is_release_action (TA_Interact _) = True"
| "is_release_action (TA_QuickPickup _) = True"
| "is_release_action (TA_SwipeMenu _) = True"
| "is_release_action _ = False"

text \<open>No released touch is tracked any more when the tracking ran first.\<close>

lemma filters_ids:
  "set (fold (\<lambda>(i, _). filter (\<lambda>t. tp_id t \<noteq> i)) rs ts) = {t \<in> set ts. \<forall>p \<in> set rs. tp_id t \<noteq> fst p}"
  by (induction rs arbitrary: ts) auto

lemma tracked_after_release:
  "to_enabled c \<Longrightarrow> t \<in> set (ge_touches (process_touch_input c f g)) \<Longrightarrow> p \<in> set (tf_just_released f) \<Longrightarrow> tp_id t \<noteq> fst p"
  by (simp add: process_touch_input_def Let_def filters_ids)

lemma untracked_release:
  "\<forall>p \<in> set ps. \<forall>t \<in> set (ge_touches g). tp_id t \<noteq> fst p \<Longrightarrow> detect_releases G c now ps g = ([], g)"
proof (induction ps)
  case (Cons p ps)
  then have "\<not> list_ex (was_quick G c now (fst p)) (ge_touches g)"
    by (auto simp: list_ex_iff was_quick_def)
  moreover have "find (\<lambda>t. tp_id t = fst p) (ge_touches g) = None" using Cons.prems by (auto simp: find_None_iff)
  ultimately show ?case using Cons by (simp add: detect_tap_def detect_swipe_def)
qed simp

lemma other_actions:
  "\<forall>a \<in> set (fst (detect_long_press G c now g)). \<not> is_release_action a"
  "\<forall>a \<in> set (fst (detect_pinch G c g)). \<not> is_release_action a"
  by (auto simp: detect_long_press_def detect_pinch_def Let_def split: list.split option.split)

lemma tracking_first_silent:
  "a \<in> set (fst (frame_tracking_first G c f g)) \<Longrightarrow> \<not> is_release_action a"
proof (cases "to_enabled c")
  case True
  assume a: "a \<in> set (fst (frame_tracking_first G c f g))"
  let ?g = "process_touch_input c f g"
  have r: "detect_releases G c (tf_now f) (tf_just_released f) ?g = ([], ?g)"
    using tracked_after_release[OF True] by (intro untracked_release) blast
  show "\<not> is_release_action a"
    using a True other_actions by (auto simp: frame_tracking_first_def detect_gestures_def r case_prod_beta)
qed (simp add: frame_tracking_first_def detect_gestures_def)

lemma quick_tap_acts:
  assumes "list_ex (was_quick G c now (fst p)) (ge_touches g)"
  shows "\<exists>a \<in> set (fst (detect_tap G c now p g)). is_release_action a"
  using assms by (simp add: detect_tap_def Let_def)

text \<open>Whether taps, double taps and swipes work depends on the schedule: with the tracking first they
  are never recognised, in no run and for no touches; with the detection first a tracked touch that is
  released in time near where it began always gives an action.\<close>

theorem taps_depend_on_schedule:
  assumes "to_enabled c"
  shows "(\<forall>a \<in> set (fst (run_frames G c (map (Pair True) fs) g)). \<not> is_release_action a)
    \<and> (tf_just_released f = [p] \<and> list_ex (was_quick G c (tf_now f) (fst p)) (ge_touches g) \<longrightarrow>
         (\<exists>a \<in> set (fst (frame_detection_first G c f g)). is_release_action a))"
proof -
  have "\<not> is_release_action a" if a: "a \<in> set (fst (run_frames G c (map (Pair True) fs) g))" for a
    using a
  proof (induction fs arbitrary: g)
    case (Cons f' fs)
    then have "a \<in> set (fst (frame_tracking_first G c f' g))
        \<or> a \<in> set (fst (run_frames G c (map (Pair True) fs) (snd (frame_tracking_first G c f' g))))"
      by (simp add: case_prod_beta)
    then show ?case using tracking_first_silent Cons.IH by blast
  qed simp
  moreover have "\<exists>a \<in> set (fst (frame_detection_first G c f g)). is_release_action a"
    if r: "tf_just_released f = [p]" "list_ex (was_quick G c (tf_now f) (fst p)) (ge_touches g)"
  proof -
    obtain a where a: "a \<in> set (fst (detect_tap G c (tf_now f) p g))" "is_release_action a"
      using quick_tap_acts[OF r(2)] by blast
    have "a \<in> set (fst (frame_detection_first G c f g))"
      using a(1) assms r(1) by (simp add: frame_detection_first_def detect_gestures_def case_prod_beta)
    then show ?thesis using a(2) by blast
  qed
  ultimately show ?thesis by blast
qed

section \<open>A tap\<close>

definition demo_vec :: vec_ops where
  "demo_vec =
     \<lparr> vo_add = (\<lambda>u v. (f32_add (fst u) (fst v), f32_add (snd u) (snd v))),
       vo_sub = (\<lambda>u v. (f32_sub (fst u) (fst v), f32_sub (snd u) (snd v))),
       vo_mul = (\<lambda>u k. (f32_mul (fst u) k, f32_mul (snd u) k)),
       vo_div = (\<lambda>u k. (f32_div (fst u) k, f32_div (snd u) k)),
       vo_len = (\<lambda>u. f32_sqrt (f32_add (f32_mul (fst u) (fst u)) (f32_mul (snd u) (snd u)))),
       vo_normalize = (\<lambda>u. u) \<rparr>"

definition demo_down :: touch_frame where
  "demo_down = \<lparr> tf_now = f32_of_int 1, tf_just_pressed = [(7, 0, 0)], tf_pressed = [(7, 0, 0)], tf_just_released = [],
     tf_screen_width = None \<rparr>"

definition demo_up :: touch_frame where
  "demo_up = \<lparr> tf_now = f32_lit 11 1, tf_just_pressed = [], tf_pressed = [], tf_just_released = [(7, 0, 0)],
     tf_screen_width = None \<rparr>"

lemma demo_quick:
  "list_ex (was_quick demo_vec touch_config_default (f32_lit 11 1) 7)
     (ge_touches (process_touch_input touch_config_default demo_down gesture_state_default))"
  by code_simp

theorem taps_depend_on_schedule_witness:
  "(\<forall>a \<in> set (fst (run_frames demo_vec touch_config_default [(True, demo_down), (True, demo_up)] gesture_state_default)).
       \<not> is_release_action a)
   \<and> (\<exists>a \<in> set (fst (frame_detection_first demo_vec touch_config_default demo_up
         (process_touch_input touch_config_default demo_down gesture_state_default))). is_release_action a)"
proof -
  have e: "to_enabled touch_config_default" by (simp add: touch_config_default_def)
  have "(\<forall>a \<in> set (fst (run_frames demo_vec touch_config_default (map (Pair True) [demo_down, demo_up]) gesture_state_default)).
       \<not> is_release_action a)"
    using taps_depend_on_schedule[OF e] by blast
  moreover have "tf_just_released demo_up = [(7, 0, 0)]" "tf_now demo_up = f32_lit 11 1"
    by (simp_all add: demo_up_def)
  then have "\<exists>a \<in> set (fst (frame_detection_first demo_vec touch_config_default demo_up
         (process_touch_input touch_config_default demo_down gesture_state_default))). is_release_action a"
    using taps_depend_on_schedule[OF e, of demo_vec "[]" _ demo_up "(7, 0, 0)"] demo_quick by simp
  ultimately show ?thesis by simp
qed

end
