(* ===== verification/Client_Particles.thy ===== *)
theory Client_Particles
  imports Client_Touch Rpc_Format
begin

text \<open>
  The particle effects of the game client, \<open>crates/game-client/src/particles.rs\<close>: presets, the budget
  of \<open>handle_particle_events\<close>, and the systems that age particles, floating numbers and sprite
  animations. A query is the list of the entities it matches, in its order; what a system spawns is
  returned, as Bevy applies the commands after it. \<open>cos\<close> and \<open>sin\<close> have no specified precision and the
  vector arithmetic is third-party: the record \<open>particle_lib\<close>.
\<close>

section \<open>Data\<close>

type_synonym point3 = "f32 \<times> f32 \<times> f32"

record particle_lib =
  pl_vec :: vec_ops
  pl_cos :: "f32 \<Rightarrow> f32"
  pl_sin :: "f32 \<Rightarrow> f32"
  pl_above :: "point3 \<Rightarrow> point3"

text \<open>\<open>pl_above\<close> is \<open>position + Vec3::Z * 10.0\<close>.\<close>

record particle_config =
  pc_max_particles :: u64
  pc_scale :: f32
  pc_enabled :: bool

definition particle_config_default :: particle_config where
  "particle_config_default = \<lparr> pc_max_particles = 500, pc_scale = f32_of_int 1, pc_enabled = True \<rparr>"

datatype particle_event =
    PV_DamageNumber point3 "32 word" bool | PV_HealNumber point3 "32 word" | PV_AttackSpark point3 | PV_LevelUp point3
  | PV_ItemPickup point3 | PV_DeathPoof point3 | PV_SpawnGlow point3

record particle =
  pa_velocity :: vec2
  pa_acceleration :: vec2
  pa_lifetime :: f32
  pa_elapsed :: f32
  pa_start_alpha :: f32
  pa_fade_out :: bool
  pa_scale_velocity :: f32

record damage_number =
  dn_float_speed :: f32
  dn_lifetime :: f32
  dn_elapsed :: f32

datatype animation_state = AN_Idle | AN_Walking | AN_Attacking | AN_Hurt | AN_Dying

type_synonym color = "f32 \<times> f32 \<times> f32 \<times> f32"

definition srgb :: "f32 \<Rightarrow> f32 \<Rightarrow> f32 \<Rightarrow> color" where
  "srgb r g b = (r, g, b, f32_of_int 1)"

definition with_alpha :: "f32 \<Rightarrow> color \<Rightarrow> color" where
  "with_alpha a c = (fst c, fst (snd c), fst (snd (snd c)), a)"

record sprite_animation =
  sa_state :: animation_state
  sa_timer :: f32
  sa_speed :: f32
  sa_base_color :: color

record sprite =
  sp_color :: color
  sp_custom_size :: "vec2 option"

record transform =
  tr_translation :: point3
  tr_scale :: point3

section \<open>Presets\<close>

definition preset_spark :: "particle_lib \<Rightarrow> f32 \<Rightarrow> f32 \<Rightarrow> f32 \<Rightarrow> particle" where
  "preset_spark L base_angle spread speed =
     (let angle = f32_add base_angle spread in
      \<lparr> pa_velocity = (f32_mul (pl_cos L angle) speed, f32_mul (pl_sin L angle) speed),
        pa_acceleration = (0, f32_of_int (- 50)), pa_lifetime = f32_lit 4 1, pa_elapsed = 0,
        pa_start_alpha = f32_of_int 1, pa_fade_out = True, pa_scale_velocity = f32_of_int (- 1) \<rparr>)"

definition preset_float_up :: "f32 \<Rightarrow> f32 \<Rightarrow> particle" where
  "preset_float_up offset_x speed =
     \<lparr> pa_velocity = (offset_x, speed), pa_acceleration = (0, 0), pa_lifetime = f32_of_int 1, pa_elapsed = 0,
       pa_start_alpha = f32_lit 9 1, pa_fade_out = True, pa_scale_velocity = f32_lit (- 3) 1 \<rparr>"

definition preset_ring_expand :: "particle_lib \<Rightarrow> f32 \<Rightarrow> f32 \<Rightarrow> particle" where
  "preset_ring_expand L angle speed =
     \<lparr> pa_velocity = (f32_mul (pl_cos L angle) speed, f32_mul (pl_sin L angle) speed), pa_acceleration = (0, 0),
       pa_lifetime = f32_lit 6 1, pa_elapsed = 0, pa_start_alpha = f32_lit 8 1, pa_fade_out = True,
       pa_scale_velocity = f32_lit 5 1 \<rparr>"

definition preset_poof :: "particle_lib \<Rightarrow> f32 \<Rightarrow> f32 \<Rightarrow> particle" where
  "preset_poof L angle speed =
     \<lparr> pa_velocity = (f32_mul (pl_cos L angle) speed, f32_mul (pl_sin L angle) speed),
       pa_acceleration = (0, f32_of_int 20), pa_lifetime = f32_lit 5 1, pa_elapsed = 0, pa_start_alpha = f32_lit 7 1,
       pa_fade_out = True, pa_scale_velocity = f32_lit 8 1 \<rparr>"

section \<open>Events\<close>

text \<open>What one event spawns: particles with their sprite, and floating numbers with text, colour, font size,
  and the corner of their node.\<close>

datatype spawned =
    EF_Sprite sprite point3 particle
  | EF_Number string color f32 "f32 \<times> f32" damage_number

definition spawn_particle_sprite :: "particle_lib \<Rightarrow> point3 \<Rightarrow> color \<Rightarrow> f32 \<Rightarrow> particle \<Rightarrow> spawned" where
  "spawn_particle_sprite L position c sz p =
     EF_Sprite \<lparr> sp_color = c, sp_custom_size = Some (sz, sz) \<rparr> (pl_above L position) p"

definition show_i32 :: "32 word \<Rightarrow> string" where
  "show_i32 n = (if sint n < 0 then ''-'' else []) @ decimal (nat \<bar>sint n\<bar>)"

definition tau :: f32 where
  "tau = f32_lit 62831853071796 13"

definition ring_angle :: "nat \<Rightarrow> nat \<Rightarrow> f32" where
  "ring_angle n i = f32_mul (f32_div (f32_of_int (int i)) (f32_of_int (int n))) tau"

definition lit1 :: "int \<Rightarrow> f32" where
  "lit1 n = f32_lit n 1"

fun event_effects :: "particle_lib \<Rightarrow> particle_config \<Rightarrow> particle_event \<Rightarrow> spawned list" where
  "event_effects L c (PV_DamageNumber p amount critical) =
     [EF_Number (''-'' @ show_i32 amount)
        (if critical then srgb (f32_of_int 1) (lit1 3) 0 else srgb (f32_of_int 1) (lit1 2) (lit1 2))
        (if critical then f32_of_int 22 else f32_of_int 16) (fst p, fst (snd p))
        \<lparr> dn_float_speed = f32_of_int 40, dn_lifetime = lit1 12, dn_elapsed = 0 \<rparr>]"
| "event_effects L c (PV_HealNumber p amount) =
     [EF_Number (''+'' @ show_i32 amount) (srgb (lit1 2) (f32_of_int 1) (lit1 3)) (f32_of_int 16) (fst p, fst (snd p))
        \<lparr> dn_float_speed = f32_of_int 30, dn_lifetime = f32_of_int 1, dn_elapsed = 0 \<rparr>]"
| "event_effects L c (PV_AttackSpark p) =
     map (\<lambda>i. spawn_particle_sprite L p (srgb (f32_of_int 1) (lit1 8) (lit1 2)) (f32_mul (f32_of_int 3) (pc_scale c))
               (preset_spark L (ring_angle 6 i) (lit1 2) (f32_of_int 80))) [0..<6]"
| "event_effects L c (PV_LevelUp p) =
     map (\<lambda>i. spawn_particle_sprite L p (srgb (f32_of_int 1) (lit1 9) (lit1 3)) (f32_mul (f32_of_int 4) (pc_scale c))
               (preset_ring_expand L (ring_angle 12 i) (f32_of_int 60))) [0..<12]
     @ map (\<lambda>i. spawn_particle_sprite L p (srgb (lit1 9) (lit1 8) (lit1 1)) (f32_mul (lit1 25) (pc_scale c))
               (preset_float_up (f32_mul (f32_sub (f32_of_int (int i)) (f32_of_int 4)) (f32_of_int 5))
                 (f32_add (f32_of_int 50) (f32_mul (f32_of_int (int i)) (f32_of_int 5))))) [0..<8]"
| "event_effects L c (PV_ItemPickup p) =
     map (\<lambda>i. spawn_particle_sprite L p (srgb (lit1 3) (f32_of_int 1) (lit1 5)) (f32_mul (f32_of_int 2) (pc_scale c))
               (preset_float_up (f32_mul (f32_sub (f32_of_int (int i)) (f32_of_int 2)) (f32_of_int 8)) (f32_of_int 40)))
       [0..<4]"
| "event_effects L c (PV_DeathPoof p) =
     map (\<lambda>i. spawn_particle_sprite L p (lit1 5, lit1 5, lit1 5, lit1 7) (f32_mul (f32_of_int 5) (pc_scale c))
               (preset_poof L (ring_angle 8 i) (f32_of_int 30))) [0..<8]"
| "event_effects L c (PV_SpawnGlow p) =
     map (\<lambda>i. spawn_particle_sprite L p (lit1 4, lit1 7, f32_of_int 1, lit1 8) (f32_mul (f32_of_int 3) (pc_scale c))
               (preset_ring_expand L (ring_angle 10 i) (f32_of_int 40))) [0..<10]"

text \<open>The loop over the events the reader has not seen: it gives what is spawned and what stays unread. The
  event at which the loop stops is already read. \<open>n\<close> is \<open>current_count + spawned\<close>.\<close>

fun emit_events :: "particle_lib \<Rightarrow> particle_config \<Rightarrow> particle_event list \<Rightarrow> nat \<Rightarrow> spawned list \<times> particle_event list" where
  "emit_events L c [] n = ([], [])"
| "emit_events L c (ev # evs) n =
     (if unat (pc_max_particles c) \<le> n then ([], evs)
      else let es = event_effects L c ev; (rest, unread) = emit_events L c evs (n + length es) in (es @ rest, unread))"

definition handle_particle_events ::
  "particle_lib \<Rightarrow> particle_config \<Rightarrow> particle_event list \<Rightarrow> nat \<Rightarrow> spawned list \<times> particle_event list" where
  "handle_particle_events L c evs existing = (if pc_enabled c then emit_events L c evs existing else ([], []))"

section \<open>Ageing\<close>

definition age_particle ::
  "particle_lib \<Rightarrow> f32 \<Rightarrow> particle \<times> transform \<times> sprite \<Rightarrow> (particle \<times> transform \<times> sprite) option" where
  "age_particle L dt e =
     (let p = fst e; t = fst (snd e); s = snd (snd e); el = f32_add (pa_elapsed p) dt in
      if f32_le (pa_lifetime p) el then None
      else let v = vo_add (pl_vec L) (pa_velocity p) (vo_mul (pl_vec L) (pa_acceleration p) dt);
               x = f32_add (fst (tr_translation t)) (f32_mul (fst v) dt);
               y = f32_add (fst (snd (tr_translation t))) (f32_mul (snd v) dt);
               k = f32_max (f32_add (fst (tr_scale t)) (f32_mul (pa_scale_velocity p) dt)) (f32_lit 1 2);
               alpha = f32_mul (pa_start_alpha p) (f32_sub (f32_of_int 1) (f32_div el (pa_lifetime p)))
           in Some (p\<lparr>pa_elapsed := el, pa_velocity := v\<rparr>,
                    t\<lparr>tr_translation := (x, y, snd (snd (tr_translation t))), tr_scale := (k, k, k)\<rparr>,
                    if pa_fade_out p then s\<lparr>sp_color := with_alpha (f32_max alpha 0) (sp_color s)\<rparr> else s))"

definition update_particles :: "particle_lib \<Rightarrow> f32 \<Rightarrow> (particle \<times> transform \<times> sprite) list \<Rightarrow> (particle \<times> transform \<times> sprite) list" where
  "update_particles L dt es = List.map_filter (age_particle L dt) es"

text \<open>The node of a floating number has its distance from the top in pixels.\<close>

definition age_number :: "f32 \<Rightarrow> damage_number \<times> f32 \<times> color \<Rightarrow> (damage_number \<times> f32 \<times> color) option" where
  "age_number dt e =
     (let d = fst e; el = f32_add (dn_elapsed d) dt in
      if f32_le (dn_lifetime d) el then None
      else let progress = f32_div el (dn_lifetime d);
               fade = f32_sub (f32_of_int 1) (f32_div (f32_sub progress (f32_lit 6 1)) (f32_lit 4 1))
           in Some (d\<lparr>dn_elapsed := el\<rparr>, f32_sub (fst (snd e)) (f32_mul (dn_float_speed d) dt),
                    if f32_less (f32_lit 6 1) progress then with_alpha (f32_max fade 0) (snd (snd e)) else snd (snd e)))"

definition update_damage_numbers :: "f32 \<Rightarrow> (damage_number \<times> f32 \<times> color) list \<Rightarrow> (damage_number \<times> f32 \<times> color) list" where
  "update_damage_numbers dt es = List.map_filter (age_number dt) es"

definition back_to_idle :: "sprite_animation \<Rightarrow> sprite \<Rightarrow> sprite_animation \<times> sprite" where
  "back_to_idle a s = (a\<lparr>sa_state := AN_Idle, sa_timer := 0\<rparr>, s\<lparr>sp_color := sa_base_color a\<rparr>)"

definition animate :: "particle_lib \<Rightarrow> f32 \<Rightarrow> sprite_animation \<times> sprite \<Rightarrow> sprite_animation \<times> sprite" where
  "animate L dt e =
     (let a = (fst e)\<lparr>sa_timer := f32_add (sa_timer (fst e)) (f32_mul dt (sa_speed (fst e)))\<rparr>; s = snd e; t = sa_timer a in
      case sa_state a of
        AN_Idle \<Rightarrow>
          let pulse = f32_add (f32_mul (pl_sin L (f32_mul t (f32_of_int 2))) (f32_lit 2 2)) (f32_of_int 1)
          in (a, s\<lparr>sp_custom_size := map_option (\<lambda>v. vo_mul (pl_vec L) v pulse) (sp_custom_size s)\<rparr>)
      | AN_Walking \<Rightarrow> (a, s)
      | AN_Attacking \<Rightarrow>
          if f32_less t (f32_lit 15 2) then (a, s\<lparr>sp_color := srgb (f32_of_int 1) (f32_of_int 1) (f32_of_int 1)\<rparr>)
          else back_to_idle a s
      | AN_Hurt \<Rightarrow>
          if f32_less t (f32_lit 2 1)
          then let flash = f32_div (f32_add (pl_sin L (f32_mul t (f32_of_int 30))) (f32_of_int 1)) (f32_of_int 2)
               in (a, s\<lparr>sp_color := srgb (f32_of_int 1) flash flash\<rparr>)
          else back_to_idle a s
      | AN_Dying \<Rightarrow>
          let progress = f32_min (f32_div t (f32_lit 8 1)) (f32_of_int 1)
          in (a, s\<lparr>sp_color := with_alpha (f32_sub (f32_of_int 1) progress) (sp_color s),
                   sp_custom_size := map_option (\<lambda>v. vo_mul (pl_vec L) v
                     (f32_sub (f32_of_int 1) (f32_mul progress (f32_lit 3 1)))) (sp_custom_size s)\<rparr>))"

definition update_sprite_animations :: "particle_lib \<Rightarrow> f32 \<Rightarrow> (sprite_animation \<times> sprite) list \<Rightarrow> (sprite_animation \<times> sprite) list" where
  "update_sprite_animations L dt = map (animate L dt)"

section \<open>The budget\<close>

lemma effects_length: "1 \<le> length (event_effects L c ev) \<and> length (event_effects L c ev) \<le> 20"
  by (cases ev) simp_all

lemma emit_bound:
  "n + length (fst (emit_events L c evs n)) \<le> max n (unat (pc_max_particles c) + 19)"
proof (induction evs arbitrary: n)
  case (Cons ev evs)
  show ?case
    using Cons.IH[of "n + length (event_effects L c ev)"] effects_length[of L c ev]
    by (auto simp: Let_def case_prod_beta)
qed simp

text \<open>Each event is emitted whole, left for the next frame, or lost; at most one is lost.\<close>

lemma emit_split:
  "\<exists>k lost. evs = take k evs @ lost @ snd (emit_events L c evs n) \<and> length lost \<le> 1
     \<and> fst (emit_events L c evs n) = concat (map (event_effects L c) (take k evs))
     \<and> (lost \<noteq> [] \<longrightarrow> unat (pc_max_particles c) \<le> n + length (fst (emit_events L c evs n)))"
proof (induction evs arbitrary: n)
  case (Cons ev evs)
  show ?case
  proof (cases "unat (pc_max_particles c) \<le> n")
    case True
    then show ?thesis by (intro exI[of _ 0] exI[of _ "[ev]"]) simp
  next
    case False
    from Cons.IH[of "n + length (event_effects L c ev)"] obtain k lost where
      "evs = take k evs @ lost @ snd (emit_events L c evs (n + length (event_effects L c ev)))" "length lost \<le> 1"
      "fst (emit_events L c evs (n + length (event_effects L c ev))) = concat (map (event_effects L c) (take k evs))"
      "lost \<noteq> [] \<longrightarrow> unat (pc_max_particles c) \<le> n + length (event_effects L c ev)
         + length (fst (emit_events L c evs (n + length (event_effects L c ev))))"
      by blast
    then show ?thesis
      using False by (intro exI[of _ "Suc k"] exI[of _ lost]) (simp add: Let_def case_prod_beta algebra_simps)
  qed
qed simp

text \<open>The query of the budget counts particles, not numbers: with no particle on the screen a frame of
  numbers is shown whatever numbers are shown already.\<close>

lemma numbers_unbounded:
  assumes "pc_enabled c" and "length ps \<le> unat (pc_max_particles c)"
  shows "length (fst (handle_particle_events L c (map (\<lambda>p. PV_HealNumber p 1) ps) 0)) = length ps"
proof -
  have "length (fst (emit_events L c (map (\<lambda>p. PV_HealNumber p 1) ps) n)) = length ps"
    if "n + length ps \<le> unat (pc_max_particles c)" for n
    using that
  proof (induction ps arbitrary: n)
    case (Cons p ps)
    then show ?case using Cons.IH[of "Suc n"] by (simp add: Let_def case_prod_beta)
  qed simp
  then show ?thesis using assms by (simp add: handle_particle_events_def)
qed

lemma remaining_young:
  "e \<in> set (update_particles L dt es) \<Longrightarrow> \<not> f32_le (pa_lifetime (fst e)) (pa_elapsed (fst e))"
  by (auto simp: update_particles_def List.map_filter_def age_particle_def Let_def split: if_splits)

lemma numbers_shrink: "length (update_damage_numbers dt es) \<le> length es"
  by (simp add: update_damage_numbers_def List.map_filter_def)

lemma hurt_ends:
  "sa_state a = AN_Hurt \<Longrightarrow> \<not> f32_less (f32_add (sa_timer a) (f32_mul dt (sa_speed a))) (f32_lit 2 1)
   \<Longrightarrow> sa_state (fst (animate L dt (a, s))) = AN_Idle \<and> sp_color (snd (animate L dt (a, s))) = sa_base_color a"
  by (simp add: animate_def back_to_idle_def Let_def)

text \<open>The particles of a frame stay within the budget, up to the rest of the last effect, which is at most
  19 particles over; the events are emitted whole and in order, and at most one is read and not emitted, and then
  only with the budget spent.\<close>

theorem particle_budget:
  "(let r = handle_particle_events L c evs n in
    n + length (fst r) \<le> max n (unat (pc_max_particles c) + 19)
    \<and> (pc_enabled c \<longrightarrow>
        (\<exists>k lost. evs = take k evs @ lost @ snd r \<and> length lost \<le> 1
          \<and> fst r = concat (map (event_effects L c) (take k evs))
          \<and> (lost \<noteq> [] \<longrightarrow> unat (pc_max_particles c) \<le> n + length (fst r)))))"
  using emit_bound[of n L c evs] emit_split[of evs L c n] by (simp add: handle_particle_events_def Let_def)

definition demo_lib :: particle_lib where
  "demo_lib = \<lparr> pl_vec = demo_vec, pl_cos = (\<lambda>x. x), pl_sin = (\<lambda>x. x),
     pl_above = (\<lambda>p. (fst p, fst (snd p), f32_add (snd (snd p)) (f32_of_int 10))) \<rparr>"

text \<open>With 499 particles shown, a level-up brings them to 519, a second one is lost and the third kept.\<close>

theorem particle_budget_witness:
  "(let evs = replicate 3 (PV_LevelUp (0, 0, 0)); r = handle_particle_events demo_lib particle_config_default evs 499 in
    length (fst r) = 20 \<and> snd r = [PV_LevelUp (0, 0, 0)]
    \<and> (\<exists>k lost. evs = take k evs @ lost @ snd r \<and> length lost \<le> 1
          \<and> fst r = concat (map (event_effects demo_lib particle_config_default) (take k evs))))"
proof -
  let ?evs = "replicate 3 (PV_LevelUp (0, 0, 0))"
  let ?r = "handle_particle_events demo_lib particle_config_default ?evs 499"
  have "length (fst ?r) = 20 \<and> snd ?r = [PV_LevelUp (0, 0, 0)]"
    by (simp add: handle_particle_events_def particle_config_default_def numeral_3_eq_3 Let_def case_prod_beta)
  moreover have "pc_enabled particle_config_default" by (simp add: particle_config_default_def)
  ultimately show ?thesis
    using particle_budget[of demo_lib particle_config_default ?evs 499] unfolding Let_def by blast
qed

end
