(* ===== verification/Client_Camera.thy ===== *)
theory Client_Camera
  imports Client_Touch
begin

text \<open>
  The camera of the game client: following and zoom (\<open>crates/game-client/src/camera.rs\<close>) and shake, zoom
  transitions, bounds and modes (\<open>crates/game-client/src/camera_effects.rs\<close>). The five systems of the
  effects plugin are chained; a panic of \<open>clamp\<close> is \<open>None\<close>. \<open>exp\<close> and \<open>sin\<close> have no specified
  precision and \<open>lerp\<close> is third-party: the record \<open>camera_lib\<close>.
\<close>

section \<open>Data\<close>

record camera_lib =
  cl_exp :: "f32 \<Rightarrow> f32"
  cl_sin :: "f32 \<Rightarrow> f32"
  cl_lerp :: "vec2 \<Rightarrow> vec2 \<Rightarrow> f32 \<Rightarrow> vec2"

record camera_config =
  cc_zoom :: f32
  cc_min_zoom :: f32
  cc_max_zoom :: f32
  cc_follow_speed :: f32

definition camera_config_default :: camera_config where
  "camera_config_default =
     \<lparr> cc_zoom = f32_of_int 1, cc_min_zoom = f32_lit 25 2, cc_max_zoom = f32_of_int 4, cc_follow_speed = f32_lit 1 1 \<rparr>"

record screen_shake =
  sh_intensity :: f32
  sh_remaining :: f32
  sh_decay :: f32
  sh_offset :: vec2
  sh_seed :: f32

definition screen_shake_default :: screen_shake where
  "screen_shake_default = \<lparr> sh_intensity = 0, sh_remaining = 0, sh_decay = f32_of_int 5, sh_offset = (0, 0), sh_seed = 0 \<rparr>"

definition shake_trigger :: "f32 \<Rightarrow> f32 \<Rightarrow> screen_shake \<Rightarrow> screen_shake" where
  "shake_trigger intensity duration s =
     s\<lparr>sh_intensity := f32_min (f32_add (sh_intensity s) intensity) (f32_of_int 20),
       sh_remaining := f32_max (sh_remaining s) duration\<rparr>"

definition shake_is_active :: "screen_shake \<Rightarrow> bool" where
  "shake_is_active s = f32_less 0 (sh_remaining s)"

record zoom_transition =
  zt_target :: f32
  zt_speed :: f32
  zt_active :: bool

definition zoom_transition_default :: zoom_transition where
  "zoom_transition_default = \<lparr> zt_target = f32_of_int 1, zt_speed = f32_of_int 2, zt_active = False \<rparr>"

record camera_bounds =
  cb_min :: "vec2 option"
  cb_max :: "vec2 option"

definition bounds_is_active :: "camera_bounds \<Rightarrow> bool" where
  "bounds_is_active b \<longleftrightarrow> cb_min b \<noteq> None \<and> cb_max b \<noteq> None"

text \<open>\<open>f32::clamp\<close> panics unless its bounds are ordered.\<close>

definition checked_clamp :: "f32 \<Rightarrow> f32 \<Rightarrow> f32 \<Rightarrow> f32 option" where
  "checked_clamp x lo hi = (if f32_le lo hi then Some (f32_clamp x lo hi) else None)"

definition bounds_clamp :: "camera_bounds \<Rightarrow> vec2 \<Rightarrow> vec2 option" where
  "bounds_clamp b pos =
     (case (cb_min b, cb_max b) of
        (Some lo, Some hi) \<Rightarrow>
          (case (checked_clamp (fst pos) (fst lo) (fst hi), checked_clamp (snd pos) (snd lo) (snd hi)) of
             (Some x, Some y) \<Rightarrow> Some (x, y) | _ \<Rightarrow> None)
      | _ \<Rightarrow> Some pos)"

datatype camera_mode_type = CM_FollowPlayer | CM_FocusTarget | CM_Cinematic

record camera_mode =
  cm_mode :: camera_mode_type
  cm_focus_target :: "vec2 option"
  cm_focus_remaining :: f32
  cm_cinematic_speed :: f32

definition camera_mode_default :: camera_mode where
  "camera_mode_default =
     \<lparr> cm_mode = CM_FollowPlayer, cm_focus_target = None, cm_focus_remaining = 0, cm_cinematic_speed = f32_of_int 200 \<rparr>"

datatype camera_event =
    CE_Shake f32 f32 | CE_ZoomTo f32 f32 | CE_FocusOn vec2 f32 | CE_ReturnToPlayer | CE_ToggleCinematic
  | CE_SetBounds vec2 vec2 | CE_ClearBounds

text \<open>The resources and the main camera: \<open>cw_camera\<close> is its translation, \<open>None\<close> unless there is exactly one.\<close>

record camera_world =
  cw_config :: camera_config
  cw_shake :: screen_shake
  cw_zoom :: zoom_transition
  cw_bounds :: camera_bounds
  cw_mode :: camera_mode
  cw_camera :: "(f32 \<times> f32 \<times> f32) option"
  cw_scale :: f32

definition setup_camera :: camera_world where
  "setup_camera =
     \<lparr> cw_config = camera_config_default, cw_shake = screen_shake_default, cw_zoom = zoom_transition_default,
       cw_bounds = \<lparr> cb_min = None, cb_max = None \<rparr>, cw_mode = camera_mode_default,
       cw_camera = Some (0, 0, f32_of_int 999), cw_scale = f32_of_int 1 \<rparr>"

definition move_to :: "vec2 \<Rightarrow> f32 \<times> f32 \<times> f32 \<Rightarrow> f32 \<times> f32 \<times> f32" where
  "move_to v t = (fst v, snd v, snd (snd t))"

definition truncated :: "f32 \<times> f32 \<times> f32 \<Rightarrow> vec2" where
  "truncated t = (fst t, fst (snd t))"

section \<open>The base camera\<close>

definition camera_follow_player :: "camera_lib \<Rightarrow> vec2 option \<Rightarrow> camera_world \<Rightarrow> camera_world" where
  "camera_follow_player L player w =
     (case (player, cw_camera w) of
        (Some target, Some t) \<Rightarrow>
          w\<lparr>cw_camera := Some (move_to (cl_lerp L (truncated t) target (cc_follow_speed (cw_config w))) t),
            cw_scale := cc_zoom (cw_config w)\<rparr>
      | _ \<Rightarrow> w)"

datatype camera_key =
    CK_Equal | CK_NumpadAdd | CK_Minus | CK_NumpadSubtract | CK_Up | CK_W | CK_Down | CK_S | CK_Left | CK_A | CK_Right | CK_D

definition camera_zoom :: "(camera_key \<Rightarrow> bool) \<Rightarrow> camera_config \<Rightarrow> camera_config" where
  "camera_zoom pressed c =
     (let c1 = (if pressed CK_Equal \<or> pressed CK_NumpadAdd
                then c\<lparr>cc_zoom := f32_max (f32_sub (cc_zoom c) (f32_lit 5 2)) (cc_min_zoom c)\<rparr> else c)
      in if pressed CK_Minus \<or> pressed CK_NumpadSubtract
         then c1\<lparr>cc_zoom := f32_min (f32_add (cc_zoom c1) (f32_lit 5 2)) (cc_max_zoom c1)\<rparr> else c1)"

section \<open>The effects\<close>

definition set_mode :: "(camera_mode \<Rightarrow> camera_mode) \<Rightarrow> camera_world \<Rightarrow> camera_world" where
  "set_mode g w = w\<lparr>cw_mode := g (cw_mode w)\<rparr>"

fun handle_camera_event :: "camera_event \<Rightarrow> camera_world \<Rightarrow> camera_world" where
  "handle_camera_event (CE_Shake intensity duration) w = w\<lparr>cw_shake := shake_trigger intensity duration (cw_shake w)\<rparr>"
| "handle_camera_event (CE_ZoomTo target speed) w = w\<lparr>cw_zoom := \<lparr> zt_target = target, zt_speed = speed, zt_active = True \<rparr>\<rparr>"
| "handle_camera_event (CE_FocusOn position duration) w =
     set_mode (\<lambda>m. m\<lparr>cm_mode := CM_FocusTarget, cm_focus_target := Some position, cm_focus_remaining := duration\<rparr>) w"
| "handle_camera_event CE_ReturnToPlayer w =
     set_mode (\<lambda>m. m\<lparr>cm_mode := CM_FollowPlayer, cm_focus_target := None, cm_focus_remaining := 0\<rparr>) w"
| "handle_camera_event CE_ToggleCinematic w =
     set_mode (\<lambda>m. m\<lparr>cm_mode := if cm_mode m = CM_Cinematic then CM_FollowPlayer else CM_Cinematic\<rparr>) w"
| "handle_camera_event (CE_SetBounds lo hi) w = w\<lparr>cw_bounds := \<lparr> cb_min = Some lo, cb_max = Some hi \<rparr>\<rparr>"
| "handle_camera_event CE_ClearBounds w = w\<lparr>cw_bounds := \<lparr> cb_min = None, cb_max = None \<rparr>\<rparr>"

definition handle_camera_events :: "camera_event list \<Rightarrow> camera_world \<Rightarrow> camera_world" where
  "handle_camera_events evs w = fold handle_camera_event evs w"

definition vec2_eq :: "vec2 \<Rightarrow> vec2 \<Rightarrow> bool" where
  "vec2_eq u v \<longleftrightarrow> f32_eq (fst u) (fst v) \<and> f32_eq (snd u) (snd v)"

definition apply_screen_shake :: "camera_lib \<Rightarrow> f32 \<Rightarrow> camera_world \<Rightarrow> camera_world" where
  "apply_screen_shake L dt w =
     (let s = cw_shake w; old = sh_offset s in
      if \<not> shake_is_active s then
        (case cw_camera w of
           Some t \<Rightarrow>
             if vec2_eq old (0, 0) then w
             else w\<lparr>cw_camera := Some (move_to (f32_sub (fst t) (fst old), f32_sub (fst (snd t)) (snd old)) t),
                    cw_shake := s\<lparr>sh_offset := (0, 0)\<rparr>\<rparr>
         | None \<Rightarrow> w)
      else
        let remaining = f32_sub (sh_remaining s) dt; seed = f32_add (sh_seed s) (f32_mul dt (f32_of_int 50));
            intensity = f32_mul (sh_intensity s) (cl_exp L (f32_mul (f32_neg (sh_decay s)) dt));
            new = (f32_mul (cl_sin L (f32_mul seed (f32_lit 129898 4))) intensity,
                   f32_mul (cl_sin L (f32_mul seed (f32_lit 78233 3))) intensity);
            finished = f32_le remaining 0
        in w\<lparr>cw_camera := map_option (\<lambda>t.
               move_to (f32_add (fst t) (f32_sub (fst new) (fst old)), f32_add (fst (snd t)) (f32_sub (snd new) (snd old))) t)
               (cw_camera w),
             cw_shake := s\<lparr>sh_remaining := if finished then 0 else remaining, sh_seed := seed,
               sh_intensity := if finished then 0 else intensity, sh_offset := new\<rparr>\<rparr>)"

definition apply_zoom_transition :: "f32 \<Rightarrow> camera_world \<Rightarrow> camera_world option" where
  "apply_zoom_transition dt w =
     (let z = cw_zoom w; c = cw_config w; diff = f32_sub (zt_target z) (cc_zoom c) in
      if \<not> zt_active z then Some w
      else if f32_less (f32_abs diff) (f32_lit 1 2)
        then Some (w\<lparr>cw_config := c\<lparr>cc_zoom := zt_target z\<rparr>, cw_zoom := z\<lparr>zt_active := False\<rparr>\<rparr>)
      else map_option (\<lambda>k. w\<lparr>cw_config := c\<lparr>cc_zoom := k\<rparr>\<rparr>)
             (checked_clamp (f32_add (cc_zoom c) (f32_mul (f32_mul diff (zt_speed z)) dt)) (cc_min_zoom c) (cc_max_zoom c)))"

definition apply_camera_bounds :: "camera_world \<Rightarrow> camera_world option" where
  "apply_camera_bounds w =
     (if \<not> bounds_is_active (cw_bounds w) then Some w
      else case cw_camera w of
        None \<Rightarrow> Some w
      | Some t \<Rightarrow> map_option (\<lambda>v. w\<lparr>cw_camera := Some (move_to v t)\<rparr>) (bounds_clamp (cw_bounds w) (truncated t)))"

definition key_step :: "bool \<Rightarrow> f32 \<Rightarrow> f32 \<Rightarrow> f32" where
  "key_step pressed step x = (if pressed then f32_add x step else x)"

definition handle_cinematic_mode :: "camera_lib \<Rightarrow> f32 \<Rightarrow> (camera_key \<Rightarrow> bool) \<Rightarrow> camera_world \<Rightarrow> camera_world" where
  "handle_cinematic_mode L dt pressed w =
     (let m = cw_mode w in
      case cm_mode m of
        CM_Cinematic \<Rightarrow>
          let speed = f32_mul (cm_cinematic_speed m) dt in
          w\<lparr>cw_camera := map_option (\<lambda>t.
              move_to (key_step (pressed CK_Right \<or> pressed CK_D) speed
                         (key_step (pressed CK_Left \<or> pressed CK_A) (f32_neg speed) (fst t)),
                       key_step (pressed CK_Down \<or> pressed CK_S) (f32_neg speed)
                         (key_step (pressed CK_Up \<or> pressed CK_W) speed (fst (snd t)))) t) (cw_camera w)\<rparr>
      | CM_FocusTarget \<Rightarrow>
          let w1 = (case cm_focus_target m of
                      Some target \<Rightarrow> w\<lparr>cw_camera := map_option (\<lambda>t. move_to (cl_lerp L (truncated t) target
                        (f32_mul (f32_of_int 3) dt)) t) (cw_camera w)\<rparr>
                    | None \<Rightarrow> w);
              remaining = f32_sub (cm_focus_remaining m) dt
          in set_mode (\<lambda>m. if f32_le remaining 0
                            then m\<lparr>cm_focus_remaining := remaining, cm_mode := CM_FollowPlayer, cm_focus_target := None\<rparr>
                            else m\<lparr>cm_focus_remaining := remaining\<rparr>) w1
      | CM_FollowPlayer \<Rightarrow> w)"

text \<open>The chain of the plugin.\<close>

definition camera_effects ::
  "camera_lib \<Rightarrow> f32 \<Rightarrow> (camera_key \<Rightarrow> bool) \<Rightarrow> camera_event list \<Rightarrow> camera_world \<Rightarrow> camera_world option" where
  "camera_effects L dt pressed evs w =
     map_option (handle_cinematic_mode L dt pressed)
       (Option.bind (apply_zoom_transition dt (apply_screen_shake L dt (handle_camera_events evs w))) apply_camera_bounds)"

section \<open>Bounds\<close>

definition ordered_bounds :: "camera_bounds \<Rightarrow> bool" where
  "ordered_bounds b \<longleftrightarrow>
     (case (cb_min b, cb_max b) of
        (Some lo, Some hi) \<Rightarrow> f32_le (fst lo) (fst hi) \<and> f32_le (snd lo) (snd hi) | _ \<Rightarrow> True)"

definition within :: "camera_bounds \<Rightarrow> f32 \<times> f32 \<times> f32 \<Rightarrow> bool" where
  "within b t \<longleftrightarrow>
     (case (cb_min b, cb_max b) of
        (Some lo, Some hi) \<Rightarrow>
          \<not> f32_less (fst t) (fst lo) \<and> \<not> f32_less (fst hi) (fst t)
          \<and> \<not> f32_less (fst (snd t)) (snd lo) \<and> \<not> f32_less (snd hi) (fst (snd t))
      | _ \<Rightarrow> True)"

lemma clamp_between: "f32_le lo hi \<Longrightarrow> \<not> f32_less (f32_clamp x lo hi) lo \<and> \<not> f32_less hi (f32_clamp x lo hi)"
  by (auto simp: f32_clamp_def f32_le_def f32_eq_def dest: f32_less_asym)

lemma bounds_none: "apply_camera_bounds w = None \<longleftrightarrow> cw_camera w \<noteq> None \<and> \<not> ordered_bounds (cw_bounds w)"
  by (auto simp: apply_camera_bounds_def bounds_is_active_def bounds_clamp_def ordered_bounds_def checked_clamp_def
      split: option.split)

lemma bounds_within: "apply_camera_bounds w = Some w' \<Longrightarrow> cw_camera w' = Some t \<Longrightarrow> within (cw_bounds w') t"
  by (auto simp: apply_camera_bounds_def bounds_is_active_def bounds_clamp_def checked_clamp_def within_def
      move_to_def clamp_between split: option.splits if_splits)

lemma bounds_frame: "apply_camera_bounds w = Some w' \<Longrightarrow>
   cw_bounds w' = cw_bounds w \<and> cw_mode w' = cw_mode w \<and> cw_config w' = cw_config w \<and> (cw_camera w' = None \<longleftrightarrow> cw_camera w = None)"
  by (auto simp: apply_camera_bounds_def move_to_def split: option.splits if_splits)

lemma zoom_frame: "apply_zoom_transition dt w = Some w' \<Longrightarrow>
   cw_bounds w' = cw_bounds w \<and> cw_mode w' = cw_mode w \<and> cw_camera w' = cw_camera w
   \<and> cc_min_zoom (cw_config w') = cc_min_zoom (cw_config w) \<and> cc_max_zoom (cw_config w') = cc_max_zoom (cw_config w)"
  by (auto simp: apply_zoom_transition_def Let_def split: if_splits)

lemma zoom_total: "f32_le (cc_min_zoom (cw_config w)) (cc_max_zoom (cw_config w)) \<Longrightarrow> \<exists>w'. apply_zoom_transition dt w = Some w'"
  by (auto simp: apply_zoom_transition_def checked_clamp_def Let_def)

lemma shake_frame:
  "cw_bounds (apply_screen_shake L dt w) = cw_bounds w \<and> cw_mode (apply_screen_shake L dt w) = cw_mode w
   \<and> cw_config (apply_screen_shake L dt w) = cw_config w \<and> (cw_camera (apply_screen_shake L dt w) = None \<longleftrightarrow> cw_camera w = None)"
  by (auto simp: apply_screen_shake_def move_to_def Let_def split: option.splits)

lemma event_frame: "cw_config (handle_camera_event ev w) = cw_config w \<and> cw_camera (handle_camera_event ev w) = cw_camera w"
  by (cases ev) (simp_all add: set_mode_def)

lemma events_frame: "cw_config (handle_camera_events evs w) = cw_config w \<and> cw_camera (handle_camera_events evs w) = cw_camera w"
  unfolding handle_camera_events_def by (induction evs arbitrary: w) (simp_all add: event_frame)

lemma cinematic_bounds [simp]: "cw_bounds (handle_cinematic_mode L dt k w) = cw_bounds w"
  by (simp add: handle_cinematic_mode_def set_mode_def Let_def split: camera_mode_type.split option.split)

lemma following_keeps [simp]: "cm_mode (cw_mode w) = CM_FollowPlayer \<Longrightarrow> handle_cinematic_mode L dt k w = w"
  by (simp add: handle_cinematic_mode_def)

text \<open>A frame of the effects panics exactly when there is a camera and the bounds after the events are not
  ordered; otherwise, while the player is followed, the camera ends inside the bounds.\<close>

theorem camera_kept_in_bounds:
  assumes "f32_le (cc_min_zoom (cw_config w)) (cc_max_zoom (cw_config w))"
  shows "(camera_effects L dt k evs w = None
      \<longleftrightarrow> cw_camera w \<noteq> None \<and> \<not> ordered_bounds (cw_bounds (handle_camera_events evs w)))
    \<and> (\<forall>w' t. camera_effects L dt k evs w = Some w' \<and> cm_mode (cw_mode (handle_camera_events evs w)) = CM_FollowPlayer
          \<and> cw_camera w' = Some t \<longrightarrow> within (cw_bounds (handle_camera_events evs w)) t)"
proof -
  let ?s = "apply_screen_shake L dt (handle_camera_events evs w)"
  obtain z where z: "apply_zoom_transition dt ?s = Some z"
    using zoom_total[of ?s dt] assms by (auto simp: shake_frame events_frame)
  have e: "camera_effects L dt k evs w = map_option (handle_cinematic_mode L dt k) (apply_camera_bounds z)"
    by (simp add: camera_effects_def z)
  have f: "cw_bounds z = cw_bounds (handle_camera_events evs w)" "cw_mode z = cw_mode (handle_camera_events evs w)"
    "cw_camera z = None \<longleftrightarrow> cw_camera w = None"
    using zoom_frame[OF z] shake_frame[of L dt "handle_camera_events evs w"] events_frame[of evs w] by simp_all
  have "camera_effects L dt k evs w = None
      \<longleftrightarrow> cw_camera w \<noteq> None \<and> \<not> ordered_bounds (cw_bounds (handle_camera_events evs w))"
    unfolding e by (simp add: bounds_none f)
  moreover have "within (cw_bounds (handle_camera_events evs w)) t"
    if r: "camera_effects L dt k evs w = Some w'" and m: "cm_mode (cw_mode (handle_camera_events evs w)) = CM_FollowPlayer"
      and t: "cw_camera w' = Some t" for w' t
  proof -
    obtain v where v: "apply_camera_bounds z = Some v" "w' = handle_cinematic_mode L dt k v"
      using r unfolding e by auto
    have "w' = v" using v(2) bounds_frame[OF v(1)] m f(2) by simp
    then show ?thesis using bounds_within[OF v(1)] t bounds_frame[OF v(1)] f(1) by simp
  qed
  ultimately show ?thesis by blast
qed

lemma default_zoom_ordered: "f32_le (cc_min_zoom camera_config_default) (cc_max_zoom camera_config_default)"
  by code_simp

theorem camera_kept_in_bounds_witness:
  "\<forall>L dt k. camera_effects L dt k [CE_SetBounds (f32_of_int 1, 0) (0, 0)] setup_camera = None"
proof (intro allI)
  fix L dt k
  have "\<not> ordered_bounds \<lparr> cb_min = Some (f32_of_int 1, 0), cb_max = Some (0, 0) \<rparr>" by code_simp
  then show "camera_effects L dt k [CE_SetBounds (f32_of_int 1, 0) (0, 0)] setup_camera = None"
    using camera_kept_in_bounds[of setup_camera L dt k "[CE_SetBounds (f32_of_int 1, 0) (0, 0)]"] default_zoom_ordered
    by (simp add: setup_camera_def handle_camera_events_def)
qed

text \<open>The cinematic camera moves after the bounds were applied.\<close>

definition demo_camera_lib :: camera_lib where
  "demo_camera_lib = \<lparr> cl_exp = (\<lambda>_. f32_of_int 1), cl_sin = (\<lambda>_. 0), cl_lerp = (\<lambda>u v s. u) \<rparr>"

lemma cinematic_leaves_bounds:
  "map_option (\<lambda>w. (map_option fst (cw_camera w), cb_max (cw_bounds w)))
     (camera_effects demo_camera_lib (f32_lit 1 1) (\<lambda>k. k = CK_Right)
       [CE_SetBounds (0, 0) (f32_of_int 8, f32_of_int 8), CE_ToggleCinematic] setup_camera)
   = Some (Some (f32_of_int 20), Some (f32_of_int 8, f32_of_int 8))"
  by code_simp

section \<open>Modes, zoom and shake\<close>

text \<open>The base camera does not look at the mode: it pulls the cinematic camera to the player.\<close>

lemma follow_ignores_mode:
  "cw_camera (camera_follow_player L player (w\<lparr>cw_mode := m\<rparr>)) = cw_camera (camera_follow_player L player w)"
  by (simp add: camera_follow_player_def split: option.split)

lemma focus_ends:
  "cm_mode (cw_mode w) = CM_FocusTarget \<Longrightarrow> f32_le (f32_sub (cm_focus_remaining (cw_mode w)) dt) 0
   \<Longrightarrow> cm_mode (cw_mode (handle_cinematic_mode L dt k w)) = CM_FollowPlayer"
  by (simp add: handle_cinematic_mode_def set_mode_def Let_def split: option.split)

text \<open>A transition to a zoom past the maximum never ends: at the maximum a frame changes nothing.\<close>

definition stuck_zoom :: camera_world where
  "stuck_zoom = setup_camera\<lparr>cw_config := camera_config_default\<lparr>cc_zoom := f32_of_int 4\<rparr>,
     cw_zoom := \<lparr> zt_target = f32_of_int 8, zt_speed = f32_of_int 2, zt_active = True \<rparr>\<rparr>"

lemma zoom_never_arrives:
  "((\<lambda>r. Option.bind r (apply_zoom_transition (f32_lit 16 3))) ^^ n) (Some stuck_zoom) = Some stuck_zoom"
proof -
  have "apply_zoom_transition (f32_lit 16 3) stuck_zoom = Some stuck_zoom" by code_simp
  then show ?thesis by (induction n) simp_all
qed

lemma shake_capped: "\<not> f32_less (f32_of_int 20) (sh_intensity (shake_trigger i d s))"
proof -
  have "\<not> f32_less x (f32_min y x)" for x y
    by (auto simp: f32_min_def dest: f32_less_asym) (simp add: f32_less_def split: fval.split)
  then show ?thesis by (simp add: shake_trigger_def)
qed

end
