(* ===== verification/F32_Scale.thy ===== *)
theory F32_Scale
  imports F64
begin

text \<open>
  Scaling by a power of two is exact on the \<open>f32\<close> numbers that stay normal: the rounding of
  \<open>F32\<close> does not depend on how a number is written, and gives back the pattern of a number it can
  represent.
\<close>

section \<open>Rounding\<close>

lemma bit_length_double: "0 < m \<Longrightarrow> bit_length (2 * m) = 1 + bit_length m"
  using bit_length.simps[of "2 * m"] by simp

lemma bit_length_shift: "0 < m \<Longrightarrow> bit_length (m * 2 ^ k) = bit_length m + int k"
proof (induction k)
  case (Suc k)
  have "bit_length (m * 2 ^ Suc k) = bit_length (2 * (m * 2 ^ k))" by (simp add: mult.left_commute)
  also have "\<dots> = 1 + bit_length (m * 2 ^ k)" using Suc.prems by (intro bit_length_double) simp
  finally show ?case using Suc by simp
qed simp

lemma bit_length_eq: "2 ^ n \<le> m \<Longrightarrow> m < 2 ^ Suc n \<Longrightarrow> bit_length m = 1 + int n"
proof (induction n arbitrary: m)
  case 0
  then have "m = 1" by simp
  then show ?case using bit_length.simps[of 1] bit_length.simps[of 0] by simp
next
  case (Suc n)
  have "2 ^ n \<le> m div 2" "m div 2 < 2 ^ Suc n" using Suc.prems by simp_all
  then have "bit_length (m div 2) = 1 + int n" by (rule Suc.IH)
  moreover have "0 < m" using Suc.prems(1) by (smt (verit) zero_less_power)
  ultimately show ?case using bit_length.simps[of m] by simp
qed

lemma round_even_exact: "round_even (a * 2 ^ j) j = a"
  by (simp add: round_even_def Let_def)

lemma round_even_shift: "round_even (m * 2 ^ k) (n + k) = round_even m n"
proof -
  have p: "(2::int) ^ (n + k) = 2 ^ n * 2 ^ k" by (simp add: power_add)
  have q: "m * 2 ^ k div 2 ^ (n + k) = m div 2 ^ n" unfolding p by simp
  have r: "m * 2 ^ k mod 2 ^ (n + k) = m mod 2 ^ n * 2 ^ k" unfolding p by simp
  have "2 ^ n * 2 ^ k < 2 * (m mod 2 ^ n * 2 ^ k) \<longleftrightarrow> 2 ^ n < 2 * (m mod 2 ^ n)"
    using mult_less_cancel_right_pos[of "2 ^ k :: int" "2 ^ n" "2 * (m mod 2 ^ n)"] by (simp add: mult.assoc)
  moreover have "2 * (m mod 2 ^ n * 2 ^ k) = 2 ^ n * 2 ^ k \<longleftrightarrow> 2 * (m mod 2 ^ n) = 2 ^ n"
    using mult_cancel_right[of "2 * (m mod 2 ^ n)" "2 ^ k :: int" "2 ^ n"] by (simp add: mult.assoc)
  ultimately show ?thesis by (simp add: round_even_def Let_def q r p)
qed

lemma shift_mant:
  "(if sh + int k \<le> 0 then m * 2 ^ k * 2 ^ nat (- (sh + int k)) else round_even (m * 2 ^ k) (nat (sh + int k)))
   = (if sh \<le> 0 then m * 2 ^ nat (- sh) else round_even m (nat sh))"
proof -
  consider "sh + int k \<le> 0" | "0 < sh" | "0 < sh + int k" "sh \<le> 0" by linarith
  then show ?thesis
  proof cases
    case 1
    then have "nat (- sh) = k + nat (- (sh + int k))" by simp
    then have "(2::int) ^ nat (- sh) = 2 ^ k * 2 ^ nat (- (sh + int k))" by (simp only: power_add)
    then show ?thesis using 1 by (simp add: mult.assoc)
  next
    case 2
    then have "nat (sh + int k) = nat sh + k" by simp
    then show ?thesis using 2 by (simp add: round_even_shift)
  next
    case 3
    let ?j = "nat (sh + int k)"
    have "k = nat (- sh) + ?j" using 3 by simp
    then have "m * 2 ^ k = m * 2 ^ nat (- sh) * 2 ^ ?j" by (metis mult.assoc power_add)
    then have "round_even (m * 2 ^ k) ?j = m * 2 ^ nat (- sh)" by (simp only: round_even_exact)
    then show ?thesis using 3 by simp
  qed
qed

lemma f32_round_shift:
  assumes "0 < m" shows "f32_round s (m * 2 ^ k) e = f32_round s m (e + int k)"
proof -
  let ?sh = "max (bit_length m - 24) (- 149 - (e + int k))"
  have b: "bit_length (m * 2 ^ k) = bit_length m + int k" by (rule bit_length_shift[OF assms])
  have sh: "max (bit_length m + int k - 24) (- 149 - e) = ?sh + int k" by simp
  have c: "e + (?sh + int k) + 149 = e + int k + ?sh + 149" by simp
  show ?thesis
    unfolding f32_round_def Let_def b sh shift_mant c using assms by simp
qed

section \<open>Normal numbers\<close>

definition f32_normal :: "f32 \<Rightarrow> bool" where
  "f32_normal x = (case f32_val x of FV_Fin s m e \<Rightarrow> 2 ^ 23 \<le> m | _ \<Rightarrow> False)"

lemma val_fields:
  assumes "f32_val x = FV_Fin s m e"
  shows "0 \<le> m \<and> m < 2 ^ 24 \<and> - 149 \<le> e \<and> e \<le> 104
    \<and> (2 ^ 23 \<le> m \<longrightarrow> uint x = sign_bit s + (e + 149) * 2 ^ 23 + m) \<and> (m = 0 \<longrightarrow> uint x = sign_bit s)"
proof -
  define n where "n = uint x"
  define q where "q = n div 2 ^ 23"
  define fr where "fr = n mod 2 ^ 23"
  have n: "0 \<le> n" "n < 2 ^ 32" using uint_bounded[of x] by (simp_all add: n_def)
  have fr: "0 \<le> fr" "fr < 2 ^ 23" by (simp_all add: fr_def)
  have d: "n = q * 2 ^ 23 + fr" by (simp add: q_def fr_def)
  have q: "0 \<le> q" "q < 512" using n d fr by simp_all
  have t: "2 ^ 31 \<le> n \<longleftrightarrow> 256 \<le> q" using d fr by (cases "256 \<le> q") simp_all
  have ex: "q mod 256 = (if 256 \<le> q then q - 256 else q)"
    using q mod_pos_pos_trivial[of "q - 256" 256] mod_add_self2[of "q - 256" 256] by simp
  have v: "f32_val x = (if q mod 256 = 255 then (if fr = 0 then FV_Inf (256 \<le> q) else FV_NaN)
      else if q mod 256 = 0 then FV_Fin (256 \<le> q) fr (- 149) else FV_Fin (256 \<le> q) (fr + 2 ^ 23) (q mod 256 - 150))"
    unfolding f32_val_def Let_def n_def[symmetric] t q_def[symmetric] fr_def[symmetric] by simp
  show ?thesis
    using assms d fr q unfolding v ex n_def[symmetric] by (auto simp: sign_bit_def split: if_splits)
qed

lemma round_normal_bits:
  assumes "2 ^ 23 \<le> m" "m < 2 ^ 24" "- 149 \<le> e" "e \<le> 104"
  shows "f32_round s m e = of_int (sign_bit s + ((e + 149) * 2 ^ 23 + m))"
proof -
  have "bit_length m = 24" using bit_length_eq[of 23 m] assms by simp
  moreover have "(e + 149) * 2 ^ 23 + m < 255 * 2 ^ 23" using assms by simp
  ultimately show ?thesis using assms by (simp add: f32_round_def Let_def)
qed

lemma round_val: "f32_normal x \<Longrightarrow> f32_val x = FV_Fin s m e \<Longrightarrow> f32_round s m e = x"
proof -
  assume n: "f32_normal x" and v: "f32_val x = FV_Fin s m e"
  have m: "2 ^ 23 \<le> m" using n v by (simp add: f32_normal_def)
  note f = val_fields[OF v]
  have "f32_round s m e = of_int (sign_bit s + ((e + 149) * 2 ^ 23 + m))" using f m by (intro round_normal_bits) simp_all
  also have "\<dots> = of_int (uint x)" using f m by (simp add: algebra_simps)
  finally show ?thesis by simp
qed

lemma val_round:
  assumes "2 ^ 23 \<le> m" "m < 2 ^ 24" "- 149 \<le> e" "e \<le> 104"
  shows "f32_val (f32_round s m e) = FV_Fin s m e"
proof -
  let ?b = "sign_bit s + ((e + 149) * 2 ^ 23 + m)"
  have b: "0 \<le> ?b" "?b < 2 ^ 32" using assms by (auto simp: sign_bit_def)
  have "uint (of_int ?b :: f32) = ?b" using b unfolding uint_word_of_int_eq by (intro take_bit_int_eq_self) simp_all
  then have u: "uint (f32_round s m e) = ?b" using round_normal_bits[OF assms, of s] by (simp only:)
  let ?k = "(if s then 256 else 0) + (e + 150)"
  have "?b = (m - 2 ^ 23) + ?k * 2 ^ 23" by (simp add: sign_bit_def)
  moreover have "(m - 2 ^ 23) div 2 ^ 23 = 0" "(m - 2 ^ 23) mod 2 ^ 23 = m - 2 ^ 23"
    using assms(1,2) by (auto intro!: div_pos_pos_trivial mod_pos_pos_trivial simp del: minus_mod_self2)
  ultimately have q: "?b div 2 ^ 23 = ?k" "?b mod 2 ^ 23 = m - 2 ^ 23"
    by (simp_all only: div_mult_self1 mod_mult_self1) simp_all
  have x: "?b div 2 ^ 23 mod 256 = e + 150" unfolding q(1)
    using assms(3,4) mod_pos_pos_trivial[of "e + 150" 256] mod_add_self2[of "e + 150" 256] by (simp add: add.commute)
  have s: "2 ^ 31 \<le> ?b \<longleftrightarrow> s" using assms by (auto simp: sign_bit_def)
  show ?thesis
    unfolding f32_val_def Let_def u x q(2) s using assms by simp
qed

section \<open>Sixteen\<close>

lemma val_sixteen: "f32_val (f32_of_int 16) = FV_Fin False (2 ^ 23) (- 19)"
  by code_simp

lemma normal_scaled_back:
  assumes "f32_normal x" and "f32_val x = FV_Fin s m e" and "e \<le> 100"
  shows "f32_div (f32_mul x (f32_of_int 16)) (f32_of_int 16) = x"
proof -
  have m: "2 ^ 23 \<le> m" using assms(1,2) by (simp add: f32_normal_def)
  note f = val_fields[OF assms(2)]
  have "f32_mul x (f32_of_int 16) = f32_round s (m * 2 ^ 23) (e - 19)"
    by (simp add: f32_mul_def assms(2) val_sixteen del: power_numeral)
  also have "\<dots> = f32_round s m (e + 4)" using f32_round_shift[of m s 23 "e - 19"] m by (simp add: add.commute)
  finally have y: "f32_val (f32_mul x (f32_of_int 16)) = FV_Fin s m (e + 4)"
    using val_round[of m "e + 4" s] f m assms(3) by simp
  have "f32_div (f32_mul x (f32_of_int 16)) (f32_of_int 16) = f32_round s (m * 2 ^ 42) (e - 42)"
    using m by (simp add: f32_div_def y val_sixteen Let_def mult.commute)
  also have "\<dots> = f32_round s m e" using f32_round_shift[of m s 42 "e - 42"] m by simp
  finally show ?thesis using round_val[OF assms(1,2)] by simp
qed

lemma zero_scaled_back:
  assumes "f32_val x = FV_Fin s 0 e"
  shows "f32_div (f32_mul x (f32_of_int 16)) (f32_of_int 16) = x"
proof -
  have x: "x = of_int (sign_bit s)" using val_fields[OF assms] by (metis word_of_int_uint)
  have z: "f32_val (of_int (sign_bit s)) = FV_Fin s 0 (- 149)" using assms x by (auto simp: f32_val_def Let_def split: if_splits)
  have y: "f32_mul x (f32_of_int 16) = of_int (sign_bit s)" by (simp add: f32_mul_def assms val_sixteen f32_round_def)
  show ?thesis unfolding y using x by (simp add: f32_div_def z val_sixteen f32_round_def Let_def)
qed

end
