(* ===== verification/Client_World.thy ===== *)
theory Client_World
  imports Client_Ui Client_Particles Client_Camera Terrain F32_Scale
begin

text \<open>
  The world as the game client holds it: the network state and the positions of the server
  (\<open>crates/game-client/src/network.rs\<close>), the entities of the server as sprites (\<open>renderer.rs\<close>), and the
  chunks of terrain around the camera (\<open>terrain_render.rs\<close>). Entities of Bevy are lists; the commands of a
  system are applied after it. \<open>None\<close> is a panic.
\<close>

section \<open>Network state\<close>

record network_config =
  nc_rpc_url :: string

definition network_config_default :: network_config where
  "network_config_default = \<lparr> nc_rpc_url = ''ws://127.0.0.1:9545'' \<rparr>"

text \<open>What \<open>main\<close> makes of the variable \<open>VELOCHAIN_RPC_URL\<close>.\<close>

definition client_rpc_url :: "string option \<Rightarrow> string" where
  "client_rpc_url env = (case env of Some url \<Rightarrow> url | None \<Rightarrow> ''ws://127.0.0.1:9545'')"

datatype client_action =
  CLA_Move f32 f32 f32 | CLA_Attack u64 | CLA_Chat string | CLA_Pickup u64 | CLA_Respawn

record server_chat_message =
  scm_sender :: string
  scm_text :: string
  scm_tick :: u64

record entity_update =
  eu_entity_id :: u64
  eu_entity_type :: string
  eu_position :: point3
  eu_health :: f32
  eu_max_health :: f32
  eu_is_alive :: bool

record client_net =
  cn_connected :: bool
  cn_server_tick :: u64
  cn_pending_actions :: "client_action list"
  cn_entity_updates :: "entity_update list"
  cn_chat_messages :: "server_chat_message list"

definition client_net_default :: client_net where
  "client_net_default =
     \<lparr> cn_connected = False, cn_server_tick = 0, cn_pending_actions = [], cn_entity_updates = [], cn_chat_messages = [] \<rparr>"

definition queue_action :: "client_action \<Rightarrow> client_net \<Rightarrow> client_net" where
  "queue_action a n = n\<lparr>cn_pending_actions := cn_pending_actions n @ [a]\<rparr>"

definition queue_move_action :: "f32 \<Rightarrow> f32 \<Rightarrow> f32 \<Rightarrow> client_net \<Rightarrow> client_net" where
  "queue_move_action x y z = queue_action (CLA_Move x y z)"

definition queue_attack_action :: "u64 \<Rightarrow> client_net \<Rightarrow> client_net" where
  "queue_attack_action target = queue_action (CLA_Attack target)"

definition queue_chat_action :: "string \<Rightarrow> client_net \<Rightarrow> client_net" where
  "queue_chat_action message = queue_action (CLA_Chat message)"

definition process_server_updates :: "client_net \<times> chat_log \<Rightarrow> client_net \<times> chat_log" where
  "process_server_updates s =
     ((fst s)\<lparr>cn_chat_messages := []\<rparr>,
      fold (\<lambda>m. chat_push (scm_sender m) (scm_text m)) (cn_chat_messages (fst s)) (snd s))"

definition TILE_PIXEL_SIZE :: f32 where
  "TILE_PIXEL_SIZE = f32_of_int 16"

definition server_to_client_pos :: "point3 \<Rightarrow> point3" where
  "server_to_client_pos p =
     (f32_mul (fst p) TILE_PIXEL_SIZE, f32_mul (fst (snd p)) TILE_PIXEL_SIZE, f32_of_int 1)"

definition client_to_server_pos :: "point3 \<Rightarrow> point3" where
  "client_to_server_pos p = (f32_div (fst p) TILE_PIXEL_SIZE, f32_div (fst (snd p)) TILE_PIXEL_SIZE, 0)"

section \<open>Entities\<close>

record game_entity =
  ent_server_id :: u64
  ent_entity_type :: string
  ent_health :: f32
  ent_max_health :: f32
  ent_is_alive :: bool

record ground_item_marker =
  gm_item_id :: u32
  gm_quantity :: u32
  gm_drop_id :: u64

definition npc_color :: "string \<Rightarrow> color" where
  "npc_color t =
     (if t = ''merchant'' then srgb (lit1 9) (lit1 7) (lit1 2)
      else if t = ''guard'' then srgb (lit1 5) (lit1 5) (lit1 7)
      else if t = ''wolf'' then srgb (lit1 5) (lit1 4) (lit1 3)
      else if t = ''rabbit'' then srgb (lit1 8) (f32_lit 75 2) (f32_lit 65 2)
      else if t = ''dragon'' then srgb (lit1 8) (lit1 1) (lit1 1)
      else if t = ''skeleton'' then srgb (f32_lit 85 2) (f32_lit 85 2) (lit1 8)
      else srgb (lit1 6) (lit1 6) (lit1 6))"

definition npc_size :: "string \<Rightarrow> vec2" where
  "npc_size t =
     (let b = f32_mul TILE_PIXEL_SIZE in
      if t = ''dragon'' then (b (lit1 15), b (lit1 15))
      else if t = ''rabbit'' then (b (lit1 4), b (lit1 4))
      else if t = ''wolf'' then (b (lit1 7), b (lit1 5))
      else (b (lit1 7), b (lit1 7)))"

definition tile_square :: "int \<Rightarrow> vec2 option" where
  "tile_square k = Some (f32_mul TILE_PIXEL_SIZE (lit1 k), f32_mul TILE_PIXEL_SIZE (lit1 k))"

definition player_entity :: "u64 \<Rightarrow> string \<Rightarrow> game_entity" where
  "player_entity server_id address =
     \<lparr> ent_server_id = server_id, ent_entity_type = ''player:'' @ address, ent_health = f32_of_int 100,
       ent_max_health = f32_of_int 100, ent_is_alive = True \<rparr>"

definition spawn_local_player :: "point3 \<Rightarrow> u64 \<Rightarrow> string \<Rightarrow> sprite \<times> point3 \<times> game_entity" where
  "spawn_local_player position server_id address =
     (\<lparr> sp_color = srgb (lit1 2) (lit1 6) (f32_of_int 1), sp_custom_size = tile_square 8 \<rparr>, position,
      player_entity server_id address)"

definition spawn_remote_player :: "point3 \<Rightarrow> u64 \<Rightarrow> string \<Rightarrow> sprite \<times> point3 \<times> game_entity" where
  "spawn_remote_player position server_id address =
     (\<lparr> sp_color = srgb (lit1 3) (lit1 8) (lit1 3), sp_custom_size = tile_square 7 \<rparr>, position,
      player_entity server_id address)"

definition spawn_npc_sprite :: "point3 \<Rightarrow> u64 \<Rightarrow> string \<Rightarrow> f32 \<Rightarrow> f32 \<Rightarrow> sprite \<times> point3 \<times> game_entity \<times> string" where
  "spawn_npc_sprite position server_id npc_type health max_health =
     (\<lparr> sp_color = npc_color npc_type, sp_custom_size = Some (npc_size npc_type) \<rparr>, position,
      \<lparr> ent_server_id = server_id, ent_entity_type = ''npc:'' @ npc_type, ent_health = health,
        ent_max_health = max_health, ent_is_alive = True \<rparr>, npc_type)"

definition spawn_ground_item :: "point3 \<Rightarrow> u32 \<Rightarrow> u32 \<Rightarrow> u64 \<Rightarrow> sprite \<times> point3 \<times> ground_item_marker" where
  "spawn_ground_item position item_id quantity drop_id =
     (\<lparr> sp_color = srgb (f32_of_int 1) (f32_lit 85 2) 0, sp_custom_size = tile_square 4 \<rparr>, position,
      \<lparr> gm_item_id = item_id, gm_quantity = quantity, gm_drop_id = drop_id \<rparr>)"

text \<open>Only the position of the local player's sprite moves; \<open>None\<close> when there is not exactly one.\<close>

definition player_movement :: "vec_ops \<Rightarrow> f32 \<Rightarrow> (camera_key \<Rightarrow> bool) \<Rightarrow> point3 option \<Rightarrow> point3 option" where
  "player_movement G dt pressed player =
     (let one = f32_of_int 1;
          dy = key_step (pressed CK_S \<or> pressed CK_Down) (f32_neg one) (key_step (pressed CK_W \<or> pressed CK_Up) one 0);
          dx = key_step (pressed CK_D \<or> pressed CK_Right) one (key_step (pressed CK_A \<or> pressed CK_Left) (f32_neg one) 0);
          movement = vo_mul G (vo_normalize G (dx, dy)) (f32_mul (f32_of_int 100) dt)
      in if vec2_eq (dx, dy) (0, 0) then player
         else map_option (\<lambda>p. (f32_add (fst p) (fst movement), f32_add (fst (snd p)) (snd movement), snd (snd p))) player)"

definition update_entity_sprite :: "game_entity \<times> sprite \<Rightarrow> game_entity \<times> sprite" where
  "update_entity_sprite e =
     (if \<not> ent_is_alive (fst e) then (fst e, (snd e)\<lparr>sp_color := (lit1 3, lit1 3, lit1 3, lit1 5)\<rparr>) else e)"

definition update_entity_sprites :: "(game_entity \<times> sprite) list \<Rightarrow> (game_entity \<times> sprite) list" where
  "update_entity_sprites = map update_entity_sprite"

definition animate_ground_items :: "(f32 \<Rightarrow> f32) \<Rightarrow> f32 \<Rightarrow> point3 list \<Rightarrow> point3 list" where
  "animate_ground_items sine now ps =
     (let bob = f32_mul (sine (f32_mul now (f32_of_int 2))) (f32_of_int 2)
      in map (\<lambda>p. (fst p, fst (snd p), f32_add (f32_of_int 1) bob)) ps)"

section \<open>Terrain around the camera\<close>

record terrain_render_config =
  rc_seed :: u64
  rc_render_distance :: i32

definition terrain_render_config_default :: terrain_render_config where
  "terrain_render_config_default = \<lparr> rc_seed = 12345, rc_render_distance = 3 \<rparr>"

record terrain_state =
  te_loaded_chunks :: "(i32 \<times> i32) list"
  te_last_camera_chunk :: "i32 \<times> i32"

definition terrain_state_default :: terrain_state where
  "terrain_state_default = \<lparr> te_loaded_chunks = [], te_last_camera_chunk = (0, 0) \<rparr>"

record tile_entity =
  tn_color :: color
  tn_position :: point3
  tn_chunk :: "i32 \<times> i32"

fun tile_color :: "tile_type \<Rightarrow> color" where
  "tile_color TT_DeepWater = srgb (f32_lit 5 2) (f32_lit 15 2) (lit1 5)"
| "tile_color TT_ShallowWater = srgb (f32_lit 15 2) (f32_lit 35 2) (f32_lit 65 2)"
| "tile_color TT_Sand = srgb (f32_lit 85 2) (lit1 8) (f32_lit 55 2)"
| "tile_color TT_Grass = srgb (f32_lit 25 2) (f32_lit 65 2) (lit1 2)"
| "tile_color TT_Forest = srgb (lit1 1) (f32_lit 45 2) (lit1 1)"
| "tile_color TT_DenseForest = srgb (f32_lit 5 2) (lit1 3) (f32_lit 5 2)"
| "tile_color TT_Hills = srgb (lit1 5) (f32_lit 55 2) (f32_lit 35 2)"
| "tile_color TT_Mountain = srgb (f32_lit 45 2) (lit1 4) (f32_lit 35 2)"
| "tile_color TT_Snow = srgb (lit1 9) (f32_lit 92 2) (f32_lit 95 2)"
| "tile_color TT_Swamp = srgb (f32_lit 25 2) (f32_lit 35 2) (f32_lit 15 2)"
| "tile_color TT_Desert = srgb (lit1 9) (f32_lit 75 2) (lit1 4)"
| "tile_color TT_Village = srgb (lit1 7) (f32_lit 55 2) (f32_lit 35 2)"

fun biome_name :: "biome \<Rightarrow> string" where
  "biome_name BI_Ocean = ''Ocean''"
| "biome_name BI_Beach = ''Beach''"
| "biome_name BI_Plains = ''Plains''"
| "biome_name BI_Forest = ''Forest''"
| "biome_name BI_Mountains = ''Mountains''"
| "biome_name BI_Desert = ''Desert''"
| "biome_name BI_Swamp = ''Swamp''"
| "biome_name BI_Tundra = ''Tundra''"

definition tile_world_coord :: "i32 \<Rightarrow> nat \<Rightarrow> f32" where
  "tile_world_coord c t = f32_mul (f32_of_int (sint (c * ucast CHUNK_SIZE + of_nat t))) TILE_PIXEL_SIZE"

definition spawn_chunk :: "externs \<Rightarrow> u64 \<Rightarrow> i32 \<times> i32 \<Rightarrow> tile_entity list option" where
  "spawn_chunk X seed c =
     (let chunk = generate_chunk X seed (fst c) (snd c) in
      those (map (\<lambda>(tx, ty). map_option
        (\<lambda>tile. \<lparr> tn_color = tile_color tile, tn_position = (tile_world_coord (fst c) tx, tile_world_coord (snd c) ty, 0),
                   tn_chunk = c \<rparr>)
        (chunk_get_tile chunk (of_nat tx) (of_nat ty))) chunk_cells))"

definition spawn_chunks :: "externs \<Rightarrow> u64 \<Rightarrow> (i32 \<times> i32) list \<Rightarrow> tile_entity list option" where
  "spawn_chunks X seed cs = map_option concat (those (map (spawn_chunk X seed) cs))"

text \<open>The range \<open>a..=b\<close>, and the two nested loops over it.\<close>

definition i32_range :: "i32 \<Rightarrow> i32 \<Rightarrow> i32 list" where
  "i32_range a b = map of_int [sint a..sint b]"

definition chunk_grid :: "i32 list \<Rightarrow> i32 list \<Rightarrow> (i32 \<times> i32) list" where
  "chunk_grid xs ys = concat (map (\<lambda>y. map (\<lambda>x. (x, y)) xs) ys)"

definition init_terrain :: "externs \<Rightarrow> terrain_render_config \<Rightarrow> terrain_state \<Rightarrow> (terrain_state \<times> tile_entity list) option" where
  "init_terrain X cfg s =
     (let rd = rc_render_distance cfg; cs = chunk_grid (i32_range (- rd) rd) (i32_range (- rd) rd)
      in map_option (Pair (s\<lparr>te_loaded_chunks := te_loaded_chunks s @ cs\<rparr>)) (spawn_chunks X (rc_seed cfg) cs))"

definition camera_chunk :: "f32 \<Rightarrow> i32" where
  "camera_chunk x = f32_to_i32 (f32_floor (f32_div x (f32_mul (f32_of_int (uint CHUNK_SIZE)) TILE_PIXEL_SIZE)))"

definition chunk_window :: "i32 \<Rightarrow> i32 \<times> i32 \<Rightarrow> (i32 \<times> i32) list" where
  "chunk_window rd c = chunk_grid (i32_range (fst c - rd) (fst c + rd)) (i32_range (snd c - rd) (snd c + rd))"

definition update_visible_chunks ::
  "externs \<Rightarrow> terrain_render_config \<Rightarrow> vec2 option \<Rightarrow> terrain_state \<times> tile_entity list
    \<Rightarrow> (terrain_state \<times> tile_entity list) option" where
  "update_visible_chunks X cfg cam w =
     (let s = fst w in
      case cam of
        None \<Rightarrow> Some w
      | Some p \<Rightarrow>
          let c = (camera_chunk (fst p), camera_chunk (snd p)) in
          if c = te_last_camera_chunk s then Some w
          else let desired = chunk_window (rc_render_distance cfg) c;
                   to_remove = filter (\<lambda>d. d \<notin> set desired) (te_loaded_chunks s);
                   kept = filter (\<lambda>e. tn_chunk e \<notin> set to_remove) (snd w)
               in map_option (\<lambda>new. (\<lparr> te_loaded_chunks = desired, te_last_camera_chunk = c \<rparr>, kept @ new))
                    (spawn_chunks X (rc_seed cfg) (filter (\<lambda>d. d \<notin> set (te_loaded_chunks s)) desired)))"

fun run_terrain ::
  "externs \<Rightarrow> terrain_render_config \<Rightarrow> vec2 option list \<Rightarrow> terrain_state \<times> tile_entity list
    \<Rightarrow> (terrain_state \<times> tile_entity list) option" where
  "run_terrain X cfg [] w = Some w"
| "run_terrain X cfg (cam # cams) w = Option.bind (update_visible_chunks X cfg cam w) (run_terrain X cfg cams)"

section \<open>What the screen shows\<close>

lemma those_total: "(\<And>x. x \<in> set xs \<Longrightarrow> f x = Some (g x)) \<Longrightarrow> those (map f xs) = Some (map g xs)"
  by (induction xs) simp_all

lemma get_cell:
  assumes "(tx, ty) \<in> set chunk_cells"
  shows "chunk_get_tile (generate_chunk X seed cx cy) (of_nat tx) (of_nat ty) \<noteq> None"
proof -
  have "tx < 16" "ty < 16" using assms by (auto simp: chunk_cells_rows)
  then have b: "(of_nat tx :: u32) < 16" "(of_nat ty :: u32) < 16"
    by (simp_all add: word_less_nat_alt unat_of_nat)
  have "length (tc_tiles (generate_chunk X seed cx cy)) = length chunk_cells" by (simp add: generate_chunk_def Let_def)
  then show ?thesis using chunk_index_cell(1)[OF b] by (simp add: chunk_get_tile_def checked_nth_def)
qed

lemma spawn_total: "\<exists>es. spawn_chunk X seed c = Some es \<and> (\<forall>e \<in> set es. tn_chunk e = c)"
proof -
  let ?t = "\<lambda>p. the (chunk_get_tile (generate_chunk X seed (fst c) (snd c)) (of_nat (fst p)) (of_nat (snd p)))"
  let ?g = "\<lambda>p. \<lparr> tn_color = tile_color (?t p),
      tn_position = (tile_world_coord (fst c) (fst p), tile_world_coord (snd c) (snd p), 0), tn_chunk = c \<rparr>"
  have "spawn_chunk X seed c = Some (map ?g chunk_cells)"
    unfolding spawn_chunk_def Let_def by (rule those_total) (use get_cell in fastforce)
  then show ?thesis by simp
qed

definition chunk_tiles :: "externs \<Rightarrow> u64 \<Rightarrow> i32 \<times> i32 \<Rightarrow> tile_entity list" where
  "chunk_tiles X seed c = the (spawn_chunk X seed c)"

lemma spawn_tiles: "spawn_chunk X seed c = Some (chunk_tiles X seed c)" "e \<in> set (chunk_tiles X seed c) \<Longrightarrow> tn_chunk e = c"
  using spawn_total[of X seed c] by (auto simp: chunk_tiles_def)

lemma spawn_all_tiles: "spawn_chunks X seed cs = Some (concat (map (chunk_tiles X seed) cs))"
  using those_total[of cs "spawn_chunk X seed" "chunk_tiles X seed"] by (simp add: spawn_chunks_def spawn_tiles(1))

lemma filter_chunk: "filter (\<lambda>e. tn_chunk e = c) (chunk_tiles X seed d) = (if d = c then chunk_tiles X seed d else [])"
  by (auto simp: filter_empty_conv dest: spawn_tiles(2) intro!: filter_True)

lemma filter_chunks:
  "distinct cs \<Longrightarrow> filter (\<lambda>e. tn_chunk e = c) (concat (map (chunk_tiles X seed) cs))
     = (if c \<in> set cs then chunk_tiles X seed c else [])"
  by (induction cs) (auto simp: filter_chunk)

lemma i32_range_distinct: "distinct (i32_range a b)"
proof -
  have "map sint (i32_range a b) = [sint a..sint b]"
    unfolding i32_range_def map_map
  proof (rule map_idI)
    fix i assume "i \<in> set [sint a..sint b]"
    then have "- (2 ^ 31) \<le> i" "i < 2 ^ 31" using sint_greater_eq[of a] sint_less[of b] by simp_all
    then show "(sint \<circ> (of_int :: int \<Rightarrow> i32)) i = i" by (simp add: signed_of_int signed_take_bit_int_eq_self)
  qed
  then show ?thesis by (metis distinct_map distinct_upto)
qed

lemma chunk_grid_distinct: "distinct xs \<Longrightarrow> distinct ys \<Longrightarrow> distinct (chunk_grid xs ys)"
  unfolding chunk_grid_def by (induction ys) (auto simp: distinct_map inj_on_def)

lemma chunk_window_distinct: "distinct (chunk_window rd c)"
  unfolding chunk_window_def by (intro chunk_grid_distinct i32_range_distinct)

text \<open>The tiles of each chunk of the window are there once, and no others.\<close>

definition shows_window :: "externs \<Rightarrow> terrain_render_config \<Rightarrow> terrain_state \<times> tile_entity list \<Rightarrow> bool" where
  "shows_window X cfg w \<longleftrightarrow>
     te_loaded_chunks (fst w) = chunk_window (rc_render_distance cfg) (te_last_camera_chunk (fst w))
     \<and> (\<forall>c. filter (\<lambda>e. tn_chunk e = c) (snd w)
            = (if c \<in> set (te_loaded_chunks (fst w)) then chunk_tiles X (rc_seed cfg) c else []))"

lemma init_shows:
  "\<exists>w. init_terrain X cfg terrain_state_default = Some w \<and> shows_window X cfg w \<and> te_last_camera_chunk (fst w) = (0, 0)"
  using chunk_window_distinct[of "rc_render_distance cfg" "(0, 0)"]
  by (simp add: init_terrain_def terrain_state_default_def spawn_all_tiles shows_window_def chunk_window_def filter_chunks Let_def)

definition next_chunk :: "vec2 option \<Rightarrow> i32 \<times> i32 \<Rightarrow> i32 \<times> i32" where
  "next_chunk cam c = (case cam of None \<Rightarrow> c | Some p \<Rightarrow> (camera_chunk (fst p), camera_chunk (snd p)))"

lemma filter_kept: "filter (\<lambda>e. tn_chunk e = c) (filter (\<lambda>e. tn_chunk e \<notin> S) es)
    = (if c \<in> S then [] else filter (\<lambda>e. tn_chunk e = c) es)"
  by (induction es) auto

lemma update_shows:
  assumes "shows_window X cfg w"
  shows "\<exists>w'. update_visible_chunks X cfg cam w = Some w' \<and> shows_window X cfg w'
    \<and> te_last_camera_chunk (fst w') = next_chunk cam (te_last_camera_chunk (fst w))"
proof (cases "next_chunk cam (te_last_camera_chunk (fst w)) = te_last_camera_chunk (fst w)")
  case True
  then have "update_visible_chunks X cfg cam w = Some w"
    by (auto simp: update_visible_chunks_def next_chunk_def Let_def split: option.splits)
  then show ?thesis using assms True by simp
next
  case False
  then obtain p where cam: "cam = Some p" by (cases cam) (simp_all add: next_chunk_def)
  define c where "c = (camera_chunk (fst p), camera_chunk (snd p))"
  define D where "D = chunk_window (rc_render_distance cfg) c"
  let ?old = "te_loaded_chunks (fst w)"
  let ?kept = "filter (\<lambda>e. tn_chunk e \<notin> set (filter (\<lambda>d. d \<notin> set D) ?old)) (snd w)"
  let ?new = "concat (map (chunk_tiles X (rc_seed cfg)) (filter (\<lambda>d. d \<notin> set ?old) D))"
  have n: "c \<noteq> te_last_camera_chunk (fst w)" using False cam by (simp add: next_chunk_def c_def)
  have u: "update_visible_chunks X cfg cam w = Some (\<lparr> te_loaded_chunks = D, te_last_camera_chunk = c \<rparr>, ?kept @ ?new)"
    using n by (simp add: update_visible_chunks_def cam spawn_all_tiles Let_def c_def[symmetric] D_def[symmetric])
  have f: "filter (\<lambda>e. tn_chunk e = k) (snd w) = (if k \<in> set ?old then chunk_tiles X (rc_seed cfg) k else [])" for k
    using assms unfolding shows_window_def by blast
  have "distinct (filter (\<lambda>d. d \<notin> set ?old) D)" by (simp add: D_def chunk_window_distinct)
  then have "filter (\<lambda>e. tn_chunk e = k) (?kept @ ?new) = (if k \<in> set D then chunk_tiles X (rc_seed cfg) k else [])" for k
    by (simp only: filter_append filter_kept filter_chunks f) simp
  then show ?thesis using u by (simp add: shows_window_def D_def c_def cam next_chunk_def)
qed

lemma run_shows:
  "shows_window X cfg w \<Longrightarrow> \<exists>w'. run_terrain X cfg cams w = Some w' \<and> shows_window X cfg w'
     \<and> te_last_camera_chunk (fst w') = fold next_chunk cams (te_last_camera_chunk (fst w))"
proof (induction cams arbitrary: w)
  case (Cons cam cams)
  obtain v where v: "update_visible_chunks X cfg cam w = Some v" "shows_window X cfg v"
    "te_last_camera_chunk (fst v) = next_chunk cam (te_last_camera_chunk (fst w))"
    using update_shows[OF Cons.prems] by blast
  then show ?case using Cons.IH[OF v(2)] by simp
qed simp

text \<open>C30. However the camera moves, no frame panics and the terrain on the screen is the chunks around where
  the camera was last: all tiles of each of these chunks once, and no tile of another chunk.\<close>

theorem terrain_on_screen:
  "\<exists>s es. Option.bind (init_terrain X cfg terrain_state_default) (run_terrain X cfg cams) = Some (s, es)
     \<and> te_loaded_chunks s = chunk_window (rc_render_distance cfg) (fold next_chunk cams (0, 0))
     \<and> (\<forall>c. if c \<in> set (te_loaded_chunks s) then spawn_chunk X (rc_seed cfg) c = Some (filter (\<lambda>e. tn_chunk e = c) es)
             else filter (\<lambda>e. tn_chunk e = c) es = [])"
proof -
  obtain w where w: "init_terrain X cfg terrain_state_default = Some w" "shows_window X cfg w"
    "te_last_camera_chunk (fst w) = (0, 0)"
    using init_shows by blast
  obtain s es where r: "run_terrain X cfg cams w = Some (s, es)" "shows_window X cfg (s, es)"
    "te_last_camera_chunk s = fold next_chunk cams (0, 0)"
    using run_shows[OF w(2)] w(3) by fastforce
  show ?thesis using w(1) r by (intro exI[of _ s] exI[of _ es]) (simp add: shows_window_def spawn_tiles(1))
qed

section \<open>Positions\<close>

definition scalable :: "f32 \<Rightarrow> bool" where
  "scalable x = (case f32_val x of FV_Fin s m e \<Rightarrow> m = 0 \<or> (2 ^ 23 \<le> m \<and> e \<le> 100) | _ \<Rightarrow> False)"

lemma scaled_back: "scalable x \<Longrightarrow> f32_div (f32_mul x TILE_PIXEL_SIZE) TILE_PIXEL_SIZE = x"
  using zero_scaled_back[of x] normal_scaled_back[of x]
  by (auto simp: scalable_def TILE_PIXEL_SIZE_def f32_normal_def split: fval.splits)

text \<open>A position of the server goes to the client and back without rounding, in the plane: zero and the
  normal numbers below $2^{124}$ return bit for bit; the height is lost.\<close>

theorem position_roundtrip:
  assumes "scalable (fst p)" and "scalable (fst (snd p))"
  shows "client_to_server_pos (server_to_client_pos p) = (fst p, fst (snd p), 0)"
  using assms by (simp add: client_to_server_pos_def server_to_client_pos_def scaled_back)

theorem position_roundtrip_witness:
  "client_to_server_pos (server_to_client_pos (f32_lit 1 1, f32_of_int (- 20), f32_of_int 5)) = (f32_lit 1 1, f32_of_int (- 20), 0)"
proof -
  have "scalable (f32_lit 1 1)" "scalable (f32_of_int (- 20))" by code_simp+
  then show ?thesis
    using position_roundtrip[of "(f32_lit 1 1, f32_of_int (- 20), f32_of_int 5)"] by simp
qed

section \<open>Chat, actions and sprites\<close>

text \<open>The chat of the server reaches the log and not the screen, and no system takes the pending actions.\<close>

lemma server_chat_never_shown:
  "update_chat_display (snd (process_server_updates (n, fold (\<lambda>(s, t). chat_push s t) ms chat_log_default))) = []"
proof -
  have f: "fold (\<lambda>m. chat_push (scm_sender m) (scm_text m)) rs log
      = fold (\<lambda>(s, t). chat_push s t) (map (\<lambda>m. (scm_sender m, scm_text m)) rs) log" for rs log
    by (simp add: fold_map comp_def)
  show ?thesis
    using chat_never_shown[of "ms @ map (\<lambda>m. (scm_sender m, scm_text m)) (cn_chat_messages n)"]
    by (simp add: process_server_updates_def f)
qed

lemma actions_stay: "cn_pending_actions (fst (process_server_updates s)) = cn_pending_actions (fst s)"
  by (simp add: process_server_updates_def)

text \<open>A dead entity is drawn grey and stays grey when it is alive again.\<close>

lemma revived_stays_grey:
  "\<not> ent_is_alive e \<Longrightarrow> ent_is_alive e' \<Longrightarrow>
     sp_color (snd (update_entity_sprite (e', snd (update_entity_sprite (e, s))))) = (lit1 3, lit1 3, lit1 3, lit1 5)"
  by (simp add: update_entity_sprite_def)

end
