(* ===== verification/Spec2Isabelle.thy ===== *)
theory Spec2Isabelle
  imports Validator_Manager Genesis Sync_Engine Peer_Manager Trading Crafting Quests Node_Main Pruning Chain_Cache Skills Shops Sessions Eth_Api Game_Api Terrain Combat Shutdown Node_Config Net_Service Subscriptions Rpc_Server Client_Sound Client_World
begin

text \<open>
  VeloChain: a proof-of-authority blockchain whose blocks drive a multiplayer game world. This
  library models the node of \<open>crates/\<close> and proves what its components promise.

  \<^bold>\<open>How the program hangs together.\<close> Transactions enter the pool (\<open>txpool\<close>); the block producer
  (\<open>node/src/block_producer.rs\<close>) takes the best of them, has the consensus engine
  (\<open>consensus/src/poa.rs\<close>) prepare and seal a header, and gives the block to the chain
  (\<open>node/src/chain.rs\<close>). \<open>apply_block\<close> checks the seal, runs the EVM transactions on the account
  state (\<open>evm\<close>, \<open>state\<close>) and one tick of the game world with the game actions
  (\<open>game-engine\<close>), writes everything to the database (\<open>storage\<close>) and removes the transactions from
  the pool. Peers are kept by the peer manager and blocks from them by the sync engine
  (\<open>network\<close>); the event handler of the run command buffers blocks that arrive out of order. Clients
  talk to the JSON-RPC interfaces (\<open>rpc\<close>), which share the database, the account state, the pool and
  the game world with the chain. Trading, crafting, quests, skills, items, shops, terrain and combat
  are components of the game that the node does not call yet.

  \<^bold>\<open>Theories and sources.\<close>
  \<^item> \<open>Velo_Prelude\<close>: machine integers, \<open>HashMap\<close> and \<open>BTreeMap\<close> as association lists, bytes, and
    the locales \<open>op_machine\<close> and \<open>mono_machine\<close>, which lift what one operation keeps to all runs.
  \<^item> \<open>Primitives\<close>: accounts, transactions, blocks, header encoding, signatures, key stores
    (\<open>primitives\<close>); its record \<open>externs\<close> holds Keccak, k256, hex, JSON and RLP primitives.
  \<^item> \<open>F32\<close>, \<open>F64\<close>: IEEE 754 arithmetic on bit patterns, as the game engine uses it.
  \<^item> \<open>Storage\<close>, \<open>Pruning\<close>, \<open>Chain_Cache\<close>: the database and its batches over a RocksDB
    parameter, the pruning engine, the bounded cache (\<open>storage\<close>).
  \<^item> \<open>World_State\<close>, \<open>Evm_Executor\<close>: accounts with their cache and dirty set, and the adapter to
    revm, which is a parameter (\<open>state\<close>, \<open>evm\<close>).
  \<^item> \<open>Tx_Pool\<close>: the pool with its two indexes (\<open>txpool\<close>).
  \<^item> \<open>Consensus_Interface\<close>, \<open>Proposer_Schedule\<close>, \<open>Poa\<close>, \<open>Validator_Manager\<close>: the engine trait
    as a locale, round-robin schedules as a locale, the PoA engine and governance (\<open>consensus\<close>).
  \<^item> \<open>Chain\<close>, \<open>Block_Execution\<close>, \<open>Block_Producer\<close>, \<open>Reorg\<close>, \<open>Snapshot\<close>, \<open>Shutdown\<close>, \<open>Node_Config\<close>: the
    node (\<open>node\<close>); \<open>Shutdown\<close> is a step relation in which the calls of different tasks interleave.
  \<^item> \<open>Genesis\<close>, \<open>Net_Handler\<close>, \<open>Node_Main\<close>: the genesis configuration
    (\<open>primitives/src/genesis.rs\<close>), the handler of network events and the commands of the node
    (\<open>node-cli/src/main.rs\<close>).
  \<^item> \<open>Net_Service\<close>: the commands, messages and events of the network service, and the broadcast of the
    block producer (\<open>network/src/service.rs\<close>, \<open>protocol.rs\<close>).
  \<^item> \<open>Rpc_Format\<close>, \<open>Eth_Api\<close>, \<open>Game_Api\<close>, \<open>Sessions\<close>: numbers as text and the parsers of parameters,
    the Ethereum, game and administration interfaces, the player sessions with the order in which
    they take their two locks; \<open>Rpc_Server\<close>, \<open>Subscriptions\<close>: the interfaces that are registered and the
    tasks that forward events (\<open>rpc\<close>).
  \<^item> \<open>Sync_Engine\<close>, \<open>Peer_Manager\<close>: \<open>network/src/sync.rs\<close> and \<open>peer_manager.rs\<close>.
  \<^item> \<open>Ecs\<close>, \<open>Spawns\<close>, \<open>Events\<close>, \<open>Game_World\<close>: entities and systems, NPC archetypes and spawn
    points, events and weather, the world and its tick (\<open>game-engine\<close>).
  \<^item> \<open>Items\<close>, \<open>Crafting\<close>, \<open>Skills\<close>, \<open>Shops\<close>, \<open>Quests\<close>, \<open>Trading\<close>, \<open>Terrain\<close>, \<open>Combat\<close>: the files of the
    same names of \<open>game-engine\<close>.
  \<^item> \<open>Client_Ui\<close>, \<open>Client_Sound\<close>, \<open>Client_Touch\<close>, \<open>Client_Particles\<close>, \<open>Client_Camera\<close>,
    \<open>Client_World\<close> (on \<open>F32_Scale\<close>, exact scaling): the state of the game client and the systems that change it, under the schedule of Bevy (\<open>game-client\<close>).

  \<^bold>\<open>What the lemmas show.\<close> Each component theory has its state as a record, its operations on every
  branch, a well-formedness invariant kept by every operation (interpretations of
  \<open>op_machine\<close>), and its properties. The main ones: an applied block passed consensus, is the head
  and is read back after a restart; nodes that iterate their hash maps in different orders agree on
  the game world; the cached account state refines a plain map of accounts; the pool indexes agree;
  a sealed block was signed by a validator; a change of the validators needs a quorum; a block gives
  one receipt per transaction; blocks broadcast by a producer that reach a follower in any order and
  repeatedly lead to the same chain; a started node continues what init or an earlier run left; an
  imported snapshot restores what was exported; an applied block is what clients are served; a batch writes what direct writes write;
  crafting conserves items; pruning hands out every block once; drop rolls are fair; the terrain
  cache is transparent, and the client shows exactly the chunks around its camera. Several theorems state a flaw of the code, by proving what it does instead:
  one attack on a missing entity stops block production; a restart delays it; blocks without a seal
  are accepted; a lost request for a block is never repeated, nor a refused broadcast; a
  reorganisation keeps the state of the abandoned branch; the state root depends on reads; connecting and disconnecting sessions can
  deadlock; a shutdown can be missed; an action submitted over RPC is nobody's; taps on a touch screen
  depend on the order of two systems that have none.

  \<^bold>\<open>Conventions, bounds and fuel.\<close> Integers are words of their width and wrap, as in the release
  profile; \<open>usize\<close> is \<open>nat\<close>. A panic is \<open>None\<close>. The order of iteration of a \<open>HashMap\<close> is a parameter
  \<open>ord\<close> that permutes (\<open>iter_order\<close>). The loops of the sources are structural recursions on lists,
  bounded walks on a step count taken from the code (\<open>find_common_ancestor\<close>), or functions with
  their termination proof (\<open>prune_loop\<close>, \<open>drain_buffer\<close>, \<open>chunks\<close>,
  \<open>broadcast_retry\<close>); no fuel is invented. Locks are taken for one operation at a time, so operations are atomic steps, except in \<open>Shutdown\<close> and in the lock model of \<open>Sessions\<close>.
  \<open>demo_\<close> definitions are concrete parameters and states that the witnesses evaluate.

  \<^bold>\<open>Not modelled.\<close> The drawing and the layout of the game client, the command line, the libp2p
  swarm, the HTTP server, metrics, logging and the installation of signal handlers are input and
  output around the operations above. Interleavings inside an operation of the pool, the chain or the
  account state are not modelled, nor are the JSON forms of the data.
\<close>

end
